(* ===== verification/Elpis_Prelude.thy ===== *)
theory Elpis_Prelude
  imports Complex_Main "HOL-Library.Char_ord" "HOL-Library.List_Lexorder" "HOL-Library.Sublist"
begin

text \<open>
  Shared vocabulary of the development: the JavaScript and SQLite notions that the modelled
  TypeScript code uses (numbers, strings, arrays, rows of a table, exceptions), the small
  exception-and-state layer in which every stateful operation is written, and the generic
  lemmas the components share.

  Conventions.
  \<^item> A JavaScript number that the code checks with \<open>Number.isFinite\<close> and its kin is a
    \<open>jsnum\<close>; once accepted it is a rational (every double is one; rounding is not modelled).
    Times in milliseconds since the epoch are rationals.
  \<^item> A JavaScript string is a \<open>string\<close>; a code unit is a \<open>char\<close>, so the text functions below
    are exact on code units up to 255.
  \<^item> A table is the list of its rows in insertion order.
\<close>

section \<open>Numbers\<close>

type_synonym time = rat

datatype jsnum = Num rat | NaN | PosInf | NegInf

definition integral :: "rat \<Rightarrow> bool" where
  "integral r \<longleftrightarrow> of_int \<lfloor>r\<rfloor> = r"

fun isFinite :: "jsnum \<Rightarrow> bool" where
  "isFinite (Num r) = True"
| "isFinite _ = False"

fun isInteger :: "jsnum \<Rightarrow> bool" where
  "isInteger (Num r) = integral r"
| "isInteger _ = False"

fun isSafeInteger :: "jsnum \<Rightarrow> bool" where
  "isSafeInteger (Num r) = (integral r \<and> \<bar>r\<bar> \<le> 9007199254740991)"
| "isSafeInteger _ = False"

fun finite_val :: "jsnum \<Rightarrow> rat" where
  "finite_val (Num r) = r"
| "finite_val _ = 0"

lemma integral_of_int [simp]: "integral (of_int k)"
  by (simp add: integral_def)

lemma integral_numeral [simp]: "integral (numeral n)" "integral 0" "integral 1"
  by (simp_all add: integral_def)

section \<open>Strings\<close>

definition code_unit :: "char \<Rightarrow> nat" where
  "code_unit c = of_char c"

definition is_space :: "char \<Rightarrow> bool" where
  "is_space c \<longleftrightarrow> (let n = code_unit c in (9 \<le> n \<and> n \<le> 13) \<or> n = 32 \<or> n = 160)"

definition is_digit :: "char \<Rightarrow> bool" where
  "is_digit c \<longleftrightarrow> (let n = code_unit c in 48 \<le> n \<and> n \<le> 57)"

definition is_lower_az :: "char \<Rightarrow> bool" where
  "is_lower_az c \<longleftrightarrow> (let n = code_unit c in 97 \<le> n \<and> n \<le> 122)"

definition is_upper_az :: "char \<Rightarrow> bool" where
  "is_upper_az c \<longleftrightarrow> (let n = code_unit c in 65 \<le> n \<and> n \<le> 90)"

text \<open>\<open>\p{L}\<close> and \<open>\p{N}\<close> on code units up to 255.\<close>

definition is_letter :: "char \<Rightarrow> bool" where
  "is_letter c \<longleftrightarrow> is_lower_az c \<or> is_upper_az c \<or>
     (let n = code_unit c in n \<in> {170, 181, 186} \<or> (192 \<le> n \<and> n \<noteq> 215 \<and> n \<noteq> 247))"

definition is_number :: "char \<Rightarrow> bool" where
  "is_number c \<longleftrightarrow> is_digit c \<or> code_unit c \<in> {178, 179, 185, 188, 189, 190}"

definition trim :: "string \<Rightarrow> string" where
  "trim s = rev (dropWhile is_space (rev (dropWhile is_space s)))"

text \<open>\<open>String.prototype.toLowerCase\<close> and SQLite's \<open>lower\<close>, which only knows ASCII.\<close>

definition lower_char :: "char \<Rightarrow> char" where
  "lower_char c = (let n = code_unit c in
     if is_upper_az c \<or> (192 \<le> n \<and> n \<le> 222 \<and> n \<noteq> 215) then char_of (n + 32) else c)"

definition toLowerCase :: "string \<Rightarrow> string" where
  "toLowerCase s = map lower_char s"

definition ascii_lower_char :: "char \<Rightarrow> char" where
  "ascii_lower_char c = (if is_upper_az c then char_of (code_unit c + 32) else c)"

definition sql_lower :: "string \<Rightarrow> string" where
  "sql_lower s = map ascii_lower_char s"

fun str_includes :: "string \<Rightarrow> string \<Rightarrow> bool" where
  "str_includes [] p = (p = [])"
| "str_includes (c # cs) p = (prefix p (c # cs) \<or> str_includes cs p)"

text \<open>
  SQLite's \<open>LIKE\<close>: \<open>%\<close> matches any run, \<open>_\<close> one character, the rest is compared without
  regard to ASCII case.
\<close>

fun sql_like :: "string \<Rightarrow> string \<Rightarrow> bool" where
  "sql_like [] s = (s = [])"
| "sql_like (p # ps) s =
     (if p = CHR ''%'' then
        sql_like ps s \<or> (case s of [] \<Rightarrow> False | _ # s' \<Rightarrow> sql_like (p # ps) s')
      else case s of
        [] \<Rightarrow> False
      | c # s' \<Rightarrow> (p = CHR ''_'' \<or> ascii_lower_char p = ascii_lower_char c) \<and> sql_like ps s')"

lemma dropWhile_less_Suc [termination_simp]: "length (dropWhile P xs) < Suc (length xs)"
  by (simp add: le_imp_less_Suc length_dropWhile_le)

text \<open>\<open>s.replace(/\s+/g, '-')\<close> and \<open>s.split(/[sep]+/)\<close>.\<close>

fun collapse_spaces :: "string \<Rightarrow> string" where
  "collapse_spaces [] = []"
| "collapse_spaces (c # cs) =
     (if is_space c then CHR ''-'' # collapse_spaces (dropWhile is_space cs)
      else c # collapse_spaces cs)"

lemma split_runs_decr:
  "dropWhile (\<lambda>c. \<not> sep c) s = x # xs \<Longrightarrow> sep x \<and> length xs < length s"
  by (metis Suc_le_eq dropWhile_eq_Cons_conv length_Cons length_dropWhile_le)

function split_runs :: "(char \<Rightarrow> bool) \<Rightarrow> string \<Rightarrow> string list" where
  "split_runs sep s =
     (case dropWhile (\<lambda>c. \<not> sep c) s of
        [] \<Rightarrow> [s]
      | rest \<Rightarrow> takeWhile (\<lambda>c. \<not> sep c) s # split_runs sep (dropWhile sep rest))"
  by pat_completeness auto
termination
proof (relation "measure (\<lambda>(sep, s). length s)", simp)
  fix sep :: "char \<Rightarrow> bool" and s :: string and x xs
  assume "dropWhile (\<lambda>c. \<not> sep c) s = x # xs"
  from split_runs_decr [OF this]
  show "((sep, dropWhile sep (x # xs)), (sep, s)) \<in> measure (\<lambda>(sep, s). length s)"
    using length_dropWhile_le [of sep xs] by simp
qed

declare split_runs.simps [simp del]

primrec join :: "string \<Rightarrow> string list \<Rightarrow> string" where
  "join sep [] = []"
| "join sep (x # xs) = (if xs = [] then x else x @ sep @ join sep xs)"

text \<open>\<open>Buffer.from(s, 'utf8')\<close> on code units below 256.\<close>

definition utf8_char :: "char \<Rightarrow> nat list" where
  "utf8_char c = (let n = code_unit c in if n < 128 then [n] else [192 + n div 64, 128 + n mod 64])"

definition utf8 :: "string \<Rightarrow> nat list" where
  "utf8 s = concat (map utf8_char s)"

text \<open>The decimal digits of a number in a template literal.\<close>

fun decimal :: "nat \<Rightarrow> string" where
  "decimal n = (if n < 10 then [char_of (48 + n)] else decimal (n div 10) @ [char_of (48 + n mod 10)])"

declare decimal.simps [simp del]

lemma code_unit_char_of: "n < 256 \<Longrightarrow> code_unit (char_of n) = n"
  by (simp add: code_unit_def)

lemma utf8_simps [simp]: "utf8 [] = []" "utf8 (c # s) = utf8_char c @ utf8 s" "utf8 (s @ t) = utf8 s @ utf8 t"
  by (simp_all add: utf8_def)

lemma length_trim: "length (trim s) \<le> length s"
  unfolding trim_def by (metis length_dropWhile_le length_rev order_trans)

lemma trim_eq_Nil: "trim s = [] \<longleftrightarrow> (\<forall>c \<in> set s. is_space c)"
proof
  assume "trim s = []"
  then have "\<forall>c \<in> set (dropWhile is_space s). is_space c"
    by (simp add: trim_def)
  then have "dropWhile is_space s = []"
    by (metis hd_dropWhile list.set_sel(1))
  then show "\<forall>c \<in> set s. is_space c" by simp
next
  assume "\<forall>c \<in> set s. is_space c"
  then show "trim s = []" by (simp add: trim_def dropWhile_eq_Nil_conv [THEN iffD2])
qed

lemma dropWhile_idem [simp]: "dropWhile P (dropWhile P xs) = dropWhile P xs"
  by (induction xs) auto

lemma dropWhile_rev_dropWhile:
  "dropWhile P (rev (dropWhile P (rev (dropWhile P xs)))) = rev (dropWhile P (rev (dropWhile P xs)))"
proof (cases "rev (dropWhile P (rev (dropWhile P xs)))")
  case (Cons y ys)
  let ?d = "dropWhile P xs"
  have "prefix (rev (dropWhile P (rev ?d))) ?d"
    by (metis suffix_dropWhile suffix_to_prefix rev_rev_ident)
  with Cons obtain zs where "?d = y # zs" by (auto simp: prefix_def)
  then have "\<not> P y" by (metis dropWhile_eq_Cons_conv)
  with Cons show ?thesis by simp
next
  case Nil
  then show ?thesis by (simp only: dropWhile.simps)
qed

lemma trim_idem [simp]: "trim (trim s) = trim s"
  by (simp add: trim_def dropWhile_rev_dropWhile)

section \<open>Arrays and sets\<close>

text \<open>\<open>Array.from(new Set(values))\<close>: first occurrences, in order.\<close>

definition uniq :: "'a list \<Rightarrow> 'a list" where
  "uniq xs = rev (remdups (rev xs))"

lemma set_uniq [simp]: "set (uniq xs) = set xs"
  and distinct_uniq [simp]: "distinct (uniq xs)"
  and length_uniq: "length (uniq xs) \<le> length xs"
  by (simp_all add: uniq_def) (metis length_remdups_leq length_rev)

lemma uniq_Nil [simp]: "uniq [] = []"
  by (simp add: uniq_def)

lemma uniq_eq_Nil [simp]: "uniq xs = [] \<longleftrightarrow> xs = []"
  by (simp add: uniq_def)

lemma uniq_distinct: "distinct xs \<Longrightarrow> uniq xs = xs"
  by (simp add: uniq_def distinct_remdups_id)

text \<open>
  Stable insertion sort by a comparison, for \<open>ORDER BY\<close> clauses and for
  \<open>Array.prototype.sort\<close> with a comparator (\<open>le a b\<close> is "the comparator is not positive").
\<close>

fun insert_by :: "('a \<Rightarrow> 'a \<Rightarrow> bool) \<Rightarrow> 'a \<Rightarrow> 'a list \<Rightarrow> 'a list" where
  "insert_by le x [] = [x]"
| "insert_by le x (y # ys) = (if le x y then x # y # ys else y # insert_by le x ys)"

definition sort_by :: "('a \<Rightarrow> 'a \<Rightarrow> bool) \<Rightarrow> 'a list \<Rightarrow> 'a list" where
  "sort_by le xs = foldr (insert_by le) xs []"

lemma set_insert_by [simp]: "set (insert_by le x ys) = insert x (set ys)"
  by (induction ys) auto

lemma length_insert_by [simp]: "length (insert_by le x ys) = Suc (length ys)"
  by (induction ys) auto

lemma sort_by_Nil [simp]: "sort_by le [] = []"
  and sort_by_Cons [simp]: "sort_by le (x # xs) = insert_by le x (sort_by le xs)"
  by (simp_all add: sort_by_def)

lemma set_sort_by [simp]: "set (sort_by le xs) = set xs"
  by (induction xs) auto

lemma length_sort_by [simp]: "length (sort_by le xs) = length xs"
  by (induction xs) auto

lemma distinct_insert_by [simp]: "distinct (insert_by le x ys) \<longleftrightarrow> x \<notin> set ys \<and> distinct ys"
  by (induction ys) auto

lemma distinct_sort_by [simp]: "distinct (sort_by le xs) = distinct xs"
  by (induction xs) auto

lemma distinct_map_insert_by [simp]:
  "distinct (map f (insert_by le x ys)) \<longleftrightarrow> f x \<notin> f ` set ys \<and> distinct (map f ys)"
  by (induction ys) auto

lemma distinct_map_sort_by [simp]: "distinct (map f (sort_by le xs)) = distinct (map f xs)"
  by (induction xs) auto

lemma sorted_insert_by:
  assumes "\<And>a b. le a b \<or> le b a" and "\<And>a b c. le a b \<Longrightarrow> le b c \<Longrightarrow> le a c"
  shows "sorted_wrt le ys \<Longrightarrow> sorted_wrt le (insert_by le x ys)"
proof (induction ys)
  case (Cons y ys)
  then show ?case using assms(1) [of x y] assms(2) by auto
qed simp

lemma sorted_sort_by:
  assumes "\<And>a b. le a b \<or> le b a" and "\<And>a b c. le a b \<Longrightarrow> le b c \<Longrightarrow> le a c"
  shows "sorted_wrt le (sort_by le xs)"
  by (induction xs) (simp_all add: sorted_insert_by [OF assms])

lemma sort_by_sorted: "sorted_wrt le xs \<Longrightarrow> sort_by le xs = xs"
proof (induction xs)
  case (Cons x xs)
  then show ?case by (cases xs) auto
qed simp

lemma sort_by_filter_nil [simp]: "sort_by le xs = [] \<longleftrightarrow> xs = []"
  by (cases xs) (auto dest: arg_cong [of _ _ length])

section \<open>Rows of a table\<close>

definition update_where :: "('r \<Rightarrow> bool) \<Rightarrow> ('r \<Rightarrow> 'r) \<Rightarrow> 'r list \<Rightarrow> 'r list" where
  "update_where p f rows = map (\<lambda>r. if p r then f r else r) rows"

definition delete_where :: "('r \<Rightarrow> bool) \<Rightarrow> 'r list \<Rightarrow> 'r list" where
  "delete_where p rows = filter (\<lambda>r. \<not> p r) rows"

lemma length_update_where [simp]: "length (update_where p f rows) = length rows"
  by (simp add: update_where_def)

lemma update_where_append [simp]:
  "update_where p f (xs @ ys) = update_where p f xs @ update_where p f ys"
  by (simp add: update_where_def)

lemma map_update_where:
  "(\<And>r. g (f r) = g r) \<Longrightarrow> map g (update_where p f rows) = map g rows"
  by (induction rows) (auto simp: update_where_def)

lemma set_update_where:
  "set (update_where p f rows) = f ` {r \<in> set rows. p r} \<union> {r \<in> set rows. \<not> p r}"
  by (auto simp: update_where_def)

lemma set_delete_where [simp]: "set (delete_where p rows) = {r \<in> set rows. \<not> p r}"
  by (auto simp: delete_where_def)

lemma distinct_map_delete_where: "distinct (map f rows) \<Longrightarrow> distinct (map f (delete_where p rows))"
  by (simp add: delete_where_def distinct_map_filter)

lemma find_update_where_key:
  assumes "\<And>r. key (f r) = key r"
  shows "find (\<lambda>r. key r = k) (update_where (\<lambda>r. key r = k') f rows) =
         (if k = k' then map_option f (find (\<lambda>r. key r = k) rows)
          else find (\<lambda>r. key r = k) rows)"
  using assms by (induction rows) (auto simp: update_where_def)

lemma find_update_where:
  "(\<And>r. P (f r) = P r) \<Longrightarrow> find P (update_where p f rows) = map_option (\<lambda>r. if p r then f r else r) (find P rows)"
  by (induction rows) (auto simp: update_where_def)

lemma find_delete_where_key:
  "find (\<lambda>r. key r = k) (delete_where (\<lambda>r. key r = k') rows) =
   (if k = k' then None else find (\<lambda>r. key r = k) rows)"
  by (induction rows) (auto simp: delete_where_def)

lemma find_append: "find p (xs @ ys) = (case find p xs of None \<Rightarrow> find p ys | Some x \<Rightarrow> Some x)"
  by (induction xs) auto

lemma find_SomeD: "find p xs = Some x \<Longrightarrow> x \<in> set xs \<and> p x"
  by (induction xs) (auto split: if_splits)

lemma find_key_in_set:
  assumes "distinct (map key rows)" and "r \<in> set rows"
  shows "find (\<lambda>x. key x = key r) rows = Some r"
  using assms by (induction rows) auto

lemma find_key_iff:
  assumes "distinct (map key rows)"
  shows "find (\<lambda>x. key x = k) rows = Some r \<longleftrightarrow> r \<in> set rows \<and> key r = k"
  using assms find_key_in_set [of key rows r] by (auto dest: find_SomeD)

lemma find_key_None: "find (\<lambda>x. key x = k) rows = None \<longleftrightarrow> k \<notin> key ` set rows"
  by (auto simp: find_None_iff)

lemma filter_key_single:
  assumes "distinct (map key rows)" and "r \<in> set rows"
  shows "filter (\<lambda>x. key x = key r) rows = [r]"
  using assms by (induction rows) (auto simp: filter_empty_conv image_iff)

text \<open>An AUTOINCREMENT table: keys are distinct, positive and below the next rowid.\<close>

definition rowids :: "('r \<Rightarrow> int) \<Rightarrow> int \<Rightarrow> 'r list \<Rightarrow> bool" where
  "rowids key nxt rows \<longleftrightarrow> 0 < nxt \<and> distinct (map key rows) \<and> key ` set rows \<subseteq> {0<..<nxt}"

lemma rowids_append:
  "rowids key nxt rows \<Longrightarrow> key row = nxt \<Longrightarrow> rowids key (nxt + 1) (rows @ [row])"
  by (auto simp: rowids_def)

lemma rowids_update:
  "rowids key nxt rows \<Longrightarrow> (\<And>r. key (f r) = key r) \<Longrightarrow> rowids key nxt (update_where p f rows)"
  by (auto simp: rowids_def map_update_where set_update_where)

section \<open>Results\<close>

text \<open>A computation that may throw, followed by one on its value.\<close>

definition bindR :: "'e + 'a \<Rightarrow> ('a \<Rightarrow> 'e + 'b) \<Rightarrow> 'e + 'b" where
  "bindR r k = (case r of Inl e \<Rightarrow> Inl e | Inr a \<Rightarrow> k a)"

lemma bindR_simps [simp]: "bindR (Inl e) k = Inl e" "bindR (Inr a) k = k a"
  by (simp_all add: bindR_def)

lemma bindR_Inr_iff: "bindR r k = Inr b \<longleftrightarrow> (\<exists>a. r = Inr a \<and> k a = Inr b)"
  by (cases r) auto

lemma bindR_Inl_iff: "bindR r k = Inl e \<longleftrightarrow> r = Inl e \<or> (\<exists>a. r = Inr a \<and> k a = Inl e)"
  by (cases r) auto

text \<open>A loop over records that may throw.\<close>

primrec foldR :: "('r \<Rightarrow> 's \<Rightarrow> 'e + 's) \<Rightarrow> 'r list \<Rightarrow> 's \<Rightarrow> 'e + 's" where
  "foldR f [] s = Inr s"
| "foldR f (r # rs) s = bindR (f r s) (foldR f rs)"

lemma foldR_append: "foldR f (xs @ ys) s = bindR (foldR f xs s) (foldR f ys)"
proof (induction xs arbitrary: s)
  case (Cons x xs)
  then show ?case by (cases "f x s") simp_all
qed simp

section \<open>Exceptions and state\<close>

text \<open>
  An action takes the state and gives back either an error or a value, together with the
  state as it is at that point: a throw does not undo the writes made before it. Only
  \<open>transaction\<close> does that.
\<close>

type_synonym ('e, 's, 'a) action = "'s \<Rightarrow> ('e + 'a) \<times> 's"

definition ok :: "'a \<Rightarrow> ('e, 's, 'a) action" where
  "ok a = (\<lambda>s. (Inr a, s))"

definition throw :: "'e \<Rightarrow> ('e, 's, 'a) action" where
  "throw e = (\<lambda>s. (Inl e, s))"

definition lift :: "'e + 'a \<Rightarrow> ('e, 's, 'a) action" where
  "lift r = (\<lambda>s. (r, s))"

definition modify :: "('s \<Rightarrow> 's) \<Rightarrow> ('e, 's, unit) action" where
  "modify f = (\<lambda>s. (Inr (), f s))"

definition andThen :: "('e, 's, 'a) action \<Rightarrow> ('a \<Rightarrow> ('e, 's, 'b) action) \<Rightarrow> ('e, 's, 'b) action" where
  "andThen m k = (\<lambda>s. case m s of (Inl e, s') \<Rightarrow> (Inl e, s') | (Inr a, s') \<Rightarrow> k a s')"

definition require :: "bool \<Rightarrow> 'e \<Rightarrow> ('e, 's, unit) action" where
  "require b e = (if b then ok () else throw e)"

primrec for_each :: "('x \<Rightarrow> ('e, 's, unit) action) \<Rightarrow> 'x list \<Rightarrow> ('e, 's, unit) action" where
  "for_each f [] = ok ()"
| "for_each f (x # xs) = andThen (f x) (\<lambda>_. for_each f xs)"

definition transaction :: "('e, 's, 'a) action \<Rightarrow> ('e, 's, 'a) action" where
  "transaction m = (\<lambda>s. case m s of (Inl e, _) \<Rightarrow> (Inl e, s) | (Inr a, s') \<Rightarrow> (Inr a, s'))"

definition when_do :: "bool \<Rightarrow> ('e, 's, unit) action \<Rightarrow> ('e, 's, unit) action" where
  "when_do b m = (if b then m else ok ())"

definition reads :: "('s \<Rightarrow> ('e, 's, 'a) action) \<Rightarrow> ('e, 's, 'a) action" where
  "reads f = (\<lambda>s. f s s)"

named_theorems action_simps \<open>evaluation of actions\<close>

lemma action_eval [action_simps]:
  "ok a s = (Inr a, s)"
  "throw e s = (Inl e, s)"
  "lift r s = (r, s)"
  "modify f s = (Inr (), f s)"
  "andThen m k s = (case m s of (Inl e, s') \<Rightarrow> (Inl e, s') | (Inr a, s') \<Rightarrow> k a s')"
  "require b e s = (if b then (Inr (), s) else (Inl e, s))"
  "reads g s = g s s"
  "when_do b w s = (if b then w s else (Inr (), s))"
  "transaction m s = (case m s of (Inl e, _) \<Rightarrow> (Inl e, s) | (Inr a, s') \<Rightarrow> (Inr a, s'))"
  by (simp_all add: ok_def throw_def lift_def modify_def andThen_def require_def reads_def when_do_def
      transaction_def)

text \<open>
  Hoare triples over actions: from a state with \<open>P\<close>, a returned value and the state then
  satisfy \<open>Q\<close>, and a thrown error and the state then satisfy \<open>E\<close>.
\<close>

definition triple :: "('s \<Rightarrow> bool) \<Rightarrow> ('e, 's, 'a) action \<Rightarrow> ('a \<Rightarrow> 's \<Rightarrow> bool) \<Rightarrow> ('e \<Rightarrow> 's \<Rightarrow> bool) \<Rightarrow> bool" where
  "triple P m Q E \<longleftrightarrow>
     (\<forall>s. P s \<longrightarrow> (case m s of (Inl e, s') \<Rightarrow> E e s' | (Inr a, s') \<Rightarrow> Q a s'))"

named_theorems triple_intro \<open>rules for triples\<close>

lemma triple_basic [triple_intro]:
  "(\<And>s. P s \<Longrightarrow> Q a s) \<Longrightarrow> triple P (ok a) Q E"
  "(\<And>s. P s \<Longrightarrow> E e s) \<Longrightarrow> triple P (throw e) Q E"
  "(\<And>s. P s \<Longrightarrow> Q () (f s)) \<Longrightarrow> triple P (modify f) Q E"
  "(\<And>s. P s \<Longrightarrow> c \<Longrightarrow> Q () s) \<Longrightarrow> (\<And>s. P s \<Longrightarrow> \<not> c \<Longrightarrow> E e s) \<Longrightarrow> triple P (require c e) Q E"
  by (auto simp: triple_def action_simps)

lemma triple_andThen:
  assumes m: "triple P m R E" and k: "\<And>a. triple (R a) (k a) Q E"
  shows "triple P (andThen m k) Q E"
  unfolding triple_def
proof (intro allI impI)
  fix s assume "P s"
  with m have post: "case m s of (Inl e, s') \<Rightarrow> E e s' | (Inr a, s') \<Rightarrow> R a s'" by (simp add: triple_def)
  show "case andThen m k s of (Inl e, s') \<Rightarrow> E e s' | (Inr a, s') \<Rightarrow> Q a s'"
  proof (cases "m s")
    case (Pair r s')
    show ?thesis
    proof (cases r)
      case (Inl e)
      then show ?thesis using Pair post by (simp add: action_simps)
    next
      case (Inr a)
      with Pair post have "R a s'" by simp
      with k [of a] show ?thesis using Pair Inr by (simp add: triple_def action_simps)
    qed
  qed
qed

lemma triple_reads: "(\<And>s0. P s0 \<Longrightarrow> triple (\<lambda>s. s = s0) (f s0) Q E) \<Longrightarrow> triple P (reads f) Q E"
  by (auto simp: triple_def action_simps)

lemma triple_reads_any: "(\<And>s0. triple P (f s0) Q E) \<Longrightarrow> triple P (reads f) Q E"
  by (auto simp: triple_def action_simps)

lemma triple_when: "triple P m (\<lambda>_. Q) E \<Longrightarrow> (\<And>s. P s \<Longrightarrow> Q s) \<Longrightarrow> triple P (when_do b m) (\<lambda>_. Q) E"
  by (auto simp: triple_def action_simps)

lemma triple_conseq: "triple P m Q E \<Longrightarrow> (\<And>s. P' s \<Longrightarrow> P s) \<Longrightarrow> (\<And>a s. Q a s \<Longrightarrow> Q' a s) \<Longrightarrow> triple P' m Q' E"
  unfolding triple_def by (simp split: prod.splits sum.splits) blast

lemma triple_for_each: "(\<And>x. x \<in> set xs \<Longrightarrow> triple P (f x) (\<lambda>_. P) E) \<Longrightarrow> triple P (for_each f xs) (\<lambda>_. P) E"
proof (induction xs)
  case Nil
  then show ?case by (simp add: triple_basic)
next
  case (Cons x xs)
  have "triple P (andThen (f x) (\<lambda>_. for_each f xs)) (\<lambda>_. P) E"
    by (rule triple_andThen) (use Cons in auto)
  then show ?case by simp
qed

lemma tripleD: "triple P m Q E \<Longrightarrow> P s \<Longrightarrow> m s = (r, s') \<Longrightarrow> (case r of Inl e \<Rightarrow> E e s' | Inr a \<Rightarrow> Q a s')"
  unfolding triple_def by (auto split: sum.splits prod.splits)

text \<open>An action keeps a predicate: on return and on a throw.\<close>

definition keeps :: "('s \<Rightarrow> bool) \<Rightarrow> ('e, 's, 'a) action \<Rightarrow> bool" where
  "keeps I m \<longleftrightarrow> (\<forall>s. I s \<longrightarrow> I (snd (m s)))"

text \<open>An action that throws leaves the state as it was.\<close>

definition atomic_on_error :: "('e, 's, 'a) action \<Rightarrow> bool" where
  "atomic_on_error m \<longleftrightarrow> (\<forall>s e s'. m s = (Inl e, s') \<longrightarrow> s' = s)"

named_theorems keeps_intro \<open>preservation rules for actions\<close>
named_theorems atomic_intro \<open>atomicity rules for actions\<close>

lemma keepsD: "keeps I m \<Longrightarrow> m s = (r, s') \<Longrightarrow> I s \<Longrightarrow> I s'"
  unfolding keeps_def by (metis snd_conv)

lemma keeps_ok [keeps_intro, simp]: "keeps I (ok a)"
  and keeps_throw [keeps_intro, simp]: "keeps I (throw e)"
  and keeps_lift [keeps_intro, simp]: "keeps I (lift r)"
  and keeps_require [keeps_intro, simp]: "keeps I (require b e)"
  by (simp_all add: keeps_def action_simps)

lemma keeps_modify [keeps_intro]: "(\<And>s. I s \<Longrightarrow> I (f s)) \<Longrightarrow> keeps I (modify f)"
  by (simp add: keeps_def action_simps)

lemma keeps_andThen [keeps_intro]:
  assumes "keeps I m" and "\<And>a. keeps I (k a)"
  shows "keeps I (andThen m k)"
  unfolding keeps_def action_simps
proof (intro allI impI)
  fix s assume s: "I s"
  obtain r s' where m: "m s = (r, s')" by (cases "m s")
  with assms(1) s have s': "I s'" by (blast dest: keepsD)
  show "I (snd (case m s of (Inl e, s') \<Rightarrow> (Inl e, s') | (Inr a, s') \<Rightarrow> k a s'))"
    using m s' assms(2) by (cases r) (auto simp: keeps_def)
qed

lemma keeps_transaction [keeps_intro]: "keeps I m \<Longrightarrow> keeps I (transaction m)"
  by (auto simp: keeps_def action_simps split: prod.splits sum.splits)

lemma keeps_when_do [keeps_intro]: "keeps I m \<Longrightarrow> keeps I (when_do b m)"
  by (simp add: keeps_def action_simps)

lemma keeps_for_each [keeps_intro]: "(\<And>x. keeps I (f x)) \<Longrightarrow> keeps I (for_each f xs)"
  by (induction xs) (auto intro: keeps_intro)

lemma keeps_reads: "(\<And>s0. keeps (\<lambda>s. I s) (f s0)) \<Longrightarrow> keeps I (reads f)"
  by (auto simp: keeps_def action_simps)

lemma atomic_basic [atomic_intro, simp]:
  "atomic_on_error (ok a)" "atomic_on_error (throw e)" "atomic_on_error (lift r)"
  "atomic_on_error (require b e)" "atomic_on_error (modify f)" "atomic_on_error (transaction m)"
  by (auto simp: atomic_on_error_def action_simps split: prod.splits sum.splits if_splits)

text \<open>Checks before the first write: a step that never changes the state may precede.\<close>

definition pure_action :: "('e, 's, 'a) action \<Rightarrow> bool" where
  "pure_action m \<longleftrightarrow> (\<forall>s. snd (m s) = s)"

lemma pure_basic [atomic_intro, simp]:
  "pure_action (ok a)" "pure_action (throw e)" "pure_action (lift r)" "pure_action (require b e)"
  by (simp_all add: pure_action_def action_simps)

lemma atomic_andThen:
  assumes "pure_action m" and "\<And>a. atomic_on_error (k a)"
  shows "atomic_on_error (andThen m k)"
  unfolding atomic_on_error_def action_simps
proof (intro allI impI)
  fix s e s'
  assume run: "(case m s of (Inl e, s') \<Rightarrow> (Inl e, s') | (Inr a, s') \<Rightarrow> k a s') = (Inl e, s')"
  obtain r t where m: "m s = (r, t)" by (cases "m s")
  with assms(1) have t: "t = s" by (auto simp: pure_action_def) (metis snd_conv)
  show "s' = s"
    using run m t assms(2) by (cases r) (auto simp: atomic_on_error_def)
qed

text \<open>Writes that cannot throw may follow.\<close>

definition never_throws :: "('e, 's, 'a) action \<Rightarrow> bool" where
  "never_throws m \<longleftrightarrow> (\<forall>s. \<exists>a s'. m s = (Inr a, s'))"

lemma never_throws_basic [atomic_intro, simp]:
  "never_throws (ok a)" "never_throws (modify f)"
  by (simp_all add: never_throws_def action_simps)

lemma atomic_andThen_safe:
  assumes "atomic_on_error m" and "\<And>a. never_throws (k a)"
  shows "atomic_on_error (andThen m k)"
  unfolding atomic_on_error_def action_simps
proof (intro allI impI)
  fix s e s'
  assume run: "(case m s of (Inl e, s') \<Rightarrow> (Inl e, s') | (Inr a, s') \<Rightarrow> k a s') = (Inl e, s')"
  obtain r t where m: "m s = (r, t)" by (cases "m s")
  show "s' = s"
  proof (cases r)
    case (Inl e')
    with run m have "m s = (Inl e', s')" by simp
    with assms(1) show ?thesis by (simp add: atomic_on_error_def)
  next
    case (Inr a)
    from assms(2) obtain b u where "k a t = (Inr b, u)"
      unfolding never_throws_def by blast
    with run m Inr show ?thesis by simp
  qed
qed

lemma atomic_lift_then [atomic_intro]:
  "(\<And>a. atomic_on_error (k a)) \<Longrightarrow> atomic_on_error (andThen (lift r) k)"
  by (rule atomic_andThen) simp_all

lemma atomic_require_then [atomic_intro]:
  "(\<And>a. atomic_on_error (k a)) \<Longrightarrow> atomic_on_error (andThen (require b e) k)"
  by (rule atomic_andThen) simp_all

section \<open>Actions at a state\<close>

text \<open>The predicate \<open>I\<close> holds of the state in which the action, started in \<open>s\<close>, returns or throws.\<close>

definition safe_at :: "('s \<Rightarrow> bool) \<Rightarrow> ('e, 's, 'a) action \<Rightarrow> 's \<Rightarrow> bool" where
  "safe_at I m s \<longleftrightarrow> I (snd (m s))"

named_theorems safe_intro \<open>rules for safe_at, one per action former\<close>

lemma safe_basic [safe_intro]:
  "I s \<Longrightarrow> safe_at I (ok a) s"
  "I s \<Longrightarrow> safe_at I (throw e) s"
  "I s \<Longrightarrow> safe_at I (lift r) s"
  "I (f s) \<Longrightarrow> safe_at I (modify f) s"
  "safe_at I (g s) s \<Longrightarrow> safe_at I (reads g) s"
  by (simp_all add: safe_at_def action_simps)

lemma safe_transaction [safe_intro]: "I s \<Longrightarrow> safe_at I m s \<Longrightarrow> safe_at I (transaction m) s"
  by (auto simp: safe_at_def action_simps split: prod.splits sum.splits)

lemma safe_lift_then [safe_intro]:
  "I s \<Longrightarrow> (\<And>a. r = Inr a \<Longrightarrow> safe_at I (k a) s) \<Longrightarrow> safe_at I (andThen (lift r) k) s"
  by (cases r) (auto simp: safe_at_def action_simps)

lemma safe_require_then [safe_intro]:
  "I s \<Longrightarrow> (b \<Longrightarrow> safe_at I (k ()) s) \<Longrightarrow> safe_at I (andThen (require b e) k) s"
  by (auto simp: safe_at_def action_simps)

lemma safe_modify_then [safe_intro]: "safe_at I (k ()) (f s) \<Longrightarrow> safe_at I (andThen (modify f) k) s"
  by (auto simp: safe_at_def action_simps)

lemma safe_andThen:
  assumes "safe_at I m s" and "\<And>a s'. m s = (Inr a, s') \<Longrightarrow> I s' \<Longrightarrow> safe_at I (k a) s'"
  shows "safe_at I (andThen m k) s"
  using assms by (cases "m s" rule: prod.exhaust; cases "fst (m s)") (auto simp: safe_at_def action_simps)

lemma atomic_reads [atomic_intro]: "(\<And>s. atomic_on_error (g s)) \<Longrightarrow> atomic_on_error (reads g)"
  by (auto simp: atomic_on_error_def action_simps)

section \<open>Reachability\<close>

text \<open>
  The contract of a stateful component seen from outside: initial states, one step per
  operation, and an invariant that both respect. Every component below interprets it on its
  own step relation.
\<close>

locale step_system =
  fixes init :: "'s \<Rightarrow> bool"
    and step :: "'s \<Rightarrow> 's \<Rightarrow> bool"
    and inv :: "'s \<Rightarrow> bool"
  assumes inv_init: "init s \<Longrightarrow> inv s"
    and inv_step: "inv s \<Longrightarrow> step s t \<Longrightarrow> inv t"
begin

lemma inv_steps: "step\<^sup>*\<^sup>* s t \<Longrightarrow> inv s \<Longrightarrow> inv t"
  by (induction rule: rtranclp_induct) (auto intro: inv_step)

lemma inv_reachable: "init s \<Longrightarrow> step\<^sup>*\<^sup>* s t \<Longrightarrow> inv t"
  by (blast intro: inv_init inv_steps)

end

text \<open>
  A component that keeps a log beside its state: every step leaves both alone or appends one record
  whose replay is exactly what the step did to the state. Then replaying the log rebuilds the state.
\<close>

locale event_log =
  fixes play :: "'r \<Rightarrow> 's \<Rightarrow> 'e + 's"
    and start :: 's
    and good :: "'s \<Rightarrow> bool"
    and log_of :: "'j \<Rightarrow> 'r list"
    and state_of :: "'j \<Rightarrow> 's"
    and step :: "'j \<Rightarrow> 'j \<Rightarrow> bool"
  assumes good_start: "good start"
    and step_good: "step j j' \<Longrightarrow> good (state_of j) \<Longrightarrow> foldR play (log_of j) start = Inr (state_of j) \<Longrightarrow> good (state_of j')"
    and step_logged: "step j j' \<Longrightarrow> good (state_of j) \<Longrightarrow> foldR play (log_of j) start = Inr (state_of j) \<Longrightarrow>
      log_of j' = log_of j \<and> state_of j' = state_of j \<or>
      (\<exists>r. log_of j' = log_of j @ [r] \<and> play r (state_of j) = Inr (state_of j'))"
begin

lemma replay_step:
  "step j j' \<Longrightarrow> good (state_of j) \<Longrightarrow> foldR play (log_of j) start = Inr (state_of j) \<Longrightarrow>
    foldR play (log_of j') start = Inr (state_of j')"
  using step_logged [of j j'] by (auto simp: foldR_append)

lemma replay_steps:
  assumes "step\<^sup>*\<^sup>* j j'" and "log_of j = []" and "state_of j = start"
  shows "foldR play (log_of j') start = Inr (state_of j') \<and> good (state_of j')"
  using assms(1)
proof (induction rule: rtranclp_induct)
  case base
  then show ?case using assms(2,3) good_start by simp
next
  case (step j1 j2)
  then show ?case using replay_step step_good by blast
qed

end

section \<open>Closure of an edge list\<close>

text \<open>
  SQLite's \<open>WITH RECURSIVE ... UNION\<close> over an edge table: a queue of rows, each row joined with
  the edges, and only rows not seen before are queued.
\<close>

definition succs :: "('k \<times> 'k) list \<Rightarrow> 'k \<Rightarrow> 'k list" where
  "succs es x = map snd (filter (\<lambda>e. fst e = x) es)"

function cte_loop :: "('k \<times> 'k) list \<Rightarrow> 'k list \<Rightarrow> 'k list \<Rightarrow> 'k list" where
  "cte_loop es [] seen = seen"
| "cte_loop es (x # q) seen =
     (let new = filter (\<lambda>y. y \<notin> set seen) (uniq (succs es x))
      in cte_loop es (q @ new) (seen @ new))"
  by pat_completeness auto
termination
proof (relation "measures [\<lambda>(es, q, seen). card (snd ` set es - set seen), \<lambda>(es, q, seen). length q]",
       simp)
  fix es :: "('k \<times> 'k) list" and x q seen new
  assume new: "new = filter (\<lambda>y. y \<notin> set seen) (uniq (succs es x))"
  show "((es, q @ new, seen @ new), (es, x # q, seen)) \<in>
     measures [\<lambda>(es, q, seen). card (snd ` set es - set seen), \<lambda>(es, q, seen). length q]"
  proof (cases "new = []")
    case False
    then obtain y where y: "y \<in> set new" by (cases new) auto
    then have "y \<in> snd ` set es - set seen" by (auto simp: new succs_def)
    with y have "snd ` set es - (set seen \<union> set new) \<subset> snd ` set es - set seen" by blast
    then have "card (snd ` set es - (set seen \<union> set new)) < card (snd ` set es - set seen)"
      by (simp add: psubset_card_mono)
    then show ?thesis by simp
  qed simp
qed

definition cte_reach :: "('k \<times> 'k) list \<Rightarrow> 'k \<Rightarrow> 'k list" where
  "cte_reach es x = (let base = uniq (succs es x) in cte_loop es base base)"

lemma set_succs: "set (succs es x) = {y. (x, y) \<in> set es}"
  by (force simp: succs_def)

lemma cte_loop_sound:
  assumes "set q \<subseteq> set seen" and "set seen \<subseteq> {y. (x, y) \<in> (set es)\<^sup>+}"
  shows "set (cte_loop es q seen) \<subseteq> {y. (x, y) \<in> (set es)\<^sup>+}"
  using assms
proof (induction es q seen rule: cte_loop.induct)
  case (2 es z q seen)
  have "(x, y) \<in> (set es)\<^sup>+" if "(z, y) \<in> set es" for y
    using 2 that by (auto intro: trancl_into_trancl)
  then show ?case
    using 2 by (auto simp: Let_def set_succs)
qed simp

lemma cte_loop_closed:
  assumes "set q \<subseteq> set seen"
    and "\<And>a b. a \<in> set seen \<Longrightarrow> a \<notin> set q \<Longrightarrow> (a, b) \<in> set es \<Longrightarrow> b \<in> set seen"
  shows "set seen \<subseteq> set (cte_loop es q seen) \<and>
         (\<forall>a b. a \<in> set (cte_loop es q seen) \<longrightarrow> (a, b) \<in> set es \<longrightarrow> b \<in> set (cte_loop es q seen))"
  using assms
proof (induction es q seen rule: cte_loop.induct)
  case (1 es seen)
  then show ?case by auto
next
  case (2 es z q seen)
  let ?new = "filter (\<lambda>y. y \<notin> set seen) (uniq (succs es z))"
  have "set seen \<union> set ?new \<subseteq> set (cte_loop es (q @ ?new) (seen @ ?new)) \<and>
        (\<forall>a b. a \<in> set (cte_loop es (q @ ?new) (seen @ ?new)) \<longrightarrow> (a, b) \<in> set es \<longrightarrow>
               b \<in> set (cte_loop es (q @ ?new) (seen @ ?new)))"
  proof (subst set_append [symmetric], rule "2.IH" [OF refl])
    show "set (q @ ?new) \<subseteq> set (seen @ ?new)" using "2.prems"(1) by auto
    show "b \<in> set (seen @ ?new)"
      if "a \<in> set (seen @ ?new)" "a \<notin> set (q @ ?new)" "(a, b) \<in> set es" for a b
      using that "2.prems" by (cases "a = z") (auto simp: set_succs)
  qed
  then show ?case by (simp add: Let_def)
qed

lemma set_cte_reach: "set (cte_reach es x) = {y. (x, y) \<in> (set es)\<^sup>+}"
proof
  show "set (cte_reach es x) \<subseteq> {y. (x, y) \<in> (set es)\<^sup>+}"
    unfolding cte_reach_def Let_def by (rule cte_loop_sound) (auto simp: set_succs)
next
  let ?R = "set (cte_reach es x)"
  have closed: "set (succs es x) \<subseteq> ?R \<and> (\<forall>a b. a \<in> ?R \<longrightarrow> (a, b) \<in> set es \<longrightarrow> b \<in> ?R)"
    unfolding cte_reach_def Let_def
    using cte_loop_closed [of "uniq (succs es x)" "uniq (succs es x)" es] by auto
  have "y \<in> ?R" if "(x, y) \<in> (set es)\<^sup>+" for y
    using that closed by (induction rule: trancl_induct) (auto simp: set_succs)
  then show "{y. (x, y) \<in> (set es)\<^sup>+} \<subseteq> ?R" by blast
qed

end
