(* ===== verification/Mind_Id.thy ===== *)
theory Mind_Id
  imports Elpis_Prelude
begin

text \<open>
  Canonical Mind item ids (src/src/store/mind-id.ts): generation from random bytes by
  rejection sampling, recognition, and resolution of a reference (an id, a unique id prefix or
  an exact title) against the stored items.
\<close>

section \<open>Base 36\<close>

definition base36_char :: "nat \<Rightarrow> char" where
  "base36_char d = (if d < 10 then char_of (48 + d) else char_of (87 + d))"

definition is_base36 :: "char \<Rightarrow> bool" where
  "is_base36 c \<longleftrightarrow> is_digit c \<or> is_lower_az c"

text \<open>\<open>n.toString(36)\<close> and \<open>s.padStart(n, c)\<close>.\<close>

fun toString36 :: "nat \<Rightarrow> string" where
  "toString36 n = (if n < 36 then [base36_char n] else toString36 (n div 36) @ [base36_char (n mod 36)])"

declare toString36.simps [simp del]

definition padStart :: "nat \<Rightarrow> char \<Rightarrow> string \<Rightarrow> string" where
  "padStart n c s = replicate (n - length s) c @ s"

section \<open>Ids\<close>

definition id_limit :: nat where "id_limit = 36 ^ 8"
definition id_ceiling :: nat where "id_ceiling = (2 ^ 48 div id_limit) * id_limit"

text \<open>
  \<open>newMindId\<close> over the six-byte values its random source yields in turn; \<open>None\<close> when the loop
  is still drawing after all of them. The rest of the source's values is returned too.
\<close>

primrec newMindId :: "nat list \<Rightarrow> (string \<times> nat list) option" where
  "newMindId [] = None"
| "newMindId (v # vs) =
     (if id_ceiling \<le> v then newMindId vs
      else Some (''elm-'' @ padStart 8 CHR ''0'' (toString36 (v mod id_limit)), vs))"

definition isMindId :: "string \<Rightarrow> bool" where
  "isMindId s \<longleftrightarrow> prefix ''elm-'' s \<and> length s = 12 \<and> list_all is_base36 (drop 4 s)"

definition isMindIdPrefix :: "string \<Rightarrow> bool" where
  "isMindIdPrefix s \<longleftrightarrow>
     prefix ''elm-'' s \<and> 7 \<le> length s \<and> length s \<le> 12 \<and> list_all is_base36 (drop 4 s)"

section \<open>References\<close>

datatype ref_error =
    ExpectedReference
  | AmbiguousPrefix string nat
  | AmbiguousTitle string nat
  | NoItemMatching string

definition resolveMindRef ::
  "('a \<Rightarrow> string) \<Rightarrow> ('a \<Rightarrow> string) \<Rightarrow> 'a list \<Rightarrow> string \<Rightarrow> ref_error + 'a" where
  "resolveMindRef idOf titleOf rows ref =
     (if trim ref = [] then Inl ExpectedReference
      else let x = trim ref in
        case find (\<lambda>r. idOf r = x) rows of
          Some r \<Rightarrow> Inr r
        | None \<Rightarrow>
            let matches = filter (\<lambda>r. prefix x (idOf r)) rows;
                titles = filter (\<lambda>r. titleOf r = x) rows in
            if isMindIdPrefix x \<and> length matches = 1 then Inr (hd matches)
            else if isMindIdPrefix x \<and> length matches > 1 then Inl (AmbiguousPrefix x (length matches))
            else if length titles = 1 then Inr (hd titles)
            else if length titles > 1 then Inl (AmbiguousTitle x (length titles))
            else Inl (NoItemMatching x))"

section \<open>The digits of an id\<close>

primrec digits36 :: "nat \<Rightarrow> nat \<Rightarrow> string" where
  "digits36 0 k = []"
| "digits36 (Suc n) k = digits36 n (k div 36) @ [base36_char (k mod 36)]"

lemma length_digits36 [simp]: "length (digits36 n k) = n"
  by (induction n arbitrary: k) auto

lemma base36_char_code: "d < 36 \<Longrightarrow> code_unit (base36_char d) = (if d < 10 then 48 + d else 87 + d)"
  by (simp add: base36_char_def code_unit_def)

lemma is_base36_char: "d < 36 \<Longrightarrow> is_base36 (base36_char d)"
  by (auto simp: is_base36_def is_digit_def is_lower_az_def base36_char_code)

lemma base36_char_inj: "d < 36 \<Longrightarrow> e < 36 \<Longrightarrow> base36_char d = base36_char e \<Longrightarrow> d = e"
  by (drule arg_cong [where f = code_unit]) (auto simp: base36_char_code split: if_splits)

lemma base36_char_surj: "is_base36 c \<Longrightarrow> \<exists>d < 36. c = base36_char d"
proof -
  assume b: "is_base36 c"
  define n where "n = code_unit c"
  have c: "c = char_of n" by (simp add: n_def code_unit_def)
  from b have "(48 \<le> n \<and> n \<le> 57) \<or> (97 \<le> n \<and> n \<le> 122)"
    by (auto simp: is_base36_def is_digit_def is_lower_az_def n_def Let_def)
  then show ?thesis
  proof
    assume "48 \<le> n \<and> n \<le> 57"
    then show ?thesis by (intro exI [of _ "n - 48"]) (auto simp: c base36_char_def)
  next
    assume "97 \<le> n \<and> n \<le> 122"
    then show ?thesis by (intro exI [of _ "n - 87"]) (auto simp: c base36_char_def)
  qed
qed

lemma digits36_base36: "list_all is_base36 (digits36 n k)"
  by (induction n arbitrary: k) (auto simp: is_base36_char)

lemma digits36_inj: "k < 36 ^ n \<Longrightarrow> l < 36 ^ n \<Longrightarrow> digits36 n k = digits36 n l \<Longrightarrow> k = l"
proof (induction n arbitrary: k l)
  case (Suc n)
  from Suc.prems have "k div 36 < 36 ^ n" "l div 36 < 36 ^ n"
    by (simp_all add: less_mult_imp_div_less mult.commute)
  moreover from Suc.prems(3) have "digits36 n (k div 36) = digits36 n (l div 36)" by simp
  ultimately have "k div 36 = l div 36" by (rule Suc.IH)
  moreover from Suc.prems(3) have "k mod 36 = l mod 36"
    by (auto intro: base36_char_inj)
  ultimately show ?case by (metis div_mult_mod_eq)
qed simp

lemma digits36_surj:
  "length s = n \<Longrightarrow> list_all is_base36 s \<Longrightarrow> \<exists>k < 36 ^ n. s = digits36 n k"
proof (induction n arbitrary: s)
  case (Suc n)
  then obtain t c where s: "s = t @ [c]" "length t = n"
    by (metis length_Suc_conv_rev)
  with Suc.prems Suc.IH [of t] obtain k where k: "k < 36 ^ n" "t = digits36 n k" by auto
  from Suc.prems s obtain d where d: "d < 36" "c = base36_char d"
    using base36_char_surj by auto
  have "36 * k + d < 36 ^ Suc n" using k d by simp
  moreover have "s = digits36 (Suc n) (36 * k + d)" using s k d by simp
  ultimately show ?case by blast
qed simp

lemma base36_char_0: "base36_char 0 = CHR ''0''"
  by code_simp

lemma digits36_zero: "digits36 n 0 = replicate n CHR ''0''"
  by (induction n) (simp_all add: base36_char_0 replicate_append_same)

lemma padStart_toString36: "k < 36 ^ Suc n \<Longrightarrow> padStart (Suc n) CHR ''0'' (toString36 k) = digits36 (Suc n) k"
proof (induction n arbitrary: k)
  case 0
  then show ?case by (simp add: toString36.simps [of k] padStart_def)
next
  case (Suc n)
  show ?case
  proof (cases "k < 36")
    case True
    then show ?thesis
      by (simp add: toString36.simps [of k] padStart_def digits36_zero base36_char_0 replicate_append_same)
  next
    case False
    from Suc.prems have "k div 36 < 36 ^ Suc n" by (simp add: less_mult_imp_div_less mult.commute)
    then have "padStart (Suc n) CHR ''0'' (toString36 (k div 36)) = digits36 (Suc n) (k div 36)"
      by (rule Suc.IH)
    with False show ?thesis
      by (simp add: toString36.simps [of k] padStart_def)
  qed
qed

lemma newMindId_digits:
  "v < id_ceiling \<Longrightarrow> newMindId (v # vs) = Some (''elm-'' @ digits36 8 (v mod id_limit), vs)"
proof -
  assume v: "v < id_ceiling"
  have e: "Suc 7 = 8" by simp
  have "v mod id_limit < 36 ^ Suc 7" by (simp add: id_limit_def)
  from padStart_toString36 [OF this, unfolded e] v show ?thesis by simp
qed

lemma isMindId_digits: "isMindId s \<longleftrightarrow> (\<exists>k < id_limit. s = ''elm-'' @ digits36 8 k)"
proof
  assume a: "isMindId s"
  then obtain t where s: "s = ''elm-'' @ t" by (auto simp: isMindId_def prefix_def)
  with a have "length t = 8" "list_all is_base36 t" by (auto simp: isMindId_def)
  then obtain k where "k < 36 ^ 8" "t = digits36 8 k" using digits36_surj by blast
  with s show "\<exists>k < id_limit. s = ''elm-'' @ digits36 8 k" by (auto simp: id_limit_def)
next
  assume "\<exists>k < id_limit. s = ''elm-'' @ digits36 8 k"
  then show "isMindId s" by (auto simp: isMindId_def digits36_base36)
qed

lemma newMindId_valid: "newMindId vs = Some (i, rest) \<Longrightarrow> isMindId i"
proof (induction vs)
  case (Cons v vs)
  show ?case
  proof (cases "id_ceiling \<le> v")
    case False
    with Cons.prems have "i = ''elm-'' @ digits36 8 (v mod id_limit)"
      using newMindId_digits [of v vs] by simp
    moreover have "v mod id_limit < id_limit" by (simp add: id_limit_def)
    ultimately show ?thesis by (auto simp: isMindId_digits)
  qed (use Cons in simp)
qed simp

lemma newMindId_shorter: "newMindId vs = Some (i, rest) \<Longrightarrow> length rest < length vs"
  by (induction vs) (auto split: if_splits)

lemma newMindId_draws: "\<exists>v \<in> set vs. v < id_ceiling \<Longrightarrow> \<exists>i rest. newMindId vs = Some (i, rest)"
  by (induction vs) auto

lemma card_residues:
  fixes L q k :: nat
  assumes "k < L"
  shows "card {v. v < q * L \<and> v mod L = k} = q"
proof -
  have "{v. v < q * L \<and> v mod L = k} = (\<lambda>j. j * L + k) ` {0..<q}" (is "?A = ?B")
  proof
    show "?A \<subseteq> ?B"
    proof
      fix v assume v: "v \<in> ?A"
      then have "v div L < q" by (simp add: less_mult_imp_div_less)
      moreover have "v = (v div L) * L + k" using v by (metis (mono_tags) div_mult_mod_eq mem_Collect_eq)
      ultimately show "v \<in> ?B" by auto
    qed
    show "?B \<subseteq> ?A"
    proof clarsimp
      fix j assume "j < q"
      then have "Suc j * L \<le> q * L" by (intro mult_le_mono1) simp
      then show "j * L + k < q * L \<and> k mod L = k" using assms by simp
    qed
  qed
  moreover have "inj_on (\<lambda>j. j * L + k) {0..<q}" using assms by (auto simp: inj_on_def)
  ultimately show ?thesis by (simp add: card_image)
qed

section \<open>Properties\<close>

text \<open>
  Rejection sampling makes ids unbiased: every string that \<open>isMindId\<close> accepts is drawn from
  exactly 99 of the \<open>2^48\<close> six-byte values, and no value yields anything else.
\<close>

theorem newMindId_uniform:
  "card {v. v < 2 ^ 48 \<and> newMindId [v] = Some (i, [])} = (if isMindId i then 99 else 0)"
proof (cases "isMindId i")
  case True
  then obtain k where k: "k < id_limit" "i = ''elm-'' @ digits36 8 k"
    by (auto simp: isMindId_digits)
  have ceil: "id_ceiling = 99 * id_limit" "id_ceiling < 2 ^ 48"
    by (simp_all add: id_ceiling_def id_limit_def)
  have lim: "id_limit = 36 ^ 8" by (simp add: id_limit_def)
  have "{v. v < 2 ^ 48 \<and> newMindId [v] = Some (i, [])} = {v. v < 99 * id_limit \<and> v mod id_limit = k}"
  proof (intro Collect_cong iffI conjI; elim conjE)
    fix v assume n: "newMindId [v] = Some (i, [])"
    then have v: "v < id_ceiling" by (auto split: if_splits)
    then show "v < 99 * id_limit" by (simp add: ceil)
    from n newMindId_digits [OF v, of "[]"] k have "digits36 8 (v mod id_limit) = digits36 8 k" by simp
    then show "v mod id_limit = k"
      using k(1) by (intro digits36_inj [of _ 8]) (simp_all add: lim)
  next
    fix v assume v: "v < 99 * id_limit" "v mod id_limit = k"
    then show "v < 2 ^ 48" using ceil by linarith
    from v show "newMindId [v] = Some (i, [])"
      using newMindId_digits [of v "[]"] k by (simp add: ceil)
  qed
  with card_residues [OF k(1)] True show ?thesis by simp
next
  case False
  then have "{v. v < 2 ^ 48 \<and> newMindId [v] = Some (i, [])} = {}"
    using newMindId_valid by blast
  with False show ?thesis by simp
qed

lemma hd_filter: "filter P xs \<noteq> [] \<Longrightarrow> hd (filter P xs) \<in> set xs \<and> P (hd (filter P xs))"
  using hd_in_set [of "filter P xs"] by auto

text \<open>
  A reference resolves only to a stored item, and that item answers to it: by its exact
  id, by an id prefix that no other item shares, or by a title that no other item has. An exact
  id is never shadowed by a title.
\<close>

theorem resolveMindRef_sound:
  assumes "resolveMindRef idOf titleOf rows ref = Inr r"
  shows "r \<in> set rows \<and>
    (idOf r = trim ref \<or>
     ((\<forall>q \<in> set rows. idOf q \<noteq> trim ref) \<and>
      (filter (\<lambda>q. prefix (trim ref) (idOf q)) rows = [r] \<or>
       filter (\<lambda>q. titleOf q = trim ref) rows = [r])))"
proof -
  have single: "length xs = 1 \<Longrightarrow> xs = [hd xs]" for xs :: "'a list"
    by (cases xs) auto
  from assms have "trim ref \<noteq> []" by (auto simp: resolveMindRef_def)
  show ?thesis
  proof (cases "find (\<lambda>q. idOf q = trim ref) rows")
    case (Some q)
    with assms \<open>trim ref \<noteq> []\<close> have "q = r" by (simp add: resolveMindRef_def)
    with Some show ?thesis by (auto dest: find_SomeD)
  next
    case None
    then have no: "\<forall>q \<in> set rows. idOf q \<noteq> trim ref" by (auto simp: find_None_iff)
    from assms None \<open>trim ref \<noteq> []\<close>
    have "filter (\<lambda>q. prefix (trim ref) (idOf q)) rows = [r] \<or> filter (\<lambda>q. titleOf q = trim ref) rows = [r]"
      by (auto simp: resolveMindRef_def Let_def single split: if_splits)
    moreover from this have "r \<in> set rows" by (metis filter_is_subset list.set_intros(1) subsetD)
    ultimately show ?thesis using no by blast
  qed
qed

theorem resolveMindRef_sound_witness:
  "resolveMindRef fst snd [(''elm-aaaa1111'', ''paint''), (''elm-bbbb2222'', ''roof'')] '' elm-bbb ''
     = Inr (''elm-bbbb2222'', ''roof'') \<and> (''elm-bbbb2222'', ''roof'') \<in> set [(''elm-aaaa1111'', ''paint''), (''elm-bbbb2222'', ''roof'')]"
proof -
  have h: "resolveMindRef fst snd [(''elm-aaaa1111'', ''paint''), (''elm-bbbb2222'', ''roof'')] '' elm-bbb ''
     = Inr (''elm-bbbb2222'', ''roof'')"
    by code_simp
  show ?thesis using h resolveMindRef_sound [OF h] by blast
qed

end
