(* ===== verification/Mind_Types.thy ===== *)
theory Mind_Types
  imports Mind_Id
begin

text \<open>
  The data of the Mind work graph (src/src/store/mind.ts): the enumerations, the rows of the
  \<open>mind_*\<close> tables as the migrations of src/src/store/db.ts, mind-id-migration.ts and
  mind-proposal-migration.ts leave them, the argument objects of the operations, the views the
  operations return, and the validators that run before anything is written.

  An argument that a caller may leave out is an \<open>option\<close>; one that may also be \<open>null\<close> is an
  \<open>option option\<close> (\<open>None\<close> for undefined, \<open>Some None\<close> for null). Enumerated arguments arrive
  as strings, as they do at run time, and the validators turn them into the datatypes.
\<close>

section \<open>JSON values\<close>

datatype json =
    JNull
  | JBool bool
  | JNum rat
  | JStr string
  | JArr "json list"
  | JObj "(string \<times> json) list"

definition json_opt :: "('a \<Rightarrow> json) \<Rightarrow> 'a option \<Rightarrow> json" where
  "json_opt f x = (case x of None \<Rightarrow> JNull | Some a \<Rightarrow> f a)"

section \<open>Enumerations\<close>

datatype mind_status = Proposal | Inbox | Open | InProgress | Waiting | Done | Cancelled

datatype mind_kind = Task | Project | Idea | Question | Reminder

datatype mind_sort =
    CreatedAsc | CreatedDesc | UpdatedAsc | UpdatedDesc | LastCommentAsc | LastCommentDesc

datatype mind_log_kind = Progress | Decision | Result | Verification | Omission

datatype graph_relation = Dependencies | Dependents | Parent | Children

datatype effective_status = Plain mind_status | Blocked

definition MIND_STATUSES :: "(string \<times> mind_status) list" where
  "MIND_STATUSES = [(''proposal'', Proposal), (''inbox'', Inbox), (''open'', Open),
     (''in_progress'', InProgress), (''waiting'', Waiting), (''done'', Done),
     (''cancelled'', Cancelled)]"

definition MIND_KINDS :: "(string \<times> mind_kind) list" where
  "MIND_KINDS = [(''task'', Task), (''project'', Project), (''idea'', Idea),
     (''question'', Question), (''reminder'', Reminder)]"

definition MIND_SORTS :: "(string \<times> mind_sort) list" where
  "MIND_SORTS = [(''created_asc'', CreatedAsc), (''created_desc'', CreatedDesc),
     (''updated_asc'', UpdatedAsc), (''updated_desc'', UpdatedDesc),
     (''last_comment_asc'', LastCommentAsc), (''last_comment_desc'', LastCommentDesc)]"

definition MIND_LOG_KINDS :: "(string \<times> mind_log_kind) list" where
  "MIND_LOG_KINDS = [(''progress'', Progress), (''decision'', Decision), (''result'', Result),
     (''verification'', Verification), (''omission'', Omission)]"

definition MIND_GRAPH_RELATIONS :: "(string \<times> graph_relation) list" where
  "MIND_GRAPH_RELATIONS = [(''dependencies'', Dependencies), (''dependents'', Dependents),
     (''parent'', Parent), (''children'', Children)]"

primrec status_name :: "mind_status \<Rightarrow> string" where
  "status_name Proposal = ''proposal''"
| "status_name Inbox = ''inbox''"
| "status_name Open = ''open''"
| "status_name InProgress = ''in_progress''"
| "status_name Waiting = ''waiting''"
| "status_name Done = ''done''"
| "status_name Cancelled = ''cancelled''"

primrec kind_name :: "mind_kind \<Rightarrow> string" where
  "kind_name Task = ''task''"
| "kind_name Project = ''project''"
| "kind_name Idea = ''idea''"
| "kind_name Question = ''question''"
| "kind_name Reminder = ''reminder''"

definition ACTIVE_STATUSES :: "mind_status list" where
  "ACTIVE_STATUSES = [Inbox, Open, InProgress, Waiting]"

text \<open>\<open>status === 'done' || status === 'cancelled'\<close>.\<close>

definition closes :: "mind_status \<Rightarrow> bool" where
  "closes s \<longleftrightarrow> s = Done \<or> s = Cancelled"

section \<open>Tables\<close>

record item_row =
  it_id :: string
  it_title :: string
  it_body :: string
  it_kind :: mind_kind
  it_status :: mind_status
  it_priority :: int
  it_parent :: "string option"
  it_due :: "time option"
  it_created_by :: string
  it_created_at :: time
  it_updated_at :: time
  it_closed_at :: "time option"
  it_archived_at :: "time option"

record dep_row =
  dp_item :: string
  dp_on :: string
  dp_by :: string
  dp_at :: time

record tag_row =
  tg_item :: string
  tg_tag :: string

record mind_comment =
  cm_id :: int
  cm_item :: string
  cm_author :: string
  cm_body :: string
  cm_reply :: "int option"
  cm_created :: time
  cm_updated :: "time option"

record comment_row = mind_comment +
  cm_deleted :: "time option"

record event_row =
  ev_id :: int
  ev_item :: string
  ev_type :: string
  ev_actor :: string
  ev_data :: "(string \<times> json) list"
  ev_at :: time

record reminder_row =
  rm_id :: int
  rm_item :: string
  rm_task :: int
  rm_fire :: time
  rm_channel :: "string option"
  rm_by :: string
  rm_created :: time
  rm_fired :: "time option"
  rm_cancelled :: "time option"

record claim_row =
  cl_item :: string
  cl_owner :: string
  cl_principal :: string
  cl_claimed :: time
  cl_renewed :: time
  cl_expires :: time

text \<open>The database: the tables, and the next rowid of each AUTOINCREMENT table.\<close>

record mind_db =
  db_items :: "item_row list"
  db_deps :: "dep_row list"
  db_tags :: "tag_row list"
  db_comments :: "comment_row list"
  db_events :: "event_row list"
  db_reminders :: "reminder_row list"
  db_claims :: "claim_row list"
  db_id_map :: "(int \<times> string) list"
  db_next_comment :: int
  db_next_event :: int
  db_next_reminder :: int

definition empty_db :: mind_db where
  "empty_db = \<lparr>db_items = [], db_deps = [], db_tags = [], db_comments = [], db_events = [],
     db_reminders = [], db_claims = [], db_id_map = [], db_next_comment = 1, db_next_event = 1,
     db_next_reminder = 1\<rparr>"

section \<open>Views\<close>

record mind_link =
  ln_id :: string
  ln_title :: string
  ln_status :: mind_status
  ln_effective :: effective_status

record mind_claim =
  mc_item :: string
  mc_owner :: string
  mc_claimed :: time
  mc_renewed :: time
  mc_expires :: time
  mc_expired :: bool

record mind_item = item_row +
  mi_last_comment :: "time option"
  mi_effective :: effective_status
  mi_tags :: "string list"
  mi_blocked_by :: "mind_link list"
  mi_blocks :: "mind_link list"
  mi_child_count :: nat
  mi_total_child_count :: nat
  mi_comment_count :: nat
  mi_reminder_count :: nat
  mi_claim :: "mind_claim option"

record mind_detail = mind_item +
  md_parent :: "mind_link option"
  md_children :: "mind_link list"
  md_dependencies :: "mind_link list"
  md_comments :: "mind_comment list"
  md_events :: "event_row list"
  md_reminders :: "reminder_row list"

section \<open>Arguments\<close>

record proposal_intake =
  pi_requester :: string
  pi_source :: string
  pi_session :: string

record create_opts =
  co_title :: string
  co_body :: "string option"
  co_kind :: "string option"
  co_status :: "string option"
  co_priority :: "jsnum option"
  co_parent :: "string option"
  co_due :: "jsnum option"
  co_tags :: "string list"
  co_depends :: "string list"
  co_actor :: "string option"
  co_intake :: "proposal_intake option"

record update_patch =
  up_title :: "string option"
  up_body :: "string option"
  up_kind :: "string option"
  up_status :: "string option"
  up_priority :: "jsnum option"
  up_parent :: "string option option"
  up_due :: "jsnum option option"
  up_tags :: "string list option"

definition empty_patch :: update_patch where
  "empty_patch = \<lparr>up_title = None, up_body = None, up_kind = None, up_status = None,
     up_priority = None, up_parent = None, up_due = None, up_tags = None\<rparr>"

record claim_opts =
  ko_owner :: string
  ko_principal :: string
  ko_ttl :: "jsnum option"
  ko_note :: "string option"

record list_filter =
  lf_statuses :: "string list"
  lf_kinds :: "string list"
  lf_tag :: string
  lf_query :: string
  lf_parent :: "string option option"
  lf_ready :: bool
  lf_blocked :: bool
  lf_overdue :: bool
  lf_archived :: bool
  lf_sort :: "string option"
  lf_limit :: "int option"
  lf_offset :: "int option"

definition empty_filter :: list_filter where
  "empty_filter = \<lparr>lf_statuses = [], lf_kinds = [], lf_tag = [], lf_query = [], lf_parent = None,
     lf_ready = False, lf_blocked = False, lf_overdue = False, lf_archived = False,
     lf_sort = None, lf_limit = None, lf_offset = None\<rparr>"

record discover_opts =
  do_tags :: "string list"
  do_boost_tags :: "string list"
  do_filter_tags :: "string list"
  do_filter_all :: bool
  do_parent :: "string option option"
  do_limit :: "int option"

record work_match =
  wm_score :: int
  wm_matched :: "string list"
  wm_item :: mind_item

section \<open>Errors\<close>

text \<open>
  One constructor per \<open>throw\<close>. \<open>IdDrawsExhausted\<close> is not an error of the source: it says that
  the loop that draws a fresh id has not found one among the random values supplied.
  \<open>UniqueViolation\<close> stands for the exception SQLite raises on a UNIQUE constraint.
\<close>

datatype mind_error =
    InvalidStatus string
  | ProposalTransition mind_status
  | NormalToProposal
  | InvalidKind string
  | InvalidSort string
  | InvalidPriority
  | EmptyText string
  | TextTooLong string nat
  | InvalidTag string
  | InvalidTtl
  | InvalidDueAt
  | ProposalDueDate
  | ProposalDependencies
  | ProposalReminders
  | InvalidIntake
  | InvalidItemId string
  | NoItem string
  | ItemArchived string
  | NotExecutable string mind_kind
  | NotOpenWork string mind_status
  | NotWaiting string mind_status
  | BlockedByDependencies string
  | ClaimedBy string string
  | InProgressOutsideClaim string
  | NoActiveClaim string
  | ClaimedByAnother string
  | InvalidLogKind string
  | SelfDependency
  | DependencyCycle string string
  | SelfParent
  | ParentCycle string
  | NoComment int
  | ForeignComment int string
  | NoReminder int
  | ReminderInactive int
  | ReminderNotFuture
  | SchedulerTaskMissing int
  | SchedulerTaskDone int
  | InvalidRelation string
  | LegacyMigrated string string
  | BadReference ref_error
  | UniqueViolation
  | IdDrawsExhausted

section \<open>Validators\<close>

definition assertStatus :: "string \<Rightarrow> mind_error + mind_status" where
  "assertStatus v = (case map_of MIND_STATUSES v of None \<Rightarrow> Inl (InvalidStatus v) | Some s \<Rightarrow> Inr s)"

definition assertStatusTransition :: "mind_status \<Rightarrow> mind_status \<Rightarrow> mind_error + unit" where
  "assertStatusTransition current nxt =
     (if current = Proposal then
        (if nxt \<notin> {Proposal, Inbox, Open, Cancelled} then Inl (ProposalTransition nxt) else Inr ())
      else if nxt = Proposal then Inl NormalToProposal
      else Inr ())"

definition assertKind :: "string \<Rightarrow> mind_error + mind_kind" where
  "assertKind v = (case map_of MIND_KINDS v of None \<Rightarrow> Inl (InvalidKind v) | Some k \<Rightarrow> Inr k)"

definition assertSort :: "string \<Rightarrow> mind_error + mind_sort" where
  "assertSort v = (case map_of MIND_SORTS v of None \<Rightarrow> Inl (InvalidSort v) | Some k \<Rightarrow> Inr k)"

definition assertPriority :: "jsnum \<Rightarrow> mind_error + int" where
  "assertPriority v =
     (if \<not> isInteger v \<or> finite_val v < 0 \<or> finite_val v > 4 then Inl InvalidPriority
      else Inr \<lfloor>finite_val v\<rfloor>)"

definition assertText :: "string \<Rightarrow> string \<Rightarrow> nat \<Rightarrow> bool \<Rightarrow> mind_error + unit" where
  "assertText v field mx allowEmpty =
     (if \<not> allowEmpty \<and> trim v = [] then Inl (EmptyText field)
      else if length v > mx then Inl (TextTooLong field mx)
      else Inr ())"

definition strip_hash :: "string \<Rightarrow> string" where
  "strip_hash s = (case s of [] \<Rightarrow> [] | c # cs \<Rightarrow> if c = CHR ''#'' then cs else s)"

definition valid_tag :: "string \<Rightarrow> bool" where
  "valid_tag t \<longleftrightarrow> (case t of [] \<Rightarrow> False
     | c # cs \<Rightarrow> (is_letter c \<or> is_number c) \<and>
         list_all (\<lambda>d. is_letter d \<or> is_number d \<or> d \<in> set ''._/-'') cs)"

definition normalizeTag :: "string \<Rightarrow> mind_error + string" where
  "normalizeTag v =
     (let tag = collapse_spaces (strip_hash (toLowerCase (trim v))) in
      if tag = [] \<or> length tag > 48 \<or> \<not> valid_tag tag then Inl (InvalidTag v) else Inr tag)"

text \<open>\<open>values.map(f)\<close> where \<open>f\<close> may throw: the first error wins.\<close>

primrec map_res :: "('a \<Rightarrow> 'e + 'b) \<Rightarrow> 'a list \<Rightarrow> 'e + 'b list" where
  "map_res f [] = Inr []"
| "map_res f (x # xs) =
     (case f x of Inl e \<Rightarrow> Inl e
      | Inr y \<Rightarrow> (case map_res f xs of Inl e \<Rightarrow> Inl e | Inr ys \<Rightarrow> Inr (y # ys)))"

definition claimTtl :: "jsnum option \<Rightarrow> mind_error + time" where
  "claimTtl v =
     (let n = (case v of None \<Rightarrow> Num 1800000 | Some m \<Rightarrow> m) in
      if \<not> isFinite n \<or> finite_val n < 60000 \<or> finite_val n > 14400000 then Inl InvalidTtl
      else Inr (of_int \<lfloor>finite_val n\<rfloor>))"

text \<open>\<open>/^sec-[A-Za-z0-9_-]{22}$/\<close>.\<close>

definition is_session_id :: "string \<Rightarrow> bool" where
  "is_session_id s \<longleftrightarrow> prefix ''sec-'' s \<and> length s = 26 \<and>
     list_all (\<lambda>c. is_upper_az c \<or> is_lower_az c \<or> is_digit c \<or> c \<in> set ''_-'') (drop 4 s)"

definition DISCOVERY_STOP :: "string list" where
  "DISCOVERY_STOP = [''about'', ''after'', ''again'', ''also'', ''and'', ''are'', ''been'',
     ''before'', ''being'', ''but'', ''can'', ''code'', ''could'', ''from'', ''have'', ''into'',
     ''just'', ''more'', ''not'', ''only'', ''our'', ''should'', ''that'', ''the'', ''their'',
     ''then'', ''there'', ''these'', ''they'', ''this'', ''through'', ''use'', ''using'', ''was'',
     ''were'', ''what'', ''when'', ''where'', ''which'', ''while'', ''with'', ''work'', ''would'',
     ''your'']"

definition term_start :: "char \<Rightarrow> bool" where
  "term_start c \<longleftrightarrow> is_lower_az c \<or> is_digit c"

definition term_char :: "char \<Rightarrow> bool" where
  "term_char c \<longleftrightarrow> term_start c \<or> c \<in> set ''._/-''"

text \<open>\<open>context.match(/[a-z0-9][a-z0-9._/-]{2,}/g)\<close>: leftmost, longest, not overlapping.\<close>

fun term_matches :: "string \<Rightarrow> string list" where
  "term_matches [] = []"
| "term_matches (c # cs) =
     (if term_start c \<and> length (takeWhile term_char cs) \<ge> 2
      then (c # takeWhile term_char cs) # term_matches (dropWhile term_char cs)
      else term_matches cs)"

definition discoveryTerms :: "string \<Rightarrow> string list" where
  "discoveryTerms ctx =
     (let raw = term_matches (toLowerCase ctx);
          expanded = concat (map (\<lambda>t. t # split_runs (\<lambda>c. c \<in> set ''._/-'') t) raw)
      in take 60 (uniq (filter (\<lambda>t. length t \<ge> 3 \<and> t \<notin> set DISCOVERY_STOP \<and> \<not> list_all is_digit t)
           expanded)))"

section \<open>Facts about the validators\<close>

named_theorems mind_valid \<open>what an accepted argument satisfies\<close>

lemma assertStatus_name [simp]: "assertStatus (status_name s) = Inr s"
  by (cases s) (simp_all add: assertStatus_def MIND_STATUSES_def)

lemma assertStatus_iff [mind_valid]: "assertStatus v = Inr s \<longleftrightarrow> v = status_name s"
proof
  assume "assertStatus v = Inr s"
  then have "map_of MIND_STATUSES v = Some s" by (auto simp: assertStatus_def split: option.splits)
  then show "v = status_name s" by (auto simp: MIND_STATUSES_def split: if_splits)
qed simp

lemma assertKind_name [simp]: "assertKind (kind_name k) = Inr k"
  by (cases k) (simp_all add: assertKind_def MIND_KINDS_def)

lemma assertKind_iff [mind_valid]: "assertKind v = Inr k \<longleftrightarrow> v = kind_name k"
proof
  assume "assertKind v = Inr k"
  then have "map_of MIND_KINDS v = Some k" by (auto simp: assertKind_def split: option.splits)
  then show "v = kind_name k" by (auto simp: MIND_KINDS_def split: if_splits)
qed simp

lemma assertPriority_bounds [mind_valid]: "assertPriority v = Inr p \<Longrightarrow> 0 \<le> p \<and> p \<le> 4"
  by (cases v) (auto simp: assertPriority_def integral_def floor_le_iff split: if_splits)

lemma claimTtl_bounds [mind_valid]: "claimTtl v = Inr t \<Longrightarrow> 60000 \<le> t \<and> t \<le> 14400000"
proof -
  assume a: "claimTtl v = Inr t"
  define n where "n = (case v of None \<Rightarrow> Num 1800000 | Some m \<Rightarrow> m)"
  from a have b: "60000 \<le> finite_val n" "finite_val n \<le> 14400000" "t = of_int \<lfloor>finite_val n\<rfloor>"
    by (auto simp: claimTtl_def n_def [symmetric] Let_def split: if_splits)
  have "60000 \<le> \<lfloor>finite_val n\<rfloor>" using b(1) by (simp add: le_floor_iff)
  then have "(of_int 60000 :: rat) \<le> of_int \<lfloor>finite_val n\<rfloor>" by (simp only: of_int_le_iff)
  moreover have "\<lfloor>finite_val n\<rfloor> \<le> 14400000" using b(2) by (simp add: floor_le_iff)
  then have "of_int \<lfloor>finite_val n\<rfloor> \<le> (of_int 14400000 :: rat)" by (simp only: of_int_le_iff)
  ultimately show ?thesis using b(3) by simp
qed

lemma assertStatusTransition_ok [mind_valid]:
  "assertStatusTransition c n = Inr u \<longleftrightarrow> (c = Proposal \<longrightarrow> n \<in> {Proposal, Inbox, Open, Cancelled}) \<and> (n = Proposal \<longrightarrow> c = Proposal)"
  by (auto simp: assertStatusTransition_def)

lemma normalizeTag_valid [mind_valid]: "normalizeTag v = Inr t \<Longrightarrow> valid_tag t \<and> length t \<le> 48"
  by (auto simp: normalizeTag_def Let_def split: if_splits)

lemma map_res_Inr: "map_res f xs = Inr ys \<Longrightarrow> list_all2 (\<lambda>x y. f x = Inr y) xs ys"
  by (induction xs arbitrary: ys) (auto split: sum.splits)

end
