(* ===== verification/Mind_Read.thy ===== *)
theory Mind_Read
  imports Mind_Types
begin

text \<open>
  The read side of \<open>MindStore\<close> (src/src/store/mind.ts): how rows become links, items and
  details, the listing with its filters and orders, readiness, discovery, statistics, the graph
  walk, secretary activity and reference resolution.

  \<open>now\<close> is the clock reading of the call. Where SQLite leaves the order of rows with equal
  keys open, the rows keep their insertion order.
\<close>

section \<open>Rows, links and items\<close>

definition item_by_id :: "mind_db \<Rightarrow> string \<Rightarrow> item_row option" where
  "item_by_id db i = find (\<lambda>r. it_id r = i) (db_items db)"

definition tagsFor :: "mind_db \<Rightarrow> string \<Rightarrow> string list" where
  "tagsFor db i = sort_by (\<le>) (map tg_tag (filter (\<lambda>t. tg_item t = i) (db_tags db)))"

text \<open>The two joins of \<open>mind_dependencies\<close> with \<open>mind_items\<close>.\<close>

definition dependency_rows :: "mind_db \<Rightarrow> string \<Rightarrow> item_row list" where
  "dependency_rows db i =
     concat (map (\<lambda>d. filter (\<lambda>r. it_id r = dp_on d) (db_items db))
       (filter (\<lambda>d. dp_item d = i) (db_deps db)))"

definition dependent_rows :: "mind_db \<Rightarrow> string \<Rightarrow> item_row list" where
  "dependent_rows db i =
     concat (map (\<lambda>d. filter (\<lambda>r. it_id r = dp_item d) (db_items db))
       (filter (\<lambda>d. dp_on d = i) (db_deps db)))"

definition unresolvedDependencyCount :: "mind_db \<Rightarrow> string \<Rightarrow> nat" where
  "unresolvedDependencyCount db i = length (filter (\<lambda>r. it_status r \<noteq> Done) (dependency_rows db i))"

definition toLink :: "mind_db \<Rightarrow> item_row \<Rightarrow> mind_link" where
  "toLink db r = \<lparr>ln_id = it_id r, ln_title = it_title r, ln_status = it_status r,
     ln_effective = (if it_status r \<in> set ACTIVE_STATUSES \<and> unresolvedDependencyCount db (it_id r) > 0
       then Blocked else Plain (it_status r))\<rparr>"

definition priority_then_id :: "item_row \<Rightarrow> item_row \<Rightarrow> bool" where
  "priority_then_id a b \<longleftrightarrow>
     it_priority a > it_priority b \<or> (it_priority a = it_priority b \<and> it_id a \<le> it_id b)"

definition unresolvedDependencies :: "mind_db \<Rightarrow> string \<Rightarrow> mind_link list" where
  "unresolvedDependencies db i =
     map (toLink db) (sort_by priority_then_id (filter (\<lambda>r. it_status r \<noteq> Done) (dependency_rows db i)))"

definition allDependencies :: "mind_db \<Rightarrow> string \<Rightarrow> mind_link list" where
  "allDependencies db i =
     map (toLink db) (sort_by (\<lambda>a b. it_id a \<le> it_id b) (dependency_rows db i))"

definition dependents :: "mind_db \<Rightarrow> string \<Rightarrow> mind_link list" where
  "dependents db i =
     map (toLink db) (sort_by (\<lambda>a b. it_id a \<le> it_id b) (dependent_rows db i))"

definition claimFromRow :: "time \<Rightarrow> claim_row \<Rightarrow> mind_claim" where
  "claimFromRow now r = \<lparr>mc_item = cl_item r, mc_owner = cl_owner r, mc_claimed = cl_claimed r,
     mc_renewed = cl_renewed r, mc_expires = cl_expires r, mc_expired = (cl_expires r \<le> now)\<rparr>"

definition claim_of :: "mind_db \<Rightarrow> string \<Rightarrow> claim_row option" where
  "claim_of db i = find (\<lambda>c. cl_item c = i) (db_claims db)"

definition claimFor :: "time \<Rightarrow> mind_db \<Rightarrow> string \<Rightarrow> mind_claim option" where
  "claimFor now db i = map_option (claimFromRow now) (claim_of db i)"

definition live_comments :: "mind_db \<Rightarrow> string \<Rightarrow> comment_row list" where
  "live_comments db i = filter (\<lambda>c. cm_item c = i \<and> cm_deleted c = None) (db_comments db)"

text \<open>\<open>max(COALESCE(updated_at, created_at))\<close> over the live comments.\<close>

definition last_comment_at :: "mind_db \<Rightarrow> string \<Rightarrow> time option" where
  "last_comment_at db i =
     (case map (\<lambda>c. case cm_updated c of None \<Rightarrow> cm_created c | Some t \<Rightarrow> t) (live_comments db i) of
        [] \<Rightarrow> None
      | t # ts \<Rightarrow> Some (fold max ts t))"

definition hydrate :: "time \<Rightarrow> mind_db \<Rightarrow> item_row \<Rightarrow> mind_item" where
  "hydrate now db row =
     (let i = it_id row; blockedBy = unresolvedDependencies db i in
      item_row.extend row (mind_item.fields
        (last_comment_at db i)
        (if it_status row \<in> set ACTIVE_STATUSES \<and> blockedBy \<noteq> [] then Blocked else Plain (it_status row))
        (tagsFor db i)
        blockedBy
        (dependents db i)
        (length (filter (\<lambda>r. it_parent r = Some i \<and> it_archived_at r = None) (db_items db)))
        (length (filter (\<lambda>r. it_parent r = Some i) (db_items db)))
        (length (live_comments db i))
        (length (filter (\<lambda>r. rm_item r = i \<and> rm_cancelled r = None \<and> rm_fired r = None) (db_reminders db)))
        (claimFor now db i)))"

definition comment_order :: "comment_row \<Rightarrow> comment_row \<Rightarrow> bool" where
  "comment_order a b \<longleftrightarrow> cm_created a < cm_created b \<or> (cm_created a = cm_created b \<and> cm_id a \<le> cm_id b)"

definition event_order :: "event_row \<Rightarrow> event_row \<Rightarrow> bool" where
  "event_order a b \<longleftrightarrow> ev_at a > ev_at b \<or> (ev_at a = ev_at b \<and> ev_id a \<ge> ev_id b)"

definition reminder_order :: "reminder_row \<Rightarrow> reminder_row \<Rightarrow> bool" where
  "reminder_order a b \<longleftrightarrow> rm_fire a < rm_fire b \<or> (rm_fire a = rm_fire b \<and> rm_id a \<le> rm_id b)"

definition child_rows :: "mind_db \<Rightarrow> string \<Rightarrow> item_row list" where
  "child_rows db i = sort_by priority_then_id
     (filter (\<lambda>r. it_parent r = Some i \<and> it_archived_at r = None) (db_items db))"

definition mind_get :: "time \<Rightarrow> mind_db \<Rightarrow> string \<Rightarrow> mind_detail option" where
  "mind_get now db i =
     (case item_by_id db i of
        None \<Rightarrow> None
      | Some row \<Rightarrow>
          Some (mind_item.extend (hydrate now db row) (mind_detail.fields
            (case it_parent row of None \<Rightarrow> None | Some p \<Rightarrow> map_option (toLink db) (item_by_id db p))
            (map (toLink db) (child_rows db i))
            (allDependencies db i)
            (map mind_comment.truncate (sort_by comment_order (live_comments db i)))
            (take 200 (sort_by event_order (filter (\<lambda>e. ev_item e = i) (db_events db))))
            (sort_by reminder_order (filter (\<lambda>r. rm_item r = i) (db_reminders db))))))"

section \<open>Listing\<close>

fun row_order :: "mind_db \<Rightarrow> mind_sort \<Rightarrow> item_row \<Rightarrow> item_row \<Rightarrow> bool" where
  "row_order db CreatedAsc a b =
     (it_created_at a < it_created_at b \<or> (it_created_at a = it_created_at b \<and> it_id a \<le> it_id b))"
| "row_order db CreatedDesc a b =
     (it_created_at a > it_created_at b \<or> (it_created_at a = it_created_at b \<and> it_id a \<ge> it_id b))"
| "row_order db UpdatedAsc a b =
     (it_updated_at a < it_updated_at b \<or> (it_updated_at a = it_updated_at b \<and> it_id a \<le> it_id b))"
| "row_order db UpdatedDesc a b =
     (it_updated_at a > it_updated_at b \<or> (it_updated_at a = it_updated_at b \<and> it_id a \<ge> it_id b))"
| "row_order db LastCommentAsc a b =
     (case (last_comment_at db (it_id a), last_comment_at db (it_id b)) of
        (None, None) \<Rightarrow> it_id a \<le> it_id b
      | (None, Some _) \<Rightarrow> False
      | (Some _, None) \<Rightarrow> True
      | (Some x, Some y) \<Rightarrow> x < y \<or> (x = y \<and> it_id a \<le> it_id b))"
| "row_order db LastCommentDesc a b =
     (case (last_comment_at db (it_id a), last_comment_at db (it_id b)) of
        (None, None) \<Rightarrow> it_id a \<ge> it_id b
      | (None, Some _) \<Rightarrow> False
      | (Some _, None) \<Rightarrow> True
      | (Some x, Some y) \<Rightarrow> x > y \<or> (x = y \<and> it_id a \<ge> it_id b))"

text \<open>The \<open>WHERE\<close> clause that \<open>list\<close> assembles, on one row.\<close>

definition list_where ::
  "time \<Rightarrow> mind_db \<Rightarrow> list_filter \<Rightarrow> mind_status list \<Rightarrow> mind_kind list \<Rightarrow> string option \<Rightarrow> item_row \<Rightarrow> bool" where
  "list_where now db f sts kds tag r \<longleftrightarrow>
     (\<not> lf_archived f \<longrightarrow> it_archived_at r = None) \<and>
     (sts \<noteq> [] \<longrightarrow> it_status r \<in> set sts) \<and>
     (kds \<noteq> [] \<longrightarrow> it_kind r \<in> set kds) \<and>
     (case lf_parent f of None \<Rightarrow> True | Some p \<Rightarrow> it_parent r = p) \<and>
     (case tag of None \<Rightarrow> True
      | Some t \<Rightarrow> list_ex (\<lambda>x. tg_item x = it_id r \<and> tg_tag x = t) (db_tags db)) \<and>
     (trim (lf_query f) \<noteq> [] \<longrightarrow>
        (let q = ''%'' @ toLowerCase (trim (lf_query f)) @ ''%'' in
         sql_like q (sql_lower (it_title r)) \<or> sql_like q (sql_lower (it_body r)) \<or>
         list_ex (\<lambda>c. sql_like q (sql_lower (cm_body c))) (live_comments db (it_id r)))) \<and>
     (lf_overdue f \<longrightarrow>
        (case it_due r of None \<Rightarrow> False | Some d \<Rightarrow> d < now) \<and> \<not> closes (it_status r))"

definition is_ready :: "mind_item \<Rightarrow> bool" where
  "is_ready x \<longleftrightarrow> it_kind x = Task \<and> it_status x = Open \<and> mi_blocked_by x = []"

definition list_limit :: "list_filter \<Rightarrow> int" where
  "list_limit f = max 1 (min 500 (case lf_limit f of None \<Rightarrow> 100 | Some n \<Rightarrow> n))"

definition list_offset :: "list_filter \<Rightarrow> int" where
  "list_offset f = max 0 (case lf_offset f of None \<Rightarrow> 0 | Some n \<Rightarrow> n)"

definition mind_list :: "time \<Rightarrow> mind_db \<Rightarrow> list_filter \<Rightarrow> mind_error + mind_item list" where
  "mind_list now db f =
     bindR (map_res assertStatus (lf_statuses f)) (\<lambda>sts.
     bindR (map_res assertKind (lf_kinds f)) (\<lambda>kds.
     bindR (if lf_tag f = [] then Inr None else map_sum id Some (normalizeTag (lf_tag f))) (\<lambda>tag.
     bindR (assertSort (case lf_sort f of None \<Rightarrow> ''updated_desc'' | Some s \<Rightarrow> s)) (\<lambda>srt.
       let rows = take (nat (list_limit f)) (drop (nat (list_offset f))
             (sort_by (row_order db srt) (filter (list_where now db f sts kds tag) (db_items db))));
           xs = map (hydrate now db) rows;
           ys = (if lf_ready f then filter is_ready xs else xs)
       in Inr (if lf_blocked f then filter (\<lambda>x. mi_effective x = Blocked) ys else ys)))))"

definition mind_ready :: "time \<Rightarrow> mind_db \<Rightarrow> int \<Rightarrow> mind_error + mind_item list" where
  "mind_ready now db n = mind_list now db
     (empty_filter\<lparr>lf_statuses := [''open''], lf_kinds := [''task''], lf_ready := True, lf_limit := Some n\<rparr>)"

section \<open>Discovery\<close>

definition take_last :: "nat \<Rightarrow> 'a list \<Rightarrow> 'a list" where
  "take_last n xs = drop (length xs - n) xs"

definition term_score :: "mind_item \<Rightarrow> string \<Rightarrow> string \<Rightarrow> int" where
  "term_score x commentText t =
     (if str_includes (toLowerCase (it_title x)) t then 8 else 0) +
     (if list_ex (\<lambda>g. str_includes (toLowerCase g) t) (mi_tags x) then 6 else 0) +
     (if str_includes (toLowerCase (it_body x)) t then 3 else 0) +
     (if str_includes commentText t then 2 else 0)"

definition score_item ::
  "time \<Rightarrow> mind_db \<Rightarrow> string list \<Rightarrow> string list \<Rightarrow> mind_item \<Rightarrow> work_match" where
  "score_item now db terms hints x =
     (let bodies = (case mind_get now db (it_id x) of None \<Rightarrow> [] | Some d \<Rightarrow> md_comments d);
          txt = join [CHR 0x0A] (map (\<lambda>c. toLowerCase (cm_body c)) (take_last 30 bodies));
          hits = filter (\<lambda>t. term_score x txt t \<noteq> 0) terms;
          tagHits = filter (\<lambda>g. g \<in> set (map toLowerCase (mi_tags x))) hints;
          score = sum_list (map (term_score x txt) terms) + 10 * int (length tagHits)
      in \<lparr>wm_score = (if terms = [] \<and> hints = [] then 1 else score),
          wm_matched = uniq (hits @ map (\<lambda>g. CHR ''#'' # g) tagHits), wm_item = x\<rparr>)"

definition match_order :: "work_match \<Rightarrow> work_match \<Rightarrow> bool" where
  "match_order a b \<longleftrightarrow>
     wm_score a > wm_score b \<or> (wm_score a = wm_score b \<and>
       (it_priority (wm_item a) > it_priority (wm_item b) \<or>
        (it_priority (wm_item a) = it_priority (wm_item b) \<and>
         it_updated_at (wm_item a) \<ge> it_updated_at (wm_item b))))"

definition mind_discover ::
  "time \<Rightarrow> mind_db \<Rightarrow> string \<Rightarrow> discover_opts \<Rightarrow> mind_error + work_match list" where
  "mind_discover now db ctx opts =
     bindR (assertText ctx ''discovery context'' 50000 True) (\<lambda>_.
     bindR (map_res normalizeTag (do_tags opts @ do_boost_tags opts)) (\<lambda>hints0.
     bindR (map_res normalizeTag (do_filter_tags opts)) (\<lambda>fts0.
     bindR (mind_list now db (empty_filter\<lparr>lf_statuses := [''open''], lf_kinds := [''task''],
         lf_ready := True, lf_parent := do_parent opts, lf_limit := Some 500,
         lf_sort := Some ''updated_desc''\<rparr>)) (\<lambda>found.
       let terms = discoveryTerms ctx; hints = uniq hints0; fts = uniq fts0;
           candidates = filter (\<lambda>x. fts = [] \<or>
             (if do_filter_all opts then list_all (\<lambda>g. g \<in> set (mi_tags x)) fts
              else list_ex (\<lambda>g. g \<in> set (mi_tags x)) fts)) found;
           matches = filter (\<lambda>m. wm_score m > 0) (map (score_item now db terms hints) candidates)
       in Inr (take (nat (max 1 (min 50 (case do_limit opts of None \<Rightarrow> 10 | Some n \<Rightarrow> n))))
            (sort_by match_order matches))))))"

section \<open>Statistics\<close>

record mind_stats =
  ms_active :: nat
  ms_ready :: nat
  ms_blocked :: nat
  ms_waiting :: nat
  ms_overdue :: nat
  ms_done :: nat
  ms_inbox :: nat

definition count_where :: "('a \<Rightarrow> bool) \<Rightarrow> 'a list \<Rightarrow> nat" where
  "count_where p xs = length (filter p xs)"

definition stats :: "time \<Rightarrow> mind_db \<Rightarrow> mind_error + mind_stats" where
  "stats now db = map_sum id (\<lambda>xs.
     \<lparr>ms_active = count_where (\<lambda>x. it_status x \<in> set ACTIVE_STATUSES) xs,
      ms_ready = count_where is_ready xs,
      ms_blocked = count_where (\<lambda>x. mi_effective x = Blocked) xs,
      ms_waiting = count_where (\<lambda>x. it_status x = Waiting) xs,
      ms_overdue = count_where (\<lambda>x. (case it_due x of None \<Rightarrow> False | Some d \<Rightarrow> d < now) \<and>
        it_status x \<in> set ACTIVE_STATUSES) xs,
      ms_done = count_where (\<lambda>x. it_status x = Done) xs,
      ms_inbox = count_where (\<lambda>x. it_status x = Inbox) xs\<rparr>)
     (mind_list now db (empty_filter\<lparr>lf_limit := Some 500\<rparr>))"

section \<open>The graph around an item\<close>

datatype edge_type = DependsOn | ParentEdge

record graph_edge =
  ge_from :: string
  ge_to :: string
  ge_type :: edge_type

record graph_result =
  mg_root :: string
  mg_nodes :: "mind_detail list"
  mg_edges :: "graph_edge list"

text \<open>The calls of \<open>visit\<close> for one item, in order: the edge and the id it leads to.\<close>

definition visits :: "time \<Rightarrow> mind_db \<Rightarrow> graph_relation list \<Rightarrow> string \<Rightarrow> (graph_edge \<times> string) list" where
  "visits now db rels i =
     (if Dependencies \<in> set rels then
        map (\<lambda>l. (\<lparr>ge_from = i, ge_to = ln_id l, ge_type = DependsOn\<rparr>, ln_id l)) (allDependencies db i) else []) @
     (if Dependents \<in> set rels then
        map (\<lambda>l. (\<lparr>ge_from = ln_id l, ge_to = i, ge_type = DependsOn\<rparr>, ln_id l)) (dependents db i) else []) @
     (case mind_get now db i of
        None \<Rightarrow> []
      | Some d \<Rightarrow>
          (if Parent \<in> set rels then
             (case md_parent d of None \<Rightarrow> []
              | Some p \<Rightarrow> [(\<lparr>ge_from = i, ge_to = ln_id p, ge_type = ParentEdge\<rparr>, ln_id p)]) else []) @
          (if Children \<in> set rels then
             map (\<lambda>l. (\<lparr>ge_from = ln_id l, ge_to = i, ge_type = ParentEdge\<rparr>, ln_id l)) (md_children d) else []))"

lemma toLink_id [simp]: "ln_id (toLink db r) = it_id r"
  by (simp add: toLink_def)

lemma item_by_id_SomeD: "item_by_id db i = Some r \<Longrightarrow> r \<in> set (db_items db) \<and> it_id r = i"
  unfolding item_by_id_def by (drule find_SomeD) simp

lemma mind_get_view:
  "mind_get now db i = Some d \<Longrightarrow>
     \<exists>row. item_by_id db i = Some row \<and>
       md_parent d = (case it_parent row of None \<Rightarrow> None | Some p \<Rightarrow> map_option (toLink db) (item_by_id db p)) \<and>
       md_children d = map (toLink db) (child_rows db i)"
  by (auto simp: mind_get_def mind_item.defs mind_detail.defs split: option.splits)

lemma link_of_item:
  "r \<in> set (dependency_rows db i) \<Longrightarrow> it_id r \<in> it_id ` set (db_items db)"
  "r \<in> set (dependent_rows db i) \<Longrightarrow> it_id r \<in> it_id ` set (db_items db)"
  "r \<in> set (child_rows db i) \<Longrightarrow> it_id r \<in> it_id ` set (db_items db)"
  by (auto simp: dependency_rows_def dependent_rows_def child_rows_def)

lemma mind_get_parent_item:
  "mind_get now db i = Some d \<Longrightarrow> md_parent d = Some p \<Longrightarrow> ln_id p \<in> it_id ` set (db_items db)"
  by (drule mind_get_view) (force dest: item_by_id_SomeD split: option.splits)

lemma mind_get_child_item:
  "mind_get now db i = Some d \<Longrightarrow> l \<in> set (md_children d) \<Longrightarrow> ln_id l \<in> it_id ` set (db_items db)"
proof -
  assume "mind_get now db i = Some d" "l \<in> set (md_children d)"
  then obtain r where "l = toLink db r" "r \<in> set (child_rows db i)"
    by (auto dest!: mind_get_view)
  then show ?thesis by (simp add: link_of_item(3) [of r db i])
qed

lemma map_snd_visits:
  "map snd (visits now db rels i) =
     (if Dependencies \<in> set rels then map ln_id (allDependencies db i) else []) @
     (if Dependents \<in> set rels then map ln_id (dependents db i) else []) @
     (case mind_get now db i of
        None \<Rightarrow> []
      | Some d \<Rightarrow>
          (if Parent \<in> set rels then map ln_id (case md_parent d of None \<Rightarrow> [] | Some p \<Rightarrow> [p]) else []) @
          (if Children \<in> set rels then map ln_id (md_children d) else []))"
  by (simp add: visits_def comp_def split: option.split)

lemma ids_of_links:
  "set (map ln_id (allDependencies db i)) \<subseteq> it_id ` set (db_items db)"
  "set (map ln_id (dependents db i)) \<subseteq> it_id ` set (db_items db)"
  by (auto simp: allDependencies_def dependents_def dest: link_of_item)

lemma set_if_subset: "set xs \<subseteq> A \<Longrightarrow> set (if b then xs else []) \<subseteq> A"
  by auto

lemma visits_items: "set (map snd (visits now db rels i)) \<subseteq> it_id ` set (db_items db)"
proof (cases "mind_get now db i")
  case None
  show ?thesis
    unfolding map_snd_visits None option.case set_append
    by (intro Un_least set_if_subset ids_of_links) simp
next
  case (Some d)
  have "set (map ln_id (md_children d)) \<subseteq> it_id ` set (db_items db)"
    using mind_get_child_item [OF Some] by (simp add: image_subset_iff)
  moreover have "set (map ln_id (case md_parent d of None \<Rightarrow> [] | Some p \<Rightarrow> [p])) \<subseteq> it_id ` set (db_items db)"
    using mind_get_parent_item [OF Some] by (cases "md_parent d") simp_all
  ultimately show ?thesis
    unfolding map_snd_visits Some option.case set_append
    by (intro Un_least set_if_subset ids_of_links)
qed

function graph_loop ::
  "time \<Rightarrow> mind_db \<Rightarrow> graph_relation list \<Rightarrow> int \<Rightarrow> (string \<times> int) list \<Rightarrow> string list \<Rightarrow> graph_edge list
    \<Rightarrow> string list \<times> graph_edge list" where
  "graph_loop now db rels mx [] seen edges = (seen, edges)"
| "graph_loop now db rels mx ((i, d) # q) seen edges =
     (if d \<ge> mx then graph_loop now db rels mx q seen edges
      else let vs = visits now db rels i;
               new = uniq (filter (\<lambda>x. x \<notin> set seen) (map snd vs))
           in graph_loop now db rels mx (q @ map (\<lambda>x. (x, d + 1)) new) (seen @ new) (edges @ map fst vs))"
  by pat_completeness auto
termination
proof (relation "measures [\<lambda>(now, db, rels, mx, q, seen, edges). card (it_id ` set (db_items db) - set seen),
                  \<lambda>(now, db, rels, mx, q, seen, edges). length q]", simp, simp)
  fix now db rels mx i d q seen edges vs new
  assume vs: "vs = visits now db rels i"
    and new: "new = uniq (filter (\<lambda>x. x \<notin> set seen) (map snd vs))"
  have sub: "set new \<subseteq> it_id ` set (db_items db) - set seen"
    using visits_items [of now db rels i] by (auto simp: new vs)
  show "((now, db, rels, mx, q @ map (\<lambda>x. (x, d + 1)) new, seen @ new, edges @ map fst vs),
         (now, db, rels, mx, (i, d) # q, seen, edges))
    \<in> measures [\<lambda>(now, db, rels, mx, q, seen, edges). card (it_id ` set (db_items db) - set seen),
                  \<lambda>(now, db, rels, mx, q, seen, edges). length q]"
  proof (cases "new = []")
    case False
    then obtain y where "y \<in> set new" by (cases new) auto
    with sub have "it_id ` set (db_items db) - (set seen \<union> set new) \<subset> it_id ` set (db_items db) - set seen"
      by blast
    then have "card (it_id ` set (db_items db) - (set seen \<union> set new)) < card (it_id ` set (db_items db) - set seen)"
      by (simp add: psubset_card_mono)
    then show ?thesis by simp
  qed simp
qed

definition requireId :: "mind_db \<Rightarrow> string \<Rightarrow> mind_error + unit" where
  "requireId db i =
     (if \<not> isMindId i then Inl (InvalidItemId i)
      else if item_by_id db i = None then Inl (NoItem i)
      else Inr ())"

definition assertRelation :: "string \<Rightarrow> mind_error + graph_relation" where
  "assertRelation v = (case map_of MIND_GRAPH_RELATIONS v of None \<Rightarrow> Inl (InvalidRelation v) | Some r \<Rightarrow> Inr r)"

definition mind_graph :: "time \<Rightarrow> mind_db \<Rightarrow> string \<Rightarrow> rat \<Rightarrow> string list \<Rightarrow> mind_error + graph_result" where
  "mind_graph now db rootId depth relations =
     bindR (requireId db rootId) (\<lambda>_.
     bindR (map_res assertRelation (uniq relations)) (\<lambda>rels.
       let mx = max 0 (min 12 \<lfloor>depth\<rfloor>);
           walk = graph_loop now db rels mx [(rootId, 0)] [rootId] []
       in Inr \<lparr>mg_root = rootId, mg_nodes = List.map_filter (mind_get now db) (fst walk),
            mg_edges = uniq (snd walk)\<rparr>))"

section \<open>Secretary activity\<close>

record secretary_activity =
  sa_event :: int
  sa_item :: string
  sa_title :: string
  sa_status :: mind_status
  sa_type :: string
  sa_actor :: string
  sa_comment :: "int option"
  sa_reply :: "int option"
  sa_body :: "string option"
  sa_created :: time

record activity_batch =
  ab_events :: "secretary_activity list"
  ab_latest :: int
  ab_truncated :: bool

definition comment_ref :: "(string \<times> json) list \<Rightarrow> int option" where
  "comment_ref data =
     (case map_of data ''commentId'' of
        Some (JNum r) \<Rightarrow> if isSafeInteger (Num r) \<and> r > 0 then Some \<lfloor>r\<rfloor> else None
      | _ \<Rightarrow> None)"

definition live_comment :: "mind_db \<Rightarrow> int \<Rightarrow> comment_row option" where
  "live_comment db c = find (\<lambda>r. cm_id r = c \<and> cm_deleted r = None) (db_comments db)"

definition activity_of :: "mind_db \<Rightarrow> event_row \<times> item_row \<Rightarrow> secretary_activity" where
  "activity_of db = (\<lambda>(e, i).
     let cid = comment_ref (ev_data e);
         c = (case cid of None \<Rightarrow> None | Some n \<Rightarrow> live_comment db n)
     in \<lparr>sa_event = ev_id e, sa_item = ev_item e, sa_title = it_title i, sa_status = it_status i,
         sa_type = ev_type e, sa_actor = ev_actor e, sa_comment = cid,
         sa_reply = (case c of None \<Rightarrow> None | Some r \<Rightarrow> cm_reply r),
         sa_body = map_option cm_body c, sa_created = ev_at e\<rparr>)"

definition activity_rows :: "mind_db \<Rightarrow> rat \<Rightarrow> (event_row \<times> item_row) list" where
  "activity_rows db after = sort_by (\<lambda>a b. ev_id (fst a) \<ge> ev_id (fst b))
     (concat (map (\<lambda>e. map (\<lambda>i. (e, i)) (filter (\<lambda>i. it_id i = ev_item e) (db_items db)))
       (filter (\<lambda>e. of_int (ev_id e) > after \<and> sql_like ''secretary:%'' (ev_actor e) \<and>
          ev_type e \<in> {''comment.added'', ''item.created''}) (db_events db))))"

definition secretaryActivity :: "mind_db \<Rightarrow> jsnum \<Rightarrow> jsnum \<Rightarrow> activity_batch" where
  "secretaryActivity db afterEventId mx =
     (let after = (if isSafeInteger afterEventId then max 0 (finite_val afterEventId) else 0);
          bound = (if isSafeInteger mx then nat \<lfloor>max 1 (min 20 (finite_val mx))\<rfloor> else 6);
          rows = rev (take (bound + 1) (activity_rows db after));
          evs = map (activity_of db) (take_last bound rows)
      in \<lparr>ab_events = evs,
          ab_latest = (if evs = [] then \<lfloor>after\<rfloor> else sa_event (last evs)),
          ab_truncated = (length rows > bound)\<rparr>)"

section \<open>References\<close>

datatype ref_arg = RefNum jsnum | RefStr string

definition digits_value :: "string \<Rightarrow> int" where
  "digits_value s = fold (\<lambda>c acc. 10 * acc + (int (code_unit c) - 48)) s 0"

definition legacy_id :: "ref_arg \<Rightarrow> int option" where
  "legacy_id ref =
     (case ref of
        RefNum n \<Rightarrow> if isSafeInteger n then Some \<lfloor>finite_val n\<rfloor> else None
      | RefStr s \<Rightarrow>
          let t = strip_hash (trim s)
          in if t \<noteq> [] \<and> list_all is_digit t then Some (digits_value t) else None)"

definition resolve :: "mind_db \<Rightarrow> ref_arg \<Rightarrow> mind_error + string" where
  "resolve db ref =
     (case (case legacy_id ref of None \<Rightarrow> None | Some n \<Rightarrow> map_of (db_id_map db) n) of
        Some new \<Rightarrow> Inl (LegacyMigrated (case ref of RefStr s \<Rightarrow> s | RefNum _ \<Rightarrow> []) new)
      | None \<Rightarrow>
          (case ref of
             RefNum _ \<Rightarrow> Inl (BadReference ExpectedReference)
           | RefStr s \<Rightarrow>
               (case resolveMindRef it_id it_title (sort_by (\<lambda>a b. it_id a \<le> it_id b) (db_items db)) s of
                  Inl e \<Rightarrow> Inl (BadReference e)
                | Inr r \<Rightarrow> Inr (it_id r))))"

lemma mind_get_id: "mind_get now db i = Some d \<Longrightarrow> it_id d = i"
  by (auto simp: mind_get_def hydrate_def Let_def item_row.defs mind_item.defs mind_detail.defs
      dest: item_by_id_SomeD split: option.splits)

lemma mind_get_row: "mind_get now db i = Some d \<Longrightarrow>
    \<exists>row. item_by_id db i = Some row \<and> it_status d = it_status row \<and> it_archived_at d = it_archived_at row"
  by (auto simp: mind_get_def hydrate_def Let_def item_row.defs mind_item.defs mind_detail.defs split: option.splits)

end
