(* ===== verification/Mind_Write.thy ===== *)
theory Mind_Write
  imports Mind_Read
begin

text \<open>
  The write side of \<open>MindStore\<close> (src/src/store/mind.ts): every method that changes a table.
  Each is an action: it takes the clock reading of the call, its arguments and the database,
  and gives back an error or a value together with the database as it then is. A method that
  wraps its writes in \<open>BEGIN IMMEDIATE\<close> / \<open>COMMIT\<close> / \<open>ROLLBACK\<close> does so with
  \<open>transaction\<close>. Methods that end with \<open>return this.get(id)!\<close> return the result of that read.
\<close>

section \<open>Statements\<close>

definition update_item :: "string \<Rightarrow> (item_row \<Rightarrow> item_row) \<Rightarrow> mind_db \<Rightarrow> mind_db" where
  "update_item i f db = db\<lparr>db_items := update_where (\<lambda>r. it_id r = i) f (db_items db)\<rparr>"

definition touch :: "string \<Rightarrow> time \<Rightarrow> mind_db \<Rightarrow> mind_db" where
  "touch i tm = update_item i (\<lambda>r. r\<lparr>it_updated_at := tm\<rparr>)"

definition set_status :: "string \<Rightarrow> mind_status \<Rightarrow> time option \<Rightarrow> time \<Rightarrow> mind_db \<Rightarrow> mind_db" where
  "set_status i st closedAt tm =
     update_item i (\<lambda>r. r\<lparr>it_status := st, it_closed_at := closedAt, it_updated_at := tm\<rparr>)"

definition delete_claim :: "string \<Rightarrow> mind_db \<Rightarrow> mind_db" where
  "delete_claim i db = db\<lparr>db_claims := delete_where (\<lambda>c. cl_item c = i) (db_claims db)\<rparr>"

definition insert_claim :: "claim_row \<Rightarrow> mind_db \<Rightarrow> mind_db" where
  "insert_claim c db = db\<lparr>db_claims := db_claims db @ [c]\<rparr>"

definition update_claim :: "string \<Rightarrow> (claim_row \<Rightarrow> claim_row) \<Rightarrow> mind_db \<Rightarrow> mind_db" where
  "update_claim i f db = db\<lparr>db_claims := update_where (\<lambda>c. cl_item c = i) f (db_claims db)\<rparr>"

definition add_event :: "string \<Rightarrow> string \<Rightarrow> string \<Rightarrow> (string \<times> json) list \<Rightarrow> time \<Rightarrow> mind_db \<Rightarrow> mind_db" where
  "add_event i typ actor data tm db =
     db\<lparr>db_events := db_events db @ [\<lparr>ev_id = db_next_event db, ev_item = i, ev_type = typ,
          ev_actor = actor, ev_data = data, ev_at = tm\<rparr>],
        db_next_event := db_next_event db + 1\<rparr>"

definition addCommentInternal ::
  "string \<Rightarrow> string \<Rightarrow> string \<Rightarrow> time \<Rightarrow> int option \<Rightarrow> mind_db \<Rightarrow> mind_comment \<times> mind_db" where
  "addCommentInternal i body author tm replyTo db =
     (let cid = db_next_comment db;
          row = \<lparr>cm_id = cid, cm_item = i, cm_author = author, cm_body = trim body, cm_reply = replyTo,
                 cm_created = tm, cm_updated = None, cm_deleted = None\<rparr>;
          db1 = db\<lparr>db_comments := db_comments db @ [row], db_next_comment := cid + 1\<rparr>;
          db2 = touch i tm db1
      in (mind_comment.truncate row,
          add_event i ''comment.added'' author
            [(''commentId'', JNum (of_int cid)), (''replyToId'', json_opt (\<lambda>n. JNum (of_int n)) replyTo)] tm db2))"

abbreviation comment_on :: "string \<Rightarrow> string \<Rightarrow> string \<Rightarrow> time \<Rightarrow> mind_db \<Rightarrow> mind_db" where
  "comment_on i body author tm db \<equiv> snd (addCommentInternal i body author tm None db)"

definition newline :: string where "newline = [CHR 0x0A]"

definition and_get :: "time \<Rightarrow> string \<Rightarrow> (mind_error, mind_db, unit) action \<Rightarrow> (mind_error, mind_db, mind_detail option) action" where
  "and_get now i m = andThen m (\<lambda>_. reads (\<lambda>db. ok (mind_get now db i)))"

section \<open>Dependencies and parents\<close>

definition dep_edges :: "mind_db \<Rightarrow> (string \<times> string) list" where
  "dep_edges db = map (\<lambda>d. (dp_item d, dp_on d)) (db_deps db)"

definition parent_edges :: "mind_db \<Rightarrow> (string \<times> string) list" where
  "parent_edges db = List.map_filter (\<lambda>r. map_option (\<lambda>p. (it_id r, p)) (it_parent r)) (db_items db)"

definition addDependencyInternal ::
  "string \<Rightarrow> string \<Rightarrow> string \<Rightarrow> time \<Rightarrow> (mind_error, mind_db, unit) action" where
  "addDependencyInternal i dep actor tm = (\<lambda>db.
     if list_ex (\<lambda>r. it_id r \<in> {i, dep} \<and> it_status r = Proposal) (db_items db) then (Inl ProposalDependencies, db)
     else if i = dep then (Inl SelfDependency, db)
     else if i \<in> set (cte_reach (dep_edges db) dep) then (Inl (DependencyCycle i dep), db)
     else if list_ex (\<lambda>d. dp_item d = i \<and> dp_on d = dep) (db_deps db) then (Inr (), db)
     else (Inr (), add_event i ''dependency.added'' actor [(''dependsOnId'', JStr dep)] tm
       (db\<lparr>db_deps := db_deps db @ [\<lparr>dp_item = i, dp_on = dep, dp_by = actor, dp_at = tm\<rparr>]\<rparr>)))"

definition assertNoParentCycle :: "mind_db \<Rightarrow> string \<Rightarrow> string \<Rightarrow> mind_error + unit" where
  "assertNoParentCycle db i p =
     (if i = p then Inl SelfParent
      else if i \<in> set (cte_reach (parent_edges db) p) then Inl (ParentCycle p)
      else Inr ())"

definition addDependency ::
  "time \<Rightarrow> string \<Rightarrow> string \<Rightarrow> string \<Rightarrow> (mind_error, mind_db, mind_detail option) action" where
  "addDependency now i dep actor = reads (\<lambda>db.
     andThen (lift (requireId db i)) (\<lambda>_.
     andThen (lift (requireId db dep)) (\<lambda>_.
     and_get now i (transaction
       (andThen (addDependencyInternal i dep actor now) (\<lambda>_. modify (touch i now)))))))"

definition removeDependency ::
  "time \<Rightarrow> string \<Rightarrow> string \<Rightarrow> string \<Rightarrow> (mind_error, mind_db, mind_detail option) action" where
  "removeDependency now i dep actor = reads (\<lambda>db.
     andThen (lift (requireId db i)) (\<lambda>_.
     and_get now i (modify (\<lambda>db.
       if list_ex (\<lambda>d. dp_item d = i \<and> dp_on d = dep) (db_deps db)
       then add_event i ''dependency.removed'' actor [(''dependsOnId'', JStr dep)] now
         (touch i now (db\<lparr>db_deps := delete_where (\<lambda>d. dp_item d = i \<and> dp_on d = dep) (db_deps db)\<rparr>))
       else db))))"

section \<open>Creating an item\<close>

function fresh_id :: "mind_db \<Rightarrow> nat list \<Rightarrow> (string \<times> nat list) option" where
  "fresh_id db vs =
     (case newMindId vs of
        None \<Rightarrow> None
      | Some (i, rest) \<Rightarrow> if item_by_id db i \<noteq> None then fresh_id db rest else Some (i, rest))"
  by pat_completeness auto
termination
  by (relation "measure (\<lambda>(db, vs). length vs)") (auto dest: newMindId_shorter)

declare fresh_id.simps [simp del]

record create_args =
  ca_kind :: mind_kind
  ca_status :: mind_status
  ca_priority :: int
  ca_body :: string
  ca_actor :: string
  ca_due :: "time option"
  ca_depends :: "string list"
  ca_tags :: "string list"

definition actor_or_agent :: "string option \<Rightarrow> string" where
  "actor_or_agent a = (case a of None \<Rightarrow> ''agent'' | Some s \<Rightarrow> if trim s = [] then ''agent'' else trim s)"

definition check_due :: "jsnum option \<Rightarrow> mind_error + time option" where
  "check_due d = (case d of None \<Rightarrow> Inr None
     | Some n \<Rightarrow> if \<not> isFinite n \<or> finite_val n \<le> 0 then Inl InvalidDueAt else Inr (Some (finite_val n)))"

definition intake_ok :: "mind_status \<Rightarrow> proposal_intake \<Rightarrow> bool" where
  "intake_ok st p \<longleftrightarrow> st = Proposal \<and> pi_requester p = ''conversation-user'' \<and>
     pi_source p = ''secretary'' \<and> is_session_id (pi_session p)"

text \<open>The validation that precedes the transaction of \<open>create\<close>, in the source's order.\<close>

definition check_create :: "mind_db \<Rightarrow> create_opts \<Rightarrow> mind_error + create_args" where
  "check_create db opts =
     bindR (assertText (co_title opts) ''title'' 240 False) (\<lambda>_.
     bindR (assertKind (case co_kind opts of None \<Rightarrow> ''task'' | Some k \<Rightarrow> k)) (\<lambda>kind.
     bindR (assertStatus (case co_status opts of None \<Rightarrow> ''open'' | Some s \<Rightarrow> s)) (\<lambda>st.
     bindR (assertPriority (case co_priority opts of None \<Rightarrow> Num 2 | Some p \<Rightarrow> p)) (\<lambda>prio.
     bindR (assertText (case co_body opts of None \<Rightarrow> [] | Some b \<Rightarrow> b) ''body'' 100000 True) (\<lambda>_.
     bindR (check_due (co_due opts)) (\<lambda>due.
     bindR (case co_parent opts of None \<Rightarrow> Inr () | Some p \<Rightarrow> requireId db p) (\<lambda>_.
     bindR (map_res (requireId db) (uniq (co_depends opts))) (\<lambda>_.
       if st = Proposal \<and> due \<noteq> None then Inl ProposalDueDate
       else if st = Proposal \<and> uniq (co_depends opts) \<noteq> [] then Inl ProposalDependencies
       else if (case co_intake opts of None \<Rightarrow> False | Some p \<Rightarrow> \<not> intake_ok st p) then Inl InvalidIntake
       else bindR (map_res normalizeTag (co_tags opts)) (\<lambda>tags.
         Inr \<lparr>ca_kind = kind, ca_status = st, ca_priority = prio,
              ca_body = (case co_body opts of None \<Rightarrow> [] | Some b \<Rightarrow> b),
              ca_actor = actor_or_agent (co_actor opts), ca_due = due,
              ca_depends = uniq (co_depends opts), ca_tags = uniq tags\<rparr>)))))))))"

definition intake_json :: "proposal_intake \<Rightarrow> json" where
  "intake_json p = JObj [(''requester'', JStr (pi_requester p)), (''source'', JStr (pi_source p)),
     (''sessionId'', JStr (pi_session p))]"

definition created_data :: "create_opts \<Rightarrow> create_args \<Rightarrow> (string \<times> json) list" where
  "created_data opts a =
     [(''title'', JStr (trim (co_title opts)))] @
     (if ca_status a = Proposal
      then (''body'', JStr (ca_body a)) #
           (case co_intake opts of None \<Rightarrow> [] | Some p \<Rightarrow> [(''proposalIntake'', intake_json p)])
      else []) @
     [(''kind'', JStr (kind_name (ca_kind a))), (''status'', JStr (status_name (ca_status a))),
      (''priority'', JNum (of_int (ca_priority a))), (''parentId'', json_opt JStr (co_parent opts)),
      (''dueAt'', json_opt JNum (ca_due a)), (''tags'', JArr (map JStr (ca_tags a))),
      (''dependsOn'', JArr (map JStr (ca_depends a)))]"

definition created_row :: "time \<Rightarrow> create_opts \<Rightarrow> create_args \<Rightarrow> string \<Rightarrow> item_row" where
  "created_row now opts a i =
     \<lparr>it_id = i, it_title = trim (co_title opts), it_body = ca_body a, it_kind = ca_kind a,
      it_status = ca_status a, it_priority = ca_priority a, it_parent = co_parent opts,
      it_due = ca_due a, it_created_by = ca_actor a, it_created_at = now, it_updated_at = now,
      it_closed_at = (if closes (ca_status a) then Some now else None), it_archived_at = None\<rparr>"

definition insert_item :: "item_row \<Rightarrow> string list \<Rightarrow> mind_db \<Rightarrow> mind_db" where
  "insert_item row tags db = db\<lparr>db_items := db_items db @ [row],
     db_tags := db_tags db @ map (\<lambda>t. \<lparr>tg_item = it_id row, tg_tag = t\<rparr>) tags\<rparr>"

definition create_tx :: "time \<Rightarrow> nat list \<Rightarrow> create_opts \<Rightarrow> create_args \<Rightarrow> (mind_error, mind_db, string) action" where
  "create_tx now vs opts a = reads (\<lambda>db.
     case fresh_id db vs of
       None \<Rightarrow> throw IdDrawsExhausted
     | Some (i, _) \<Rightarrow>
         andThen (modify (insert_item (created_row now opts a i) (ca_tags a))) (\<lambda>_.
         andThen (for_each (\<lambda>dep. addDependencyInternal i dep (ca_actor a) now) (ca_depends a)) (\<lambda>_.
         andThen (modify (add_event i ''item.created'' (ca_actor a) (created_data opts a) now)) (\<lambda>_.
         ok i))))"

definition mind_create ::
  "time \<Rightarrow> nat list \<Rightarrow> create_opts \<Rightarrow> (mind_error, mind_db, mind_detail option) action" where
  "mind_create now vs opts = reads (\<lambda>db.
     andThen (lift (check_create db opts)) (\<lambda>a.
     andThen (transaction (create_tx now vs opts a)) (\<lambda>i.
     reads (\<lambda>db'. ok (mind_get now db' i)))))"

section \<open>Claims\<close>

definition requireExecutableTask :: "mind_db \<Rightarrow> string \<Rightarrow> mind_error + item_row" where
  "requireExecutableTask db i =
     (case item_by_id db i of
        None \<Rightarrow> Inl (NoItem i)
      | Some r \<Rightarrow>
          if it_archived_at r \<noteq> None then Inl (ItemArchived i)
          else if it_kind r \<noteq> Task then Inl (NotExecutable i (it_kind r))
          else Inr r)"

definition new_claim :: "string \<Rightarrow> claim_opts \<Rightarrow> time \<Rightarrow> time \<Rightarrow> claim_row" where
  "new_claim i opts now ttl = \<lparr>cl_item = i, cl_owner = trim (ko_owner opts),
     cl_principal = trim (ko_principal opts), cl_claimed = now, cl_renewed = now, cl_expires = now + ttl\<rparr>"

text \<open>
  The branch of \<open>claim\<close> that finds no live claim: an expired one is removed with its trace,
  then the lease is written, the item set in progress, and comment and event appended.
\<close>

definition start_claim :: "time \<Rightarrow> time \<Rightarrow> string \<Rightarrow> claim_opts \<Rightarrow> claim_row option \<Rightarrow> mind_db \<Rightarrow> mind_db" where
  "start_claim now ttl i opts existing db =
     (let owner = trim (ko_owner opts);
          note = (case ko_note opts of None \<Rightarrow> [] | Some n \<Rightarrow> trim n);
          db1 = (case existing of
                   None \<Rightarrow> db
                 | Some c \<Rightarrow>
                     add_event i ''claim.expired'' ''system''
                       [(''owner'', JStr (cl_owner c)), (''expiredAt'', JNum (cl_expires c))] now
                     (comment_on i (''MCP claim by '' @ cl_owner c @ '' expired; item became reclaimable.'')
                       ''system'' now (delete_claim i db)));
          db2 = set_status i InProgress None now (insert_claim (new_claim i opts now ttl) db1);
          db3 = comment_on i (''Work claimed through MCP.'' @ (if note = [] then [] else newline @ newline @ note))
                  owner now db2
      in add_event i ''claim.started'' owner
           [(''expiresAt'', JNum (now + ttl)), (''previousExpiredOwner'', json_opt (\<lambda>c. JStr (cl_owner c)) existing)]
           now db3)"

definition claim_tx :: "time \<Rightarrow> time \<Rightarrow> string \<Rightarrow> claim_opts \<Rightarrow> (mind_error, mind_db, unit) action" where
  "claim_tx now ttl i opts = (\<lambda>db.
     case item_by_id db i of
       None \<Rightarrow> (Inl (NoItem i), db)
     | Some r \<Rightarrow>
         if it_archived_at r \<noteq> None then (Inl (ItemArchived i), db)
         else if it_kind r \<noteq> Task then (Inl (NotExecutable i (it_kind r)), db)
         else if it_status r \<in> {Proposal, Done, Cancelled, Waiting, Inbox} then (Inl (NotOpenWork i (it_status r)), db)
         else if unresolvedDependencyCount db i > 0 then (Inl (BlockedByDependencies i), db)
         else (case claim_of db i of
             None \<Rightarrow>
               if it_status r = InProgress then (Inl (InProgressOutsideClaim i), db)
               else (Inr (), start_claim now ttl i opts None db)
           | Some c \<Rightarrow>
               if cl_expires c > now then
                 (if cl_principal c \<noteq> ko_principal opts then (Inl (ClaimedBy i (cl_owner c)), db)
                  else (Inr (), add_event i ''claim.renewed'' (trim (ko_owner opts)) [(''expiresAt'', JNum (now + ttl))] now
                    (update_claim i (\<lambda>c. c\<lparr>cl_owner := trim (ko_owner opts), cl_renewed := now, cl_expires := now + ttl\<rparr>) db)))
               else (Inr (), start_claim now ttl i opts (Some c) db)))"

definition claim :: "time \<Rightarrow> string \<Rightarrow> claim_opts \<Rightarrow> (mind_error, mind_db, mind_detail option) action" where
  "claim now i opts =
     andThen (lift (assertText (ko_owner opts) ''claim owner'' 120 False)) (\<lambda>_.
     andThen (lift (assertText (ko_principal opts) ''claim principal'' 200 False)) (\<lambda>_.
     andThen (lift (case ko_note opts of None \<Rightarrow> Inr () | Some n \<Rightarrow> assertText n ''claim note'' 20000 True)) (\<lambda>_.
     andThen (lift (claimTtl (ko_ttl opts))) (\<lambda>ttl.
     and_get now i (transaction (claim_tx now ttl i opts))))))"

definition resume_tx :: "time \<Rightarrow> time \<Rightarrow> string \<Rightarrow> claim_opts \<Rightarrow> (mind_error, mind_db, unit) action" where
  "resume_tx now ttl i opts = (\<lambda>db.
     case item_by_id db i of
       None \<Rightarrow> (Inl (NoItem i), db)
     | Some r \<Rightarrow>
         if it_archived_at r \<noteq> None then (Inl (ItemArchived i), db)
         else if it_kind r \<noteq> Task then (Inl (NotExecutable i (it_kind r)), db)
         else if it_status r \<noteq> Waiting then (Inl (NotWaiting i (it_status r)), db)
         else if unresolvedDependencyCount db i > 0 then (Inl (BlockedByDependencies i), db)
         else if (case claim_of db i of None \<Rightarrow> False | Some c \<Rightarrow> cl_expires c > now)
           then (Inl (ClaimedBy i (case claim_of db i of None \<Rightarrow> [] | Some c \<Rightarrow> cl_owner c)), db)
         else
           let owner = trim (ko_owner opts);
               db1 = delete_claim i db;
               db2 = set_status i InProgress None now (insert_claim (new_claim i opts now ttl) db1);
               res = addCommentInternal i (''Resumed and claimed through MCP.'' @ newline @ newline @
                       trim (case ko_note opts of None \<Rightarrow> [] | Some n \<Rightarrow> n)) owner now None db2
           in (Inr (), add_event i ''claim.resumed'' owner
                [(''expiresAt'', JNum (now + ttl)), (''commentId'', JNum (of_int (cm_id (fst res))))] now (snd res)))"

definition resumeClaim :: "time \<Rightarrow> string \<Rightarrow> claim_opts \<Rightarrow> (mind_error, mind_db, mind_detail option) action" where
  "resumeClaim now i opts =
     andThen (lift (assertText (ko_owner opts) ''claim owner'' 120 False)) (\<lambda>_.
     andThen (lift (assertText (ko_principal opts) ''claim principal'' 200 False)) (\<lambda>_.
     andThen (lift (assertText (case ko_note opts of None \<Rightarrow> [] | Some n \<Rightarrow> n) ''resume note'' 20000 False)) (\<lambda>_.
     andThen (lift (claimTtl (ko_ttl opts))) (\<lambda>ttl.
     and_get now i (transaction (resume_tx now ttl i opts))))))"

text \<open>The claim that \<open>renewClaim\<close>, \<open>logClaim\<close> and \<open>finishClaim\<close> demand: live, and the caller's.\<close>

definition require_live_claim :: "time \<Rightarrow> mind_db \<Rightarrow> string \<Rightarrow> string \<Rightarrow> mind_error + claim_row" where
  "require_live_claim now db i principalId =
     bindR (requireExecutableTask db i) (\<lambda>_.
     case claim_of db i of
       None \<Rightarrow> Inl (NoActiveClaim i)
     | Some c \<Rightarrow>
         if cl_expires c \<le> now then Inl (NoActiveClaim i)
         else if cl_principal c \<noteq> trim principalId then Inl (ClaimedByAnother i)
         else Inr c)"

definition renewClaim ::
  "time \<Rightarrow> string \<Rightarrow> string \<Rightarrow> jsnum option \<Rightarrow> (mind_error, mind_db, mind_detail option) action" where
  "renewClaim now i principalId ttlMs =
     andThen (lift (assertText principalId ''claim principal'' 200 False)) (\<lambda>_.
     andThen (lift (claimTtl ttlMs)) (\<lambda>ttl.
     and_get now i (transaction (reads (\<lambda>db.
       andThen (lift (require_live_claim now db i principalId)) (\<lambda>c.
       modify (\<lambda>db. add_event i ''claim.renewed'' (cl_owner c) [(''expiresAt'', JNum (now + ttl))] now
         (touch i now (update_claim i (\<lambda>c. c\<lparr>cl_renewed := now, cl_expires := now + ttl\<rparr>) db)))))))))"

definition releaseClaim ::
  "time \<Rightarrow> string \<Rightarrow> string \<Rightarrow> bool \<Rightarrow> string \<Rightarrow> (mind_error, mind_db, mind_detail option) action" where
  "releaseClaim now i principalId toWaiting note =
     andThen (lift (assertText principalId ''claim principal'' 200 False)) (\<lambda>_.
     andThen (lift (assertText note ''release note'' 20000 False)) (\<lambda>_.
     and_get now i (transaction (reads (\<lambda>db.
       andThen (lift (requireExecutableTask db i)) (\<lambda>_.
       andThen (lift (case claim_of db i of
           None \<Rightarrow> Inl (NoActiveClaim i)
         | Some c \<Rightarrow> if cl_principal c \<noteq> trim principalId then Inl (ClaimedByAnother i) else Inr c)) (\<lambda>c.
       modify (\<lambda>db.
         add_event i (if toWaiting then ''claim.blocked'' else ''claim.released'') (cl_owner c)
           [(''status'', JStr (status_name (if toWaiting then Waiting else Open)))] now
         (comment_on i ((if toWaiting then ''Blocked'' else ''Released'') @ '': '' @ trim note) (cl_owner c) now
         (set_status i (if toWaiting then Waiting else Open) None now (delete_claim i db)))))))))))"

primrec log_label :: "mind_log_kind \<Rightarrow> string" where
  "log_label Progress = ''Progress''"
| "log_label Decision = ''Decision''"
| "log_label Result = ''Result''"
| "log_label Verification = ''Verification''"
| "log_label Omission = ''Omission''"

definition assertLogKind :: "string \<Rightarrow> mind_error + mind_log_kind" where
  "assertLogKind v = (case map_of MIND_LOG_KINDS v of None \<Rightarrow> Inl (InvalidLogKind v) | Some k \<Rightarrow> Inr k)"

definition logClaim ::
  "time \<Rightarrow> string \<Rightarrow> string \<Rightarrow> string \<Rightarrow> string \<Rightarrow> string \<Rightarrow> jsnum option
    \<Rightarrow> (mind_error, mind_db, mind_detail option) action" where
  "logClaim now i principalId owner kind body ttlMs =
     andThen (lift (assertText principalId ''claim principal'' 200 False)) (\<lambda>_.
     andThen (lift (assertText owner ''claim owner'' 120 False)) (\<lambda>_.
     andThen (lift (assertText body ''claim log'' 20000 False)) (\<lambda>_.
     andThen (lift (assertLogKind kind)) (\<lambda>k.
     andThen (lift (claimTtl ttlMs)) (\<lambda>ttl.
     and_get now i (transaction (reads (\<lambda>db.
       andThen (lift (require_live_claim now db i principalId)) (\<lambda>c.
       modify (\<lambda>db. add_event i ''claim.logged'' (trim owner)
           [(''kind'', JStr kind), (''expiresAt'', JNum (now + ttl))] now
         (update_claim i (\<lambda>c. c\<lparr>cl_owner := trim owner, cl_renewed := now, cl_expires := now + ttl\<rparr>)
         (comment_on i (log_label k @ '': '' @ trim body) (trim owner) now db))))))))))))"

definition completion_record :: "string \<Rightarrow> string \<Rightarrow> string \<Rightarrow> string" where
  "completion_record result verification omissions =
     ''Result:'' @ newline @ trim result @ newline @ newline @ ''Verification:'' @ newline @
     trim verification @ newline @ newline @ ''Omissions:'' @ newline @ trim omissions"

definition finishClaim ::
  "time \<Rightarrow> string \<Rightarrow> string \<Rightarrow> string \<Rightarrow> string \<Rightarrow> string \<Rightarrow> string
    \<Rightarrow> (mind_error, mind_db, mind_detail option) action" where
  "finishClaim now i principalId owner result verification omissions =
     andThen (lift (assertText principalId ''claim principal'' 200 False)) (\<lambda>_.
     andThen (lift (assertText owner ''claim owner'' 120 False)) (\<lambda>_.
     andThen (lift (assertText result ''result'' 10000 False)) (\<lambda>_.
     andThen (lift (assertText verification ''verification'' 10000 False)) (\<lambda>_.
     andThen (lift (assertText omissions ''omissions'' 10000 False)) (\<lambda>_.
     andThen (lift (assertText (completion_record result verification omissions) ''completion record'' 20000 False)) (\<lambda>_.
     and_get now i (transaction (reads (\<lambda>db.
       andThen (lift (require_live_claim now db i principalId)) (\<lambda>_.
       andThen (require (unresolvedDependencyCount db i = 0) (BlockedByDependencies i)) (\<lambda>_.
       modify (\<lambda>db.
         let res = addCommentInternal i (completion_record result verification omissions) (trim owner) now None db
         in add_event i ''claim.completed'' (trim owner) [(''commentId'', JNum (of_int (cm_id (fst res))))] now
              (set_status i Done (Some now) now (delete_claim i (snd res)))))))))))))))"

definition expire_one :: "time \<Rightarrow> claim_row \<Rightarrow> mind_db \<Rightarrow> mind_db" where
  "expire_one now c db =
     (let i = cl_item c in
      add_event i ''claim.expired'' ''system''
        [(''owner'', JStr (cl_owner c)), (''expiredAt'', JNum (cl_expires c))] now
      (comment_on i (''MCP claim by '' @ cl_owner c @ '' expired; item returned to open work.'') ''system'' now
      (update_item i (\<lambda>r. r\<lparr>it_status := (if it_status r = InProgress then Open else it_status r),
           it_updated_at := now\<rparr>) (delete_claim i db))))"

definition expired_claims :: "time \<Rightarrow> mind_db \<Rightarrow> claim_row list" where
  "expired_claims now db =
     sort_by (\<lambda>a b. cl_item a \<le> cl_item b) (filter (\<lambda>c. cl_expires c \<le> now) (db_claims db))"

definition expireClaims :: "time \<Rightarrow> (mind_error, mind_db, string list) action" where
  "expireClaims now = (\<lambda>db. (Inr (map cl_item (expired_claims now db)), fold (expire_one now) (expired_claims now db) db))"

section \<open>Updating an item\<close>

record checked_patch =
  cp_title :: "string option"
  cp_body :: "string option"
  cp_kind :: "mind_kind option"
  cp_status :: "mind_status option"
  cp_priority :: "int option"
  cp_due :: "time option option"
  cp_parent :: "string option option"
  cp_tags :: "string list option"

definition opt_res :: "('a \<Rightarrow> 'e + 'b) \<Rightarrow> 'a option \<Rightarrow> 'e + 'b option" where
  "opt_res f x = (case x of None \<Rightarrow> Inr None | Some a \<Rightarrow> map_sum id Some (f a))"

definition check_patch_due :: "mind_status \<Rightarrow> jsnum option \<Rightarrow> mind_error + time option" where
  "check_patch_due resulting d =
     (if resulting = Proposal \<and> d \<noteq> None then Inl ProposalDueDate else check_due d)"

definition check_patch_parent :: "mind_db \<Rightarrow> string \<Rightarrow> string option \<Rightarrow> mind_error + string option" where
  "check_patch_parent db i p =
     (case p of None \<Rightarrow> Inr None
      | Some q \<Rightarrow> bindR (requireId db q) (\<lambda>_. bindR (assertNoParentCycle db i q) (\<lambda>_. Inr (Some q))))"

definition check_update :: "mind_db \<Rightarrow> item_row \<Rightarrow> update_patch \<Rightarrow> mind_error + checked_patch" where
  "check_update db cur p =
     bindR (opt_res (\<lambda>t. bindR (assertText t ''title'' 240 False) (\<lambda>_. Inr (trim t))) (up_title p)) (\<lambda>title.
     bindR (opt_res (\<lambda>b. bindR (assertText b ''body'' 100000 True) (\<lambda>_. Inr b)) (up_body p)) (\<lambda>body.
     bindR (opt_res assertKind (up_kind p)) (\<lambda>kind.
     bindR (opt_res (\<lambda>s. bindR (assertStatus s) (\<lambda>st. bindR (assertStatusTransition (it_status cur) st) (\<lambda>_. Inr st)))
       (up_status p)) (\<lambda>st.
     bindR (opt_res assertPriority (up_priority p)) (\<lambda>prio.
     bindR (opt_res (check_patch_due (case st of None \<Rightarrow> it_status cur | Some s \<Rightarrow> s)) (up_due p)) (\<lambda>due.
     bindR (opt_res (check_patch_parent db (it_id cur)) (up_parent p)) (\<lambda>parent.
     bindR (opt_res (map_res normalizeTag) (up_tags p)) (\<lambda>tags.
       Inr \<lparr>cp_title = title, cp_body = body, cp_kind = kind, cp_status = st, cp_priority = prio,
            cp_due = due, cp_parent = parent, cp_tags = map_option uniq tags\<rparr>))))))))"

definition or_else :: "'a option \<Rightarrow> 'a \<Rightarrow> 'a" where
  "or_else x d = (case x of None \<Rightarrow> d | Some a \<Rightarrow> a)"

definition sets_columns :: "checked_patch \<Rightarrow> bool" where
  "sets_columns p \<longleftrightarrow> cp_title p \<noteq> None \<or> cp_body p \<noteq> None \<or> cp_kind p \<noteq> None \<or> cp_status p \<noteq> None \<or>
     cp_priority p \<noteq> None \<or> cp_due p \<noteq> None \<or> cp_parent p \<noteq> None"

definition apply_patch :: "time \<Rightarrow> checked_patch \<Rightarrow> item_row \<Rightarrow> item_row" where
  "apply_patch now p r =
     r\<lparr>it_title := or_else (cp_title p) (it_title r), it_body := or_else (cp_body p) (it_body r),
       it_kind := or_else (cp_kind p) (it_kind r), it_status := or_else (cp_status p) (it_status r),
       it_closed_at := (case cp_status p of None \<Rightarrow> it_closed_at r
         | Some s \<Rightarrow> if closes s then Some now else None),
       it_priority := or_else (cp_priority p) (it_priority r), it_due := or_else (cp_due p) (it_due r),
       it_parent := or_else (cp_parent p) (it_parent r), it_updated_at := now\<rparr>"

definition changed_data :: "checked_patch \<Rightarrow> (string \<times> json) list" where
  "changed_data p =
     (case cp_title p of None \<Rightarrow> [] | Some t \<Rightarrow> [(''title'', JStr t)]) @
     (case cp_body p of None \<Rightarrow> [] | Some t \<Rightarrow> [(''body'', JStr t)]) @
     (case cp_kind p of None \<Rightarrow> [] | Some k \<Rightarrow> [(''kind'', JStr (kind_name k))]) @
     (case cp_status p of None \<Rightarrow> [] | Some s \<Rightarrow> [(''status'', JStr (status_name s))]) @
     (case cp_priority p of None \<Rightarrow> [] | Some n \<Rightarrow> [(''priority'', JNum (of_int n))]) @
     (case cp_due p of None \<Rightarrow> [] | Some d \<Rightarrow> [(''dueAt'', json_opt JNum d)]) @
     (case cp_parent p of None \<Rightarrow> [] | Some q \<Rightarrow> [(''parentId'', json_opt JStr q)]) @
     (case cp_tags p of None \<Rightarrow> [] | Some ts \<Rightarrow> [(''tags'', JArr (map JStr ts))])"

definition pickItemSnapshot :: "item_row \<Rightarrow> string list \<Rightarrow> json" where
  "pickItemSnapshot r tags = JObj [(''title'', JStr (it_title r)), (''body'', JStr (it_body r)),
     (''kind'', JStr (kind_name (it_kind r))), (''status'', JStr (status_name (it_status r))),
     (''priority'', JNum (of_int (it_priority r))), (''parentId'', json_opt JStr (it_parent r)),
     (''dueAt'', json_opt JNum (it_due r)), (''tags'', JArr (map JStr tags))]"

definition write_columns :: "time \<Rightarrow> string \<Rightarrow> checked_patch \<Rightarrow> mind_db \<Rightarrow> mind_db" where
  "write_columns now i p db = (if sets_columns p then update_item i (apply_patch now p) db else db)"

definition write_tags :: "time \<Rightarrow> string \<Rightarrow> checked_patch \<Rightarrow> mind_db \<Rightarrow> mind_db" where
  "write_tags now i p db =
     (case cp_tags p of None \<Rightarrow> db
      | Some ts \<Rightarrow> touch i now (db\<lparr>db_tags := delete_where (\<lambda>t. tg_item t = i) (db_tags db) @
           map (\<lambda>t. \<lparr>tg_item = i, tg_tag = t\<rparr>) ts\<rparr>))"

definition revokes :: "checked_patch \<Rightarrow> bool" where
  "revokes p \<longleftrightarrow> (case cp_status p of None \<Rightarrow> False | Some s \<Rightarrow> s \<noteq> InProgress) \<or>
     (case cp_kind p of None \<Rightarrow> False | Some k \<Rightarrow> k \<noteq> Task)"

definition revoke_claim :: "time \<Rightarrow> string \<Rightarrow> item_row \<Rightarrow> checked_patch \<Rightarrow> string \<Rightarrow> mind_db \<Rightarrow> mind_db" where
  "revoke_claim now i cur p actor db =
     (if revokes p then
        (case claim_of db i of
           None \<Rightarrow> db
         | Some c \<Rightarrow> add_event i ''claim.revoked'' actor
             [(''owner'', JStr (cl_owner c)), (''status'', JStr (status_name (or_else (cp_status p) (it_status cur)))),
              (''kind'', JStr (kind_name (or_else (cp_kind p) (it_kind cur))))] now (delete_claim i db))
      else db)"

definition update_event :: "time \<Rightarrow> string \<Rightarrow> item_row \<Rightarrow> string list \<Rightarrow> checked_patch \<Rightarrow> string \<Rightarrow> mind_db \<Rightarrow> mind_db" where
  "update_event now i cur tags p actor db =
     (if changed_data p = [] then db
      else add_event i (if cp_status p \<noteq> None \<and> length (changed_data p) = 1 then ''item.status'' else ''item.updated'')
        actor [(''before'', pickItemSnapshot cur tags), (''patch'', JObj (changed_data p))] now db)"

definition mind_update ::
  "time \<Rightarrow> string \<Rightarrow> update_patch \<Rightarrow> string \<Rightarrow> (mind_error, mind_db, mind_detail option) action" where
  "mind_update now i patch actor = reads (\<lambda>db.
     andThen (lift (requireId db i)) (\<lambda>_.
     case item_by_id db i of
       None \<Rightarrow> throw (NoItem i)
     | Some cur \<Rightarrow>
         andThen (lift (check_update db cur patch)) (\<lambda>p.
         and_get now i (transaction (modify (\<lambda>db'.
           update_event now i cur (tagsFor db i) p actor
             (revoke_claim now i cur p actor (write_tags now i p (write_columns now i p db')))))))))"

definition setStatus ::
  "time \<Rightarrow> string \<Rightarrow> string \<Rightarrow> string \<Rightarrow> (mind_error, mind_db, mind_detail option) action" where
  "setStatus now i st actor = mind_update now i (empty_patch\<lparr>up_status := Some st\<rparr>) actor"

definition mind_archive :: "time \<Rightarrow> string \<Rightarrow> string \<Rightarrow> (mind_error, mind_db, mind_detail option) action" where
  "mind_archive now i actor = reads (\<lambda>db.
     andThen (lift (requireId db i)) (\<lambda>_.
     and_get now i (transaction (modify (\<lambda>db.
       let db1 = update_item i (\<lambda>r. r\<lparr>it_archived_at := Some now, it_updated_at := now\<rparr>) db;
           db2 = (case claim_of db i of
                    None \<Rightarrow> db1
                  | Some c \<Rightarrow> add_event i ''claim.revoked'' actor
                      [(''owner'', JStr (cl_owner c)), (''archived'', JBool True)] now (delete_claim i db1))
       in add_event i ''item.archived'' actor [] now db2)))))"

definition mind_restore :: "time \<Rightarrow> string \<Rightarrow> string \<Rightarrow> (mind_error, mind_db, mind_detail option) action" where
  "mind_restore now i actor = reads (\<lambda>db.
     andThen (lift (requireId db i)) (\<lambda>_.
     and_get now i (modify (\<lambda>db. add_event i ''item.restored'' actor [] now
       (update_item i (\<lambda>r. r\<lparr>it_archived_at := None, it_updated_at := now\<rparr>) db)))))"

section \<open>Comments and tags\<close>

definition addComment :: "time \<Rightarrow> string \<Rightarrow> string \<Rightarrow> string \<Rightarrow> (mind_error, mind_db, mind_comment) action" where
  "addComment now i body author = reads (\<lambda>db.
     andThen (lift (requireId db i)) (\<lambda>_.
     andThen (lift (assertText body ''comment'' 20000 False)) (\<lambda>_.
     (\<lambda>db. map_prod Inr id (addCommentInternal i body author now None db)))))"

definition addReply ::
  "time \<Rightarrow> string \<Rightarrow> int \<Rightarrow> string \<Rightarrow> string \<Rightarrow> (mind_error, mind_db, mind_comment) action" where
  "addReply now i replyTo body author = reads (\<lambda>db.
     andThen (lift (requireId db i)) (\<lambda>_.
     andThen (lift (assertText body ''comment'' 20000 False)) (\<lambda>_.
     andThen (lift (case live_comment db replyTo of
         None \<Rightarrow> Inl (NoComment replyTo)
       | Some c \<Rightarrow> if cm_item c \<noteq> i then Inl (ForeignComment replyTo i) else Inr ())) (\<lambda>_.
     (\<lambda>db. map_prod Inr id (addCommentInternal i body author now (Some replyTo) db))))))"

definition updateComment ::
  "time \<Rightarrow> int \<Rightarrow> string \<Rightarrow> string \<Rightarrow> (mind_error, mind_db, mind_comment) action" where
  "updateComment now cid body author = reads (\<lambda>db.
     andThen (lift (assertText body ''comment'' 20000 False)) (\<lambda>_.
     case live_comment db cid of
       None \<Rightarrow> throw (NoComment cid)
     | Some c \<Rightarrow>
         andThen (modify (\<lambda>db.
           add_event (cm_item c) ''comment.updated'' author [(''commentId'', JNum (of_int cid))] now
           (touch (cm_item c) now
             (db\<lparr>db_comments := update_where (\<lambda>r. cm_id r = cid)
                 (\<lambda>r. r\<lparr>cm_body := trim body, cm_updated := Some now\<rparr>) (db_comments db)\<rparr>)))) (\<lambda>_.
         ok ((mind_comment.truncate c)\<lparr>cm_body := trim body, cm_updated := Some now\<rparr>))))"

definition deleteComment :: "time \<Rightarrow> int \<Rightarrow> string \<Rightarrow> (mind_error, mind_db, bool) action" where
  "deleteComment now cid actor = reads (\<lambda>db.
     case live_comment db cid of
       None \<Rightarrow> ok False
     | Some c \<Rightarrow>
         andThen (modify (\<lambda>db.
           add_event (cm_item c) ''comment.deleted'' actor [(''commentId'', JNum (of_int cid))] now
           (touch (cm_item c) now
             (db\<lparr>db_comments := update_where (\<lambda>r. cm_id r = cid)
                 (\<lambda>r. r\<lparr>cm_deleted := Some now\<rparr>) (db_comments db)\<rparr>)))) (\<lambda>_. ok True))"

definition has_tag :: "mind_db \<Rightarrow> string \<Rightarrow> string \<Rightarrow> bool" where
  "has_tag db i t \<longleftrightarrow> list_ex (\<lambda>x. tg_item x = i \<and> tg_tag x = t) (db_tags db)"

definition addTag :: "time \<Rightarrow> string \<Rightarrow> string \<Rightarrow> string \<Rightarrow> (mind_error, mind_db, mind_detail option) action" where
  "addTag now i tag actor = reads (\<lambda>db.
     andThen (lift (requireId db i)) (\<lambda>_.
     andThen (lift (normalizeTag tag)) (\<lambda>t.
     and_get now i (modify (\<lambda>db.
       if has_tag db i t then db
       else add_event i ''tag.added'' actor [(''tag'', JStr t)] now
         (db\<lparr>db_tags := db_tags db @ [\<lparr>tg_item = i, tg_tag = t\<rparr>]\<rparr>))))))"

definition removeTag :: "time \<Rightarrow> string \<Rightarrow> string \<Rightarrow> string \<Rightarrow> (mind_error, mind_db, mind_detail option) action" where
  "removeTag now i tag actor = reads (\<lambda>db.
     andThen (lift (requireId db i)) (\<lambda>_.
     andThen (lift (normalizeTag tag)) (\<lambda>t.
     and_get now i (modify (\<lambda>db.
       if has_tag db i t then add_event i ''tag.removed'' actor [(''tag'', JStr t)] now
         (db\<lparr>db_tags := delete_where (\<lambda>x. tg_item x = i \<and> tg_tag x = t) (db_tags db)\<rparr>)
       else db)))))"

section \<open>Reminder records\<close>

definition reminderById :: "mind_db \<Rightarrow> int \<Rightarrow> reminder_row option" where
  "reminderById db rid = find (\<lambda>r. rm_id r = rid) (db_reminders db)"

definition is_pending :: "reminder_row \<Rightarrow> bool" where
  "is_pending r \<longleftrightarrow> rm_fired r = None \<and> rm_cancelled r = None"

definition pendingReminders :: "mind_db \<Rightarrow> string \<Rightarrow> reminder_row list" where
  "pendingReminders db i = sort_by (\<lambda>a b. rm_fire a \<le> rm_fire b)
     (filter (\<lambda>r. rm_item r = i \<and> is_pending r) (db_reminders db))"

definition createReminderRecord ::
  "time \<Rightarrow> string \<Rightarrow> int \<Rightarrow> time \<Rightarrow> string option \<Rightarrow> string \<Rightarrow> (mind_error, mind_db, reminder_row) action" where
  "createReminderRecord now i task fireAt channel by = (\<lambda>db.
     case item_by_id db i of
       None \<Rightarrow> (Inl (NoItem i), db)
     | Some r \<Rightarrow>
         if it_status r = Proposal then (Inl ProposalReminders, db)
         else if list_ex (\<lambda>x. rm_task x = task) (db_reminders db) then (Inl UniqueViolation, db)
         else
           let rid = db_next_reminder db;
               row = \<lparr>rm_id = rid, rm_item = i, rm_task = task, rm_fire = fireAt, rm_channel = channel,
                      rm_by = by, rm_created = now, rm_fired = None, rm_cancelled = None\<rparr>
           in (Inr row, add_event i ''reminder.added'' by
                [(''reminderId'', JNum (of_int rid)), (''scheduledTaskId'', JNum (of_int task)),
                 (''fireAt'', JNum fireAt), (''channelId'', json_opt JStr channel)] now
                (db\<lparr>db_reminders := db_reminders db @ [row], db_next_reminder := rid + 1\<rparr>)))"

definition update_reminder :: "int \<Rightarrow> (reminder_row \<Rightarrow> reminder_row) \<Rightarrow> mind_db \<Rightarrow> mind_db" where
  "update_reminder rid f db = db\<lparr>db_reminders := update_where (\<lambda>r. rm_id r = rid) f (db_reminders db)\<rparr>"

definition markReminderFiredByTask :: "time \<Rightarrow> int \<Rightarrow> mind_db \<Rightarrow> mind_db" where
  "markReminderFiredByTask now task db =
     (case find (\<lambda>r. rm_task r = task \<and> is_pending r) (db_reminders db) of
        None \<Rightarrow> db
      | Some r \<Rightarrow> add_event (rm_item r) ''reminder.fired'' ''scheduler''
          [(''reminderId'', JNum (of_int (rm_id r))), (''scheduledTaskId'', JNum (of_int task))] now
          (update_reminder (rm_id r) (\<lambda>x. x\<lparr>rm_fired := Some now\<rparr>) db))"

definition cancelReminderRecord :: "time \<Rightarrow> int \<Rightarrow> string \<Rightarrow> mind_db \<Rightarrow> reminder_row option \<times> mind_db" where
  "cancelReminderRecord now rid actor db =
     (case reminderById db rid of
        None \<Rightarrow> (None, db)
      | Some r \<Rightarrow>
          if rm_cancelled r \<noteq> None \<or> rm_fired r \<noteq> None then (Some r, db)
          else let db' = add_event (rm_item r) ''reminder.cancelled'' actor
                     [(''reminderId'', JNum (of_int rid)), (''scheduledTaskId'', JNum (of_int (rm_task r)))] now
                     (update_reminder rid (\<lambda>x. x\<lparr>rm_cancelled := Some now\<rparr>) db)
               in (reminderById db' rid, db'))"

definition updateReminderRecord ::
  "time \<Rightarrow> int \<Rightarrow> time \<Rightarrow> string \<Rightarrow> (mind_error, mind_db, reminder_row option) action" where
  "updateReminderRecord now rid fireAt actor = (\<lambda>db.
     case reminderById db rid of
       None \<Rightarrow> (Inl (NoReminder rid), db)
     | Some r \<Rightarrow>
         let db' = add_event (rm_item r) ''reminder.snoozed'' actor
               [(''reminderId'', JNum (of_int rid)), (''fireAt'', JNum fireAt)] now
               (update_reminder rid (\<lambda>x. x\<lparr>rm_fire := fireAt\<rparr>) db)
         in (Inr (reminderById db' rid), db'))"

end
