(* ===== verification/Mind_Invariant.thy ===== *)
theory Mind_Invariant
  imports Mind_Write
begin

text \<open>
  The integrity of the Mind database: what the foreign keys, the UNIQUE constraints, the CHECK
  constraints and triggers of the schema, and the code itself, are meant to keep true. Every
  write of \<open>MindStore\<close> keeps it, on return and on a throw.

  Between the statements of one operation a claim may briefly disagree with its item (the lease
  row is inserted before the status is written), so the invariant is stated up to a set of item
  ids whose claims are exempt; it is the invariant proper when that set is empty.
\<close>

section \<open>Actions that return the item\<close>

lemma safe_and_get [safe_intro]: "safe_at I m s \<Longrightarrow> safe_at I (and_get now i m) s"
  by (auto simp: safe_at_def and_get_def action_simps split: prod.splits sum.splits)

lemma atomic_and_get [atomic_intro]: "atomic_on_error m \<Longrightarrow> atomic_on_error (and_get now i m)"
  unfolding and_get_def by (rule atomic_andThen_safe) (simp_all add: never_throws_def action_simps)

section \<open>The invariant\<close>

definition item_ids :: "mind_db \<Rightarrow> string set" where
  "item_ids db = it_id ` set (db_items db)"

definition proposals :: "mind_db \<Rightarrow> string set" where
  "proposals db = it_id ` {r \<in> set (db_items db). it_status r = Proposal}"

definition claimable :: "mind_db \<Rightarrow> string set" where
  "claimable db = it_id ` {r \<in> set (db_items db).
     it_status r = InProgress \<and> it_kind r = Task \<and> it_archived_at r = None}"

definition row_ok :: "item_row \<Rightarrow> bool" where
  "row_ok r \<longleftrightarrow> isMindId (it_id r) \<and> 0 \<le> it_priority r \<and> it_priority r \<le> 4 \<and>
     (closes (it_status r) \<longleftrightarrow> it_closed_at r \<noteq> None) \<and>
     (it_status r = Proposal \<longrightarrow> it_due r = None) \<and>
     it_title r \<noteq> [] \<and> trim (it_title r) = it_title r \<and> length (it_title r) \<le> 240 \<and>
     length (it_body r) \<le> 100000 \<and> (case it_due r of None \<Rightarrow> True | Some d \<Rightarrow> 0 < d)"

definition items_inv :: "mind_db \<Rightarrow> bool" where
  "items_inv db \<longleftrightarrow> distinct (map it_id (db_items db)) \<and> list_all row_ok (db_items db) \<and>
     snd ` set (parent_edges db) \<subseteq> item_ids db \<and> acyclic (set (parent_edges db))"

definition deps_inv :: "mind_db \<Rightarrow> bool" where
  "deps_inv db \<longleftrightarrow> distinct (dep_edges db) \<and> acyclic (set (dep_edges db)) \<and>
     set (dep_edges db) \<subseteq> (item_ids db - proposals db) \<times> (item_ids db - proposals db)"

definition lease_ok :: "claim_row \<Rightarrow> bool" where
  "lease_ok c \<longleftrightarrow> 60000 \<le> cl_expires c - cl_renewed c \<and> cl_expires c - cl_renewed c \<le> 14400000 \<and>
     trim (cl_principal c) = cl_principal c \<and> cl_principal c \<noteq> []"

definition claims_inv :: "string set \<Rightarrow> mind_db \<Rightarrow> bool" where
  "claims_inv X db \<longleftrightarrow> distinct (map cl_item (db_claims db)) \<and> list_all lease_ok (db_claims db) \<and>
     cl_item ` set (db_claims db) \<subseteq> item_ids db \<and> cl_item ` set (db_claims db) - X \<subseteq> claimable db"

definition refs_inv :: "mind_db \<Rightarrow> bool" where
  "refs_inv db \<longleftrightarrow>
     distinct (db_tags db) \<and> tg_item ` set (db_tags db) \<subseteq> item_ids db \<and>
     list_all (\<lambda>t. valid_tag (tg_tag t) \<and> length (tg_tag t) \<le> 48) (db_tags db) \<and>
     rowids cm_id (db_next_comment db) (db_comments db) \<and> cm_item ` set (db_comments db) \<subseteq> item_ids db \<and>
     rowids ev_id (db_next_event db) (db_events db) \<and> ev_item ` set (db_events db) \<subseteq> item_ids db \<and>
     rowids rm_id (db_next_reminder db) (db_reminders db) \<and>
     distinct (map rm_task (db_reminders db)) \<and>
     rm_item ` set (db_reminders db) \<subseteq> item_ids db - proposals db"

text \<open>A reply answers a comment of its own item.\<close>

definition replies_inv :: "mind_db \<Rightarrow> bool" where
  "replies_inv db \<longleftrightarrow> (\<forall>c \<in> set (db_comments db). \<forall>n. cm_reply c = Some n \<longrightarrow>
     (n, cm_item c) \<in> (\<lambda>d. (cm_id d, cm_item d)) ` set (db_comments db) \<and> n < cm_id c)"

definition mind_inv_x :: "string set \<Rightarrow> mind_db \<Rightarrow> bool" where
  "mind_inv_x X db \<longleftrightarrow> items_inv db \<and> deps_inv db \<and> claims_inv X db \<and> refs_inv db \<and> replies_inv db"

definition mind_inv :: "mind_db \<Rightarrow> bool" where
  "mind_inv = mind_inv_x {}"

lemmas mind_inv_parts = mind_inv_x_def items_inv_def deps_inv_def claims_inv_def refs_inv_def replies_inv_def
lemmas item_sets = item_ids_def proposals_def claimable_def parent_edges_def dep_edges_def

lemma mind_inv_weaken: "mind_inv_x X db \<Longrightarrow> X \<subseteq> Y \<Longrightarrow> mind_inv_x Y db"
  by (auto simp: mind_inv_x_def claims_inv_def)

lemma mind_inv_empty: "mind_inv empty_db"
  by (simp add: mind_inv_def mind_inv_parts empty_db_def item_sets rowids_def List.map_filter_def acyclic_def)

lemma item_ids_frame [simp]:
  "item_ids (db\<lparr>db_deps := a\<rparr>) = item_ids db" "item_ids (db\<lparr>db_tags := b\<rparr>) = item_ids db"
  "item_ids (db\<lparr>db_comments := c\<rparr>) = item_ids db" "item_ids (db\<lparr>db_events := d\<rparr>) = item_ids db"
  "item_ids (db\<lparr>db_reminders := e\<rparr>) = item_ids db" "item_ids (db\<lparr>db_claims := f\<rparr>) = item_ids db"
  "item_ids (db\<lparr>db_next_comment := n\<rparr>) = item_ids db" "item_ids (db\<lparr>db_next_event := n\<rparr>) = item_ids db"
  "item_ids (db\<lparr>db_next_reminder := n\<rparr>) = item_ids db"
  by (simp_all add: item_ids_def)

section \<open>Statements keep the invariant\<close>

lemma inv_add_event:
  "mind_inv_x X db \<Longrightarrow> i \<in> item_ids db \<Longrightarrow> mind_inv_x X (add_event i typ actor data tm db)"
  by (auto simp: mind_inv_parts add_event_def item_sets intro: rowids_append)

lemma map_id_update:
  "(\<And>r. it_id (f r) = it_id r) \<Longrightarrow> map it_id (db_items (update_item i f db)) = map it_id (db_items db)"
  by (simp add: update_item_def map_update_where)

lemma item_ids_update [simp]: "(\<And>r. it_id (f r) = it_id r) \<Longrightarrow> item_ids (update_item i f db) = item_ids db"
  by (metis item_ids_def list.set_map map_id_update)

lemma proposals_update:
  assumes "\<And>r. it_id (f r) = it_id r"
    and "\<And>r. r \<in> set (db_items db) \<Longrightarrow> it_id r = i \<Longrightarrow> it_status (f r) = Proposal \<Longrightarrow> it_status r = Proposal"
  shows "proposals (update_item i f db) \<subseteq> proposals db"
  using assms by (force simp: proposals_def update_item_def set_update_where)

lemma claimable_update:
  assumes "\<And>r. it_id (f r) = it_id r"
    and "i \<in> Y \<or> (\<forall>r. it_status r = InProgress \<and> it_kind r = Task \<and> it_archived_at r = None \<longrightarrow>
           it_status (f r) = InProgress \<and> it_kind (f r) = Task \<and> it_archived_at (f r) = None)"
  shows "claimable db - Y \<subseteq> claimable (update_item i f db)"
proof
  fix x assume "x \<in> claimable db - Y"
  then obtain r where r: "r \<in> set (db_items db)" "it_id r = x" "x \<notin> Y" "it_status r = InProgress"
    "it_kind r = Task" "it_archived_at r = None" by (auto simp: claimable_def)
  define q where "q = (if it_id r = i then f r else r)"
  have "q \<in> set (db_items (update_item i f db))"
    using r(1) by (simp add: q_def update_item_def set_update_where)
  moreover have "it_id q = x" "it_status q = InProgress" "it_kind q = Task" "it_archived_at q = None"
    using assms r by (auto simp: q_def)
  ultimately show "x \<in> claimable (update_item i f db)" unfolding claimable_def by blast
qed

lemma map_filter_update_where:
  "(\<And>r. g (f r) = g r) \<Longrightarrow> List.map_filter g (update_where p f rows) = List.map_filter g rows"
  by (induction rows) (auto simp: update_where_def List.map_filter_simps split: option.split)

lemma parent_edges_update:
  "(\<And>r. it_id (f r) = it_id r) \<Longrightarrow> (\<And>r. it_parent (f r) = it_parent r) \<Longrightarrow>
   parent_edges (update_item i f db) = parent_edges db"
  by (simp add: parent_edges_def update_item_def map_filter_update_where)

lemma update_item_other [simp]:
  "db_deps (update_item i f db) = db_deps db" "db_tags (update_item i f db) = db_tags db"
  "db_comments (update_item i f db) = db_comments db" "db_events (update_item i f db) = db_events db"
  "db_reminders (update_item i f db) = db_reminders db" "db_claims (update_item i f db) = db_claims db"
  "db_next_comment (update_item i f db) = db_next_comment db"
  "db_next_event (update_item i f db) = db_next_event db"
  "db_next_reminder (update_item i f db) = db_next_reminder db"
  "db_id_map (update_item i f db) = db_id_map db"
  by (simp_all add: update_item_def)

lemma items_inv_update:
  assumes inv: "items_inv db" and id: "\<And>r. it_id (f r) = it_id r"
    and ok: "\<And>r. r \<in> set (db_items db) \<Longrightarrow> it_id r = i \<Longrightarrow> row_ok r \<Longrightarrow> row_ok (f r)"
    and par: "snd ` set (parent_edges (update_item i f db)) \<subseteq> item_ids db"
      "acyclic (set (parent_edges (update_item i f db)))"
  shows "items_inv (update_item i f db)"
proof -
  have "list_all row_ok (db_items (update_item i f db))"
    using inv ok by (auto simp: items_inv_def update_item_def list_all_iff set_update_where)
  then show ?thesis using inv par id by (simp add: items_inv_def map_id_update)
qed

lemma inv_update_item_gen:
  assumes inv: "mind_inv_x X db" and id: "\<And>r. it_id (f r) = it_id r"
    and ok: "\<And>r. r \<in> set (db_items db) \<Longrightarrow> it_id r = i \<Longrightarrow> row_ok r \<Longrightarrow> row_ok (f r)"
    and par: "snd ` set (parent_edges (update_item i f db)) \<subseteq> item_ids db"
      "acyclic (set (parent_edges (update_item i f db)))"
    and pr: "\<And>r. r \<in> set (db_items db) \<Longrightarrow> it_id r = i \<Longrightarrow> it_status (f r) = Proposal \<Longrightarrow> it_status r = Proposal"
    and cl: "i \<in> X \<or> i \<notin> cl_item ` set (db_claims db) \<or>
      (\<forall>r. it_status r = InProgress \<and> it_kind r = Task \<and> it_archived_at r = None \<longrightarrow>
           it_status (f r) = InProgress \<and> it_kind (f r) = Task \<and> it_archived_at (f r) = None)"
  shows "mind_inv_x X (update_item i f db)"
proof -
  let ?d = "update_item i f db" and ?C = "cl_item ` set (db_claims db)"
  have P: "proposals ?d \<subseteq> proposals db" by (rule proposals_update [OF id pr])
  have "claimable db - (X \<union> - ?C) \<subseteq> claimable ?d"
    using cl by (intro claimable_update id) auto
  moreover have "?C - X \<subseteq> claimable db" using inv by (simp add: mind_inv_x_def claims_inv_def)
  ultimately have "claims_inv X ?d" using inv id by (auto simp: mind_inv_x_def claims_inv_def)
  moreover have "deps_inv ?d" using inv P id by (auto simp: mind_inv_x_def deps_inv_def dep_edges_def)
  moreover have "refs_inv ?d" using inv P id by (auto simp: mind_inv_x_def refs_inv_def)
  moreover have "items_inv ?d" using inv by (intro items_inv_update id ok par) (auto simp: mind_inv_x_def)
  ultimately show ?thesis using inv by (simp add: mind_inv_x_def replies_inv_def)
qed

lemma inv_update_item:
  assumes "mind_inv_x X db" and "\<And>r. it_id (f r) = it_id r" and "\<And>r. it_parent (f r) = it_parent r"
    and "\<And>r. it_id r = i \<Longrightarrow> row_ok r \<Longrightarrow> row_ok (f r)"
    and "\<And>r. it_status (f r) = Proposal \<Longrightarrow> it_status r = Proposal"
    and "i \<in> X \<or> i \<notin> cl_item ` set (db_claims db) \<or>
      (\<forall>r. it_status r = InProgress \<and> it_kind r = Task \<and> it_archived_at r = None \<longrightarrow>
           it_status (f r) = InProgress \<and> it_kind (f r) = Task \<and> it_archived_at (f r) = None)"
  shows "mind_inv_x X (update_item i f db)"
  using assms by (intro inv_update_item_gen) (simp_all add: parent_edges_update mind_inv_x_def items_inv_def)

lemma inv_touch: "mind_inv_x X db \<Longrightarrow> mind_inv_x X (touch i tm db)"
  unfolding touch_def by (rule inv_update_item) (auto simp: row_ok_def)

lemma item_ids_touch [simp]: "item_ids (touch i tm db) = item_ids db"
  by (simp add: touch_def)

lemma item_ids_set_status [simp]: "item_ids (set_status i st c tm db) = item_ids db"
  by (simp add: set_status_def)

lemma inv_set_status:
  assumes "mind_inv_x X db" and "st \<noteq> Proposal" and "closes st \<longleftrightarrow> c \<noteq> None"
    and "i \<in> X \<or> i \<notin> cl_item ` set (db_claims db)"
  shows "mind_inv_x X (set_status i st c tm db)"
  unfolding set_status_def using assms by (intro inv_update_item) (auto simp: row_ok_def)

lemma inv_delete_claim: "mind_inv_x X db \<Longrightarrow> mind_inv_x (X - {i}) (delete_claim i db)"
  unfolding mind_inv_parts delete_claim_def
  by (auto simp: item_sets distinct_map_delete_where list_all_iff)

lemma item_ids_delete_claim [simp]: "item_ids (delete_claim i db) = item_ids db"
  by (simp add: delete_claim_def item_ids_def)

lemma delete_claim_gone [simp]: "i \<notin> cl_item ` set (db_claims (delete_claim i db))"
  by (auto simp: delete_claim_def)

lemma inv_insert_claim:
  assumes "mind_inv_x X db" and "lease_ok c" and "cl_item c \<in> item_ids db"
    and "cl_item c \<notin> cl_item ` set (db_claims db)"
  shows "mind_inv_x (insert (cl_item c) X) (insert_claim c db)"
  using assms unfolding mind_inv_parts insert_claim_def by (auto simp: item_sets)

lemma inv_update_claim:
  assumes "mind_inv_x X db" and "\<And>c. cl_item (f c) = cl_item c" and "\<And>c. lease_ok c \<Longrightarrow> lease_ok (f c)"
  shows "mind_inv_x X (update_claim i f db)"
proof -
  have "map cl_item (db_claims (update_claim i f db)) = map cl_item (db_claims db)"
    by (simp add: update_claim_def map_update_where assms(2))
  moreover from this have "cl_item ` set (db_claims (update_claim i f db)) = cl_item ` set (db_claims db)"
    by (metis list.set_map)
  moreover have "list_all lease_ok (db_claims db) \<Longrightarrow> list_all lease_ok (db_claims (update_claim i f db))"
    using assms(3) by (auto simp: update_claim_def list_all_iff set_update_where)
  ultimately show ?thesis using assms(1) unfolding mind_inv_parts
    by (simp add: item_sets) (simp add: update_claim_def)
qed

lemma item_ids_update_claim [simp]: "item_ids (update_claim i f db) = item_ids db"
  by (simp add: update_claim_def item_ids_def)

text \<open>The exemption ends once the item agrees with the claim again.\<close>

lemma inv_settle:
  "mind_inv_x (insert i X) db \<Longrightarrow> i \<in> claimable db \<or> i \<notin> cl_item ` set (db_claims db) \<Longrightarrow> mind_inv_x X db"
  by (auto simp: mind_inv_x_def claims_inv_def)

section \<open>Edges that pass a cycle check\<close>

text \<open>
  What a client of a cycle check relies on: an accepted edge closes no path, and an eligible
  edge is refused only when it would. Both relations of the graph, dependencies and parents,
  are guarded this way.
\<close>

locale cycle_guard =
  fixes edges :: "'s \<Rightarrow> ('k \<times> 'k) list"
    and check :: "'s \<Rightarrow> 'k \<Rightarrow> 'k \<Rightarrow> 'e + unit"
    and eligible :: "'s \<Rightarrow> 'k \<Rightarrow> 'k \<Rightarrow> bool"
  assumes check_sound: "check s i j = Inr () \<Longrightarrow> i \<noteq> j \<and> i \<notin> set (cte_reach (edges s) j)"
    and check_complete:
      "eligible s i j \<Longrightarrow> i \<noteq> j \<Longrightarrow> i \<notin> set (cte_reach (edges s) j) \<Longrightarrow> check s i j = Inr ()"
begin

lemma no_path_back: "check s i j = Inr () \<Longrightarrow> (j, i) \<notin> (set (edges s))\<^sup>*"
  using check_sound by (auto simp: set_cte_reach rtrancl_eq_or_trancl)

lemma acyclic_accepted:
  assumes "acyclic (set (edges s))" and "check s i j = Inr ()" and "E \<subseteq> insert (i, j) (set (edges s))"
  shows "acyclic E"
proof (rule acyclic_subset [OF _ assms(3)])
  show "acyclic (insert (i, j) (set (edges s)))"
    using assms(1) no_path_back [OF assms(2)] by simp
qed

lemma accepted_iff_acyclic:
  assumes "acyclic (set (edges s))" and "eligible s i j"
  shows "check s i j = Inr () \<longleftrightarrow> acyclic (insert (i, j) (set (edges s)))"
proof
  assume "check s i j = Inr ()"
  then show "acyclic (insert (i, j) (set (edges s)))" using assms(1) acyclic_accepted by blast
next
  assume "acyclic (insert (i, j) (set (edges s)))"
  then have "(j, i) \<notin> (set (edges s))\<^sup>*" by simp
  then show "check s i j = Inr ()"
    using assms(2) by (intro check_complete) (auto simp: set_cte_reach rtrancl_eq_or_trancl)
qed

end

definition dep_eligible :: "mind_db \<Rightarrow> string \<Rightarrow> string \<Rightarrow> bool" where
  "dep_eligible db i j \<longleftrightarrow> \<not> list_ex (\<lambda>r. it_id r \<in> {i, j} \<and> it_status r = Proposal) (db_items db)"

interpretation dep_guard: cycle_guard dep_edges "\<lambda>db i j. fst (addDependencyInternal i j actor tm db)" dep_eligible
  for actor tm
  by unfold_locales (auto simp: addDependencyInternal_def dep_eligible_def split: if_splits)

interpretation parent_guard: cycle_guard parent_edges assertNoParentCycle "\<lambda>db i j. True"
  by unfold_locales (auto simp: assertNoParentCycle_def split: if_splits)

section \<open>Comments, dependencies, tags and new items\<close>

lemma inv_comment_row:
  assumes inv: "mind_inv_x X db" and i: "i \<in> item_ids db" and row: "cm_id row = db_next_comment db" "cm_item row = i"
    and reply: "\<And>n. cm_reply row = Some n \<Longrightarrow> (n, i) \<in> (\<lambda>d. (cm_id d, cm_item d)) ` set (db_comments db)"
  shows "mind_inv_x X (db\<lparr>db_comments := db_comments db @ [row], db_next_comment := db_next_comment db + 1\<rparr>)"
proof -
  have lt: "n < db_next_comment db" if "(n, k) \<in> (\<lambda>d. (cm_id d, cm_item d)) ` set (db_comments db)" for n k
    using inv that by (auto simp: mind_inv_x_def refs_inv_def rowids_def)
  have "replies_inv (db\<lparr>db_comments := db_comments db @ [row], db_next_comment := db_next_comment db + 1\<rparr>)"
    using inv row reply lt by (fastforce simp: mind_inv_x_def replies_inv_def)
  moreover have "refs_inv (db\<lparr>db_comments := db_comments db @ [row], db_next_comment := db_next_comment db + 1\<rparr>)"
    using inv i row by (auto simp: mind_inv_x_def refs_inv_def item_sets intro: rowids_append)
  ultimately show ?thesis
    using inv by (simp add: mind_inv_x_def items_inv_def deps_inv_def claims_inv_def item_sets)
qed

lemma inv_addComment:
  assumes "mind_inv_x X db" and "i \<in> item_ids db"
    and "\<And>n. replyTo = Some n \<Longrightarrow> (n, i) \<in> (\<lambda>d. (cm_id d, cm_item d)) ` set (db_comments db)"
  shows "mind_inv_x X (snd (addCommentInternal i body author tm replyTo db))"
  unfolding addCommentInternal_def Let_def snd_conv
  by (rule inv_add_event, rule inv_touch, rule inv_comment_row)
    (use assms in simp_all)

lemma item_ids_add_event [simp]: "item_ids (add_event i typ actor data tm db) = item_ids db"
  by (simp add: add_event_def)

lemma item_ids_addComment [simp]: "item_ids (snd (addCommentInternal i body author tm replyTo db)) = item_ids db"
  by (simp add: addCommentInternal_def Let_def)

lemma claims_add_event [simp]: "db_claims (add_event i typ actor data tm db) = db_claims db"
  and claims_addComment [simp]: "db_claims (snd (addCommentInternal i body author tm replyTo db)) = db_claims db"
  by (simp_all add: add_event_def addCommentInternal_def Let_def touch_def)

lemma inv_comment_update:
  assumes "mind_inv_x X db"
    and "\<And>c. cm_id (f c) = cm_id c" "\<And>c. cm_item (f c) = cm_item c" "\<And>c. cm_reply (f c) = cm_reply c"
  shows "mind_inv_x X (db\<lparr>db_comments := update_where p f (db_comments db)\<rparr>)"
proof -
  let ?cs = "update_where p f (db_comments db)"
  have keys: "map (\<lambda>c. (cm_id c, cm_item c, cm_reply c)) ?cs = map (\<lambda>c. (cm_id c, cm_item c, cm_reply c)) (db_comments db)"
    by (rule map_update_where) (simp add: assms)
  have img: "g ` (\<lambda>c. (cm_id c, cm_item c, cm_reply c)) ` set ?cs = g ` (\<lambda>c. (cm_id c, cm_item c, cm_reply c)) ` set (db_comments db)"
    for g :: "int \<times> string \<times> int option \<Rightarrow> 'a"
    using arg_cong [OF keys, of set] by simp
  have "cm_item ` set ?cs = cm_item ` set (db_comments db)"
    using img [of "\<lambda>(_, j, _). j"] by (simp add: image_image)
  moreover have "rowids cm_id (db_next_comment db) ?cs"
    using assms by (intro rowids_update) (auto simp: mind_inv_x_def refs_inv_def)
  moreover have "replies_inv (db\<lparr>db_comments := ?cs\<rparr>)"
  proof -
    have "(\<lambda>d. (cm_id d, cm_item d)) ` set ?cs = (\<lambda>d. (cm_id d, cm_item d)) ` set (db_comments db)"
      using img [of "\<lambda>(n, j, _). (n, j)"] by (simp add: image_image)
    then show ?thesis using assms by (auto simp: mind_inv_x_def replies_inv_def set_update_where)
  qed
  ultimately show ?thesis
    using assms(1) by (simp add: mind_inv_x_def items_inv_def deps_inv_def claims_inv_def refs_inv_def item_sets)
qed

lemma proposal_id_iff: "i \<in> proposals db \<longleftrightarrow> list_ex (\<lambda>r. it_id r = i \<and> it_status r = Proposal) (db_items db)"
  by (auto simp: proposals_def list_ex_iff)

lemma dep_added:
  assumes "addDependencyInternal i j actor tm db = (Inr u, db')"
  shows "i \<notin> proposals db \<and> j \<notin> proposals db \<and>
    (db' = db \<or> (i, j) \<notin> set (dep_edges db) \<and>
     db' = add_event i ''dependency.added'' actor [(''dependsOnId'', JStr j)] tm
       (db\<lparr>db_deps := db_deps db @ [\<lparr>dp_item = i, dp_on = j, dp_by = actor, dp_at = tm\<rparr>]\<rparr>))"
  using assms by (auto simp: addDependencyInternal_def proposal_id_iff list_ex_iff dep_edges_def split: if_splits)

lemma inv_dep_row:
  assumes inv: "mind_inv_x X db" and row: "(i, j) \<notin> set (dep_edges db)" "dp_item d = i" "dp_on d = j"
    and ends: "i \<in> item_ids db - proposals db" "j \<in> item_ids db - proposals db"
    and acy: "acyclic (insert (i, j) (set (dep_edges db)))"
  shows "mind_inv_x X (db\<lparr>db_deps := db_deps db @ [d]\<rparr>)"
proof -
  have e: "dep_edges (db\<lparr>db_deps := db_deps db @ [d]\<rparr>) = dep_edges db @ [(i, j)]"
    using row by (simp add: dep_edges_def)
  have p: "proposals (db\<lparr>db_deps := db_deps db @ [d]\<rparr>) = proposals db" by (simp add: proposals_def)
  have "deps_inv (db\<lparr>db_deps := db_deps db @ [d]\<rparr>)"
    unfolding deps_inv_def e p item_ids_frame using inv row ends acy by (simp add: mind_inv_x_def deps_inv_def)
  then show ?thesis
    using inv by (simp add: mind_inv_x_def items_inv_def claims_inv_def refs_inv_def replies_inv_def item_sets)
qed

lemma inv_addDependency:
  assumes inv: "mind_inv_x X db" and ids: "i \<in> item_ids db" "j \<in> item_ids db"
  shows "mind_inv_x X (snd (addDependencyInternal i j actor tm db))"
proof (cases "addDependencyInternal i j actor tm db")
  case (Pair r db')
  show ?thesis
  proof (cases r)
    case (Inl e)
    with Pair inv show ?thesis by (auto simp: addDependencyInternal_def split: if_splits)
  next
    case (Inr u)
    have "acyclic (set (dep_edges db))" using inv by (simp add: mind_inv_x_def deps_inv_def)
    then have acy: "acyclic (insert (i, j) (set (dep_edges db)))"
      by (rule dep_guard.acyclic_accepted [of db i j actor tm]) (simp_all add: Pair Inr)
    have out: "i \<in> item_ids db - proposals db" "j \<in> item_ids db - proposals db"
      and db': "db' = db \<or> (i, j) \<notin> set (dep_edges db) \<and>
        db' = add_event i ''dependency.added'' actor [(''dependsOnId'', JStr j)] tm
          (db\<lparr>db_deps := db_deps db @ [\<lparr>dp_item = i, dp_on = j, dp_by = actor, dp_at = tm\<rparr>]\<rparr>)"
      using dep_added [of i j actor tm db u db'] Pair Inr ids by blast+
    have "mind_inv_x X (db\<lparr>db_deps := db_deps db @ [\<lparr>dp_item = i, dp_on = j, dp_by = actor, dp_at = tm\<rparr>]\<rparr>)"
      if "(i, j) \<notin> set (dep_edges db)"
      by (rule inv_dep_row [OF inv that]) (simp_all only: out acy dep_row.simps)
    then have "mind_inv_x X db'" using db' inv ids(1) by (metis inv_add_event item_ids_frame(1))
    then show ?thesis by (simp add: Pair)
  qed
qed

lemma item_ids_addDependency [simp]: "item_ids (snd (addDependencyInternal i j actor tm db)) = item_ids db"
  by (simp add: addDependencyInternal_def)

lemma inv_addDependencies:
  "mind_inv_x X db \<Longrightarrow> i \<in> item_ids db \<Longrightarrow> set js \<subseteq> item_ids db \<Longrightarrow>
   mind_inv_x X (snd (for_each (\<lambda>j. addDependencyInternal i j actor tm) js db)) \<and>
   item_ids (snd (for_each (\<lambda>j. addDependencyInternal i j actor tm) js db)) = item_ids db"
proof (induction js arbitrary: db)
  case (Cons j js)
  obtain r db' where r: "addDependencyInternal i j actor tm db = (r, db')" by force
  have "mind_inv_x X db'" "item_ids db' = item_ids db"
    using inv_addDependency [of X db i j actor tm] item_ids_addDependency [of i j actor tm db] Cons.prems r by auto
  then show ?case using Cons r by (cases r) (auto simp: action_simps)
qed (simp add: action_simps)

lemma inv_delete_dep:
  assumes "mind_inv_x X db"
  shows "mind_inv_x X (db\<lparr>db_deps := delete_where p (db_deps db)\<rparr>)"
proof -
  let ?d = "db\<lparr>db_deps := delete_where p (db_deps db)\<rparr>"
  have sub: "set (dep_edges ?d) \<subseteq> set (dep_edges db)" by (auto simp: dep_edges_def)
  have "distinct (dep_edges ?d)"
    using assms by (simp add: mind_inv_x_def deps_inv_def dep_edges_def distinct_map_delete_where)
  moreover have "acyclic (set (dep_edges ?d))"
    using assms sub by (auto simp: mind_inv_x_def deps_inv_def intro: acyclic_subset)
  moreover have "proposals ?d = proposals db" by (simp add: proposals_def)
  ultimately have "deps_inv ?d"
    using assms sub by (auto simp: mind_inv_x_def deps_inv_def)
  then show ?thesis
    using assms by (simp add: mind_inv_x_def items_inv_def claims_inv_def refs_inv_def replies_inv_def item_sets)
qed

lemma inv_tags:
  assumes "mind_inv_x X db" and "distinct ts" and "tg_item ` set ts \<subseteq> item_ids db"
    and "list_all (\<lambda>t. valid_tag (tg_tag t) \<and> length (tg_tag t) \<le> 48) ts"
  shows "mind_inv_x X (db\<lparr>db_tags := ts\<rparr>)"
  using assms by (simp add: mind_inv_parts item_sets)

lemma inv_write_item_tags:
  assumes "mind_inv_x X db" and "distinct ts" and "i \<in> item_ids db"
    and "\<forall>t \<in> set ts. valid_tag t \<and> length t \<le> 48" and "\<And>t. t \<in> set old \<Longrightarrow> t \<in> set (db_tags db)"
    and "distinct old" and "\<And>t. t \<in> set old \<Longrightarrow> tg_item t = i \<Longrightarrow> tg_tag t \<notin> set ts"
  shows "mind_inv_x X (db\<lparr>db_tags := old @ map (\<lambda>t. \<lparr>tg_item = i, tg_tag = t\<rparr>) ts\<rparr>)"
proof (rule inv_tags [OF assms(1)])
  have "inj (\<lambda>t. \<lparr>tg_item = i, tg_tag = t\<rparr>)" by (rule injI) simp
  then show "distinct (old @ map (\<lambda>t. \<lparr>tg_item = i, tg_tag = t\<rparr>) ts)"
    using assms(2,6) assms(7) [of "\<lparr>tg_item = i, tg_tag = _\<rparr>"] by (auto simp: distinct_map inj_on_def)
qed (use assms in \<open>auto simp: mind_inv_x_def refs_inv_def list_all_iff\<close>)

lemma inv_insert_row:
  assumes inv: "mind_inv_x X db" and ok: "row_ok row" and new: "it_id row \<notin> item_ids db"
    and par: "\<And>p. it_parent row = Some p \<Longrightarrow> p \<in> item_ids db"
  shows "mind_inv_x X (db\<lparr>db_items := db_items db @ [row]\<rparr>)"
proof -
  let ?d = "db\<lparr>db_items := db_items db @ [row]\<rparr>"
  have ids: "item_ids ?d = insert (it_id row) (item_ids db)" by (auto simp: item_ids_def)
  have pr: "proposals ?d \<subseteq> insert (it_id row) (proposals db)" by (auto simp: proposals_def)
  have cl: "claimable db \<subseteq> claimable ?d" by (auto simp: claimable_def)
  have pe: "set (parent_edges ?d) = {(it_id row, p) |p. it_parent row = Some p} \<union> set (parent_edges db)"
    by (auto simp: parent_edges_def List.map_filter_def split: option.splits)
  have dis: "distinct (map it_id (db_items ?d))"
    using inv new by (auto simp: mind_inv_x_def items_inv_def item_ids_def)
  have rng: "snd ` set (parent_edges db) \<subseteq> item_ids db" and acy: "acyclic (set (parent_edges db))"
    using inv by (auto simp: mind_inv_x_def items_inv_def)
  have "acyclic (set (parent_edges ?d))"
  proof (cases "it_parent row")
    case (Some p)
    have "(p, it_id row) \<notin> (set (parent_edges db))\<^sup>*"
    proof
      assume "(p, it_id row) \<in> (set (parent_edges db))\<^sup>*"
      then show False
        using rng new par [OF Some] by (cases rule: rtrancl.cases) force+
    qed
    then show ?thesis unfolding pe Some using acy by simp
  qed (simp add: pe acy)
  moreover have "snd ` set (parent_edges ?d) \<subseteq> item_ids ?d"
    unfolding pe ids using rng par by auto
  ultimately have "items_inv ?d"
    using inv ok dis by (simp add: mind_inv_x_def items_inv_def)
  moreover have "deps_inv ?d"
  proof -
    have "(item_ids db - proposals db) \<times> (item_ids db - proposals db)
        \<subseteq> (item_ids ?d - proposals ?d) \<times> (item_ids ?d - proposals ?d)"
      using pr new ids by (intro Sigma_mono) auto
    then show ?thesis using inv by (auto simp: mind_inv_x_def deps_inv_def dep_edges_def)
  qed
  moreover have "claims_inv X ?d" using inv cl by (auto simp: mind_inv_x_def claims_inv_def ids)
  moreover have "refs_inv ?d"
  proof -
    have "item_ids db - proposals db \<subseteq> item_ids ?d - proposals ?d" using pr new ids by auto
    then show ?thesis using inv by (auto simp: mind_inv_x_def refs_inv_def ids)
  qed
  ultimately show ?thesis using inv by (simp add: mind_inv_x_def replies_inv_def)
qed

lemma requireId_in: "requireId db i = Inr u \<Longrightarrow> i \<in> item_ids db"
  by (auto simp: requireId_def item_ids_def item_by_id_def find_key_None split: if_splits)

lemma item_by_id_in: "item_by_id db i = Some r \<Longrightarrow> i \<in> item_ids db"
  by (auto simp: item_ids_def dest: item_by_id_SomeD)

lemma inv_row_ok: "mind_inv_x X db \<Longrightarrow> item_by_id db i = Some r \<Longrightarrow> row_ok r"
  by (auto simp: mind_inv_x_def items_inv_def list_all_iff dest: item_by_id_SomeD)

end
