(* ===== verification/Mind_Preserve.thy ===== *)
theory Mind_Preserve
  imports Mind_Invariant
begin

text \<open>
  Every write of \<open>MindStore\<close> (src/src/store/mind.ts) keeps the integrity of the database, on
  return and on a throw; and an operation that throws has written nothing.
\<close>

section \<open>Claims keep the invariant\<close>

definition live_tasks :: "mind_db \<Rightarrow> string set" where
  "live_tasks db = it_id ` {r \<in> set (db_items db). it_kind r = Task \<and> it_archived_at r = None}"

lemma live_tasks_frame [simp]:
  "live_tasks (add_event i typ actor data tm db) = live_tasks db"
  "live_tasks (delete_claim i db) = live_tasks db"
  "live_tasks (insert_claim c db) = live_tasks db"
  by (simp_all add: live_tasks_def add_event_def delete_claim_def insert_claim_def)

lemma live_tasks_update:
  assumes "\<And>r. it_id (f r) = it_id r" "\<And>r. it_kind (f r) = it_kind r" "\<And>r. it_archived_at (f r) = it_archived_at r"
  shows "live_tasks (update_item i f db) = live_tasks db"
proof -
  have alt: "live_tasks d = {x. (x, Task, None) \<in> set (map (\<lambda>r. (it_id r, it_kind r, it_archived_at r)) (db_items d))}" for d
    by (force simp: live_tasks_def)
  have "map (\<lambda>r. (it_id r, it_kind r, it_archived_at r)) (db_items (update_item i f db)) =
        map (\<lambda>r. (it_id r, it_kind r, it_archived_at r)) (db_items db)"
    by (simp add: update_item_def map_update_where assms)
  then show ?thesis unfolding alt by (simp only:)
qed

lemma live_tasks_addComment [simp]:
  "live_tasks (snd (addCommentInternal i body author tm replyTo db)) = live_tasks db"
proof -
  have "live_tasks (touch i tm d) = live_tasks d" for d
    unfolding touch_def by (rule live_tasks_update) simp_all
  moreover have "live_tasks (db\<lparr>db_comments := cs, db_next_comment := n\<rparr>) = live_tasks db" for cs n
    by (simp add: live_tasks_def)
  ultimately show ?thesis by (simp add: addCommentInternal_def Let_def)
qed

lemma claimable_started:
  assumes "i \<in> live_tasks db"
  shows "i \<in> claimable (set_status i InProgress c tm db)"
proof -
  from assms obtain r where r: "r \<in> set (db_items db)" "it_id r = i" "it_kind r = Task" "it_archived_at r = None"
    by (auto simp: live_tasks_def)
  let ?q = "r\<lparr>it_status := InProgress, it_closed_at := c, it_updated_at := tm\<rparr>"
  have "?q \<in> set (db_items (set_status i InProgress c tm db))"
    using r by (simp add: set_status_def update_item_def set_update_where)
  moreover have "it_id ?q = i" "it_status ?q = InProgress" "it_kind ?q = Task" "it_archived_at ?q = None"
    using r by simp_all
  ultimately show ?thesis unfolding claimable_def by blast
qed

lemma inv_begin_lease:
  assumes "mind_inv_x {} db" and "i \<in> live_tasks db" "i \<in> item_ids db"
    and "i \<notin> cl_item ` set (db_claims db)" and "lease_ok c" "cl_item c = i"
  shows "mind_inv_x {} (set_status i InProgress None tm (insert_claim c db))"
proof (rule inv_settle)
  show "mind_inv_x (insert i {}) (set_status i InProgress None tm (insert_claim c db))"
    by (rule inv_set_status) (use inv_insert_claim [of "{}" db c] assms in \<open>auto simp: closes_def\<close>)
  show "i \<in> claimable (set_status i InProgress None tm (insert_claim c db)) \<or>
        i \<notin> cl_item ` set (db_claims (set_status i InProgress None tm (insert_claim c db)))"
    using assms by (intro disjI1 claimable_started) simp
qed

lemma new_claim_ok:
  "assertText (ko_principal opts) f n False = Inr u \<Longrightarrow> claimTtl t = Inr ttl \<Longrightarrow> lease_ok (new_claim i opts now ttl)"
  using claimTtl_bounds [of t ttl] by (auto simp: lease_ok_def new_claim_def assertText_def split: if_splits)

lemma lease_renewed: "lease_ok c \<Longrightarrow> claimTtl t = Inr ttl \<Longrightarrow> lease_ok (c\<lparr>cl_renewed := now, cl_expires := now + ttl\<rparr>)"
  using claimTtl_bounds [of t ttl] by (auto simp: lease_ok_def)

lemma lease_owner [simp]: "lease_ok (c\<lparr>cl_owner := s\<rparr>) = lease_ok c"
  by (simp add: lease_ok_def)

lemma claim_of_None: "claim_of db i = None \<Longrightarrow> i \<notin> cl_item ` set (db_claims db)"
  by (simp add: claim_of_def find_key_None)

lemma item_live_task:
  "item_by_id db i = Some r \<Longrightarrow> it_archived_at r = None \<Longrightarrow> it_kind r = Task \<Longrightarrow> i \<in> live_tasks db"
  by (drule item_by_id_SomeD) (auto simp: live_tasks_def)

lemma inv_start_claim:
  assumes "mind_inv_x {} db" "i \<in> live_tasks db" "i \<in> item_ids db"
    and "lease_ok (new_claim i opts now ttl)"
    and "existing = None \<Longrightarrow> i \<notin> cl_item ` set (db_claims db)"
  shows "mind_inv_x {} (start_claim now ttl i opts existing db)"
proof -
  define db1 where "db1 = (case existing of None \<Rightarrow> db
    | Some c \<Rightarrow> add_event i ''claim.expired'' ''system''
        [(''owner'', JStr (cl_owner c)), (''expiredAt'', JNum (cl_expires c))] now
        (comment_on i (''MCP claim by '' @ cl_owner c @ '' expired; item became reclaimable.'')
          ''system'' now (delete_claim i db)))"
  have "mind_inv_x {} (delete_claim i db)" using inv_delete_claim [OF assms(1), of i] by simp
  then have "mind_inv_x {} db1 \<and> i \<in> live_tasks db1 \<and> i \<in> item_ids db1 \<and> i \<notin> cl_item ` set (db_claims db1)"
    using assms by (auto simp: db1_def split: option.split intro!: inv_add_event inv_addComment)
  then have "mind_inv_x {} (set_status i InProgress None now (insert_claim (new_claim i opts now ttl) db1))"
    using assms(4) by (intro inv_begin_lease) (auto simp: new_claim_def)
  moreover have "item_ids (insert_claim c db1) = item_ids db1" for c by (simp add: insert_claim_def)
  moreover have "i \<in> item_ids db1" using assms(3) by (simp add: db1_def split: option.split)
  ultimately show ?thesis
    unfolding start_claim_def Let_def db1_def [symmetric]
    by (intro inv_add_event inv_addComment) simp_all
qed

lemma safe_addComment:
  "I (snd (addCommentInternal i body author tm replyTo s)) \<Longrightarrow>
   safe_at I (\<lambda>db. map_prod Inr id (addCommentInternal i body author tm replyTo db)) s"
  by (simp add: safe_at_def)

lemma inv_renewed_lease:
  assumes "mind_inv_x X db" and "claimTtl t = Inr ttl"
  shows "mind_inv_x X (update_claim i (\<lambda>c. c\<lparr>cl_owner := w, cl_renewed := now, cl_expires := now + ttl\<rparr>) db)"
    and "mind_inv_x X (update_claim i (\<lambda>c. c\<lparr>cl_renewed := now, cl_expires := now + ttl\<rparr>) db)"
  using lease_renewed [OF _ assms(2)] lease_owner by (auto intro!: inv_update_claim assms(1))

lemma safe_claim_tx:
  assumes inv: "mind_inv_x {} db" and ttl: "claimTtl t = Inr ttl"
    and own: "assertText (ko_principal opts) f n False = Inr u"
  shows "safe_at (mind_inv_x {}) (claim_tx now ttl i opts) db"
proof (cases "item_by_id db i")
  case (Some r)
  have start: "mind_inv_x {} (start_claim now ttl i opts (claim_of db i) db)"
    if "it_archived_at r = None" "it_kind r = Task"
    using that Some item_live_task [OF Some] item_by_id_in [OF Some] new_claim_ok [OF own ttl] claim_of_None [of db i]
    by (intro inv_start_claim inv) auto
  have renew: "mind_inv_x {} (add_event i ''claim.renewed'' who dat now
     (update_claim i (\<lambda>c. c\<lparr>cl_owner := w, cl_renewed := now, cl_expires := now + ttl\<rparr>) db))" for who w dat
    using inv item_by_id_in [OF Some] ttl by (intro inv_add_event inv_renewed_lease) simp_all
  show ?thesis
    using Some inv start renew by (cases "claim_of db i") (simp_all add: safe_at_def claim_tx_def)
qed (simp add: safe_at_def claim_tx_def inv)

lemma safe_claim: "mind_inv_x {} db \<Longrightarrow> safe_at (mind_inv_x {}) (claim now i opts) db"
  unfolding claim_def by (intro safe_intro) (auto intro: safe_claim_tx)

lemma safe_resume_tx:
  assumes inv: "mind_inv_x {} db" and ttl: "claimTtl t = Inr ttl"
    and own: "assertText (ko_principal opts) f n False = Inr u"
  shows "safe_at (mind_inv_x {}) (resume_tx now ttl i opts) db"
proof (cases "item_by_id db i")
  case (Some r)
  have start: "mind_inv_x {} (set_status i InProgress None now (insert_claim (new_claim i opts now ttl) (delete_claim i db)))"
    if "it_archived_at r = None" "it_kind r = Task"
    using that Some item_live_task [OF Some] item_by_id_in [OF Some] new_claim_ok [OF own ttl] inv_delete_claim [OF inv, of i]
    by (intro inv_begin_lease) (simp_all add: new_claim_def)
  have ids: "i \<in> item_ids (set_status i InProgress None now (insert_claim (new_claim i opts now ttl) (delete_claim i db)))"
    using item_by_id_in [OF Some] by (simp add: insert_claim_def)
  show ?thesis
    using Some inv start ids
    by (auto simp: safe_at_def resume_tx_def Let_def intro!: inv_add_event inv_addComment)
qed (simp add: safe_at_def resume_tx_def inv)

lemma safe_resumeClaim: "mind_inv_x {} db \<Longrightarrow> safe_at (mind_inv_x {}) (resumeClaim now i opts) db"
  unfolding resumeClaim_def by (intro safe_intro) (auto intro: safe_resume_tx)

lemma require_executable_in: "requireExecutableTask db i = Inr r \<Longrightarrow> i \<in> item_ids db"
  by (auto simp: requireExecutableTask_def item_by_id_in split: option.splits if_splits)

lemma require_live_claim_in: "require_live_claim now db i p = Inr c \<Longrightarrow> i \<in> item_ids db"
  by (auto simp: require_live_claim_def bindR_Inr_iff require_executable_in)

lemma safe_renewClaim: "mind_inv_x {} db \<Longrightarrow> safe_at (mind_inv_x {}) (renewClaim now i p t) db"
  unfolding renewClaim_def
  by (intro safe_intro) (auto intro!: inv_add_event inv_touch inv_renewed_lease dest: require_live_claim_in)

lemma inv_end_lease:
  assumes "mind_inv_x {} db" and "st \<noteq> Proposal" and "closes st \<longleftrightarrow> c \<noteq> None"
  shows "mind_inv_x {} (set_status i st c tm (delete_claim i db))"
  using inv_delete_claim [OF assms(1), of i] assms(2,3) by (intro inv_set_status) simp_all

lemma safe_releaseClaim: "mind_inv_x {} db \<Longrightarrow> safe_at (mind_inv_x {}) (releaseClaim now i p w note) db"
  unfolding releaseClaim_def
  by (intro safe_intro)
    (auto intro!: inv_add_event inv_addComment inv_end_lease simp: closes_def dest: require_executable_in)

lemma safe_logClaim: "mind_inv_x {} db \<Longrightarrow> safe_at (mind_inv_x {}) (logClaim now i p w k body t) db"
  unfolding logClaim_def
  by (intro safe_intro) (auto intro!: inv_add_event inv_addComment inv_renewed_lease dest: require_live_claim_in)

lemma safe_finishClaim: "mind_inv_x {} db \<Longrightarrow> safe_at (mind_inv_x {}) (finishClaim now i p w a b c) db"
  unfolding finishClaim_def
  by (intro safe_intro)
    (auto simp: Let_def closes_def intro!: inv_add_event inv_addComment inv_end_lease dest: require_live_claim_in)

lemma inv_expire_one:
  assumes "mind_inv_x {} db" and "cl_item c \<in> item_ids db"
  shows "mind_inv_x {} (expire_one now c db)"
proof -
  have "mind_inv_x {} (delete_claim (cl_item c) db)" using inv_delete_claim [OF assms(1)] by simp
  then have "mind_inv_x {} (update_item (cl_item c)
     (\<lambda>r. r\<lparr>it_status := (if it_status r = InProgress then Open else it_status r), it_updated_at := now\<rparr>)
     (delete_claim (cl_item c) db))"
    by (intro inv_update_item) (auto simp: row_ok_def closes_def split: if_splits)
  with assms(2) show ?thesis
    unfolding expire_one_def Let_def by (intro inv_add_event inv_addComment) simp_all
qed

lemma item_ids_expire_one [simp]: "item_ids (expire_one now c db) = item_ids db"
  by (simp add: expire_one_def Let_def)

lemma inv_expire_all:
  "mind_inv_x {} db \<Longrightarrow> cl_item ` set cs \<subseteq> item_ids db \<Longrightarrow> mind_inv_x {} (fold (expire_one now) cs db)"
  by (induction cs arbitrary: db) (simp_all add: inv_expire_one)

lemma safe_expireClaims: "mind_inv_x {} db \<Longrightarrow> safe_at (mind_inv_x {}) (expireClaims now) db"
  unfolding safe_at_def expireClaims_def snd_conv
  by (rule inv_expire_all) (auto simp: expired_claims_def mind_inv_x_def claims_inv_def)

section \<open>Updates keep the invariant\<close>

lemma opt_res_Some: "opt_res f x = Inr (Some b) \<longleftrightarrow> (\<exists>a. x = Some a \<and> f a = Inr b)"
  and opt_res_None: "opt_res f x = Inr None \<longleftrightarrow> x = None"
  by (cases x; cases "f (the x)"; simp add: opt_res_def)+

lemma assertText_ok: "assertText v f n e = Inr u \<longleftrightarrow> (e \<or> trim v \<noteq> []) \<and> length v \<le> n"
  by (auto simp: assertText_def)

definition patch_ok :: "mind_db \<Rightarrow> item_row \<Rightarrow> checked_patch \<Rightarrow> bool" where
  "patch_ok db cur p \<longleftrightarrow>
     (\<forall>t. cp_title p = Some t \<longrightarrow> t \<noteq> [] \<and> trim t = t \<and> length t \<le> 240) \<and>
     (\<forall>b. cp_body p = Some b \<longrightarrow> length b \<le> 100000) \<and>
     (\<forall>s. cp_status p = Some s \<longrightarrow> assertStatusTransition (it_status cur) s = Inr ()) \<and>
     (\<forall>n. cp_priority p = Some n \<longrightarrow> 0 \<le> n \<and> n \<le> 4) \<and>
     (\<forall>d. cp_due p = Some (Some d) \<longrightarrow> 0 < d \<and> or_else (cp_status p) (it_status cur) \<noteq> Proposal) \<and>
     (\<forall>q. cp_parent p = Some (Some q) \<longrightarrow> q \<in> item_ids db \<and> assertNoParentCycle db (it_id cur) q = Inr ()) \<and>
     (\<forall>ts. cp_tags p = Some ts \<longrightarrow> distinct ts \<and> (\<forall>t \<in> set ts. valid_tag t \<and> length t \<le> 48))"

lemma check_due_pos: "check_due d = Inr (Some t) \<Longrightarrow> 0 < t"
  by (auto simp: check_due_def split: option.splits if_splits)

lemma map_res_valid_tags: "map_res normalizeTag xs = Inr ts \<Longrightarrow> \<forall>t \<in> set ts. valid_tag t \<and> length t \<le> 48"
  by (drule map_res_Inr) (auto simp: list_all2_conv_all_nth in_set_conv_nth dest!: normalizeTag_valid)

lemma check_patch_parent_ok:
  "check_patch_parent db i p = Inr (Some q) \<Longrightarrow> q \<in> item_ids db \<and> assertNoParentCycle db i q = Inr ()"
  by (cases p) (auto simp: check_patch_parent_def bindR_Inr_iff dest: requireId_in)

lemma check_patch_due_ok: "check_patch_due st d = Inr (Some t) \<Longrightarrow> 0 < t \<and> st \<noteq> Proposal"
  by (auto simp: check_patch_due_def check_due_def split: if_splits option.splits)

lemma check_update_ok:
  assumes "check_update db cur patch = Inr p"
  shows "patch_ok db cur p"
proof -
  obtain title body kind st prio due par tags where p:
      "p = \<lparr>cp_title = title, cp_body = body, cp_kind = kind, cp_status = st, cp_priority = prio,
            cp_due = due, cp_parent = par, cp_tags = map_option uniq tags\<rparr>"
    and c: "opt_res (\<lambda>t. bindR (assertText t ''title'' 240 False) (\<lambda>_. Inr (trim t))) (up_title patch) = Inr title"
      "opt_res (\<lambda>b. bindR (assertText b ''body'' 100000 True) (\<lambda>_. Inr b)) (up_body patch) = Inr body"
      "opt_res (\<lambda>s. bindR (assertStatus s) (\<lambda>st. bindR (assertStatusTransition (it_status cur) st) (\<lambda>_. Inr st)))
         (up_status patch) = Inr st"
      "opt_res assertPriority (up_priority patch) = Inr prio"
      "opt_res (check_patch_due (case st of None \<Rightarrow> it_status cur | Some s \<Rightarrow> s)) (up_due patch) = Inr due"
      "opt_res (check_patch_parent db (it_id cur)) (up_parent patch) = Inr par"
      "opt_res (map_res normalizeTag) (up_tags patch) = Inr tags"
    using assms by (auto simp: check_update_def bindR_Inr_iff)
  have "title = Some t \<Longrightarrow> t \<noteq> [] \<and> trim t = t \<and> length t \<le> 240" for t
    using c(1) length_trim [of "the (up_title patch)"] by (auto simp: opt_res_Some bindR_Inr_iff assertText_ok)
  moreover have "body = Some b \<Longrightarrow> length b \<le> 100000" for b
    using c(2) by (auto simp: opt_res_Some bindR_Inr_iff assertText_ok)
  moreover have "st = Some s \<Longrightarrow> assertStatusTransition (it_status cur) s = Inr ()" for s
    using c(3) by (auto simp: opt_res_Some bindR_Inr_iff)
  moreover have "prio = Some n \<Longrightarrow> 0 \<le> n \<and> n \<le> 4" for n
    using c(4) by (auto simp: opt_res_Some dest: assertPriority_bounds)
  moreover have "due = Some (Some d) \<Longrightarrow> 0 < d \<and> or_else st (it_status cur) \<noteq> Proposal" for d
    using c(5) by (auto simp: opt_res_Some or_else_def dest: check_patch_due_ok)
  moreover have "par = Some (Some q) \<Longrightarrow> q \<in> item_ids db \<and> assertNoParentCycle db (it_id cur) q = Inr ()" for q
    using c(6) by (auto simp: opt_res_Some dest: check_patch_parent_ok)
  moreover have "tags = Some ts \<Longrightarrow> \<forall>t \<in> set ts. valid_tag t \<and> length t \<le> 48" for ts
    using c(7) by (auto simp: opt_res_Some dest: map_res_valid_tags)
  ultimately show ?thesis unfolding p patch_ok_def by auto
qed

lemma row_unique:
  assumes "mind_inv_x X db" and "item_by_id db i = Some cur" and "r \<in> set (db_items db)" and "it_id r = i"
  shows "r = cur"
proof -
  have "distinct (map it_id (db_items db))" using assms(1) by (simp add: mind_inv_x_def items_inv_def)
  from find_key_in_set [OF this assms(3)] assms(2,4) show ?thesis by (simp add: item_by_id_def)
qed

lemma apply_patch_id [simp]: "it_id (apply_patch now p r) = it_id r"
  by (simp add: apply_patch_def)

lemma row_ok_patch: "row_ok cur \<Longrightarrow> patch_ok db cur p \<Longrightarrow> row_ok (apply_patch now p cur)"
  unfolding row_ok_def patch_ok_def apply_patch_def or_else_def assertStatusTransition_ok
  by (auto split: option.splits simp: closes_def)

lemma parent_edges_patch:
  "set (parent_edges (update_item i f db)) \<subseteq>
     {(i, q) |q r. r \<in> set (db_items db) \<and> it_id r = i \<and> it_parent (f r) = Some q} \<union> set (parent_edges db)"
  if "\<And>r. it_id (f r) = it_id r" for f
  using that by (auto simp: parent_edges_def update_item_def List.map_filter_def set_update_where)

lemma parent_edge_iff: "(i, q) \<in> set (parent_edges db) \<longleftrightarrow> (\<exists>r \<in> set (db_items db). it_id r = i \<and> it_parent r = Some q)"
  by (force simp: parent_edges_def List.map_filter_def)

lemma inv_write_columns:
  assumes inv: "mind_inv_x {} db" and cur: "item_by_id db i = Some cur" and ok: "patch_ok db cur p"
  shows "mind_inv_x {i} (write_columns now i p db)"
proof -
  let ?f = "apply_patch now p"
  note one = row_unique [OF inv cur]
  have id: "it_id cur = i" using cur item_by_id_SomeD by blast
  have pe: "set (parent_edges (update_item i ?f db)) \<subseteq> set (parent_edges db) \<union>
      {(i, q) |q. cp_parent p = Some (Some q)}"
  proof
    fix x assume "x \<in> set (parent_edges (update_item i ?f db))"
    then consider "x \<in> set (parent_edges db)"
      | q r where "x = (i, q)" "r \<in> set (db_items db)" "it_id r = i" "it_parent (?f r) = Some q"
      using parent_edges_patch [of ?f i db] by fastforce
    then show "x \<in> set (parent_edges db) \<union> {(i, q) |q. cp_parent p = Some (Some q)}"
      by cases (auto simp: apply_patch_def or_else_def parent_edge_iff split: option.splits)
  qed
  have "acyclic (set (parent_edges (update_item i ?f db))) \<and>
        snd ` set (parent_edges (update_item i ?f db)) \<subseteq> item_ids db"
  proof (cases "\<exists>q. cp_parent p = Some (Some q)")
    case True
    then obtain q where q: "cp_parent p = Some (Some q)" by blast
    with ok id have "assertNoParentCycle db i q = Inr ()" "q \<in> item_ids db" by (auto simp: patch_ok_def)
    moreover have "set (parent_edges (update_item i ?f db)) \<subseteq> insert (i, q) (set (parent_edges db))"
      using pe q by auto
    moreover have "acyclic (set (parent_edges db))" "snd ` set (parent_edges db) \<subseteq> item_ids db"
      using inv by (auto simp: mind_inv_x_def items_inv_def)
    ultimately show ?thesis
      using parent_guard.acyclic_accepted [of db i q] by (metis image_mono image_insert insert_subset order_trans snd_conv)
  next
    case False
    then have "set (parent_edges (update_item i ?f db)) \<subseteq> set (parent_edges db)" using pe by blast
    then show ?thesis
      using inv by (auto simp: mind_inv_x_def items_inv_def intro: acyclic_subset)
  qed
  moreover have "mind_inv_x {i} db" using inv by (rule mind_inv_weaken) simp
  moreover have "row_ok (?f r)" if "r \<in> set (db_items db)" "it_id r = i" "row_ok r" for r
    using one [OF that(1,2)] that(3) row_ok_patch [OF _ ok] by simp
  moreover have "it_status r = Proposal" if "r \<in> set (db_items db)" "it_id r = i" "it_status (?f r) = Proposal" for r
    using one [OF that(1,2)] that(3) ok
    by (auto simp: apply_patch_def or_else_def patch_ok_def assertStatusTransition_ok split: option.splits)
  ultimately have "mind_inv_x {i} (update_item i ?f db)"
    by (intro inv_update_item_gen) simp_all
  then show ?thesis using \<open>mind_inv_x {i} db\<close> by (simp add: write_columns_def)
qed

lemma inv_write_tags:
  assumes "mind_inv_x X db" and "i \<in> item_ids db" and "patch_ok db0 cur p"
  shows "mind_inv_x X (write_tags now i p db)"
proof (cases "cp_tags p")
  case (Some ts)
  then have "distinct ts" "\<forall>t \<in> set ts. valid_tag t \<and> length t \<le> 48" using assms(3) by (auto simp: patch_ok_def)
  moreover have "distinct (db_tags db)" using assms(1) by (simp add: mind_inv_x_def refs_inv_def)
  ultimately have "mind_inv_x X (db\<lparr>db_tags := delete_where (\<lambda>t. tg_item t = i) (db_tags db) @
      map (\<lambda>t. \<lparr>tg_item = i, tg_tag = t\<rparr>) ts\<rparr>)"
    using assms(1,2) by (intro inv_write_item_tags) (simp_all add: delete_where_def)
  then show ?thesis using Some by (simp add: write_tags_def inv_touch)
qed (use assms in \<open>simp add: write_tags_def\<close>)

text \<open>
  After the columns are written the claim of the item still agrees with it, unless the patch
  revokes, and then the claim goes.
\<close>

lemma claimable_update_same:
  assumes "x \<in> claimable db" and "\<And>r. it_id (f r) = it_id r"
    and "\<And>r. it_status r = InProgress \<and> it_kind r = Task \<and> it_archived_at r = None \<Longrightarrow>
           it_status (f r) = InProgress \<and> it_kind (f r) = Task \<and> it_archived_at (f r) = None"
  shows "x \<in> claimable (update_item i f db)"
  using claimable_update [of f i "{}" db] assms by blast

lemma claimable_write:
  assumes "\<not> revokes p" and "x \<in> claimable db"
  shows "x \<in> claimable (write_tags now i p (write_columns now i p db))"
proof -
  have cols: "x \<in> claimable (write_columns now i p db)"
    unfolding write_columns_def using assms
    by (auto intro!: claimable_update_same simp: apply_patch_def or_else_def revokes_def split: option.splits)
  have tags: "claimable (d\<lparr>db_tags := ts\<rparr>) = claimable d" for d ts by (simp add: claimable_def)
  show ?thesis
    unfolding write_tags_def touch_def using cols
    by (auto simp: tags intro!: claimable_update_same split: option.split)
qed

lemma write_frame [simp]:
  "db_claims (write_columns now i p db) = db_claims db" "db_claims (write_tags now i p db) = db_claims db"
  "item_ids (write_columns now i p db) = item_ids db" "item_ids (write_tags now i p db) = item_ids db"
  by (simp_all add: write_columns_def write_tags_def touch_def split: option.split)

lemma inv_update_writes:
  assumes inv: "mind_inv_x {} db" and cur: "item_by_id db i = Some cur" and ok: "patch_ok db cur p"
  shows "mind_inv_x {} (update_event now i cur tags p actor
     (revoke_claim now i cur p actor (write_tags now i p (write_columns now i p db))))"
proof -
  let ?d = "write_tags now i p (write_columns now i p db)"
  have i: "i \<in> item_ids ?d" using item_by_id_in [OF cur] by simp
  have d: "mind_inv_x {i} ?d"
    using inv_write_columns [OF inv cur ok, of now] item_by_id_in [OF cur] ok by (intro inv_write_tags) simp_all
  have "mind_inv_x {} (revoke_claim now i cur p actor ?d)"
  proof (cases "revokes p \<and> claim_of ?d i \<noteq> None")
    case True
    then show ?thesis
      using inv_delete_claim [OF d, of i] i by (auto simp: revoke_claim_def intro!: inv_add_event)
  next
    case False
    have "cl_item ` set (db_claims db) \<subseteq> claimable db" using inv by (auto simp: mind_inv_x_def claims_inv_def)
    then have "i \<in> claimable ?d \<or> i \<notin> cl_item ` set (db_claims ?d)"
      using False claimable_write [of p i db now i] claim_of_None [of ?d i] by auto
    then have "mind_inv_x {} ?d" by (rule inv_settle [OF d])
    then show ?thesis using False by (auto simp: revoke_claim_def split: option.split)
  qed
  moreover have "i \<in> item_ids (revoke_claim now i cur p actor ?d)"
    using i by (simp add: revoke_claim_def split: option.split)
  ultimately show ?thesis by (simp add: update_event_def inv_add_event)
qed

lemma safe_update: "mind_inv_x {} db \<Longrightarrow> safe_at (mind_inv_x {}) (mind_update now i patch actor) db"
  unfolding mind_update_def
  by (auto intro!: safe_intro inv_update_writes dest: check_update_ok split: option.split)

lemma safe_setStatus: "mind_inv_x {} db \<Longrightarrow> safe_at (mind_inv_x {}) (setStatus now i st actor) db"
  unfolding setStatus_def by (rule safe_update)

lemma safe_archive: "mind_inv_x {} db \<Longrightarrow> safe_at (mind_inv_x {}) (mind_archive now i actor) db"
proof -
  assume inv: "mind_inv_x {} db"
  let ?d = "update_item i (\<lambda>r. r\<lparr>it_archived_at := Some now, it_updated_at := now\<rparr>) db"
  have d: "mind_inv_x {i} ?d"
    by (rule inv_update_item [OF mind_inv_weaken [OF inv]]) (auto simp: row_ok_def)
  have none: "mind_inv_x {} ?d" if "claim_of db i = None"
    using claim_of_None [OF that] by (intro inv_settle [OF d]) simp
  have some: "mind_inv_x {} (delete_claim i ?d)" using inv_delete_claim [OF d, of i] by simp
  show ?thesis
    unfolding mind_archive_def
    by (intro safe_intro inv)
      (auto simp: Let_def none some dest: requireId_in split: option.split intro!: inv_add_event)
qed

lemma safe_restore: "mind_inv_x {} db \<Longrightarrow> safe_at (mind_inv_x {}) (mind_restore now i actor) db"
proof -
  assume inv: "mind_inv_x {} db"
  have "mind_inv_x {} (update_item i (\<lambda>r. r\<lparr>it_archived_at := None, it_updated_at := now\<rparr>) db)"
    by (rule inv_update_item [OF inv]) (auto simp: row_ok_def)
  then show ?thesis
    unfolding mind_restore_def by (intro safe_intro inv) (auto dest: requireId_in intro!: inv_add_event)
qed

section \<open>The remaining operations keep the invariant\<close>

lemma safe_addDependency: "mind_inv_x {} db \<Longrightarrow> safe_at (mind_inv_x {}) (addDependency now i j actor) db"
proof -
  assume inv: "mind_inv_x {} db"
  have "safe_at (mind_inv_x {}) (andThen (addDependencyInternal i j actor now) (\<lambda>_. modify (touch i now))) db"
    if "i \<in> item_ids db" "j \<in> item_ids db"
    using inv_addDependency [OF inv that, of actor now]
    by (auto simp: safe_at_def action_simps inv_touch split: prod.split sum.split)
  then show ?thesis
    unfolding addDependency_def by (intro safe_intro inv) (auto dest!: requireId_in)
qed

lemma safe_removeDependency: "mind_inv_x {} db \<Longrightarrow> safe_at (mind_inv_x {}) (removeDependency now i j actor) db"
  unfolding removeDependency_def
  by (intro safe_intro) (auto dest: requireId_in intro!: inv_add_event inv_touch inv_delete_dep)

lemma live_comment_in: "live_comment db n = Some c \<Longrightarrow> c \<in> set (db_comments db) \<and> cm_id c = n"
  unfolding live_comment_def by (drule find_SomeD) simp

lemma comment_item_in: "mind_inv_x X db \<Longrightarrow> live_comment db n = Some c \<Longrightarrow> cm_item c \<in> item_ids db"
  by (auto simp: mind_inv_x_def refs_inv_def dest!: live_comment_in)

lemma safe_addComment_op: "mind_inv_x {} db \<Longrightarrow> safe_at (mind_inv_x {}) (addComment now i body author) db"
  unfolding addComment_def
  by (intro safe_intro safe_addComment) (auto dest: requireId_in intro!: inv_addComment)

lemma safe_addReply: "mind_inv_x {} db \<Longrightarrow> safe_at (mind_inv_x {}) (addReply now i n body author) db"
  unfolding addReply_def
  by (intro safe_intro safe_addComment)
    (auto dest!: requireId_in live_comment_in intro!: inv_addComment split: option.splits if_splits)

lemma safe_updateComment: "mind_inv_x {} db \<Longrightarrow> safe_at (mind_inv_x {}) (updateComment now n body author) db"
  unfolding updateComment_def using comment_item_in [of "{}" db n]
  by (auto intro!: safe_intro inv_add_event inv_touch inv_comment_update split: option.split)

lemma safe_deleteComment: "mind_inv_x {} db \<Longrightarrow> safe_at (mind_inv_x {}) (deleteComment now n actor) db"
  unfolding deleteComment_def using comment_item_in [of "{}" db n]
  by (auto intro!: safe_intro inv_add_event inv_touch inv_comment_update split: option.split)

lemma safe_addTag: "mind_inv_x {} db \<Longrightarrow> safe_at (mind_inv_x {}) (addTag now i tag actor) db"
proof -
  assume inv: "mind_inv_x {} db"
  have "mind_inv_x {} (db\<lparr>db_tags := db_tags db @ [\<lparr>tg_item = i, tg_tag = t\<rparr>]\<rparr>)"
    if "i \<in> item_ids db" "normalizeTag tag = Inr t" "\<not> has_tag db i t" for t
    using inv_write_item_tags [OF inv, of "[t]" i "db_tags db"] that normalizeTag_valid [of tag t] inv
    by (auto simp: has_tag_def list_ex_iff mind_inv_x_def refs_inv_def)
  then show ?thesis
    unfolding addTag_def by (intro safe_intro inv) (auto dest!: requireId_in intro!: inv_add_event inv)
qed

lemma safe_removeTag: "mind_inv_x {} db \<Longrightarrow> safe_at (mind_inv_x {}) (removeTag now i tag actor) db"
proof -
  assume inv: "mind_inv_x {} db"
  have "mind_inv_x {} (db\<lparr>db_tags := delete_where p (db_tags db)\<rparr>)" for p
    by (rule inv_tags [OF inv]) (use inv in \<open>auto simp: mind_inv_x_def refs_inv_def list_all_iff delete_where_def\<close>)
  then show ?thesis
    unfolding removeTag_def by (intro safe_intro inv) (auto dest!: requireId_in intro!: inv_add_event inv)
qed

lemma item_by_id_None: "item_by_id db i = None \<longleftrightarrow> i \<notin> item_ids db"
  by (simp add: item_by_id_def find_key_None item_ids_def)

lemma fresh_id_new: "fresh_id db vs = Some (i, rest) \<Longrightarrow> isMindId i \<and> i \<notin> item_ids db"
proof (induction db vs rule: fresh_id.induct)
  case (1 db vs)
  show ?case
  proof (cases "newMindId vs")
    case (Some ir)
    obtain j r where ir: "ir = (j, r)" by (cases ir)
    have step: "fresh_id db vs = (if item_by_id db j \<noteq> None then fresh_id db r else Some (j, r))"
      by (simp add: fresh_id.simps [of db vs] Some ir)
    show ?thesis
    proof (cases "item_by_id db j = None")
      case True
      with step "1.prems" Some newMindId_valid [of vs j r] ir show ?thesis by (simp add: item_by_id_None)
    next
      case False
      then have "fresh_id db r = Some (i, rest)" using step "1.prems" by argo
      then show ?thesis using "1.IH" [OF Some ir [symmetric] False] by blast
    qed
  qed (use "1.prems" in \<open>simp add: fresh_id.simps\<close>)
qed

lemma requireIds_in: "map_res (requireId db) xs = Inr ys \<Longrightarrow> set xs \<subseteq> item_ids db"
  by (drule map_res_Inr) (auto simp: list_all2_conv_all_nth in_set_conv_nth dest!: requireId_in)

lemma check_create_ok:
  assumes "check_create db opts = Inr a"
  shows "trim (co_title opts) \<noteq> [] \<and> length (co_title opts) \<le> 240" "0 \<le> ca_priority a \<and> ca_priority a \<le> 4"
    "length (ca_body a) \<le> 100000" "\<And>d. ca_due a = Some d \<Longrightarrow> 0 < d \<and> ca_status a \<noteq> Proposal"
    "\<And>p. co_parent opts = Some p \<Longrightarrow> p \<in> item_ids db" "set (ca_depends a) \<subseteq> item_ids db"
    "distinct (ca_tags a) \<and> (\<forall>t \<in> set (ca_tags a). valid_tag t \<and> length t \<le> 48)"
proof -
  define body where "body = (case co_body opts of None \<Rightarrow> [] | Some b \<Rightarrow> b)"
  obtain kind st prio due tags pu ds where
    a: "a = \<lparr>ca_kind = kind, ca_status = st, ca_priority = prio, ca_body = body,
      ca_actor = actor_or_agent (co_actor opts), ca_due = due, ca_depends = uniq (co_depends opts), ca_tags = uniq tags\<rparr>"
    and c: "assertText (co_title opts) ''title'' 240 False = Inr ()"
      "assertPriority (case co_priority opts of None \<Rightarrow> Num 2 | Some p \<Rightarrow> p) = Inr prio"
      "assertText body ''body'' 100000 True = Inr ()" "check_due (co_due opts) = Inr due"
      "(case co_parent opts of None \<Rightarrow> Inr () | Some p \<Rightarrow> requireId db p) = Inr pu"
      "map_res (requireId db) (uniq (co_depends opts)) = Inr ds"
      "\<not> (st = Proposal \<and> due \<noteq> None)" "map_res normalizeTag (co_tags opts) = Inr tags"
    using assms unfolding check_create_def body_def [symmetric] by (auto simp: bindR_Inr_iff split: if_splits)
  show "trim (co_title opts) \<noteq> [] \<and> length (co_title opts) \<le> 240" using c(1) by (simp add: assertText_ok)
  show "0 \<le> ca_priority a \<and> ca_priority a \<le> 4" using c(2) by (simp add: a assertPriority_bounds)
  show "length (ca_body a) \<le> 100000" using c(3) by (simp add: a assertText_ok)
  show "0 < d \<and> ca_status a \<noteq> Proposal" if "ca_due a = Some d" for d
    using c(4,7) that by (auto simp: a dest: check_due_pos)
  show "p \<in> item_ids db" if "co_parent opts = Some p" for p
    using c(5) that by (auto dest: requireId_in)
  show "set (ca_depends a) \<subseteq> item_ids db" using requireIds_in [OF c(6)] by (simp add: a)
  show "distinct (ca_tags a) \<and> (\<forall>t \<in> set (ca_tags a). valid_tag t \<and> length t \<le> 48)"
    using map_res_valid_tags [OF c(8)] by (simp add: a)
qed

lemma created_row_ok:
  assumes "check_create db opts = Inr a" and "isMindId i"
  shows "row_ok (created_row now opts a i)"
  using check_create_ok [OF assms(1)] assms(2) length_trim [of "co_title opts"]
  by (auto simp: row_ok_def created_row_def split: option.splits)

lemma inv_insert_item:
  assumes inv: "mind_inv_x X db" and a: "check_create db opts = Inr a" and i: "isMindId i" "i \<notin> item_ids db"
  shows "mind_inv_x X (insert_item (created_row now opts a i) (ca_tags a) db)"
proof -
  let ?d = "db\<lparr>db_items := db_items db @ [created_row now opts a i]\<rparr>"
  have d: "mind_inv_x X ?d"
    using inv created_row_ok [OF a i(1)] check_create_ok [OF a] i(2)
    by (intro inv_insert_row) (auto simp: created_row_def)
  moreover have "i \<in> item_ids ?d" by (simp add: item_ids_def created_row_def)
  ultimately have "mind_inv_x X (?d\<lparr>db_tags := db_tags db @ map (\<lambda>t. \<lparr>tg_item = i, tg_tag = t\<rparr>) (ca_tags a)\<rparr>)"
    using check_create_ok [OF a] inv i(2)
    by (intro inv_write_item_tags) (auto simp: mind_inv_x_def refs_inv_def)
  then show ?thesis by (simp add: insert_item_def created_row_def)
qed

lemma safe_create_tx:
  assumes inv: "mind_inv_x {} db" and a: "check_create db opts = Inr a"
  shows "safe_at (mind_inv_x {}) (create_tx now vs opts a) db"
proof (cases "fresh_id db vs")
  case (Some ir)
  obtain i r where [simp]: "ir = (i, r)" by (cases ir)
  let ?d = "insert_item (created_row now opts a i) (ca_tags a) db"
  let ?e = "for_each (\<lambda>j. addDependencyInternal i j (ca_actor a) now) (ca_depends a) ?d"
  from Some have i: "isMindId i" "i \<notin> item_ids db" by (auto dest: fresh_id_new)
  have d: "mind_inv_x {} ?d" by (rule inv_insert_item [OF inv a i])
  have ids: "item_ids ?d = insert i (item_ids db)" by (auto simp: item_ids_def insert_item_def created_row_def)
  have e: "mind_inv_x {} (snd ?e)" "item_ids (snd ?e) = item_ids ?d"
    using inv_addDependencies [OF d, of i "ca_depends a" "ca_actor a" now] check_create_ok [OF a] ids by auto
  show ?thesis
    unfolding create_tx_def safe_at_def action_simps Some
    using e ids by (cases ?e; cases "fst ?e") (auto simp: action_simps intro!: inv_add_event split: sum.split)
qed (simp add: create_tx_def safe_at_def action_simps inv)

lemma safe_create: "mind_inv_x {} db \<Longrightarrow> safe_at (mind_inv_x {}) (mind_create now vs opts) db"
proof -
  assume inv: "mind_inv_x {} db"
  have "safe_at (mind_inv_x {}) (andThen (transaction (create_tx now vs opts a)) (\<lambda>i. reads (\<lambda>db'. ok (mind_get now db' i)))) db"
    if "check_create db opts = Inr a" for a
    using safe_create_tx [OF inv that, of now vs] inv
    by (auto simp: safe_at_def action_simps split: prod.splits sum.splits)
  then show ?thesis unfolding mind_create_def by (intro safe_intro inv) simp
qed

section \<open>Reminder records keep the invariant\<close>

lemma inv_reminder_row:
  assumes inv: "mind_inv_x X db" and "rm_id row = db_next_reminder db" "rm_item row \<in> item_ids db - proposals db"
    and "rm_task row \<notin> rm_task ` set (db_reminders db)"
  shows "mind_inv_x X (db\<lparr>db_reminders := db_reminders db @ [row], db_next_reminder := db_next_reminder db + 1\<rparr>)"
proof -
  let ?d = "db\<lparr>db_reminders := db_reminders db @ [row], db_next_reminder := db_next_reminder db + 1\<rparr>"
  have "proposals ?d = proposals db" by (simp add: proposals_def)
  then have "refs_inv ?d"
    using assms by (auto simp: mind_inv_x_def refs_inv_def intro: rowids_append)
  then show ?thesis
    using inv by (simp add: mind_inv_x_def items_inv_def deps_inv_def claims_inv_def replies_inv_def item_sets)
qed

lemma inv_update_reminder:
  assumes inv: "mind_inv_x X db" and f: "\<And>r. rm_id (f r) = rm_id r" "\<And>r. rm_item (f r) = rm_item r" "\<And>r. rm_task (f r) = rm_task r"
  shows "mind_inv_x X (update_reminder n f db)"
proof -
  let ?d = "update_reminder n f db"
  have m: "map rm_task (db_reminders ?d) = map rm_task (db_reminders db)"
    "map rm_item (db_reminders ?d) = map rm_item (db_reminders db)"
    by (simp_all add: update_reminder_def map_update_where f)
  have p: "proposals ?d = proposals db" "item_ids ?d = item_ids db" by (simp_all add: proposals_def update_reminder_def)
  have "rowids rm_id (db_next_reminder db) (db_reminders ?d)"
    using inv by (auto simp: update_reminder_def mind_inv_x_def refs_inv_def f intro!: rowids_update)
  moreover have "rm_item ` set (db_reminders ?d) \<subseteq> item_ids db - proposals db"
    using inv arg_cong [OF m(2), of set] by (simp add: mind_inv_x_def refs_inv_def)
  ultimately have "refs_inv ?d"
    using inv m(1) p by (simp add: mind_inv_x_def refs_inv_def) (simp add: update_reminder_def)
  then show ?thesis
    using inv by (simp add: mind_inv_x_def items_inv_def deps_inv_def claims_inv_def replies_inv_def item_sets update_reminder_def)
qed

lemma item_ids_update_reminder [simp]: "item_ids (update_reminder n f db) = item_ids db"
  by (simp add: update_reminder_def)

lemma not_proposal:
  assumes "mind_inv_x X db" and "item_by_id db i = Some r" and "it_status r \<noteq> Proposal"
  shows "i \<in> item_ids db - proposals db"
  using row_unique [OF assms(1,2)] assms(3) item_by_id_in [OF assms(2)] by (auto simp: proposals_def)

lemma safe_createReminderRecord:
  "mind_inv_x {} db \<Longrightarrow> safe_at (mind_inv_x {}) (createReminderRecord now i task fireAt channel who) db"
proof -
  assume inv: "mind_inv_x {} db"
  define row where "row = \<lparr>rm_id = db_next_reminder db, rm_item = i, rm_task = task, rm_fire = fireAt,
    rm_channel = channel, rm_by = who, rm_created = now, rm_fired = None, rm_cancelled = None\<rparr>"
  have "mind_inv_x {} (db\<lparr>db_reminders := db_reminders db @ [row], db_next_reminder := db_next_reminder db + 1\<rparr>)"
    if "item_by_id db i = Some r" "it_status r \<noteq> Proposal" "\<not> list_ex (\<lambda>x. rm_task x = task) (db_reminders db)" for r
    using not_proposal [OF inv that(1,2)] that(3) by (intro inv_reminder_row inv) (auto simp: row_def list_ex_iff)
  then show ?thesis
    using inv by (auto simp: safe_at_def createReminderRecord_def Let_def row_def item_by_id_in
        split: option.split intro!: inv_add_event)
qed

lemma reminder_item_in: "mind_inv_x X db \<Longrightarrow> find p (db_reminders db) = Some r \<Longrightarrow> rm_item r \<in> item_ids db"
  by (auto simp: mind_inv_x_def refs_inv_def dest!: find_SomeD)

lemma inv_markReminderFiredByTask: "mind_inv_x {} db \<Longrightarrow> mind_inv_x {} (markReminderFiredByTask now task db)"
  unfolding markReminderFiredByTask_def
  by (auto split: option.split intro!: inv_add_event inv_update_reminder intro: reminder_item_in)

lemma inv_cancelReminderRecord: "mind_inv_x {} db \<Longrightarrow> mind_inv_x {} (snd (cancelReminderRecord now n actor db))"
  unfolding cancelReminderRecord_def reminderById_def
  by (auto simp: Let_def split: option.split intro!: inv_add_event inv_update_reminder intro: reminder_item_in)

lemma safe_updateReminderRecord:
  "mind_inv_x {} db \<Longrightarrow> safe_at (mind_inv_x {}) (updateReminderRecord now n fireAt actor) db"
  unfolding updateReminderRecord_def reminderById_def safe_at_def
  by (auto simp: Let_def split: option.split intro!: inv_add_event inv_update_reminder intro: reminder_item_in)

section \<open>Reachable databases\<close>

text \<open>One step is one call of a writing method of \<open>MindStore\<close>, whether it returns or throws.\<close>

inductive mind_step :: "mind_db \<Rightarrow> mind_db \<Rightarrow> bool" where
  create: "mind_step db (snd (mind_create now vs opts db))"
| update: "mind_step db (snd (mind_update now i patch actor db))"
| status: "mind_step db (snd (setStatus now i st actor db))"
| archive: "mind_step db (snd (mind_archive now i actor db))"
| restore: "mind_step db (snd (mind_restore now i actor db))"
| claim: "mind_step db (snd (claim now i opts' db))"
| resume: "mind_step db (snd (resumeClaim now i opts' db))"
| renew: "mind_step db (snd (renewClaim now i who ttl db))"
| release: "mind_step db (snd (releaseClaim now i who toWaiting note db))"
| log: "mind_step db (snd (logClaim now i who owner kind body ttl db))"
| finish: "mind_step db (snd (finishClaim now i who owner result verification omissions db))"
| expire: "mind_step db (snd (expireClaims now db))"
| add_dep: "mind_step db (snd (addDependency now i j actor db))"
| remove_dep: "mind_step db (snd (removeDependency now i j actor db))"
| add_comment: "mind_step db (snd (addComment now i body author db))"
| add_reply: "mind_step db (snd (addReply now i n body author db))"
| update_comment: "mind_step db (snd (updateComment now n body author db))"
| delete_comment: "mind_step db (snd (deleteComment now n actor db))"
| add_tag: "mind_step db (snd (addTag now i tag actor db))"
| remove_tag: "mind_step db (snd (removeTag now i tag actor db))"
| add_reminder: "mind_step db (snd (createReminderRecord now i task fireAt channel actor db))"
| reminder_fired: "mind_step db (markReminderFiredByTask now task db)"
| cancel_reminder: "mind_step db (snd (cancelReminderRecord now n actor db))"
| snooze_reminder: "mind_step db (snd (updateReminderRecord now n fireAt actor db))"

lemmas mind_safe = safe_create safe_update safe_setStatus safe_archive safe_restore safe_claim safe_resumeClaim
  safe_renewClaim safe_releaseClaim safe_logClaim safe_finishClaim safe_expireClaims safe_addDependency
  safe_removeDependency safe_addComment_op safe_addReply safe_updateComment safe_deleteComment safe_addTag
  safe_removeTag safe_createReminderRecord safe_updateReminderRecord

interpretation mind: step_system "\<lambda>db. db = empty_db" mind_step mind_inv
proof
  show "db = empty_db \<Longrightarrow> mind_inv db" for db by (simp add: mind_inv_empty)
  show "mind_inv t" if "mind_inv s" "mind_step s t" for s t
    using that(2,1) unfolding mind_inv_def
    by cases (auto intro: mind_safe [unfolded safe_at_def] inv_markReminderFiredByTask inv_cancelReminderRecord)
qed

end
