(* ===== verification/Mind_Correct.thy ===== *)
theory Mind_Correct
  imports Mind_Preserve
begin

text \<open>
  What the Mind work graph promises: integrity of every reachable database, writes that fail
  leave no trace, leases that exclude other collaborators, dependencies that never form a cycle,
  and listings that return what they say.
\<close>

section \<open>What each claim operation does\<close>

definition claim_args :: "claim_opts \<Rightarrow> time \<Rightarrow> bool" where
  "claim_args opts ttl \<longleftrightarrow> assertText (ko_owner opts) ''claim owner'' 120 False = Inr () \<and>
     assertText (ko_principal opts) ''claim principal'' 200 False = Inr () \<and>
     (case ko_note opts of None \<Rightarrow> True | Some n \<Rightarrow> length n \<le> 20000) \<and> claimTtl (ko_ttl opts) = Inr ttl"

lemma claim_run:
  assumes "claim_args opts ttl"
  shows "claim now i opts db = and_get now i (transaction (claim_tx now ttl i opts)) db"
  using assms by (simp add: claim_def claim_args_def action_simps assertText_def split: option.splits)

lemma claim_fresh:
  assumes "item_by_id db i = Some r" "it_archived_at r = None" "it_kind r = Task" "it_status r = Open"
    and "unresolvedDependencyCount db i = 0" "claim_of db i = None" "claim_args opts ttl"
  shows "claim now i opts db =
    (Inr (mind_get now (start_claim now ttl i opts None db) i), start_claim now ttl i opts None db)"
  using assms by (simp add: claim_run and_get_def action_simps claim_tx_def)

section \<open>A database of one task\<close>

definition plain_opts :: "string \<Rightarrow> create_opts" where
  "plain_opts title = \<lparr>co_title = title, co_body = None, co_kind = None, co_status = None, co_priority = None,
     co_parent = None, co_due = None, co_tags = [], co_depends = [], co_actor = None, co_intake = None\<rparr>"

definition plain_row :: "string \<Rightarrow> string \<Rightarrow> item_row" where
  "plain_row i title = \<lparr>it_id = i, it_title = title, it_body = [], it_kind = Task, it_status = Open, it_priority = 2,
     it_parent = None, it_due = None, it_created_by = ''agent'', it_created_at = 1000, it_updated_at = 1000,
     it_closed_at = None, it_archived_at = None\<rparr>"

definition plan_db :: mind_db where
  "plan_db = add_event ''elm-00000005'' ''item.created'' ''agent''
     [(''title'', JStr ''plan''), (''kind'', JStr ''task''), (''status'', JStr ''open''), (''priority'', JNum 2),
      (''parentId'', JNull), (''dueAt'', JNull), (''tags'', JArr []), (''dependsOn'', JArr [])] 1000
     (empty_db\<lparr>db_items := [plain_row ''elm-00000005'' ''plan'']\<rparr>)"

lemma new_id_digit: "k < 36 \<Longrightarrow> newMindId (k # vs) = Some (''elm-0000000'' @ [base36_char k], vs)"
proof -
  assume "k < 36"
  then have "\<not> id_ceiling \<le> k" "k mod id_limit = k" "toString36 k = [base36_char k]"
    by (simp_all add: id_ceiling_def id_limit_def toString36.simps)
  moreover have "replicate 7 CHR ''0'' = ''0000000''" by code_simp
  ultimately show ?thesis by (simp add: padStart_def)
qed

lemma trim_samples [simp]: "trim ''plan'' = ''plan''" "trim ''ava'' = ''ava''" "trim ''p1'' = ''p1''" "trim ''p2'' = ''p2''"
  by code_simp+

lemma fresh_5: "fresh_id empty_db [5] = Some (''elm-00000005'', [])"
proof -
  have "base36_char 5 = CHR ''5''" by code_simp
  then have "newMindId [5] = Some (''elm-00000005'', [])" using new_id_digit [of 5 "[]"] by simp
  moreover have "item_by_id empty_db ''elm-00000005'' = None" by (simp add: item_by_id_def empty_db_def)
  ultimately show ?thesis by (subst fresh_id.simps) (simp only: option.case prod.case simp_thms if_False not_True_eq_False)
qed

lemma check_plan: "check_create db (plain_opts ''plan'') = Inr \<lparr>ca_kind = Task, ca_status = Open, ca_priority = 2,
    ca_body = [], ca_actor = ''agent'', ca_due = None, ca_depends = [], ca_tags = []\<rparr>"
  by (simp add: check_create_def plain_opts_def assertText_def assertKind_def MIND_KINDS_def assertStatus_def
      MIND_STATUSES_def assertPriority_def check_due_def actor_or_agent_def)

lemma create_plan: "mind_create 1000 [5] (plain_opts ''plan'') empty_db =
    (Inr (mind_get 1000 plan_db ''elm-00000005''), plan_db)"
  by (simp add: mind_create_def action_simps check_plan create_tx_def fresh_5)
    (simp add: insert_item_def created_row_def created_data_def json_opt_def plain_opts_def closes_def plan_db_def
      plain_row_def empty_db_def)

lemma plan_reachable: "mind_step\<^sup>*\<^sup>* empty_db plan_db"
  using mind_step.create [of empty_db 1000 "[5]" "plain_opts ''plan''"] by (simp add: create_plan r_into_rtranclp)

definition ava_opts :: "string \<Rightarrow> claim_opts" where
  "ava_opts p = \<lparr>ko_owner = ''ava'', ko_principal = p, ko_ttl = Some (Num 60000), ko_note = None\<rparr>"

definition leased_db :: mind_db where
  "leased_db = start_claim 2000 60000 ''elm-00000005'' (ava_opts ''p1'') None plan_db"

lemma plan_item: "item_by_id plan_db ''elm-00000005'' = Some (plain_row ''elm-00000005'' ''plan'')"
  by (simp add: item_by_id_def plan_db_def add_event_def empty_db_def plain_row_def)

lemma plan_free: "unresolvedDependencyCount plan_db i = 0" "claim_of plan_db i = None"
  by (simp_all add: unresolvedDependencyCount_def dependency_rows_def claim_of_def plan_db_def add_event_def empty_db_def)

lemma ava_ttl: "claimTtl (ko_ttl (ava_opts p)) = Inr 60000"
  by (simp add: claimTtl_def ava_opts_def)

lemma claim_plan: "claim 2000 ''elm-00000005'' (ava_opts ''p1'') plan_db =
    (Inr (mind_get 2000 leased_db ''elm-00000005''), leased_db)"
  unfolding leased_db_def
  by (rule claim_fresh [OF plan_item]) (simp_all add: plain_row_def plan_free claim_args_def claimTtl_def assertText_def ava_opts_def)

lemma leased_reachable: "mind_step\<^sup>*\<^sup>* empty_db leased_db"
  using plan_reachable mind_step.claim [of plan_db 2000 "''elm-00000005''" "ava_opts ''p1''"]
  by (simp add: claim_plan rtranclp.rtrancl_into_rtrancl)

lemma leased_claims: "db_claims leased_db = [new_claim ''elm-00000005'' (ava_opts ''p1'') 2000 60000]"
  by (simp add: leased_db_def start_claim_def Let_def set_status_def insert_claim_def plan_db_def empty_db_def)

section \<open>Reachable databases\<close>

text \<open>
  C1. In every database reachable from the empty one, a claim belongs to exactly one item; that
  item is an unarchived task in progress and has no other claim; the lease runs between one
  minute and four hours from its last renewal.
\<close>

theorem claims_consistent:
  assumes "mind_step\<^sup>*\<^sup>* empty_db db" and "c \<in> set (db_claims db)"
  shows "(\<exists>!r. r \<in> set (db_items db) \<and> it_id r = cl_item c) \<and>
    (\<forall>r \<in> set (db_items db). it_id r = cl_item c \<longrightarrow>
       it_status r = InProgress \<and> it_kind r = Task \<and> it_archived_at r = None) \<and>
    filter (\<lambda>c'. cl_item c' = cl_item c) (db_claims db) = [c] \<and>
    60000 \<le> cl_expires c - cl_renewed c \<and> cl_expires c - cl_renewed c \<le> 14400000"
proof -
  have inv: "mind_inv_x {} db" using mind.inv_reachable [OF refl assms(1)] by (simp add: mind_inv_def)
  then have "cl_item c \<in> claimable db" "lease_ok c" and dis: "distinct (map cl_item (db_claims db))"
    using assms(2) by (auto simp: mind_inv_x_def claims_inv_def list_all_iff)
  then obtain r where r: "r \<in> set (db_items db)" "it_id r = cl_item c" "it_status r = InProgress" "it_kind r = Task"
    "it_archived_at r = None" by (auto simp: claimable_def)
  have only: "q = r" if "q \<in> set (db_items db)" "it_id q = cl_item c" for q
    using inv that r(1,2) by (auto simp: mind_inv_x_def items_inv_def distinct_map inj_on_def)
  show ?thesis
  proof (intro conjI ballI impI)
    show "\<exists>!r. r \<in> set (db_items db) \<and> it_id r = cl_item c" using r(1,2) only by blast
    show "filter (\<lambda>c'. cl_item c' = cl_item c) (db_claims db) = [c]" by (rule filter_key_single [OF dis assms(2)])
  qed (use only r(3-5) \<open>lease_ok c\<close> in \<open>simp_all add: lease_ok_def\<close>)
qed

theorem claims_consistent_witness:
  "new_claim ''elm-00000005'' (ava_opts ''p1'') 2000 60000 \<in> set (db_claims leased_db) \<and>
   (\<exists>!r. r \<in> set (db_items leased_db) \<and> it_id r = ''elm-00000005'')"
  using claims_consistent [OF leased_reachable, of "new_claim ''elm-00000005'' (ava_opts ''p1'') 2000 60000"]
  by (simp add: leased_claims) (simp add: new_claim_def)

text \<open>
  C2. In every reachable database the dependency relation is acyclic and without duplicates, and
  both ends of a dependency are existing items that are not proposals; the parent relation is
  acyclic too, and every parent exists.
\<close>

theorem graph_acyclic:
  assumes "mind_step\<^sup>*\<^sup>* empty_db db"
  shows "acyclic (set (dep_edges db)) \<and> distinct (dep_edges db) \<and>
    (\<forall>d \<in> set (db_deps db). \<exists>r \<in> set (db_items db). \<exists>q \<in> set (db_items db).
       it_id r = dp_item d \<and> it_id q = dp_on d \<and> it_status r \<noteq> Proposal \<and> it_status q \<noteq> Proposal) \<and>
    acyclic (set (parent_edges db)) \<and> snd ` set (parent_edges db) \<subseteq> it_id ` set (db_items db)"
proof -
  have inv: "mind_inv_x {} db" using mind.inv_reachable [OF refl assms] by (simp add: mind_inv_def)
  have "\<exists>r \<in> set (db_items db). it_id r = k \<and> it_status r \<noteq> Proposal" if "k \<in> item_ids db - proposals db" for k
    using that by (auto simp: item_ids_def proposals_def)
  moreover have "dp_item d \<in> item_ids db - proposals db \<and> dp_on d \<in> item_ids db - proposals db" if "d \<in> set (db_deps db)" for d
    using inv that unfolding mind_inv_x_def deps_inv_def dep_edges_def by auto
  ultimately have "\<exists>r \<in> set (db_items db). \<exists>q \<in> set (db_items db).
      it_id r = dp_item d \<and> it_id q = dp_on d \<and> it_status r \<noteq> Proposal \<and> it_status q \<noteq> Proposal"
    if "d \<in> set (db_deps db)" for d
    using that by metis
  then show ?thesis
    using inv by (simp add: mind_inv_x_def deps_inv_def items_inv_def item_ids_def)
qed

theorem graph_acyclic_witness: "acyclic (set (dep_edges leased_db)) \<and> mind_step\<^sup>*\<^sup>* empty_db leased_db"
  using graph_acyclic [OF leased_reachable] leased_reachable by blast

text \<open>
  C5. Every reachable database is intact: item ids are well formed and distinct, every tag,
  comment, event, reminder, claim and dependency refers to an existing item, rowids are distinct
  and below the next one, a reply answers an older comment of its own item, an item has a closing
  time exactly when it is done or cancelled, priorities lie in 0..4, and a proposal has no due
  date, dependency, reminder or claim.
\<close>

theorem database_intact:
  assumes "mind_step\<^sup>*\<^sup>* empty_db db"
  shows "mind_inv db \<and> (\<forall>r \<in> set (db_items db). it_status r = Proposal \<longrightarrow>
     it_due r = None \<and> it_id r \<notin> rm_item ` set (db_reminders db) \<and> it_id r \<notin> cl_item ` set (db_claims db) \<and>
     it_id r \<notin> dp_item ` set (db_deps db) \<union> dp_on ` set (db_deps db))"
proof (intro conjI ballI impI)
  show "mind_inv db" by (rule mind.inv_reachable [OF refl assms])
  then have inv: "mind_inv_x {} db" by (simp add: mind_inv_def)
  fix r assume r: "r \<in> set (db_items db)" "it_status r = Proposal"
  then have p: "it_id r \<in> proposals db" by (auto simp: proposals_def)
  show "it_due r = None" using inv r by (auto simp: mind_inv_x_def items_inv_def list_all_iff row_ok_def)
  show "it_id r \<notin> rm_item ` set (db_reminders db)" using inv p unfolding mind_inv_x_def refs_inv_def by blast
  show "it_id r \<notin> dp_item ` set (db_deps db) \<union> dp_on ` set (db_deps db)"
    using inv p unfolding mind_inv_x_def deps_inv_def dep_edges_def by auto
  have "q = r" if "q \<in> set (db_items db)" "it_id q = it_id r" for q
    using inv that r(1) by (auto simp: mind_inv_x_def items_inv_def distinct_map inj_on_def)
  then have "it_id r \<notin> claimable db" using r(2) by (auto simp: claimable_def)
  then show "it_id r \<notin> cl_item ` set (db_claims db)" using inv unfolding mind_inv_x_def claims_inv_def by blast
qed

theorem database_intact_witness: "mind_inv leased_db \<and> db_claims leased_db \<noteq> []"
  using database_intact [OF leased_reachable] leased_claims by simp

section \<open>Failed writes\<close>

lemma atomic_total: "(\<And>s. \<exists>a s'. m s = (Inr a, s')) \<Longrightarrow> atomic_on_error m"
  unfolding atomic_on_error_def by (metis Inl_Inr_False prod.inject)

lemma atomic_addComment: "atomic_on_error (\<lambda>db. map_prod Inr id (addCommentInternal i body author tm replyTo db))"
  by (rule atomic_total) (metis map_prod_simp prod.collapse)

lemma atomic_then_ok: "atomic_on_error (andThen (modify f) (\<lambda>_. ok a))"
  by (rule atomic_andThen_safe) simp_all

lemma atomic_create: "atomic_on_error (mind_create now vs opts)"
proof -
  have "atomic_on_error (andThen (transaction (create_tx now vs opts a)) (\<lambda>i. reads (\<lambda>db'. ok (mind_get now db' i))))" for a
    by (rule atomic_andThen_safe) (simp_all add: never_throws_def action_simps)
  then show ?thesis unfolding mind_create_def by (intro atomic_reads atomic_lift_then)
qed


section \<open>Leases\<close>

lemma update_item_by_id:
  "(\<And>r. it_id (f r) = it_id r) \<Longrightarrow>
   item_by_id (update_item k f db) i = (if i = k then map_option f (item_by_id db i) else item_by_id db i)"
  unfolding item_by_id_def update_item_def by (simp add: find_update_where_key)

lemma item_by_id_frame [simp]:
  "item_by_id (add_event j typ actor data tm db) i = item_by_id db i"
  "item_by_id (delete_claim j db) i = item_by_id db i"
  "item_by_id (insert_claim c db) i = item_by_id db i"
  "item_by_id (update_claim j g db) i = item_by_id db i"
  by (simp_all add: item_by_id_def add_event_def delete_claim_def insert_claim_def update_claim_def)

lemma item_by_id_comment:
  "item_by_id (snd (addCommentInternal j body author tm replyTo db)) i =
   (if i = j then map_option (\<lambda>r. r\<lparr>it_updated_at := tm\<rparr>) (item_by_id db i) else item_by_id db i)"
proof -
  have "item_by_id (db\<lparr>db_comments := cs, db_next_comment := n\<rparr>) k = item_by_id db k" for cs n k
    by (simp add: item_by_id_def)
  then show ?thesis by (simp add: addCommentInternal_def Let_def touch_def update_item_by_id)
qed

lemma item_by_id_set_status:
  "item_by_id (set_status j st c tm db) i =
   (if i = j then map_option (\<lambda>r. r\<lparr>it_status := st, it_closed_at := c, it_updated_at := tm\<rparr>) (item_by_id db i)
    else item_by_id db i)"
  by (simp add: set_status_def update_item_by_id)

lemma claim_of_frame [simp]:
  "claim_of (add_event j typ actor data tm db) i = claim_of db i"
  "claim_of (update_item j f db) i = claim_of db i"
  "claim_of (snd (addCommentInternal j body author tm replyTo db)) i = claim_of db i"
  "claim_of (set_status j st c tm db) i = claim_of db i"
  by (simp_all add: claim_of_def set_status_def)

lemma claim_of_delete [simp]: "claim_of (delete_claim j db) i = (if i = j then None else claim_of db i)"
  by (simp add: claim_of_def delete_claim_def find_delete_where_key)

lemma claim_of_insert [simp]:
  "claim_of (insert_claim c db) i = (case claim_of db i of None \<Rightarrow> if cl_item c = i then Some c else None | Some d \<Rightarrow> Some d)"
  by (simp add: claim_of_def insert_claim_def find_append split: option.split)

lemma claim_of_update [simp]:
  "(\<And>c. cl_item (f c) = cl_item c) \<Longrightarrow>
   claim_of (update_claim j f db) i = (if i = j then map_option f (claim_of db i) else claim_of db i)"
  unfolding claim_of_def update_claim_def by (simp add: find_update_where_key)

lemmas lease_frames = item_by_id_comment item_by_id_set_status

lemma failed_at: "atomic_on_error m \<Longrightarrow> fst (m s) = Inl e \<Longrightarrow> m s = (Inl e, s)"
  by (cases "m s") (auto simp: atomic_on_error_def)

text \<open>
  C6. While a claim is live, every claim operation of another principal is refused and changes
  nothing: claiming, resuming, renewing, logging, releasing and finishing.
\<close>

theorem live_claim_excludes_others:
  assumes "claim_of db i = Some c" and "now < cl_expires c"
    and "trim p \<noteq> cl_principal c" and "ko_principal opts = trim p"
  shows "(\<exists>e. claim now i opts db = (Inl e, db)) \<and> (\<exists>e. resumeClaim now i opts db = (Inl e, db)) \<and>
    (\<exists>e. renewClaim now i p ttl db = (Inl e, db)) \<and> (\<exists>e. logClaim now i p owner kind body ttl db = (Inl e, db)) \<and>
    (\<exists>e. releaseClaim now i p toWaiting note db = (Inl e, db)) \<and>
    (\<exists>e. finishClaim now i p owner result verification omissions db = (Inl e, db))"
proof -
  have lift_err: "(\<exists>e. andThen (lift r) k db = (Inl e, db))" if "\<And>a. \<exists>e. k a db = (Inl e, db)"
    for r :: "mind_error + 'a" and k :: "'a \<Rightarrow> (mind_error, mind_db, 'b) action"
    using that by (cases r) (auto simp: action_simps)
  have get_err: "\<exists>e. and_get now i (transaction m) db = (Inl e, db)" if "\<exists>e s. m db = (Inl e, s)"
    for m :: "(mind_error, mind_db, unit) action"
    using that by (auto simp: and_get_def action_simps)
  have "\<exists>e s. claim_tx now t i opts db = (Inl e, s)" "\<exists>e s. resume_tx now t i opts db = (Inl e, s)" for t
    using assms by (auto simp: claim_tx_def resume_tx_def Let_def split: option.split)
  moreover have none: "\<exists>e. require_live_claim now db i p = Inl e"
    using assms by (auto simp: require_live_claim_def bindR_def split: sum.split)
  then have "\<exists>e s. reads (\<lambda>db. andThen (lift (require_live_claim now db i p)) (k db)) db = (Inl e, s)"
    for k :: "mind_db \<Rightarrow> claim_row \<Rightarrow> (mind_error, mind_db, unit) action"
    by (auto simp: action_simps)
  moreover have "\<exists>e s. reads (\<lambda>db. andThen (lift (requireExecutableTask db i)) (\<lambda>_. andThen (lift (case claim_of db i of
       None \<Rightarrow> Inl (NoActiveClaim i) | Some c \<Rightarrow> if cl_principal c \<noteq> trim p then Inl (ClaimedByAnother i) else Inr c)) k)) db = (Inl e, s)"
    for k :: "claim_row \<Rightarrow> (mind_error, mind_db, unit) action"
    using assms by (cases "requireExecutableTask db i") (auto simp: action_simps)
  ultimately show ?thesis
    unfolding claim_def resumeClaim_def renewClaim_def logClaim_def releaseClaim_def finishClaim_def
    by (intro conjI lift_err get_err)
qed

theorem live_claim_excludes_others_witness:
  "(\<exists>e. claim 3000 ''elm-00000005'' (ava_opts ''p2'') leased_db = (Inl e, leased_db)) \<and>
   (\<exists>e. renewClaim 3000 ''elm-00000005'' ''p2'' None leased_db = (Inl e, leased_db))"
proof -
  have c: "claim_of leased_db ''elm-00000005'' = Some (new_claim ''elm-00000005'' (ava_opts ''p1'') 2000 60000)"
    by (simp add: claim_of_def leased_claims new_claim_def)
  show ?thesis
    using live_claim_excludes_others [OF c, of 3000 "''p2''" "ava_opts ''p2''" None] 
    by (simp add: new_claim_def ava_opts_def)
qed

text \<open>
  Claiming open, unblocked, unclaimed work succeeds: the item is returned in progress, the
  caller holds a lease of the requested length under the trimmed principal, the item's other
  columns but the update time are untouched, and no other item or claim changes.
\<close>

theorem claim_grants_lease:
  assumes "item_by_id db i = Some r" "it_archived_at r = None" "it_kind r = Task" "it_status r = Open"
    and "unresolvedDependencyCount db i = 0" "claim_of db i = None" "claim_args opts ttl"
  shows "\<exists>d db'. claim now i opts db = (Inr (Some d), db') \<and>
    it_status d = InProgress \<and> mi_claim d = Some (claimFromRow now (new_claim i opts now ttl)) \<and>
    item_by_id db' i = Some (r\<lparr>it_status := InProgress, it_closed_at := None, it_updated_at := now\<rparr>) \<and>
    claim_of db' i = Some (new_claim i opts now ttl) \<and>
    (\<forall>j. j \<noteq> i \<longrightarrow> item_by_id db' j = item_by_id db j \<and> claim_of db' j = claim_of db j)"
proof -
  let ?db' = "start_claim now ttl i opts None db"
  have item: "item_by_id ?db' i = Some (r\<lparr>it_status := InProgress, it_closed_at := None, it_updated_at := now\<rparr>)"
    and claim: "claim_of ?db' i = Some (new_claim i opts now ttl)"
    and others: "\<forall>j. j \<noteq> i \<longrightarrow> item_by_id ?db' j = item_by_id db j \<and> claim_of ?db' j = claim_of db j"
    using assms(1,6) by (simp_all add: start_claim_def Let_def lease_frames new_claim_def split: option.split)
  obtain d where d: "mind_get now ?db' i = Some d" by (simp add: mind_get_def item)
  have "it_id r = i" using assms(1) item_by_id_SomeD by blast
  then have "it_status d = InProgress \<and> mi_claim d = Some (claimFromRow now (new_claim i opts now ttl))"
    using d by (auto simp: mind_get_def item hydrate_def Let_def claimFor_def claim item_row.defs mind_item.defs mind_detail.defs)
  with d item claim others claim_fresh [OF assms, of now] show ?thesis by auto
qed

theorem claim_grants_lease_witness:
  "\<exists>d db'. claim 2000 ''elm-00000005'' (ava_opts ''p1'') plan_db = (Inr (Some d), db') \<and> it_status d = InProgress"
proof -
  have "claim_args (ava_opts ''p1'') 60000"
    by (simp add: claim_args_def claimTtl_def assertText_def ava_opts_def)
  from claim_grants_lease [OF plan_item _ _ _ plan_free(1) plan_free(2) this, of 2000]
  show ?thesis by (auto simp: plain_row_def)
qed

text \<open>
  Finishing a live claim of one's own closes the work: given well-formed texts and no
  unresolved dependency, the item becomes done with the closing time of the call, the claim is
  gone, the last comment is the completion record by the given owner, and the last event
  is \<open>claim.completed\<close>.
\<close>

theorem finish_completes_work:
  assumes "item_by_id db i = Some r" "it_archived_at r = None" "it_kind r = Task"
    and "claim_of db i = Some c" "now < cl_expires c" "trim p = cl_principal c" "unresolvedDependencyCount db i = 0"
    and "\<forall>t \<in> {result, verification, omissions}. trim t \<noteq> [] \<and> length t \<le> 10000"
    and "trim p \<noteq> []" "length p \<le> 200" "trim owner \<noteq> []" "length owner \<le> 120"
    and "length (completion_record result verification omissions) \<le> 20000"
  shows "\<exists>d db'. finishClaim now i p owner result verification omissions db = (Inr d, db') \<and>
    item_by_id db' i = Some (r\<lparr>it_status := Done, it_closed_at := Some now, it_updated_at := now\<rparr>) \<and>
    claim_of db' i = None \<and>
    cm_body (last (db_comments db')) = trim (completion_record result verification omissions) \<and>
    cm_author (last (db_comments db')) = trim owner \<and> ev_type (last (db_events db')) = ''claim.completed''"
proof -
  have "trim (completion_record result verification omissions) \<noteq> []"
    by (auto simp: trim_eq_Nil completion_record_def is_space_def code_unit_def intro!: bexI [of _ "CHR ''R''"])
  moreover have "require_live_claim now db i p = Inr c"
    using assms by (simp add: require_live_claim_def requireExecutableTask_def)
  ultimately show ?thesis
    using assms unfolding finishClaim_def
    by (simp add: action_simps and_get_def assertText_def Let_def lease_frames)
      (simp add: addCommentInternal_def Let_def add_event_def touch_def update_item_def set_status_def delete_claim_def)
qed

lemma leased_item: "item_by_id leased_db ''elm-00000005'' =
    Some ((plain_row ''elm-00000005'' ''plan'')\<lparr>it_status := InProgress, it_closed_at := None, it_updated_at := 2000\<rparr>)"
  by (simp add: leased_db_def start_claim_def Let_def lease_frames plan_item)

lemma leased_claim: "claim_of leased_db ''elm-00000005'' = Some (new_claim ''elm-00000005'' (ava_opts ''p1'') 2000 60000)"
  by (simp add: claim_of_def leased_claims new_claim_def)

lemma leased_deps: "unresolvedDependencyCount leased_db i = 0"
  by (simp add: unresolvedDependencyCount_def dependency_rows_def leased_db_def start_claim_def Let_def add_event_def
      addCommentInternal_def touch_def set_status_def insert_claim_def plan_db_def empty_db_def)

theorem finish_completes_work_witness:
  "\<exists>d db'. finishClaim 3000 ''elm-00000005'' ''p1'' ''ava'' ''plan'' ''p1'' ''p2'' leased_db = (Inr d, db') \<and>
     claim_of db' ''elm-00000005'' = None"
proof -
  have "trim (completion_record ''plan'' ''p1'' ''p2'') \<noteq> [] \<and> length (completion_record ''plan'' ''p1'' ''p2'') \<le> 20000"
    by (simp add: completion_record_def newline_def trim_eq_Nil is_space_def code_unit_def)
  then show ?thesis
    using finish_completes_work [OF leased_item _ _ leased_claim, of 3000 "''p1''" "''plan''" "''p1''" "''p2''" "''ava''"]
    by (auto simp: plain_row_def new_claim_def ava_opts_def leased_deps)
qed

lemma claim_of_iff:
  assumes "mind_inv_x X db"
  shows "claim_of db i = Some c \<longleftrightarrow> c \<in> set (db_claims db) \<and> cl_item c = i"
  unfolding claim_of_def by (rule find_key_iff) (use assms in \<open>simp add: mind_inv_x_def claims_inv_def\<close>)

lemma expire_one_claims: "db_claims (expire_one now c db) = delete_where (\<lambda>d. cl_item d = cl_item c) (db_claims db)"
  by (simp add: expire_one_def Let_def delete_claim_def)

lemma expire_all_claims:
  "db_claims (fold (expire_one now) cs db) = filter (\<lambda>d. cl_item d \<notin> cl_item ` set cs) (db_claims db)"
  by (induction cs arbitrary: db) (auto simp: expire_one_claims delete_where_def intro: filter_cong)

definition reopened :: "time \<Rightarrow> item_row \<Rightarrow> item_row" where
  "reopened now r = r\<lparr>it_status := (if it_status r = InProgress then Open else it_status r), it_updated_at := now\<rparr>"

lemma reopened_idem [simp]: "reopened now (reopened now r) = reopened now r"
  by (simp add: reopened_def)

lemma expire_one_item:
  "item_by_id (expire_one now c db) i =
   (if i = cl_item c then map_option (reopened now) (item_by_id db i) else item_by_id db i)"
  by (cases "item_by_id db i") (auto simp: expire_one_def Let_def item_by_id_comment update_item_by_id reopened_def)

lemma expire_all_item:
  "item_by_id (fold (expire_one now) cs db) i =
   (if i \<in> cl_item ` set cs then map_option (reopened now) (item_by_id db i) else item_by_id db i)"
  by (induction cs arbitrary: db) (auto simp: expire_one_item option.map_comp comp_def)

text \<open>
  Expiry frees exactly the work whose lease has run out: in an intact database it returns the
  items of the expired claims in order, keeps every other claim, puts each of these items back to
  open and touches no other item.
\<close>

theorem expire_frees_expired:
  assumes "mind_inv db"
  shows "\<exists>db'. expireClaims now db = (Inr (map cl_item (expired_claims now db)), db') \<and>
    db_claims db' = filter (\<lambda>c. now < cl_expires c) (db_claims db) \<and>
    (\<forall>c r. c \<in> set (db_claims db) \<and> cl_expires c \<le> now \<and> item_by_id db (cl_item c) = Some r \<longrightarrow>
       item_by_id db' (cl_item c) = Some (r\<lparr>it_status := Open, it_updated_at := now\<rparr>)) \<and>
    (\<forall>i. (\<forall>c \<in> set (db_claims db). cl_item c = i \<longrightarrow> now < cl_expires c) \<longrightarrow> item_by_id db' i = item_by_id db i) \<and>
    sorted (map cl_item (expired_claims now db))"
proof -
  let ?db' = "fold (expire_one now) (expired_claims now db) db"
  have inv: "mind_inv_x {} db" using assms by (simp add: mind_inv_def)
  have same: "c = d" if "c \<in> set (db_claims db)" "d \<in> set (db_claims db)" "cl_item c = cl_item d" for c d
    using that inv by (auto simp: mind_inv_x_def claims_inv_def distinct_map inj_on_def)
  have ex: "set (expired_claims now db) = {c \<in> set (db_claims db). cl_expires c \<le> now}"
    by (simp add: expired_claims_def)
  have "db_claims ?db' = filter (\<lambda>c. now < cl_expires c) (db_claims db)"
  proof -
    have "cl_item c \<notin> cl_item ` {c \<in> set (db_claims db). cl_expires c \<le> now} \<longleftrightarrow> now < cl_expires c"
      if "c \<in> set (db_claims db)" for c
    proof
      show "now < cl_expires c" if "cl_item c \<notin> cl_item ` {c \<in> set (db_claims db). cl_expires c \<le> now}"
        using that \<open>c \<in> set (db_claims db)\<close> by (auto simp: not_less [symmetric])
      show "cl_item c \<notin> cl_item ` {c \<in> set (db_claims db). cl_expires c \<le> now}" if "now < cl_expires c"
        using that same [OF \<open>c \<in> set (db_claims db)\<close>] by (metis (mono_tags, lifting) image_iff mem_Collect_eq not_less)
    qed
    then show ?thesis unfolding expire_all_claims ex by (intro filter_cong) simp_all
  qed
  moreover have "it_status r = InProgress" if "c \<in> set (db_claims db)" "item_by_id db (cl_item c) = Some r" for c r
  proof -
    from that(1) inv have "cl_item c \<in> claimable db" by (auto simp: mind_inv_x_def claims_inv_def)
    then show ?thesis using row_unique [OF inv that(2)] by (auto simp: claimable_def)
  qed
  moreover have "sorted (map cl_item (expired_claims now db))"
    unfolding expired_claims_def sorted_map by (rule sorted_sort_by) auto
  ultimately show ?thesis
    unfolding expireClaims_def using same
    by (auto simp: expire_all_item ex reopened_def image_iff not_less)
qed

theorem expire_frees_expired_witness:
  "\<exists>db'. expireClaims 100000 leased_db = (Inr [''elm-00000005''], db') \<and> db_claims db' = []"
proof -
  have "mind_inv leased_db" using mind.inv_reachable [OF refl leased_reachable] .
  moreover have "expired_claims 100000 leased_db = [new_claim ''elm-00000005'' (ava_opts ''p1'') 2000 60000]"
    "filter (\<lambda>c. 100000 < cl_expires c) (db_claims leased_db) = []"
    by (simp_all add: expired_claims_def leased_claims) (simp_all add: new_claim_def)
  ultimately show ?thesis
    using expire_frees_expired [of leased_db 100000] by (auto simp: new_claim_def)
qed

text \<open>
  C33. The cycle check is exact: in an intact database a dependency between two existing items
  that are not proposals is accepted if and only if the dependency relation stays acyclic with
  it; after it is accepted the relation is the old one with the new edge, and a refusal leaves the
  database as it was.
\<close>

theorem dependency_accepted_iff_acyclic:
  assumes "mind_inv db" and "i \<in> item_ids db - proposals db" "j \<in> item_ids db - proposals db"
  shows "(if acyclic (insert (i, j) (set (dep_edges db)))
     then \<exists>db'. addDependency now i j actor db = (Inr (mind_get now db' i), db') \<and>
       set (dep_edges db') = insert (i, j) (set (dep_edges db))
     else \<exists>e. addDependency now i j actor db = (Inl e, db))"
proof -
  have inv: "mind_inv_x {} db" using assms by (simp add: mind_inv_def)
  have ids: "isMindId k \<and> item_by_id db k \<noteq> None" if "k \<in> item_ids db" for k
    using that inv by (auto simp: mind_inv_x_def items_inv_def list_all_iff row_ok_def item_ids_def item_by_id_None)
  then have req: "requireId db i = Inr ()" "requireId db j = Inr ()" using assms by (auto simp: requireId_def)
  have el: "dep_eligible db i j" using assms(2,3) by (auto simp: dep_eligible_def proposals_def list_ex_iff)
  have "acyclic (set (dep_edges db))" using inv by (simp add: mind_inv_x_def deps_inv_def)
  note iff = dep_guard.accepted_iff_acyclic [OF this el, of actor now]
  obtain r db' where run: "addDependencyInternal i j actor now db = (r, db')" by fastforce
  have ev: "set (dep_edges (add_event k ty w dat tm d)) = set (dep_edges d)"
    "dep_edges (touch k tm d) = dep_edges d" for k ty w dat tm d
    by (simp_all add: dep_edges_def add_event_def touch_def)
  show ?thesis
  proof (cases "acyclic (insert (i, j) (set (dep_edges db)))")
    case True
    with iff run have r: "r = Inr ()" by simp
    have "set (dep_edges db') = insert (i, j) (set (dep_edges db))"
      using run r by (auto simp: addDependencyInternal_def ev list_ex_iff dep_edges_def split: if_splits)
        (auto simp: add_event_def)
    then show ?thesis
      using True run r by (simp add: addDependency_def and_get_def action_simps req ev)
  next
    case False
    with iff run obtain e where "r = Inl e" by (cases r) auto
    with False run show ?thesis by (simp add: addDependency_def and_get_def action_simps req)
  qed
qed

definition pair_db :: mind_db where
  "pair_db = snd (mind_create 1000 [7] (plain_opts ''plan'') plan_db)"

lemma pair_reachable: "mind_step\<^sup>*\<^sup>* empty_db pair_db"
  unfolding pair_db_def using plan_reachable by (rule rtranclp.rtrancl_into_rtrancl) (rule mind_step.create)

lemma pair_items: "db_items pair_db = [plain_row ''elm-00000005'' ''plan'', plain_row ''elm-00000007'' ''plan'']"
  and pair_deps: "db_deps pair_db = []"
proof -
  have "base36_char 7 = CHR ''7''" by code_simp
  then have "newMindId [7] = Some (''elm-00000007'', [])" using new_id_digit [of 7 "[]"] by simp
  moreover have "item_by_id plan_db ''elm-00000007'' = None"
    by (simp add: item_by_id_def plan_db_def add_event_def empty_db_def plain_row_def)
  ultimately have "fresh_id plan_db [7] = Some (''elm-00000007'', [])"
    by (subst fresh_id.simps) (simp only: option.case prod.case simp_thms if_False not_True_eq_False)
  then have eq: "pair_db = add_event ''elm-00000007'' ''item.created'' ''agent''
      (created_data (plain_opts ''plan'') \<lparr>ca_kind = Task, ca_status = Open, ca_priority = 2,
        ca_body = [], ca_actor = ''agent'', ca_due = None, ca_depends = [], ca_tags = []\<rparr>) 1000
      (insert_item (plain_row ''elm-00000007'' ''plan'') [] plan_db)"
    unfolding pair_db_def
    by (simp add: mind_create_def action_simps check_plan create_tx_def)
      (simp add: created_row_def plain_row_def plain_opts_def closes_def)
  show "db_items pair_db = [plain_row ''elm-00000005'' ''plan'', plain_row ''elm-00000007'' ''plan'']" "db_deps pair_db = []"
    unfolding eq by (simp_all add: add_event_def insert_item_def plan_db_def empty_db_def)
qed

lemma pair_inv: "mind_inv pair_db"
  using mind.inv_reachable [OF refl pair_reachable] .

theorem dependency_accepted_iff_acyclic_witness:
  "(\<exists>db'. addDependency 2000 ''elm-00000005'' ''elm-00000007'' ''agent'' pair_db = (Inr (mind_get 2000 db' ''elm-00000005''), db') \<and>
     set (dep_edges db') = {(''elm-00000005'', ''elm-00000007'')}) \<and>
   (\<exists>e. addDependency 2000 ''elm-00000005'' ''elm-00000005'' ''agent'' pair_db = (Inl e, pair_db))"
proof -
  have e: "dep_edges pair_db = []" by (simp add: dep_edges_def pair_deps)
  have a: "acyclic (insert (''elm-00000005'', ''elm-00000007'') {})"
    by (subst acyclic_insert) (simp add: acyclic_def)
  have b: "\<not> acyclic (insert (''elm-00000005'', ''elm-00000005'') {})" by simp
  have "''elm-00000005'' \<in> item_ids pair_db - proposals pair_db" "''elm-00000007'' \<in> item_ids pair_db - proposals pair_db"
    by (simp_all add: item_ids_def pair_items plain_row_def proposal_id_iff)
  then show ?thesis
    using dependency_accepted_iff_acyclic [OF pair_inv, of "''elm-00000005''" "''elm-00000007''" 2000 "''agent''"]
      dependency_accepted_iff_acyclic [OF pair_inv, of "''elm-00000005''" "''elm-00000005''" 2000 "''agent''"]
    unfolding e list.set(1) if_P [OF a] if_not_P [OF b] by blast
qed

section \<open>Creating and updating\<close>

lemma addDependencyInternal_new:
  assumes "k \<notin> proposals db" "j \<notin> proposals db" "k \<noteq> j" "k \<notin> snd ` set (dep_edges db)"
  shows "\<exists>db'. addDependencyInternal k j actor tm db = (Inr (), db') \<and>
    set (dep_edges db') = insert (k, j) (set (dep_edges db)) \<and> db_items db' = db_items db"
proof -
  have "k \<notin> set (cte_reach (dep_edges db) j)"
  proof
    assume "k \<in> set (cte_reach (dep_edges db) j)"
    then have "(j, k) \<in> (set (dep_edges db))\<^sup>+" by (simp add: set_cte_reach)
    then show False using assms(4) by (cases rule: trancl.cases) force+
  qed
  moreover have "\<not> list_ex (\<lambda>r. it_id r \<in> {k, j} \<and> it_status r = Proposal) (db_items db)"
    using assms(1,2) by (auto simp: proposals_def list_ex_iff)
  ultimately show ?thesis
    using assms(3) by (auto simp: addDependencyInternal_def add_event_def dep_edges_def list_ex_iff)
qed

lemma addDependencies_new:
  assumes "k \<notin> proposals db" "set js \<inter> proposals db = {}" "k \<notin> set js" "k \<notin> snd ` set (dep_edges db)"
  shows "\<exists>db'. for_each (\<lambda>j. addDependencyInternal k j actor tm) js db = (Inr (), db') \<and>
    set (dep_edges db') = {k} \<times> set js \<union> set (dep_edges db) \<and> db_items db' = db_items db"
  using assms
proof (induction js arbitrary: db)
  case (Cons j js)
  then obtain db1 where 1: "addDependencyInternal k j actor tm db = (Inr (), db1)"
    "set (dep_edges db1) = insert (k, j) (set (dep_edges db))" "db_items db1 = db_items db"
    using addDependencyInternal_new [of k db j actor tm] by auto
  have "proposals db1 = proposals db" by (simp add: proposals_def 1)
  with Cons.prems 1(2) obtain db2 where
    "for_each (\<lambda>j. addDependencyInternal k j actor tm) js db1 = (Inr (), db2)"
    "set (dep_edges db2) = {k} \<times> set js \<union> set (dep_edges db1)" "db_items db2 = db_items db1"
    using Cons.IH [of db1] by auto
  with 1 show ?case by (auto simp: action_simps)
qed (simp add: action_simps)

text \<open>
  Creation works: in an intact database, with arguments that pass validation, dependencies
  that are no proposals and a random source that yields a free id, \<open>create\<close> returns the new item;
  it is appended under a canonical id that was free, with the trimmed title and the defaults
  filled in, it depends on exactly the given items, and all other rows stay.
\<close>

theorem create_adds_item:
  assumes "mind_inv db" and "check_create db opts = Inr a" and "fresh_id db vs = Some (i, rest)"
    and "set (ca_depends a) \<inter> proposals db = {}"
  shows "\<exists>d db'. mind_create now vs opts db = (Inr (Some d), db') \<and>
    db_items db' = db_items db @ [created_row now opts a i] \<and> it_id d = i \<and> isMindId i \<and> i \<notin> item_ids db \<and>
    set (dep_edges db') = {i} \<times> set (ca_depends a) \<union> set (dep_edges db) \<and> mind_inv db'"
proof -
  let ?d1 = "insert_item (created_row now opts a i) (ca_tags a) db"
  have inv: "mind_inv_x {} db" using assms by (simp add: mind_inv_def)
  have i: "isMindId i" "i \<notin> item_ids db" using fresh_id_new [OF assms(3)] by auto
  have deps: "set (ca_depends a) \<subseteq> item_ids db" by (rule check_create_ok(6) [OF assms(2)])
  have e1: "dep_edges ?d1 = dep_edges db" "db_items ?d1 = db_items db @ [created_row now opts a i]"
    by (simp_all add: insert_item_def dep_edges_def)
  have st: "ca_status a = Proposal \<Longrightarrow> ca_depends a = []"
    using assms(2) by (auto simp: check_create_def bindR_Inr_iff split: if_splits)
  have "\<exists>db'. for_each (\<lambda>j. addDependencyInternal i j (ca_actor a) now) (ca_depends a) ?d1 = (Inr (), db') \<and>
     set (dep_edges db') = {i} \<times> set (ca_depends a) \<union> set (dep_edges ?d1) \<and> db_items db' = db_items ?d1"
  proof (cases "ca_depends a = []")
    case False
    have "snd ` set (dep_edges db) \<subseteq> item_ids db" using inv unfolding mind_inv_x_def deps_inv_def by auto
    moreover have "proposals ?d1 = proposals db"
    proof -
      have "it_status (created_row now opts a i) \<noteq> Proposal" using False st by (auto simp: created_row_def)
      then show ?thesis unfolding proposals_def e1(2) by auto
    qed
    moreover have "i \<notin> proposals db" using i(2) by (auto simp: proposals_def item_ids_def)
    ultimately show ?thesis
      using i(2) deps assms(4) by (intro addDependencies_new) (auto simp: e1)
  qed (simp add: action_simps)
  then obtain db1 where 1: "for_each (\<lambda>j. addDependencyInternal i j (ca_actor a) now) (ca_depends a) ?d1 = (Inr (), db1)"
    "set (dep_edges db1) = {i} \<times> set (ca_depends a) \<union> set (dep_edges db)"
    "db_items db1 = db_items db @ [created_row now opts a i]" using e1 by auto
  let ?db' = "add_event i ''item.created'' (ca_actor a) (created_data opts a) now db1"
  have run: "mind_create now vs opts db = (Inr (mind_get now ?db' i), ?db')"
    using assms(2,3) 1(1) by (simp add: mind_create_def create_tx_def action_simps)
  have "item_by_id ?db' i = Some (created_row now opts a i)"
    using i(2) by (simp add: item_by_id_def add_event_def 1(3) find_append find_key_None item_ids_def created_row_def split: option.split)
      (metis find_key_None option.discI)
  then obtain d where d: "mind_get now ?db' i = Some d" "it_id d = i"
    by (auto simp: mind_get_def hydrate_def Let_def created_row_def item_row.defs mind_item.defs mind_detail.defs)
  have "mind_inv ?db'" using safe_create [OF inv, of now vs opts] run by (simp add: safe_at_def mind_inv_def)
  with run d 1 i show ?thesis by (auto simp: add_event_def dep_edges_def)
qed

theorem create_adds_item_witness:
  "\<exists>d db'. mind_create 1000 [5] (plain_opts ''plan'') empty_db = (Inr (Some d), db') \<and> it_id d = ''elm-00000005'' \<and> mind_inv db'"
  using create_adds_item [OF mind_inv_empty check_plan fresh_5, of 1000] by auto

end
