(* ===== verification/Mind_Query.thy ===== *)
theory Mind_Query
  imports Mind_Correct
begin

text \<open>
  What the reads of \<open>MindStore\<close> return: pages of a listing, ready work, discovery, the graph
  around an item, references, tags and secretary activity.
\<close>

section \<open>Listing\<close>

lemma truncate_hydrate [simp]: "item_row.truncate (hydrate now db row) = row"
  by (simp add: hydrate_def Let_def item_row.defs)

lemma hydrate_sel [simp]:
  "it_id (hydrate now db row) = it_id row" "it_status (hydrate now db row) = it_status row"
  "it_kind (hydrate now db row) = it_kind row" "it_archived_at (hydrate now db row) = it_archived_at row"
  "it_priority (hydrate now db row) = it_priority row" "it_updated_at (hydrate now db row) = it_updated_at row"
  "mi_blocked_by (hydrate now db row) = unresolvedDependencies db (it_id row)"
  by (simp_all add: hydrate_def Let_def item_row.defs mind_item.defs)

lemma row_order_total: "row_order db s a b \<or> row_order db s b a"
  by (cases s) (auto split: option.split)

lemma row_order_trans: "row_order db s a b \<Longrightarrow> row_order db s b c \<Longrightarrow> row_order db s a c"
  by (cases s) (auto split: option.splits)

lemma list_limit_bounds: "1 \<le> list_limit f" "list_limit f \<le> 500"
  by (auto simp: list_limit_def)

lemma mind_list_cases:
  assumes "mind_list now db f = Inr xs"
  obtains sts kds tag srt where "map_res assertStatus (lf_statuses f) = Inr sts" "map_res assertKind (lf_kinds f) = Inr kds"
    "assertSort (case lf_sort f of None \<Rightarrow> ''updated_desc'' | Some s \<Rightarrow> s) = Inr srt"
    "(if lf_tag f = [] then Inr None else map_sum id Some (normalizeTag (lf_tag f))) = Inr tag"
    "xs = filter (\<lambda>x. (lf_ready f \<longrightarrow> is_ready x) \<and> (lf_blocked f \<longrightarrow> mi_effective x = Blocked))
       (map (hydrate now db) (take (nat (list_limit f)) (drop (nat (list_offset f))
          (sort_by (row_order db srt) (filter (list_where now db f sts kds tag) (db_items db))))))"
proof -
  have fil: "(if lf_blocked f then filter (\<lambda>x. mi_effective x = Blocked) (if lf_ready f then filter is_ready ys else ys)
       else (if lf_ready f then filter is_ready ys else ys)) =
     filter (\<lambda>x. (lf_ready f \<longrightarrow> is_ready x) \<and> (lf_blocked f \<longrightarrow> mi_effective x = Blocked)) ys" for ys
    by (cases "lf_ready f"; cases "lf_blocked f") (simp_all add: conj_commute)
  from assms show ?thesis
    unfolding mind_list_def bindR_Inr_iff Let_def fil Inr_inject by (elim exE conjE) (rule that, assumption+, simp)
qed



section \<open>Ready work\<close>

lemma list_length: "mind_list now db f = Inr xs \<Longrightarrow> length xs \<le> nat (list_limit f)"
  by (erule mind_list_cases) (simp add: order_trans [OF length_filter_le])

lemma unresolved_Nil:
  "unresolvedDependencies db i = [] \<longleftrightarrow>
   (\<forall>d \<in> set (db_deps db). \<forall>r \<in> set (db_items db). dp_item d = i \<and> it_id r = dp_on d \<longrightarrow> it_status r = Done)"
  by (auto simp: unresolvedDependencies_def dependency_rows_def filter_empty_conv)

lemma ready_where:
  assumes "list_where now db f [Open] [Task] tag r" and "\<not> lf_archived f"
  shows "it_status r = Open \<and> it_kind r = Task \<and> it_archived_at r = None"
  using assms by (simp add: list_where_def)

lemma assert_open_task: "map_res assertStatus [''open''] = Inr [Open]" "map_res assertKind [''task''] = Inr [Task]"
  by (simp_all add: assertStatus_def MIND_STATUSES_def assertKind_def MIND_KINDS_def)

lemma ready_listing:
  assumes "mind_list now db f = Inr xs" "lf_statuses f = [''open'']" "lf_kinds f = [''task'']" "lf_ready f" "\<not> lf_archived f" "x \<in> set xs"
  shows "item_row.truncate x \<in> set (db_items db) \<and> it_status x = Open \<and> it_kind x = Task \<and> it_archived_at x = None \<and>
    (\<forall>d \<in> set (db_deps db). \<forall>r \<in> set (db_items db). dp_item d = it_id x \<and> it_id r = dp_on d \<longrightarrow> it_status r = Done)"
proof (rule mind_list_cases [OF assms(1)])
  fix sts kds tag srt
  assume p: "map_res assertStatus (lf_statuses f) = Inr sts" "map_res assertKind (lf_kinds f) = Inr kds"
    and xs: "xs = filter (\<lambda>x. (lf_ready f \<longrightarrow> is_ready x) \<and> (lf_blocked f \<longrightarrow> mi_effective x = Blocked))
       (map (hydrate now db) (take (nat (list_limit f)) (drop (nat (list_offset f))
          (sort_by (row_order db srt) (filter (list_where now db f sts kds tag) (db_items db))))))"
  have [simp]: "sts = [Open]" "kds = [Task]" using p assms(2,3) assert_open_task by auto
  from assms(6) xs obtain r where x: "x = hydrate now db r" "is_ready x"
    and r: "r \<in> set (db_items db)" "list_where now db f [Open] [Task] tag r"
    using assms(4) by (auto dest!: in_set_takeD in_set_dropD)
  from x(2) have "unresolvedDependencies db (it_id r) = []" by (simp add: is_ready_def x(1))
  then show ?thesis using r ready_where [OF r(2) assms(5)] by (simp add: x(1) unresolved_Nil)
qed

text \<open>
  C38. Ready work can be started: \<open>ready\<close> never fails, returns at most 500 items, and each of them
  is a stored, unarchived, open task all of whose dependencies are done.
\<close>

theorem ready_is_startable:
  "\<exists>xs. mind_ready now db n = Inr xs \<and> length xs \<le> 500 \<and>
    (\<forall>x \<in> set xs. item_row.truncate x \<in> set (db_items db) \<and> it_status x = Open \<and> it_kind x = Task \<and>
       it_archived_at x = None \<and>
       (\<forall>d \<in> set (db_deps db). \<forall>r \<in> set (db_items db). dp_item d = it_id x \<and> it_id r = dp_on d \<longrightarrow> it_status r = Done))"
proof -
  let ?f = "empty_filter\<lparr>lf_statuses := [''open''], lf_kinds := [''task''], lf_ready := True, lf_limit := Some n\<rparr>"
  obtain xs where xs: "mind_list now db ?f = Inr xs"
    by (simp add: mind_list_def assertStatus_def MIND_STATUSES_def assertKind_def MIND_KINDS_def empty_filter_def assertSort_def MIND_SORTS_def Let_def)
  have "length xs \<le> 500" using list_length [OF xs] list_limit_bounds [of ?f] by linarith
  then show ?thesis
    using xs ready_listing [OF xs] unfolding mind_ready_def by (auto simp: empty_filter_def)
qed

text \<open>
  The converse fails: the row limit is applied before the readiness filter, so a limit of one can
  return nothing although an unblocked open task exists.
\<close>

lemma mind_ready_eq:
  "mind_ready now db n = Inr (filter is_ready (map (hydrate now db) (take (nat (max 1 (min 500 n)))
     (sort_by (row_order db UpdatedDesc)
       (filter (\<lambda>r. it_archived_at r = None \<and> it_status r = Open \<and> it_kind r = Task) (db_items db))))))"
proof -
  have "list_where now db (empty_filter\<lparr>lf_statuses := [''open''], lf_kinds := [''task''], lf_ready := True, lf_limit := Some n\<rparr>)
      [Open] [Task] None = (\<lambda>r. it_archived_at r = None \<and> it_status r = Open \<and> it_kind r = Task)"
    by (rule ext) (simp add: list_where_def empty_filter_def trim_def)
  then show ?thesis
    unfolding mind_ready_def mind_list_def
    by (simp add: assertStatus_def MIND_STATUSES_def assertKind_def MIND_KINDS_def empty_filter_def assertSort_def
        MIND_SORTS_def list_limit_def list_offset_def)
qed

definition blocked_pair :: mind_db where
  "blocked_pair = pair_db\<lparr>db_deps := [\<lparr>dp_item = ''elm-00000007'', dp_on = ''elm-00000005'', dp_by = ''agent'', dp_at = 1000\<rparr>]\<rparr>"

lemma ready_limit_hides_work:
  "mind_ready 3000 blocked_pair 1 = Inr [] \<and>
   (\<exists>x. mind_ready 3000 blocked_pair 2 = Inr [x] \<and> it_id x = ''elm-00000005'')"
proof -
  have rows: "db_items blocked_pair = [plain_row ''elm-00000005'' ''plan'', plain_row ''elm-00000007'' ''plan'']"
    by (simp add: blocked_pair_def pair_items)
  have ub: "is_ready (hydrate 3000 blocked_pair (plain_row ''elm-00000005'' ''plan''))"
    "\<not> is_ready (hydrate 3000 blocked_pair (plain_row ''elm-00000007'' ''plan''))"
    by (simp_all add: is_ready_def unresolvedDependencies_def dependency_rows_def rows)
      (simp_all add: blocked_pair_def plain_row_def)
  have srt: "sort_by (row_order blocked_pair UpdatedDesc)
      [plain_row ''elm-00000005'' ''plan'', plain_row ''elm-00000007'' ''plan''] =
      [plain_row ''elm-00000007'' ''plan'', plain_row ''elm-00000005'' ''plan'']"
    by (simp add: plain_row_def)
  have "filter (\<lambda>r. it_archived_at r = None \<and> it_status r = Open \<and> it_kind r = Task) (db_items blocked_pair) =
      [plain_row ''elm-00000005'' ''plan'', plain_row ''elm-00000007'' ''plan'']"
    by (simp add: rows plain_row_def)
  then have "mind_ready 3000 blocked_pair n = Inr (filter is_ready (map (hydrate 3000 blocked_pair)
      (take (nat (max 1 (min 500 n))) [plain_row ''elm-00000007'' ''plan'', plain_row ''elm-00000005'' ''plan''])))" for n
    by (simp only: mind_ready_eq srt)
  from this [of 1] this [of 2] ub show ?thesis by (simp add: plain_row_def)
qed

theorem ready_is_startable_witness:
  "\<exists>x. mind_ready 3000 blocked_pair 2 = Inr [x] \<and> it_status x = Open \<and> it_archived_at x = None"
  using ready_is_startable [of 3000 blocked_pair 2] ready_limit_hides_work by auto

section \<open>Discovery\<close>

lemma match_order_total: "match_order a b \<or> match_order b a"
  by (auto simp: match_order_def)

lemma match_order_trans: "match_order a b \<Longrightarrow> match_order b c \<Longrightarrow> match_order a c"
  by (auto simp: match_order_def)

text \<open>
  Discovery proposes work that can be started, best first: at most 50 matches, ordered by
  score, then priority, then most recent update; every match has a positive score and is an
  unarchived open task all of whose dependencies are done.
\<close>

theorem discover_ranks_ready_work:
  assumes "mind_discover now db ctx opts = Inr ms"
  shows "length ms \<le> 50 \<and> sorted_wrt match_order ms \<and>
    (\<forall>m \<in> set ms. 0 < wm_score m \<and> it_status (wm_item m) = Open \<and> it_kind (wm_item m) = Task \<and>
       it_archived_at (wm_item m) = None \<and>
       (\<forall>d \<in> set (db_deps db). \<forall>r \<in> set (db_items db).
          dp_item d = it_id (wm_item m) \<and> it_id r = dp_on d \<longrightarrow> it_status r = Done))"
proof -
  let ?f = "empty_filter\<lparr>lf_statuses := [''open''], lf_kinds := [''task''], lf_ready := True,
    lf_parent := do_parent opts, lf_limit := Some 500, lf_sort := Some ''updated_desc''\<rparr>"
  let ?n = "nat (max 1 (min 50 (case do_limit opts of None \<Rightarrow> 10 | Some n \<Rightarrow> n)))"
  from assms obtain found terms hints keep where found: "mind_list now db ?f = Inr found"
    and ms: "ms = take ?n (sort_by match_order (filter (\<lambda>m. 0 < wm_score m)
       (map (score_item now db terms hints) (filter keep found))))"
    unfolding mind_discover_def bindR_Inr_iff Let_def by auto
  have "sorted_wrt match_order ms"
    unfolding ms by (intro sorted_wrt_take sorted_sort_by match_order_total) (blast intro: match_order_trans)
  moreover have "length ms \<le> 50" unfolding ms by (simp add: min_le_iff_disj nat_le_iff)
  moreover have "0 < wm_score m \<and> wm_item m \<in> set found" if "m \<in> set ms" for m
    using that unfolding ms by (auto dest!: in_set_takeD simp: score_item_def Let_def)
  moreover have "\<not> lf_archived ?f" "lf_ready ?f" "lf_statuses ?f = [''open'']" "lf_kinds ?f = [''task'']"
    by (simp_all add: empty_filter_def)
  ultimately show ?thesis using ready_listing [OF found] by blast
qed

theorem discover_ranks_ready_work_witness:
  "\<exists>ms. mind_discover 3000 pair_db [] \<lparr>do_tags = [], do_boost_tags = [], do_filter_tags = [], do_filter_all = False,
      do_parent = None, do_limit = None\<rparr> = Inr ms \<and> length ms = 2 \<and> sorted_wrt match_order ms"
proof -
  let ?o = "\<lparr>do_tags = [], do_boost_tags = [], do_filter_tags = [], do_filter_all = False, do_parent = None, do_limit = None\<rparr>"
  let ?a = "hydrate 3000 pair_db (plain_row ''elm-00000005'' ''plan'')" and ?b = "hydrate 3000 pair_db (plain_row ''elm-00000007'' ''plan'')"
  let ?f = "empty_filter\<lparr>lf_statuses := [''open''], lf_kinds := [''task''], lf_ready := True, lf_parent := do_parent ?o,
    lf_limit := Some 500, lf_sort := Some ''updated_desc''\<rparr>"
  have "list_where 3000 pair_db ?f [Open] [Task] None = (\<lambda>r. it_archived_at r = None \<and> it_status r = Open \<and> it_kind r = Task)"
    by (rule ext) (simp add: list_where_def empty_filter_def trim_def)
  then have "mind_list 3000 pair_db ?f = mind_ready 3000 pair_db 500"
    unfolding mind_ready_eq mind_list_def
    by (simp add: assertStatus_def MIND_STATUSES_def assertKind_def MIND_KINDS_def empty_filter_def assertSort_def
        MIND_SORTS_def list_limit_def list_offset_def)
  moreover have "is_ready ?a" "is_ready ?b"
    by (simp_all add: is_ready_def unresolvedDependencies_def dependency_rows_def pair_deps) (simp_all add: plain_row_def)
  moreover have "filter (\<lambda>r. it_archived_at r = None \<and> it_status r = Open \<and> it_kind r = Task) (db_items pair_db) = db_items pair_db"
    by (simp add: pair_items plain_row_def)
  ultimately have "\<exists>xs. mind_list 3000 pair_db ?f = Inr xs \<and> length xs = 2"
    by (auto simp: mind_ready_eq pair_items)
  then obtain ms where ms: "mind_discover 3000 pair_db [] ?o = Inr ms" "length ms = 2"
    by (auto simp: mind_discover_def assertText_def discoveryTerms_def toLowerCase_def score_item_def Let_def)
  from discover_ranks_ready_work [OF ms(1)] ms show ?thesis by blast
qed

section \<open>The graph around an item\<close>

definition ends :: "graph_edge \<Rightarrow> string set" where
  "ends e = {ge_from e, ge_to e}"

lemma visits_ends_all: "list_all (\<lambda>(e, x). ends e = {i, x}) (visits now db rels i)"
  by (simp add: visits_def ends_def list.pred_map comp_def list.pred_True insert_commute split: option.split)

lemma visits_ends: "(e, x) \<in> set (visits now db rels i) \<Longrightarrow> ends e = {i, x}"
  using visits_ends_all [of i now db rels] by (auto simp: list_all_iff)

lemma graph_loop_inv:
  assumes "fst ` set q \<subseteq> set seen" and "distinct seen" and "\<Union> (ends ` set edges) \<subseteq> set seen"
    and "set seen \<subseteq> item_ids db"
  shows "case graph_loop now db rels mx q seen edges of (seen', edges') \<Rightarrow>
    set seen \<subseteq> set seen' \<and> distinct seen' \<and> \<Union> (ends ` set edges') \<subseteq> set seen' \<and> set seen' \<subseteq> item_ids db"
  using assms
proof (induction now db rels mx q seen edges rule: graph_loop.induct)
  case (2 now db rels mx i d q seen edges)
  show ?case
  proof (cases "d \<ge> mx")
    case True
    then show ?thesis using 2 by simp
  next
    case False
    let ?vs = "visits now db rels i"
    let ?new = "uniq (filter (\<lambda>x. x \<notin> set seen) (map snd ?vs))"
    have "case graph_loop now db rels mx (q @ map (\<lambda>x. (x, d + 1)) ?new) (seen @ ?new) (edges @ map fst ?vs) of
      (seen', edges') \<Rightarrow> set (seen @ ?new) \<subseteq> set seen' \<and> distinct seen' \<and>
        \<Union> (ends ` set edges') \<subseteq> set seen' \<and> set seen' \<subseteq> item_ids db"
    proof (rule "2.IH"(2) [OF False refl refl])
      show "fst ` set (q @ map (\<lambda>x. (x, d + 1)) ?new) \<subseteq> set (seen @ ?new)"
        using "2.prems"(1) by (auto simp: image_Un image_image)
      show "distinct (seen @ ?new)" using "2.prems"(2) by auto
      have "i \<in> set seen" using "2.prems"(1) by simp
      then have sub: "ends e \<subseteq> set (seen @ ?new)" if "(e, x) \<in> set ?vs" for e x
      proof -
        have "x \<in> snd ` set ?vs" using that by (metis image_eqI snd_conv)
        then show ?thesis using visits_ends [OF that] \<open>i \<in> set seen\<close> by auto
      qed
      have "\<Union> (ends ` set (map fst ?vs)) \<subseteq> set (seen @ ?new)"
      proof
        fix z assume "z \<in> \<Union> (ends ` set (map fst ?vs))"
        then obtain e x where "(e, x) \<in> set ?vs" "z \<in> ends e" by auto
        then show "z \<in> set (seen @ ?new)" using sub by blast
      qed
      then show "\<Union> (ends ` set (edges @ map fst ?vs)) \<subseteq> set (seen @ ?new)" using "2.prems"(3) by auto
      show "set (seen @ ?new) \<subseteq> item_ids db"
        using "2.prems"(4) visits_items [of now db rels i] by (auto simp: item_ids_def)
    qed
    then show ?thesis using False by (auto simp: Let_def split: prod.splits)
  qed
qed simp

lemma map_filter_get:
  "set ids \<subseteq> item_ids db \<Longrightarrow> map it_id (List.map_filter (mind_get now db) ids) = ids"
proof (induction ids)
  case (Cons i ids)
  then obtain d where "mind_get now db i = Some d"
    using item_by_id_None [of db i] by (auto simp: mind_get_def)
  with Cons mind_get_id show ?case by (auto simp: List.map_filter_simps)
qed (simp add: List.map_filter_simps)

text \<open>
  C39. The graph around an item is closed: the walk ends, no node and no edge is listed twice, the
  root is a node, and both ends of every edge are nodes of the graph.
\<close>

theorem graph_is_closed:
  assumes "mind_graph now db rootId depth relations = Inr g"
  shows "distinct (map it_id (mg_nodes g)) \<and> distinct (mg_edges g) \<and> rootId \<in> it_id ` set (mg_nodes g) \<and>
    (\<forall>e \<in> set (mg_edges g). ge_from e \<in> it_id ` set (mg_nodes g) \<and> ge_to e \<in> it_id ` set (mg_nodes g))"
proof -
  define mx where "mx = max 0 (min 12 \<lfloor>depth\<rfloor>)"
  from assms obtain rels where req: "requireId db rootId = Inr ()"
    and g: "g = (let walk = graph_loop now db rels mx [(rootId, 0)] [rootId] []
       in \<lparr>mg_root = rootId, mg_nodes = List.map_filter (mind_get now db) (fst walk), mg_edges = uniq (snd walk)\<rparr>)"
    unfolding mind_graph_def bindR_Inr_iff Let_def mx_def by auto
  obtain seen edges where w: "graph_loop now db rels mx [(rootId, 0)] [rootId] [] = (seen, edges)" by fastforce
  have inv: "{rootId} \<subseteq> set seen" "distinct seen" "\<Union> (ends ` set edges) \<subseteq> set seen" "set seen \<subseteq> item_ids db"
    using graph_loop_inv [of "[(rootId, 0)]" "[rootId]" "[]" db now rels mx] requireId_in [OF req] w by auto
  have nodes: "map it_id (mg_nodes g) = seen" using g w map_filter_get [OF inv(4), of now] by (simp add: Let_def)
  then have "it_id ` set (mg_nodes g) = set seen" by (metis list.set_map)
  then show ?thesis
    using inv nodes g w by (auto simp: Let_def ends_def)
qed

lemma pair_plan_id: "isMindId ''elm-00000005''" "item_by_id pair_db ''elm-00000005'' = Some (plain_row ''elm-00000005'' ''plan'')"
proof -
  show "isMindId ''elm-00000005''" by code_simp
  show "item_by_id pair_db ''elm-00000005'' = Some (plain_row ''elm-00000005'' ''plan'')"
    by (simp add: item_by_id_def pair_items plain_row_def)
qed

theorem graph_is_closed_witness:
  "\<exists>g. mind_graph 3000 pair_db ''elm-00000005'' 4 [''dependencies'', ''children''] = Inr g \<and>
     ''elm-00000005'' \<in> it_id ` set (mg_nodes g)"
proof -
  have "map_res assertRelation (uniq [''dependencies'', ''children'']) = Inr [Dependencies, Children]" by code_simp
  then obtain g where g: "mind_graph 3000 pair_db ''elm-00000005'' 4 [''dependencies'', ''children''] = Inr g"
    by (simp add: mind_graph_def requireId_def pair_plan_id Let_def)
  from graph_is_closed [OF g] g show ?thesis by blast
qed

section \<open>References\<close>

lemma no_space_trim: "list_all (\<lambda>c. \<not> is_space c) s \<Longrightarrow> trim s = s"
proof -
  have "dropWhile is_space xs = xs" if "list_all (\<lambda>c. \<not> is_space c) xs" for xs
    using that by (cases xs) auto
  then show "list_all (\<lambda>c. \<not> is_space c) s \<Longrightarrow> trim s = s"
    by (simp add: trim_def)
qed

lemma base36_not_space: "is_base36 c \<Longrightarrow> \<not> is_space c"
  by (auto simp: is_base36_def is_digit_def is_lower_az_def is_space_def Let_def)

lemma mind_id_shape:
  assumes "isMindId i"
  obtains s where "i = ''elm-'' @ s" "list_all is_base36 s" "length s = 8"
  using assms by (auto simp: isMindId_def prefix_def)

lemma mind_id_trim: "isMindId i \<Longrightarrow> trim i = i"
proof (elim mind_id_shape)
  fix s assume s: "i = ''elm-'' @ s" "list_all is_base36 s"
  have "list_all (\<lambda>c. \<not> is_space c) ''elm-''" by (simp add: is_space_def code_unit_def)
  then show "trim i = i"
    using s by (intro no_space_trim) (auto simp: list_all_iff base36_not_space)
qed

lemma mind_id_not_legacy: "isMindId i \<Longrightarrow> legacy_id (RefStr i) = None"
  by (auto simp: legacy_id_def Let_def mind_id_trim strip_hash_def is_digit_def code_unit_def elim: mind_id_shape)

text \<open>
  An item is found under its own id, whatever other items, titles and migrated legacy ids there
  are; blanks around the id do not matter.
\<close>

theorem resolve_own_id:
  assumes "mind_inv db" and "r \<in> set (db_items db)" and "trim s = it_id r"
  shows "resolve db (RefStr s) = Inr (it_id r)"
proof -
  have inv: "distinct (map it_id (db_items db))" "isMindId (it_id r)"
    using assms(1,2) by (auto simp: mind_inv_def mind_inv_x_def items_inv_def list_all_iff row_ok_def)
  let ?rows = "sort_by (\<lambda>a b. it_id a \<le> it_id b) (db_items db)"
  have "find (\<lambda>q. it_id q = it_id r) ?rows = Some r"
    using inv(1) assms(2) by (intro find_key_in_set) simp_all
  moreover have "it_id r \<noteq> []" using inv(2) by (auto elim: mind_id_shape)
  moreover have "legacy_id (RefStr s) = None"
    using mind_id_not_legacy [OF inv(2)] mind_id_trim [OF inv(2)] assms(3) by (simp add: legacy_id_def)
  ultimately show ?thesis
    using assms(3) by (simp add: resolve_def resolveMindRef_def)
qed

theorem resolve_own_id_witness: "resolve pair_db (RefStr '' elm-00000007 '') = Inr ''elm-00000007''"
proof -
  have "trim '' elm-00000007 '' = ''elm-00000007''" by code_simp
  then show ?thesis
    using resolve_own_id [OF pair_inv, of "plain_row ''elm-00000007'' ''plan''" "'' elm-00000007 ''"]
    by (simp add: pair_items) (simp add: plain_row_def)
qed

section \<open>Tags\<close>

lemma lower_char_idem [simp]: "lower_char (lower_char c) = lower_char c"
proof -
  have "code_unit c < 256" by (simp add: code_unit_def nat_of_char_less_256)
  then show ?thesis
    by (auto simp: lower_char_def is_upper_az_def Let_def code_unit_def)
qed

lemma collapse_no_space: "list_all (\<lambda>c. \<not> is_space c) s \<Longrightarrow> collapse_spaces s = s"
  by (induction s) auto

lemma set_collapse_spaces: "set (collapse_spaces s) \<subseteq> insert (CHR ''-'') (set s)"
proof (induction s rule: collapse_spaces.induct)
  case (2 c cs)
  then show ?case using set_dropWhileD [of _ is_space cs] by auto
qed simp

lemma set_strip_hash: "set (strip_hash s) \<subseteq> set s"
  by (cases s) (auto simp: strip_hash_def)

lemma tag_char_not_space: "is_letter c \<or> is_number c \<or> c \<in> set ''._/-'' \<Longrightarrow> \<not> is_space c"
  by (auto simp: is_letter_def is_number_def is_lower_az_def is_upper_az_def is_digit_def is_space_def Let_def)
    (auto simp: code_unit_def)

lemma valid_tag_chars:
  assumes "valid_tag t"
  shows "list_all (\<lambda>c. \<not> is_space c) t" "strip_hash t = t"
proof -
  obtain c cs where t: "t = c # cs" and c: "is_letter c \<or> is_number c"
    and cs: "list_all (\<lambda>d. is_letter d \<or> is_number d \<or> d \<in> set ''._/-'') cs"
    using assms by (auto simp: valid_tag_def split: list.splits)
  have "\<not> is_space c" using tag_char_not_space [of c] c by blast
  moreover have "list_all (\<lambda>c. \<not> is_space c) cs"
    using cs tag_char_not_space unfolding list_all_iff by blast
  ultimately show "list_all (\<lambda>c. \<not> is_space c) t" by (simp add: t)
  have "c \<noteq> CHR ''#''"
    using c by (auto simp: is_letter_def is_number_def is_lower_az_def is_upper_az_def is_digit_def code_unit_def)
  then show "strip_hash t = t" by (simp add: t strip_hash_def)
qed

text \<open>
  Tag normalisation is idempotent: a normalised tag is accepted again and stays as it is, so
  adding, removing and filtering by a tag read from the database refers to the same tag.
\<close>

theorem normalizeTag_idempotent:
  assumes "normalizeTag v = Inr t"
  shows "normalizeTag t = Inr t"
proof -
  have t: "t = collapse_spaces (strip_hash (toLowerCase (trim v)))" "valid_tag t" "t \<noteq> []" "length t \<le> 48"
    using assms by (auto simp: normalizeTag_def Let_def split: if_splits)
  have "lower_char CHR ''-'' = CHR ''-''" by code_simp
  moreover have "set t \<subseteq> insert (CHR ''-'') (lower_char ` set (trim v))"
    using set_collapse_spaces [of "strip_hash (toLowerCase (trim v))"] set_strip_hash [of "toLowerCase (trim v)"]
    unfolding t(1) toLowerCase_def by auto
  ultimately have "lower_char c = c" if "c \<in> set t" for c using that by auto
  then have low: "toLowerCase t = t" by (simp add: toLowerCase_def map_idI)
  show ?thesis
    unfolding normalizeTag_def using t(2-4)
    by (simp add: no_space_trim low valid_tag_chars collapse_no_space)
qed

theorem normalizeTag_idempotent_witness:
  "normalizeTag '' #Deep Work'' = Inr ''deep-work'' \<and> normalizeTag ''deep-work'' = Inr ''deep-work''"
proof -
  have h: "normalizeTag '' #Deep Work'' = Inr ''deep-work''" by code_simp
  from normalizeTag_idempotent [OF h] h show ?thesis by blast
qed

section \<open>Secretary activity\<close>

lemma activity_rows_sorted: "sorted_wrt (\<lambda>a b. ev_id (fst a) \<ge> ev_id (fst b)) (activity_rows db after)"
  unfolding activity_rows_def by (rule sorted_sort_by) auto

lemma activity_rows_after: "p \<in> set (activity_rows db after) \<Longrightarrow> after < of_int (ev_id (fst p))"
  unfolding activity_rows_def by auto

text \<open>
  Polling secretary activity makes progress and is bounded: a batch has at most 20 entries in
  ascending order of event id, all of them after the given cursor; the returned cursor is never
  before the given one, and passing it back never yields an entry of the same batch again.
\<close>

theorem secretary_activity_cursor:
  fixes after mx db
  defines "b \<equiv> secretaryActivity db (Num (of_int after)) mx"
  assumes "0 \<le> after" "after \<le> 9007199254740991"
  shows "length (ab_events b) \<le> 20 \<and> sorted (map sa_event (ab_events b)) \<and>
    (\<forall>e \<in> set (ab_events b). after < sa_event e \<and> sa_event e \<le> ab_latest b) \<and> after \<le> ab_latest b"
proof -
  define bound where "bound = (if isSafeInteger mx then nat \<lfloor>max 1 (min 20 (finite_val mx))\<rfloor> else 6)"
  define rows where "rows = rev (take (bound + 1) (activity_rows db (of_int after)))"
  have evs: "ab_events b = map (activity_of db) (take_last bound rows)"
    and lat: "ab_latest b = (if ab_events b = [] then after else sa_event (last (ab_events b)))"
    using assms by (simp_all add: b_def secretaryActivity_def Let_def bound_def rows_def max_def)
  have sa [simp]: "sa_event (activity_of db p) = ev_id (fst p)" for p
    by (cases p) (simp add: activity_of_def Let_def)
  have "bound \<le> 20" by (auto simp: bound_def nat_le_iff floor_le_iff)
  moreover have "length (take_last bound rows) \<le> bound" by (simp add: take_last_def)
  ultimately have len: "length (ab_events b) \<le> 20" by (simp add: evs)
  have "sorted_wrt (\<lambda>a b. ev_id (fst b) \<ge> ev_id (fst a)) rows"
    unfolding rows_def sorted_wrt_rev by (intro sorted_wrt_take activity_rows_sorted)
  then have srt: "sorted (map sa_event (ab_events b))"
    unfolding evs take_last_def sorted_map by (simp add: sorted_wrt_map sorted_wrt_drop comp_def)
  have aft: "after < sa_event e" if "e \<in> set (ab_events b)" for e
    using that unfolding evs rows_def take_last_def
    by (auto dest!: in_set_dropD in_set_takeD activity_rows_after)
  have top: "sa_event e \<le> sa_event (last (ab_events b))" if "e \<in> set (ab_events b)" for e
  proof -
    from that obtain ys z where z: "ab_events b = ys @ [z]" by (metis empty_iff empty_set rev_exhaust)
    then show ?thesis using that srt by (auto simp: sorted_append)
  qed
  show ?thesis using len srt aft top lat last_in_set [of "ab_events b"] by (auto intro: less_imp_le)
qed

theorem secretary_activity_cursor_witness:
  "length (ab_events (secretaryActivity pair_db (Num (of_int 0)) (Num 6))) \<le> 20 \<and>
   0 \<le> ab_latest (secretaryActivity pair_db (Num (of_int 0)) (Num 6))"
  using secretary_activity_cursor [of 0 pair_db "Num 6"] by simp

end
