(* ===== verification/Scheduler.thy ===== *)
theory Scheduler
  imports Mind_Id
begin

text \<open>
  The persistent task queue that wakes the agent (src/src/store/scheduler.ts). The state is the
  \<open>scheduled_tasks\<close> table of src/src/store/db.ts, whether the scheduler runs, and the delay its
  timer was last armed with. One clock reading \<open>now\<close> stands for the readings of one call.

  The wake callback that the host passes in is not part of the scheduler: it is the parameter
  \<open>wake\<close>, an action on the scheduler state and on the state \<open>'w\<close> of the rest of the host, which
  may call the scheduler again and may fail.
\<close>

section \<open>Tasks\<close>

datatype task_kind = KReminder | KReminderNag | KHeartbeat | KCustom

record task =
  tk_id :: int
  tk_name :: string
  tk_kind :: task_kind
  tk_channel :: "string option"
  tk_payload :: string
  tk_next :: time
  tk_interval :: "time option"
  tk_nag :: "time option"
  tk_parent :: "int option"
  tk_nag_count :: nat
  tk_snooze :: "time option"
  tk_done :: "time option"
  tk_created :: time

record task_opts =
  to_name :: string
  to_kind :: "task_kind option"
  to_channel :: "string option"
  to_payload :: string
  to_next :: time
  to_interval :: "time option"
  to_nag :: "time option"
  to_parent :: "int option"

record task_patch =
  tp_payload :: "string option"
  tp_next :: "time option"
  tp_interval :: "time option option"
  tp_nag :: "time option option"
  tp_snooze :: "time option option"

datatype sched_error = TaskIsDone int | NameTaken string | WakeFailed string

record sched =
  sc_tasks :: "task list"
  sc_next_id :: int
  sc_running :: bool
  sc_timer :: "time option"

definition fresh_sched :: sched where
  "fresh_sched = \<lparr>sc_tasks = [], sc_next_id = 1, sc_running = False, sc_timer = None\<rparr>"

section \<open>Queries\<close>

definition getById :: "sched \<Rightarrow> int \<Rightarrow> task option" where
  "getById sc i = find (\<lambda>t. tk_id t = i) (sc_tasks sc)"

definition getByName :: "sched \<Rightarrow> string \<Rightarrow> task option" where
  "getByName sc n = find (\<lambda>t. tk_name t = n) (sc_tasks sc)"

definition list_tasks :: "sched \<Rightarrow> task list" where
  "list_tasks sc = sort_by (\<lambda>a b. tk_next a \<le> tk_next b) (sc_tasks sc)"

definition listByParent :: "sched \<Rightarrow> int \<Rightarrow> task list" where
  "listByParent sc i = filter (\<lambda>t. tk_parent t = Some i) (sc_tasks sc)"

definition is_due :: "time \<Rightarrow> task \<Rightarrow> bool" where
  "is_due now t \<longleftrightarrow> tk_done t = None \<and> tk_next t \<le> now \<and>
     (case tk_snooze t of None \<Rightarrow> True | Some u \<Rightarrow> u \<le> now)"

definition listDue :: "sched \<Rightarrow> time \<Rightarrow> task list" where
  "listDue sc now = sort_by (\<lambda>a b. tk_next a \<le> tk_next b) (filter (is_due now) (sc_tasks sc))"

section \<open>The timer\<close>

definition effective_at :: "task \<Rightarrow> time" where
  "effective_at t = max (tk_next t) (case tk_snooze t of None \<Rightarrow> tk_next t | Some u \<Rightarrow> u)"

definition next_at :: "time \<Rightarrow> sched \<Rightarrow> time" where
  "next_at now sc = fold (\<lambda>t acc. if tk_done t \<noteq> None then acc
      else if effective_at t < acc then effective_at t else acc) (list_tasks sc) (now + 60000)"

definition rearm :: "time \<Rightarrow> sched \<Rightarrow> sched" where
  "rearm now sc = (if \<not> sc_running sc then sc
     else sc\<lparr>sc_timer := Some (max 0 (min 60000 (next_at now sc - now)))\<rparr>)"

definition sched_start :: "time \<Rightarrow> sched \<Rightarrow> sched" where
  "sched_start now sc = rearm now (sc\<lparr>sc_running := True\<rparr>)"

definition sched_stop :: "sched \<Rightarrow> sched" where
  "sched_stop sc = sc\<lparr>sc_running := False, sc_timer := None\<rparr>"

section \<open>Changes\<close>

definition update_task :: "int \<Rightarrow> (task \<Rightarrow> task) \<Rightarrow> sched \<Rightarrow> sched" where
  "update_task i f sc = sc\<lparr>sc_tasks := update_where (\<lambda>t. tk_id t = i) f (sc_tasks sc)\<rparr>"

definition updateNextRun :: "int \<Rightarrow> time \<Rightarrow> sched \<Rightarrow> sched" where
  "updateNextRun i tm = update_task i (\<lambda>t. t\<lparr>tk_next := tm\<rparr>)"

definition incrementNagCount :: "int \<Rightarrow> sched \<Rightarrow> sched" where
  "incrementNagCount i = update_task i (\<lambda>t. t\<lparr>tk_nag_count := tk_nag_count t + 1\<rparr>)"

definition markDone :: "time \<Rightarrow> int \<Rightarrow> time \<Rightarrow> sched \<Rightarrow> sched" where
  "markDone now i tm sc = rearm now (update_task i (\<lambda>t. t\<lparr>tk_done := Some tm\<rparr>) sc)"

definition snooze :: "time \<Rightarrow> int \<Rightarrow> time \<Rightarrow> sched \<Rightarrow> sched" where
  "snooze now i u sc = rearm now (update_task i (\<lambda>t. t\<lparr>tk_snooze := Some u\<rparr>) sc)"

definition new_task :: "time \<Rightarrow> task_opts \<Rightarrow> int \<Rightarrow> task" where
  "new_task now o' i = \<lparr>tk_id = i, tk_name = to_name o', tk_kind = (case to_kind o' of None \<Rightarrow> KCustom | Some k \<Rightarrow> k),
     tk_channel = to_channel o', tk_payload = to_payload o', tk_next = to_next o', tk_interval = to_interval o',
     tk_nag = to_nag o', tk_parent = to_parent o', tk_nag_count = 0, tk_snooze = None, tk_done = None,
     tk_created = of_int \<lfloor>now / 1000\<rfloor>\<rparr>"

definition task_create :: "time \<Rightarrow> task_opts \<Rightarrow> (sched_error, sched, task) action" where
  "task_create now o' = (\<lambda>sc.
     if getByName sc (to_name o') \<noteq> None then (Inl (NameTaken (to_name o')), sc)
     else let t = new_task now o' (sc_next_id sc)
          in (Inr t, rearm now (sc\<lparr>sc_tasks := sc_tasks sc @ [t], sc_next_id := sc_next_id sc + 1\<rparr>)))"

definition task_delete :: "time \<Rightarrow> int \<Rightarrow> sched \<Rightarrow> bool \<times> sched" where
  "task_delete now i sc =
     (if getById sc i = None then (False, sc)
      else (True, rearm now (sc\<lparr>sc_tasks := delete_where (\<lambda>t. tk_id t = i) (sc_tasks sc)\<rparr>)))"

definition empty_task_patch :: task_patch where
  "empty_task_patch = \<lparr>tp_payload = None, tp_next = None, tp_interval = None, tp_nag = None, tp_snooze = None\<rparr>"

definition patch_task :: "task_patch \<Rightarrow> task \<Rightarrow> task" where
  "patch_task p t =
     t\<lparr>tk_payload := (case tp_payload p of None \<Rightarrow> tk_payload t | Some x \<Rightarrow> x),
       tk_next := (case tp_next p of None \<Rightarrow> tk_next t | Some x \<Rightarrow> x),
       tk_interval := (case tp_interval p of None \<Rightarrow> tk_interval t | Some x \<Rightarrow> x),
       tk_nag := (case tp_nag p of None \<Rightarrow> tk_nag t | Some x \<Rightarrow> x),
       tk_snooze := (case tp_snooze p of None \<Rightarrow> tk_snooze t | Some x \<Rightarrow> x)\<rparr>"

text \<open>The loop over the pending children of a task that snoozing and finishing run.\<close>

definition pending_children :: "sched \<Rightarrow> int \<Rightarrow> task list" where
  "pending_children sc i = filter (\<lambda>t. tk_done t = None) (listByParent sc i)"

definition snooze_children :: "time \<Rightarrow> int \<Rightarrow> time \<Rightarrow> sched \<Rightarrow> sched" where
  "snooze_children now i u sc = fold (\<lambda>c. snooze now (tk_id c) u) (pending_children sc i) sc"

definition task_update :: "time \<Rightarrow> int \<Rightarrow> task_patch \<Rightarrow> (sched_error, sched, task option) action" where
  "task_update now i p = (\<lambda>sc.
     case getById sc i of
       None \<Rightarrow> (Inr None, sc)
     | Some cur \<Rightarrow>
         if p = empty_task_patch then (Inr (Some cur), sc)
         else if tk_done cur \<noteq> None then (Inl (TaskIsDone i), sc)
         else let sc1 = (case tp_snooze p of Some (Some u) \<Rightarrow> snooze_children now i u sc | _ \<Rightarrow> sc);
                  sc2 = update_task i (patch_task p) sc1
              in (Inr (getById sc2 i), rearm now sc2))"

text \<open>\<open>while (next <= at) next += task.intervalMs\<close>, for a positive interval.\<close>

function next_slot :: "time \<Rightarrow> time \<Rightarrow> time \<Rightarrow> time" where
  "next_slot nxt tm iv = (if 0 < iv \<and> nxt \<le> tm then next_slot (nxt + iv) tm iv else nxt)"
  by pat_completeness auto
termination
proof (relation "measure (\<lambda>(nxt, tm, iv). nat (\<lfloor>(tm - nxt) / iv\<rfloor> + 1))", simp)
  fix nxt tm iv :: time
  assume a: "0 < iv \<and> nxt \<le> tm"
  have "(tm - (nxt + iv)) / iv = (tm - nxt) / iv - 1" using a by (simp add: field_simps)
  moreover have "0 \<le> \<lfloor>(tm - nxt) / iv\<rfloor>" using a by simp
  ultimately show "((nxt + iv, tm, iv), nxt, tm, iv) \<in> measure (\<lambda>(nxt, tm, iv). nat (\<lfloor>(tm - nxt) / iv\<rfloor> + 1))"
    by simp
qed

declare next_slot.simps [simp del]

definition positive :: "time option \<Rightarrow> bool" where
  "positive x \<longleftrightarrow> (case x of None \<Rightarrow> False | Some v \<Rightarrow> 0 < v)"

definition markDoneByName :: "time \<Rightarrow> string \<Rightarrow> time \<Rightarrow> sched \<Rightarrow> bool \<times> sched" where
  "markDoneByName now n tm sc =
     (case getByName sc n of
        None \<Rightarrow> (False, sc)
      | Some t \<Rightarrow>
          let sc1 = (if positive (tk_interval t) \<and> tk_done t = None
                     then updateNextRun (tk_id t) (next_slot (tk_next t) tm (the (tk_interval t))) sc
                     else markDone now (tk_id t) tm sc)
          in (True, fold (\<lambda>c. markDone now (tk_id c) tm) (pending_children sc1 (tk_id t)) sc1))"

definition snoozeByName :: "time \<Rightarrow> string \<Rightarrow> time \<Rightarrow> sched \<Rightarrow> bool \<times> sched" where
  "snoozeByName now n u sc =
     (case getByName sc n of
        None \<Rightarrow> (False, sc)
      | Some t \<Rightarrow>
          let sc1 = snooze now (tk_id t) u sc in (True, snooze_children now (tk_id t) u sc1))"

section \<open>Dispatch\<close>

definition nag_opts :: "time \<Rightarrow> task \<Rightarrow> time \<Rightarrow> task_opts" where
  "nag_opts now parent tm = \<lparr>to_name = tk_name parent @ ''-nag-'' @ decimal (nat \<lfloor>now\<rfloor>), to_kind = Some KReminderNag,
     to_channel = tk_channel parent,
     to_payload = tk_payload parent @ [CHR 0x0A, CHR 0x0A] @ ''(nag #'' @ decimal (tk_nag_count parent + 1) @ '')'',
     to_next = tm, to_interval = None, to_nag = tk_nag parent, to_parent = Some (tk_id parent)\<rparr>"

definition spawnNag :: "time \<Rightarrow> task \<Rightarrow> time \<Rightarrow> (sched_error, sched, unit) action" where
  "spawnNag now parent tm = andThen (task_create now (nag_opts now parent tm)) (\<lambda>_. ok ())"

text \<open>\<open>task.parentId ? this.getById(task.parentId) : null\<close>.\<close>

definition parent_task :: "sched \<Rightarrow> task \<Rightarrow> task option" where
  "parent_task sc t = (case tk_parent t of None \<Rightarrow> None | Some p \<Rightarrow> if p = 0 then None else getById sc p)"

text \<open>What \<open>handleDue\<close> does to the queue once the callback has returned.\<close>

definition reschedule :: "time \<Rightarrow> task \<Rightarrow> (sched_error, sched, unit) action" where
  "reschedule now t = reads (\<lambda>sc.
     case tk_kind t of
       KReminder \<Rightarrow>
         andThen (modify (\<lambda>sc. incrementNagCount (tk_id t)
           (updateNextRun (tk_id t) (max now (tk_next t + (case tk_interval t of None \<Rightarrow> 0 | Some iv \<Rightarrow> iv))) sc))) (\<lambda>_.
         when_do (positive (tk_nag t)) (spawnNag now t (now + the (tk_nag t))))
     | KReminderNag \<Rightarrow>
         (case parent_task sc t of
            Some p \<Rightarrow>
              if tk_done p \<noteq> None then modify (markDone now (tk_id t) now)
              else andThen (modify (markDone now (tk_id t) now)) (\<lambda>_.
                when_do (positive (tk_nag t))
                  (andThen (spawnNag now p (now + the (tk_nag t))) (\<lambda>_. modify (incrementNagCount (tk_id p)))))
          | None \<Rightarrow> modify (markDone now (tk_id t) now))
     | _ \<Rightarrow>
         if positive (tk_interval t)
         then modify (updateNextRun (tk_id t) (max now (tk_next t + the (tk_interval t))))
         else modify (markDone now (tk_id t) now))"

text \<open>Running a scheduler action on the scheduler part of the host state.\<close>

definition on_sched :: "('e, sched, 'a) action \<Rightarrow> ('e, sched \<times> 'w, 'a) action" where
  "on_sched m = (\<lambda>(sc, w). case m sc of (r, sc') \<Rightarrow> (r, (sc', w)))"

text \<open>The callback left the task as it was handed over.\<close>

definition untouched :: "task \<Rightarrow> task \<Rightarrow> bool" where
  "untouched t cur \<longleftrightarrow> tk_done cur = None \<and> tk_next cur = tk_next t \<and> tk_snooze cur = tk_snooze t \<and>
     tk_interval cur = tk_interval t"

definition handleDue ::
  "(task \<Rightarrow> (sched_error, sched \<times> 'w, unit) action) \<Rightarrow> time \<Rightarrow> task \<Rightarrow> (sched_error, sched \<times> 'w, unit) action" where
  "handleDue wake now t = andThen (wake t) (\<lambda>_. reads (\<lambda>(sc, w).
     case getById sc (tk_id t) of
       None \<Rightarrow> ok ()
     | Some cur \<Rightarrow> if untouched t cur then on_sched (reschedule now t) else ok ()))"

definition back_off :: "time \<Rightarrow> int \<Rightarrow> sched \<Rightarrow> sched" where
  "back_off now i sc =
     (case getById sc i of
        None \<Rightarrow> sc
      | Some cur \<Rightarrow> if tk_done cur = None then updateNextRun i (max (tk_next cur) (now + 60000)) sc else sc)"

text \<open>One round of the loop in \<open>poll\<close>: the errors so far and the host state.\<close>

definition poll_step ::
  "(task \<Rightarrow> (sched_error, sched \<times> 'w, unit) action) \<Rightarrow> time \<Rightarrow> task
    \<Rightarrow> sched_error list \<times> (sched \<times> 'w) \<Rightarrow> sched_error list \<times> (sched \<times> 'w)" where
  "poll_step wake now snap = (\<lambda>(errs, (sc, w)).
     case getById sc (tk_id snap) of
       None \<Rightarrow> (errs, (sc, w))
     | Some t \<Rightarrow>
         if \<not> is_due now t then (errs, (sc, w))
         else (case handleDue wake now t (sc, w) of
             (Inr _, st) \<Rightarrow> (errs, st)
           | (Inl e, (sc', w')) \<Rightarrow> (errs @ [e], (back_off now (tk_id t) sc', w'))))"

definition poll ::
  "(task \<Rightarrow> (sched_error, sched \<times> 'w, unit) action) \<Rightarrow> time \<Rightarrow> sched \<times> 'w \<Rightarrow> sched_error list \<times> (sched \<times> 'w)" where
  "poll wake now st =
     (case fold (poll_step wake now) (listDue (fst st) now) ([], st) of
        (errs, (sc, w)) \<Rightarrow> (errs, (rearm now sc, w)))"

section \<open>Invariant\<close>

definition sched_inv :: "sched \<Rightarrow> bool" where
  "sched_inv sc \<longleftrightarrow> distinct (map tk_id (sc_tasks sc)) \<and> distinct (map tk_name (sc_tasks sc)) \<and>
     0 < sc_next_id sc \<and> tk_id ` set (sc_tasks sc) \<subseteq> {0<..<sc_next_id sc}"

lemma rearm_frame [simp]:
  "sc_tasks (rearm now sc) = sc_tasks sc" "sc_next_id (rearm now sc) = sc_next_id sc"
  "sc_running (rearm now sc) = sc_running sc" "getById (rearm now sc) i = getById sc i"
  "getByName (rearm now sc) n = getByName sc n" "sched_inv (rearm now sc) = sched_inv sc"
  by (simp_all add: rearm_def getById_def getByName_def sched_inv_def)

lemma update_task_inv:
  assumes "sched_inv sc" and "\<And>t. tk_id (f t) = tk_id t" "\<And>t. tk_name (f t) = tk_name t"
  shows "sched_inv (update_task i f sc)"
proof -
  have "map tk_id (sc_tasks (update_task i f sc)) = map tk_id (sc_tasks sc)"
    "map tk_name (sc_tasks (update_task i f sc)) = map tk_name (sc_tasks sc)"
    by (simp_all add: update_task_def map_update_where assms)
  moreover from this have "tk_id ` set (sc_tasks (update_task i f sc)) = tk_id ` set (sc_tasks sc)"
    by (metis list.set_map)
  moreover have "sc_next_id (update_task i f sc) = sc_next_id sc" by (simp add: update_task_def)
  ultimately show ?thesis using assms(1) by (simp add: sched_inv_def)
qed

lemma getById_update:
  "(\<And>t. tk_id (f t) = tk_id t) \<Longrightarrow>
   getById (update_task k f sc) i = (if i = k then map_option f (getById sc i) else getById sc i)"
  unfolding getById_def update_task_def by (simp add: find_update_where_key)

lemma getById_id: "getById sc i = Some t \<Longrightarrow> tk_id t = i \<and> t \<in> set (sc_tasks sc)"
  unfolding getById_def by (drule find_SomeD) simp

lemma getById_in: "sched_inv sc \<Longrightarrow> t \<in> set (sc_tasks sc) \<Longrightarrow> getById sc (tk_id t) = Some t"
  unfolding getById_def sched_inv_def by (simp add: find_key_in_set)

lemma getById_fresh: "sched_inv sc \<Longrightarrow> sc_next_id sc \<le> i \<Longrightarrow> getById sc i = None"
  unfolding getById_def sched_inv_def by (auto simp: find_key_None)

lemma keep_inv [simp]:
  assumes "sched_inv sc"
  shows "sched_inv (updateNextRun i tm sc)" "sched_inv (incrementNagCount i sc)"
    "sched_inv (markDone now i tm sc)" "sched_inv (snooze now i tm sc)" "sched_inv (sched_start now sc)"
    "sched_inv (sched_stop sc)"
proof -
  show "sched_inv (updateNextRun i tm sc)" "sched_inv (incrementNagCount i sc)"
    "sched_inv (markDone now i tm sc)" "sched_inv (snooze now i tm sc)"
    using assms by (simp_all add: updateNextRun_def incrementNagCount_def markDone_def snooze_def update_task_inv)
  show "sched_inv (sched_start now sc)" "sched_inv (sched_stop sc)"
    using assms by (simp_all add: sched_start_def sched_stop_def sched_inv_def)
qed

lemma fold_keeps: "I s \<Longrightarrow> (\<And>x s. I s \<Longrightarrow> I (f x s)) \<Longrightarrow> I (fold f xs s)"
  by (induction xs arbitrary: s) auto

lemma create_inv: "sched_inv sc \<Longrightarrow> sched_inv (snd (task_create now o' sc))"
  unfolding task_create_def Let_def sched_inv_def
  by (auto simp: new_task_def getByName_def find_key_None)

lemma delete_inv: "sched_inv sc \<Longrightarrow> sched_inv (snd (task_delete now i sc))"
  unfolding task_delete_def by (auto simp: sched_inv_def distinct_map_delete_where)

lemma patch_task_key [simp]: "tk_id (patch_task p t) = tk_id t" "tk_name (patch_task p t) = tk_name t"
  by (simp_all add: patch_task_def)

lemma snooze_children_inv: "sched_inv sc \<Longrightarrow> sched_inv (snooze_children now i u sc)"
  unfolding snooze_children_def by (rule fold_keeps) simp_all

lemma update_inv: "sched_inv sc \<Longrightarrow> sched_inv (snd (task_update now i p sc))"
  unfolding task_update_def Let_def
  by (auto split: option.split intro!: update_task_inv snooze_children_inv)

lemma markDoneByName_inv: "sched_inv sc \<Longrightarrow> sched_inv (snd (markDoneByName now n tm sc))"
  unfolding markDoneByName_def Let_def by (auto split: option.split intro!: fold_keeps [of sched_inv])

lemma snoozeByName_inv: "sched_inv sc \<Longrightarrow> sched_inv (snd (snoozeByName now n u sc))"
  unfolding snoozeByName_def Let_def by (auto split: option.split intro!: snooze_children_inv)

text \<open>One step is one call of the scheduler's interface.\<close>

inductive sched_step :: "sched \<Rightarrow> sched \<Rightarrow> bool" where
  start: "sched_step sc (sched_start now sc)"
| stop: "sched_step sc (sched_stop sc)"
| create: "sched_step sc (snd (task_create now o' sc))"
| delete: "sched_step sc (snd (task_delete now i sc))"
| update: "sched_step sc (snd (task_update now i p sc))"
| mark_done: "sched_step sc (markDone now i tm sc)"
| mark_done_by_name: "sched_step sc (snd (markDoneByName now n tm sc))"
| snoozed: "sched_step sc (snooze now i u sc)"
| snoozed_by_name: "sched_step sc (snd (snoozeByName now n u sc))"

interpretation scheduler: step_system "\<lambda>sc. sc = fresh_sched" sched_step sched_inv
proof
  show "sc = fresh_sched \<Longrightarrow> sched_inv sc" for sc by (simp add: fresh_sched_def sched_inv_def)
  show "sched_inv t" if "sched_inv s" "sched_step s t" for s t
    using that(2,1)
    by cases (auto intro: create_inv delete_inv update_inv markDoneByName_inv snoozeByName_inv)
qed

section \<open>The queue as a client sees it\<close>

text \<open>
  What a client of the queue (the Mind service) relies on: a created task is new and can be
  looked up, deleting it restores what was there before, and moving a pending task in time
  changes that task only.
\<close>

locale task_book =
  fixes lookup :: "'s \<Rightarrow> int \<Rightarrow> task option"
    and good :: "'s \<Rightarrow> bool"
    and add :: "time \<Rightarrow> task_opts \<Rightarrow> (sched_error, 's, task) action"
    and remove :: "time \<Rightarrow> int \<Rightarrow> 's \<Rightarrow> bool \<times> 's"
    and change :: "time \<Rightarrow> int \<Rightarrow> task_patch \<Rightarrow> (sched_error, 's, task option) action"
  assumes good_add: "good s \<Longrightarrow> good (snd (add now o' s))"
    and good_remove: "good s \<Longrightarrow> good (snd (remove now i s))"
    and good_change: "good s \<Longrightarrow> good (snd (change now i p s))"
    and add_new: "good s \<Longrightarrow> add now o' s = (Inr t, s') \<Longrightarrow>
      lookup s (tk_id t) = None \<and> lookup s' = (lookup s)(tk_id t \<mapsto> t) \<and> tk_next t = to_next o' \<and> tk_done t = None"
    and add_refused: "add now o' s = (Inl e, s') \<Longrightarrow> s' = s"
    and remove_lookup: "lookup (snd (remove now i s)) = (lookup s)(i := None)"
    and change_missing: "lookup s i = None \<Longrightarrow> change now i p s = (Inr None, s)"
    and change_time: "good s \<Longrightarrow> lookup s i = Some t \<Longrightarrow> tk_done t = None \<Longrightarrow>
      \<exists>s'. change now i (empty_task_patch\<lparr>tp_next := Some x, tp_snooze := Some None\<rparr>) s =
          (Inr (Some (t\<lparr>tk_next := x, tk_snooze := None\<rparr>)), s') \<and>
        lookup s' = (lookup s)(i \<mapsto> t\<lparr>tk_next := x, tk_snooze := None\<rparr>)"
begin

lemma compensate:
  assumes "good s" and "add now o' s = (Inr t, s1)"
  shows "lookup (snd (remove now (tk_id t) s1)) = lookup s"
  using add_new [OF assms] by (auto simp: remove_lookup)

lemma remove_all: "lookup (fold (\<lambda>i s. snd (remove now i s)) js s) = (\<lambda>i. if i \<in> set js then None else lookup s i)"
  by (induction js arbitrary: s) (auto simp: remove_lookup)

end

lemma create_new:
  assumes "sched_inv sc" and "task_create now o' sc = (Inr t, sc')"
  shows "getById sc (tk_id t) = None \<and> getById sc' = (getById sc)(tk_id t \<mapsto> t) \<and> tk_next t = to_next o' \<and> tk_done t = None"
proof -
  let ?t = "new_task now o' (sc_next_id sc)"
  have t: "t = ?t" "sc' = rearm now (sc\<lparr>sc_tasks := sc_tasks sc @ [?t], sc_next_id := sc_next_id sc + 1\<rparr>)"
    using assms(2) by (auto simp: task_create_def Let_def split: if_splits)
  have id: "tk_id ?t = sc_next_id sc" by (simp add: new_task_def)
  have "getById sc (sc_next_id sc) = None" using getById_fresh [OF assms(1)] by simp
  moreover have "getById (sc\<lparr>sc_tasks := sc_tasks sc @ [?t], sc_next_id := sc_next_id sc + 1\<rparr>) i =
      (if i = sc_next_id sc then Some ?t else getById sc i)" for i
    using calculation by (auto simp: getById_def find_append id split: option.split)
  ultimately show ?thesis by (auto simp: t id new_task_def fun_eq_iff)
qed

interpretation book: task_book getById sched_inv task_create task_delete task_update
proof
  show "getById (snd (task_delete now i s)) = (getById s)(i := None)" for now i s
    by (auto simp: task_delete_def getById_def fun_eq_iff find_delete_where_key)
  show "\<exists>s'. task_update now i (empty_task_patch\<lparr>tp_next := Some x, tp_snooze := Some None\<rparr>) s =
      (Inr (Some (t\<lparr>tk_next := x, tk_snooze := None\<rparr>)), s') \<and> getById s' = (getById s)(i \<mapsto> t\<lparr>tk_next := x, tk_snooze := None\<rparr>)"
    if "sched_inv s" "getById s i = Some t" "tk_done t = None" for s i t now x
    using that by (auto simp: task_update_def empty_task_patch_def getById_update patch_task_def fun_eq_iff)
  show "s' = s" if "task_create now o' s = (Inl e, s')" for s s' now o' e
    using that by (simp add: task_create_def Let_def split: if_splits)
  show "task_update now i p s = (Inr None, s)" if "getById s i = None" for s i now p
    using that by (simp add: task_update_def)
qed (fact create_inv delete_inv update_inv create_new)+

section \<open>Properties\<close>

lemma next_at_fold:
  fixes ts :: "task list"
  defines "step \<equiv> \<lambda>t acc. if tk_done t \<noteq> None then acc else if effective_at t < acc then effective_at t else acc"
  shows "fold step ts a \<le> a \<and> (\<forall>t \<in> set ts. tk_done t = None \<longrightarrow> fold step ts a \<le> effective_at t) \<and>
    (fold step ts a = a \<or> (\<exists>t \<in> set ts. tk_done t = None \<and> fold step ts a = effective_at t))"
proof (induction ts arbitrary: a)
  case (Cons t ts)
  show ?case
  proof (cases "tk_done t \<noteq> None \<or> \<not> effective_at t < a")
    case True
    then have "step t a = a" by (auto simp: step_def)
    then show ?thesis using Cons [of a] True by auto
  next
    case False
    then have "step t a = effective_at t" by (simp add: step_def)
    then show ?thesis using Cons [of "effective_at t"] False by auto
  qed
qed simp


definition sample_task :: task where
  "sample_task = \<lparr>tk_id = 1, tk_name = ''tea'', tk_kind = KCustom, tk_channel = None, tk_payload = ''drink'', tk_next = 5000,
     tk_interval = None, tk_nag = None, tk_parent = None, tk_nag_count = 0, tk_snooze = None, tk_done = None, tk_created = 1\<rparr>"

definition tea_time :: sched where
  "tea_time = \<lparr>sc_tasks = [sample_task], sc_next_id = 2, sc_running = True, sc_timer = None\<rparr>"


lemma next_slot_props:
  assumes "0 < iv"
  shows "tm < next_slot nxt tm iv \<and> nxt \<le> next_slot nxt tm iv \<and>
    (\<exists>k. next_slot nxt tm iv = nxt + of_nat k * iv) \<and> (next_slot nxt tm iv = nxt \<or> next_slot nxt tm iv - iv \<le> tm)"
  using assms
proof (induction nxt tm iv rule: next_slot.induct)
  case (1 nxt tm iv)
  show ?case
  proof (cases "nxt \<le> tm")
    case True
    let ?r = "next_slot (nxt + iv) tm iv"
    have eq: "next_slot nxt tm iv = ?r" using "1.prems" True by (subst next_slot.simps) simp
    from "1.IH" "1.prems" True have ih: "tm < ?r" "nxt + iv \<le> ?r" "\<exists>k. ?r = nxt + iv + of_nat k * iv"
      "?r = nxt + iv \<or> ?r - iv \<le> tm" by blast+
    from ih(3) obtain k where "?r = nxt + of_nat (Suc k) * iv" by (auto simp: algebra_simps)
    then have "\<exists>k. ?r = nxt + of_nat k * iv" by blast
    then show ?thesis unfolding eq using ih True "1.prems" by auto
  next
    case False
    then have "next_slot nxt tm iv = nxt" by (subst next_slot.simps) simp
    then show ?thesis using False by (auto intro: exI [of _ 0])
  qed
qed

lemma fold_markDone:
  "getById (fold (\<lambda>c. markDone now (tk_id c) tm) cs sc) i =
   (if i \<in> tk_id ` set cs then map_option (\<lambda>t. t\<lparr>tk_done := Some tm\<rparr>) (getById sc i) else getById sc i)"
  by (induction cs arbitrary: sc) (auto simp: markDone_def getById_update option.map_comp comp_def)


definition daily_tea :: sched where
  "daily_tea = tea_time\<lparr>sc_tasks := [sample_task\<lparr>tk_interval := Some 1000\<rparr>]\<rparr>"


section \<open>Dispatch reaches every due task\<close>

text \<open>What dispatch looks at in a task.\<close>

definition view :: "task \<Rightarrow> time option \<times> time \<times> time option \<times> time option \<times> task_kind" where
  "view t = (tk_done t, tk_next t, tk_snooze t, tk_interval t, tk_kind t)"

definition same_view :: "sched \<Rightarrow> sched \<Rightarrow> int \<Rightarrow> bool" where
  "same_view sc sc' i \<longleftrightarrow> map_option view (getById sc' i) = map_option view (getById sc i)"

lemma same_view_refl [simp]: "same_view sc sc i"
  by (simp add: same_view_def)

lemma same_view_trans: "same_view a b i \<Longrightarrow> same_view b c i \<Longrightarrow> same_view a c i"
  by (simp add: same_view_def)

lemma same_view_getD: "same_view sc sc' i \<Longrightarrow> getById sc i = Some t \<Longrightarrow> \<exists>t'. getById sc' i = Some t' \<and> view t' = view t"
  by (auto simp: same_view_def)

lemma is_due_view: "view t' = view t \<Longrightarrow> is_due now t' = is_due now t"
  by (simp add: view_def is_due_def)

lemma update_task_view:
  "(\<And>t. tk_id (f t) = tk_id t) \<Longrightarrow> i \<noteq> k \<Longrightarrow> same_view sc (update_task k f sc) i"
  by (simp add: same_view_def getById_update)

lemma op_views:
  "i \<noteq> k \<Longrightarrow> same_view sc (updateNextRun k tm sc) i" "i \<noteq> k \<Longrightarrow> same_view sc (markDone now k tm sc) i"
  "same_view sc (incrementNagCount k sc) i"
proof -
  show "i \<noteq> k \<Longrightarrow> same_view sc (updateNextRun k tm sc) i" by (simp add: updateNextRun_def update_task_view)
  show "i \<noteq> k \<Longrightarrow> same_view sc (markDone now k tm sc) i"
    using update_task_view [of "\<lambda>t. t\<lparr>tk_done := Some tm\<rparr>" i k sc] by (simp add: markDone_def same_view_def)
  show "same_view sc (incrementNagCount k sc) i"
    by (auto simp: same_view_def incrementNagCount_def getById_update view_def [abs_def] option.map_comp comp_def)
qed

lemma create_view:
  assumes "sched_inv sc" and "i < sc_next_id sc"
  shows "same_view sc (snd (task_create now o' sc)) i"
proof (cases "task_create now o' sc")
  case (Pair r sc')
  show ?thesis
  proof (cases r)
    case (Inl e)
    then have "sc' = sc" using Pair by (auto intro: book.add_refused)
    then show ?thesis using Pair by simp
  next
    case (Inr t)
    then have "tk_id t = sc_next_id sc" using Pair by (auto simp: task_create_def Let_def new_task_def split: if_splits)
    then show ?thesis using book.add_new [OF assms(1), of now o' t sc'] Pair Inr assms(2) by (simp add: same_view_def)
  qed
qed

lemma spawn_frame:
  assumes "sched_inv sc"
  shows "sched_inv (snd (spawnNag now p tm sc))" "sc_next_id sc \<le> sc_next_id (snd (spawnNag now p tm sc))"
    "i < sc_next_id sc \<Longrightarrow> same_view sc (snd (spawnNag now p tm sc)) i"
proof -
  have "snd (spawnNag now p tm sc) = snd (task_create now (nag_opts now p tm) sc)"
    by (simp add: spawnNag_def action_simps split: prod.split sum.split)
  moreover have "sc_next_id sc \<le> sc_next_id (snd (task_create now o' sc))" for o'
    by (simp add: task_create_def Let_def)
  ultimately show "sched_inv (snd (spawnNag now p tm sc))" "sc_next_id sc \<le> sc_next_id (snd (spawnNag now p tm sc))"
    "i < sc_next_id sc \<Longrightarrow> same_view sc (snd (spawnNag now p tm sc)) i"
    using create_inv [OF assms] create_view [OF assms] by simp_all
qed

lemma next_id_frame [simp]:
  "sc_next_id (update_task k f sc) = sc_next_id sc" "sc_next_id (updateNextRun k tm sc) = sc_next_id sc"
  "sc_next_id (incrementNagCount k sc) = sc_next_id sc" "sc_next_id (markDone now k tm sc) = sc_next_id sc"
  by (simp_all add: update_task_def updateNextRun_def incrementNagCount_def markDone_def)

definition frame :: "int \<Rightarrow> sched \<Rightarrow> sched \<Rightarrow> bool" where
  "frame k sc sc' \<longleftrightarrow> sched_inv sc' \<and> sc_next_id sc \<le> sc_next_id sc' \<and>
     (\<forall>i. i \<noteq> k \<and> i < sc_next_id sc \<longrightarrow> same_view sc sc' i)"

lemma frame_trans: "frame k a b \<Longrightarrow> frame k b c \<Longrightarrow> frame k a c"
  by (auto simp: frame_def intro: same_view_trans)

lemma frame_basic:
  assumes "sched_inv sc"
  shows "frame k sc sc" "frame k sc (updateNextRun k tm sc)" "frame k sc (markDone now k tm sc)"
    "frame k sc (incrementNagCount j sc)" "frame k sc (snd (spawnNag now p tm sc))"
  using assms by (auto simp: frame_def op_views spawn_frame)

lemma frame_when_spawn:
  "frame k a b \<Longrightarrow> frame k a (snd (when_do c (spawnNag now p tm) b))"
  using frame_basic(5) [of b k now p tm] by (auto simp: when_do_def action_simps frame_def intro: same_view_trans)

lemma frame_spawn_then:
  assumes "frame k a b"
  shows "frame k a (snd (andThen (spawnNag now p tm) (\<lambda>_. modify (incrementNagCount j)) b))"
proof -
  obtain r c where c: "spawnNag now p tm b = (r, c)" by fastforce
  have "frame k b c" using frame_basic(5) [of b k now p tm] assms c by (simp add: frame_def)
  then have ac: "frame k a c" by (rule frame_trans [OF assms])
  then have "frame k c (incrementNagCount j c)" by (intro frame_basic) (simp add: frame_def)
  with ac show ?thesis by (cases r) (auto simp: action_simps c intro: frame_trans)
qed

lemma frame_reschedule:
  assumes inv: "sched_inv sc"
  shows "frame (tk_id t) sc (snd (reschedule now t sc))"
proof -
  let ?k = "tk_id t"
  have fin: "frame ?k sc (markDone now ?k now sc)" by (rule frame_basic(3) [OF inv])
  have bump: "frame ?k sc (incrementNagCount ?k (updateNextRun ?k tm sc))" for tm
    using frame_basic(2) [OF inv, of ?k tm] frame_basic(4) [of "updateNextRun ?k tm sc" ?k ?k] inv by (auto intro: frame_trans)
  have nag: "frame ?k sc (snd (when_do b (andThen (spawnNag now p tm) (\<lambda>_. modify (incrementNagCount j))) (markDone now ?k now sc)))"
    for b p tm j using frame_spawn_then [OF fin] fin by (simp add: when_do_def action_simps)
  show ?thesis
    unfolding reschedule_def using fin bump nag frame_when_spawn [OF bump] frame_basic(2) [OF inv, of ?k]
    by (auto simp: action_simps split: task_kind.split option.split)
qed

lemma reschedule_one_shot:
  assumes "tk_kind t \<in> {KCustom, KHeartbeat}" "\<not> positive (tk_interval t)" "getById sc (tk_id t) = Some t"
  shows "\<exists>sc'. reschedule now t sc = (Inr (), sc') \<and> getById sc' (tk_id t) = Some (t\<lparr>tk_done := Some now\<rparr>)"
  using assms by (auto simp: reschedule_def action_simps markDone_def getById_update)

text \<open>A callback that notes the id it was called with and fails on some of them.\<close>

definition recorder :: "(int \<Rightarrow> bool) \<Rightarrow> task \<Rightarrow> (sched_error, sched \<times> int list, unit) action" where
  "recorder fails t = (\<lambda>(sc, w).
     (if fails (tk_id t) then Inl (WakeFailed (tk_name t)) else Inr (), (sc, w @ [tk_id t])))"

text \<open>What dispatch has made of a task it woke.\<close>

definition settled :: "(int \<Rightarrow> bool) \<Rightarrow> time \<Rightarrow> task \<Rightarrow> sched \<Rightarrow> bool" where
  "settled fails now t sc \<longleftrightarrow>
     (fails (tk_id t) \<longrightarrow> (\<exists>t'. getById sc (tk_id t) = Some t' \<and> tk_done t' = None \<and> now + 60000 \<le> tk_next t')) \<and>
     (\<not> fails (tk_id t) \<and> tk_kind t \<in> {KCustom, KHeartbeat} \<and> \<not> positive (tk_interval t) \<longrightarrow>
        (\<exists>t'. getById sc (tk_id t) = Some t' \<and> tk_done t' = Some now))"

lemma settled_same_view: "settled fails now t sc \<Longrightarrow> same_view sc sc' (tk_id t) \<Longrightarrow> settled fails now t sc'"
  unfolding settled_def using same_view_getD [of sc sc' "tk_id t"] by (fastforce simp: view_def)

lemma frame_back_off: "sched_inv sc \<Longrightarrow> frame i sc (back_off now i sc)"
  by (auto simp: back_off_def frame_basic split: option.split)

lemma poll_step_recorder:
  assumes inv: "sched_inv sc" and g: "getById sc (tk_id d) = Some t" and due: "is_due now t"
    and same: "tk_kind d = tk_kind t" "tk_interval d = tk_interval t"
  shows "\<exists>errs' sc'. poll_step (recorder fails) now d (errs, (sc, w)) = (errs', (sc', w @ [tk_id d])) \<and>
    frame (tk_id d) sc sc' \<and> settled fails now d sc' \<and> (fails (tk_id d) \<longrightarrow> errs' \<noteq> [])"
proof -
  have id: "tk_id t = tk_id d" using getById_id [OF g] by simp
  show ?thesis
  proof (cases "fails (tk_id d)")
    case True
    let ?sc' = "back_off now (tk_id d) sc"
    have "tk_done t = None" using due by (simp add: is_due_def)
    then have "getById ?sc' (tk_id d) = Some (t\<lparr>tk_next := max (tk_next t) (now + 60000)\<rparr>)"
      by (simp add: back_off_def g updateNextRun_def getById_update)
    then have "settled fails now d ?sc'" using \<open>tk_done t = None\<close> True by (simp add: settled_def)
    then show ?thesis
      using True g due frame_back_off [OF inv]
      by (simp add: poll_step_def handleDue_def recorder_def action_simps id)
  next
    case False
    obtain r sc1 where r: "reschedule now t sc = (r, sc1)" by fastforce
    have fr: "frame (tk_id d) sc sc1" using frame_reschedule [OF inv, of t now] r id by simp
    have un: "untouched t t" using due by (simp add: untouched_def is_due_def)
    have one: "settled fails now d sc1 \<and> r = Inr ()" if "tk_kind d \<in> {KCustom, KHeartbeat}" "\<not> positive (tk_interval d)"
      using reschedule_one_shot [of t sc now] that same g id r False by (auto simp: settled_def)
    have other: "settled fails now d s" if "\<not> (tk_kind d \<in> {KCustom, KHeartbeat} \<and> \<not> positive (tk_interval d))" for s
      using that False by (auto simp: settled_def)
    have step: "poll_step (recorder fails) now d (errs, (sc, w)) =
       (case r of Inr _ \<Rightarrow> (errs, (sc1, w @ [tk_id d])) | Inl e \<Rightarrow> (errs @ [e], (back_off now (tk_id d) sc1, w @ [tk_id d])))"
      using False g due un r
      by (simp add: poll_step_def handleDue_def recorder_def action_simps id on_sched_def split: sum.split)
    show ?thesis
    proof (cases r)
      case (Inr u)
      have "settled fails now d sc1" using one other by blast
      then show ?thesis using step Inr fr False by simp
    next
      case (Inl e)
      have "frame (tk_id d) sc1 (back_off now (tk_id d) sc1)" using fr by (intro frame_back_off) (simp add: frame_def)
      then have "frame (tk_id d) sc (back_off now (tk_id d) sc1)" by (rule frame_trans [OF fr])
      moreover have "settled fails now d (back_off now (tk_id d) sc1)" using one other Inl by blast
      ultimately show ?thesis using step Inl False by simp
    qed
  qed
qed

lemma poll_loop_recorder:
  assumes "sched_inv sc" and "distinct (map tk_id ds)"
    and "\<forall>d \<in> set ds. \<exists>t. getById sc (tk_id d) = Some t \<and> view t = view d \<and> is_due now d"
  shows "\<exists>errs' sc'. fold (poll_step (recorder fails) now) ds (errs, (sc, w)) = (errs', (sc', w @ map tk_id ds)) \<and>
    sched_inv sc' \<and> sc_next_id sc \<le> sc_next_id sc' \<and> (\<forall>d \<in> set ds. settled fails now d sc') \<and>
    (\<forall>i. i \<notin> tk_id ` set ds \<and> i < sc_next_id sc \<longrightarrow> same_view sc sc' i)"
  using assms
proof (induction ds arbitrary: sc errs w)
  case (Cons d ds)
  then obtain t where t: "getById sc (tk_id d) = Some t" "view t = view d" "is_due now d" by auto
  have old: "tk_id x < sc_next_id sc" if "x \<in> set (d # ds)" for x
    using Cons.prems that getById_fresh [OF Cons.prems(1), of "tk_id x"] by fastforce
  have "is_due now t" "tk_kind d = tk_kind t" "tk_interval d = tk_interval t"
    using t(2,3) is_due_view [of t d now] by (simp_all add: view_def)
  from poll_step_recorder [OF Cons.prems(1) t(1) this, of fails errs w]
  obtain errs1 sc1 where 1: "poll_step (recorder fails) now d (errs, (sc, w)) = (errs1, (sc1, w @ [tk_id d]))"
    "frame (tk_id d) sc sc1" "settled fails now d sc1" by blast
  have keep: "\<exists>t. getById sc1 (tk_id x) = Some t \<and> view t = view x \<and> is_due now x" if x: "x \<in> set ds" for x
  proof -
    have "tk_id x \<noteq> tk_id d" using x Cons.prems(2) by (auto simp: image_iff)
    then have "same_view sc sc1 (tk_id x)" using 1(2) old [of x] x by (simp add: frame_def)
    moreover obtain t where "getById sc (tk_id x) = Some t" "view t = view x" "is_due now x" using Cons.prems(3) x by auto
    ultimately show ?thesis using same_view_getD by metis
  qed
  from Cons.IH [of sc1 errs1 "w @ [tk_id d]"] Cons.prems(2) keep 1(2)
  obtain errs2 sc2 where 2: "fold (poll_step (recorder fails) now) ds (errs1, (sc1, w @ [tk_id d])) = (errs2, (sc2, w @ tk_id d # map tk_id ds))"
    "sched_inv sc2" "sc_next_id sc1 \<le> sc_next_id sc2" "\<forall>d \<in> set ds. settled fails now d sc2"
    "\<forall>i. i \<notin> tk_id ` set ds \<and> i < sc_next_id sc1 \<longrightarrow> same_view sc1 sc2 i"
    by (auto simp: frame_def)
  have le: "sc_next_id sc \<le> sc_next_id sc1" using 1(2) by (simp add: frame_def)
  have "same_view sc1 sc2 (tk_id d)" using 2(5) Cons.prems(2) old [of d] le by auto
  with 1(3) have "settled fails now d sc2" by (rule settled_same_view)
  moreover have "same_view sc sc2 i" if "i \<notin> tk_id ` set (d # ds)" "i < sc_next_id sc" for i
    using that 1(2) 2(5) le by (auto simp: frame_def intro: same_view_trans)
  ultimately show ?case using 1(1) 2(1-4) le by auto
qed simp



text \<open>
  A reminder without an interval is put at the moment of the poll itself: it is due again at
  once, and the timer is armed with no delay.
\<close>

lemma one_shot_reminder_stays_due:
  assumes "tk_kind t = KReminder" "tk_interval t = None" "\<not> positive (tk_nag t)" "is_due now t" "getById sc (tk_id t) = Some t"
  shows "\<exists>sc' t'. reschedule now t sc = (Inr (), sc') \<and> getById sc' (tk_id t) = Some t' \<and> is_due now t'"
  using assms by (auto simp: reschedule_def action_simps incrementNagCount_def updateNextRun_def getById_update is_due_def)

end
