(* ===== verification/Mind_Service.thy ===== *)
theory Mind_Service
  imports Mind_Query Scheduler
begin

text \<open>
  \<open>MindService\<close> (src/src/store/mind.ts): the store together with the scheduler that fires its
  reminders, and the change notifications of the service. The state holds the database, the
  scheduler, the batch depth and pending flag, how often \<open>notifyChanged\<close> ran, and the calls of
  \<open>onItemStateChanged\<close> in order. Both callbacks are shielded by the service: whatever they do or
  throw is caught, so only the fact of the call is kept.
\<close>

section \<open>State and notifications\<close>

record mind_world =
  mw_db :: mind_db
  mw_sched :: sched
  mw_depth :: nat
  mw_pending :: bool
  mw_notified :: nat
  mw_states :: "(string \<times> mind_status \<times> bool) list"

type_synonym 'a service = "(mind_error, mind_world, 'a) action"

definition on_store :: "(mind_error, mind_db, 'a) action \<Rightarrow> 'a service" where
  "on_store m = (\<lambda>w. case m (mw_db w) of (r, db) \<Rightarrow> (r, w\<lparr>mw_db := db\<rparr>))"

definition read_store :: "(mind_db \<Rightarrow> 'a) \<Rightarrow> 'a service" where
  "read_store f = (\<lambda>w. (Inr (f (mw_db w)), w))"

definition notifyChanged :: "mind_world \<Rightarrow> mind_world" where
  "notifyChanged w = w\<lparr>mw_notified := mw_notified w + 1\<rparr>"

definition changed :: "'a \<Rightarrow> 'a service" where
  "changed v = (\<lambda>w. (Inr v, if mw_depth w > 0 then w\<lparr>mw_pending := True\<rparr> else notifyChanged w))"

definition itemStateChanged :: "'a item_row_scheme \<Rightarrow> unit service" where
  "itemStateChanged x = modify (\<lambda>w.
     w\<lparr>mw_states := mw_states w @ [(it_id x, it_status x, it_archived_at x \<noteq> None)]\<rparr>)"

definition batch :: "'a service \<Rightarrow> 'a service" where
  "batch m = (\<lambda>w.
     case m (w\<lparr>mw_depth := mw_depth w + 1\<rparr>) of
       (r, w1) \<Rightarrow>
         let w2 = w1\<lparr>mw_depth := mw_depth w1 - 1\<rparr>
         in (r, if mw_depth w2 = 0 \<and> mw_pending w2 then notifyChanged (w2\<lparr>mw_pending := False\<rparr>) else w2))"

text \<open>\<open>this.changed(this.store.f(...))\<close>.\<close>

definition store_then_changed :: "(mind_error, mind_db, 'a) action \<Rightarrow> 'a service" where
  "store_then_changed m = andThen (on_store m) changed"

section \<open>Reminders\<close>

fun lift_sched :: "sched_error \<Rightarrow> mind_error" where
  "lift_sched (TaskIsDone i) = SchedulerTaskDone i"
| "lift_sched _ = UniqueViolation"

definition on_scheduler :: "(sched_error, sched, 'a) action \<Rightarrow> 'a service" where
  "on_scheduler m = (\<lambda>w. case m (mw_sched w) of (r, sc) \<Rightarrow> (map_sum lift_sched id r, w\<lparr>mw_sched := sc\<rparr>))"

definition delete_task :: "time \<Rightarrow> int \<Rightarrow> mind_world \<Rightarrow> mind_world" where
  "delete_task now i w = w\<lparr>mw_sched := snd (task_delete now i (mw_sched w))\<rparr>"

definition reminder_opts :: "time \<Rightarrow> string \<Rightarrow> 'a item_row_scheme \<Rightarrow> time \<Rightarrow> string option \<Rightarrow> task_opts" where
  "reminder_opts now rnd x fireAt channel =
     \<lparr>to_name = ''mind-'' @ it_id x @ ''-'' @ toString36 (nat \<lfloor>now\<rfloor>) @ ''-'' @ rnd, to_kind = Some KCustom,
      to_channel = channel,
      to_payload = ''[mind reminder #'' @ it_id x @ ''] '' @ it_title x @ newline @ newline @
        (if it_body x = [] then ''Open the item and decide the next true action.'' else it_body x),
      to_next = fireAt, to_interval = None, to_nag = None, to_parent = None\<rparr>"

text \<open>\<open>try { return ... } catch (error) { this.deps.scheduler.delete(task.id); throw error; }\<close>.\<close>

definition or_undo :: "'a service \<Rightarrow> (mind_world \<Rightarrow> mind_world) \<Rightarrow> 'a service" where
  "or_undo m undo = (\<lambda>w. case m w of (Inl e, w') \<Rightarrow> (Inl e, undo w') | (Inr a, w') \<Rightarrow> (Inr a, w'))"

definition addReminder ::
  "time \<Rightarrow> string \<Rightarrow> string \<Rightarrow> jsnum \<Rightarrow> string \<Rightarrow> string option \<Rightarrow> reminder_row service" where
  "addReminder now rnd i fireAt actor channel = reads (\<lambda>w.
     case mind_get now (mw_db w) i of
       None \<Rightarrow> throw (NoItem i)
     | Some item \<Rightarrow>
         if it_status item = Proposal then throw ProposalReminders
         else if \<not> isFinite fireAt \<or> finite_val fireAt \<le> now then throw ReminderNotFuture
         else andThen (on_scheduler (task_create now (reminder_opts now rnd item (finite_val fireAt) channel))) (\<lambda>t.
           or_undo (store_then_changed (createReminderRecord now i (tk_id t) (finite_val fireAt) channel actor))
             (delete_task now (tk_id t))))"

definition snoozeReminder :: "time \<Rightarrow> int \<Rightarrow> jsnum \<Rightarrow> string \<Rightarrow> reminder_row option service" where
  "snoozeReminder now rid fireAt actor = reads (\<lambda>w.
     if \<not> isFinite fireAt \<or> finite_val fireAt \<le> now then throw ReminderNotFuture
     else case reminderById (mw_db w) rid of
       None \<Rightarrow> throw (NoReminder rid)
     | Some row \<Rightarrow>
         if rm_fired row \<noteq> None \<or> rm_cancelled row \<noteq> None then throw (ReminderInactive rid)
         else andThen (on_scheduler (task_update now (rm_task row)
             (empty_task_patch\<lparr>tp_next := Some (finite_val fireAt), tp_snooze := Some None\<rparr>))) (\<lambda>res.
           if res = None then throw (SchedulerTaskMissing (rm_task row))
           else store_then_changed (updateReminderRecord now rid (finite_val fireAt) actor)))"

definition cancelReminder :: "time \<Rightarrow> int \<Rightarrow> string \<Rightarrow> reminder_row option service" where
  "cancelReminder now rid actor = reads (\<lambda>w.
     case reminderById (mw_db w) rid of
       None \<Rightarrow> ok None
     | Some row \<Rightarrow>
         andThen (modify (delete_task now (rm_task row))) (\<lambda>_.
         store_then_changed (\<lambda>db. map_prod Inr id (cancelReminderRecord now rid actor db))))"

definition cancelPendingReminders :: "time \<Rightarrow> string \<Rightarrow> string \<Rightarrow> unit service" where
  "cancelPendingReminders now i actor = reads (\<lambda>w.
     for_each (\<lambda>r. andThen (cancelReminder now (rm_id r) actor) (\<lambda>_. ok ())) (pendingReminders (mw_db w) i))"

definition onScheduledTaskWake :: "time \<Rightarrow> task \<Rightarrow> unit service" where
  "onScheduledTaskWake now t =
     andThen (on_store (modify (markReminderFiredByTask now (tk_id t)))) (\<lambda>_.
     when_do (prefix ''mind-'' (tk_name t)) (changed ()))"

section \<open>Items\<close>

definition svc_create ::
  "time \<Rightarrow> nat list \<Rightarrow> string \<Rightarrow> create_opts \<Rightarrow> jsnum option \<Rightarrow> string option \<Rightarrow> mind_detail option service" where
  "svc_create now vs rnd opts remindAt channel = batch
     (andThen (on_store (mind_create now vs opts)) (\<lambda>item.
      case item of
        None \<Rightarrow> ok None
      | Some d \<Rightarrow>
          andThen (case remindAt of None \<Rightarrow> ok ()
            | Some at' \<Rightarrow> andThen (addReminder now rnd (it_id d) at'
                (case co_actor opts of None \<Rightarrow> ''agent'' | Some a \<Rightarrow> a) channel) (\<lambda>_. ok ())) (\<lambda>_.
          andThen (read_store (\<lambda>db. mind_get now db (it_id d))) changed)))"

definition svc_update :: "time \<Rightarrow> string \<Rightarrow> update_patch \<Rightarrow> string \<Rightarrow> mind_detail option service" where
  "svc_update now i patch actor = batch
     (andThen (on_store (mind_update now i patch actor)) (\<lambda>item.
      andThen (when_do (case item of None \<Rightarrow> False | Some d \<Rightarrow> closes (it_status d)) (cancelPendingReminders now i actor)) (\<lambda>_.
      andThen (read_store (\<lambda>db. mind_get now db i)) (\<lambda>current.
      andThen (case current of None \<Rightarrow> ok ()
        | Some d \<Rightarrow> when_do (up_status patch \<noteq> None) (itemStateChanged d)) (\<lambda>_.
      changed current)))))"

definition svc_setStatus :: "time \<Rightarrow> string \<Rightarrow> string \<Rightarrow> string \<Rightarrow> mind_detail option service" where
  "svc_setStatus now i st actor = svc_update now i (empty_patch\<lparr>up_status := Some st\<rparr>) actor"

definition svc_finishClaim ::
  "time \<Rightarrow> string \<Rightarrow> string \<Rightarrow> string \<Rightarrow> string \<Rightarrow> string \<Rightarrow> string \<Rightarrow> mind_detail option service" where
  "svc_finishClaim now i principalId owner result verification omissions = batch
     (andThen (on_store (finishClaim now i principalId owner result verification omissions)) (\<lambda>_.
      andThen (cancelPendingReminders now i owner) (\<lambda>_.
      andThen (read_store (\<lambda>db. mind_get now db i)) (\<lambda>current.
      andThen (case current of None \<Rightarrow> ok () | Some d \<Rightarrow> itemStateChanged d) (\<lambda>_.
      changed current)))))"

definition svc_archive :: "time \<Rightarrow> string \<Rightarrow> string \<Rightarrow> mind_detail option service" where
  "svc_archive now i actor = andThen (on_store (mind_archive now i actor)) (\<lambda>item.
     andThen (case item of None \<Rightarrow> ok () | Some d \<Rightarrow> itemStateChanged d) (\<lambda>_. changed item))"

definition svc_restore :: "time \<Rightarrow> string \<Rightarrow> string \<Rightarrow> mind_detail option service" where
  "svc_restore now i actor = andThen (on_store (mind_restore now i actor)) (\<lambda>item.
     andThen (case item of None \<Rightarrow> ok () | Some d \<Rightarrow> itemStateChanged d) (\<lambda>_. changed item))"

definition svc_expireClaims :: "time \<Rightarrow> string list service" where
  "svc_expireClaims now = andThen (on_store (expireClaims now)) (\<lambda>ids.
     andThen (when_do (ids \<noteq> []) (changed ())) (\<lambda>_. ok ids))"

text \<open>The operations that only pass the call on and notify.\<close>

definition svc_claim :: "time \<Rightarrow> string \<Rightarrow> claim_opts \<Rightarrow> mind_detail option service" where
  "svc_claim now i opts = store_then_changed (claim now i opts)"

definition svc_resumeClaim :: "time \<Rightarrow> string \<Rightarrow> claim_opts \<Rightarrow> mind_detail option service" where
  "svc_resumeClaim now i opts = store_then_changed (resumeClaim now i opts)"

definition svc_renewClaim :: "time \<Rightarrow> string \<Rightarrow> string \<Rightarrow> jsnum option \<Rightarrow> mind_detail option service" where
  "svc_renewClaim now i p ttl = store_then_changed (renewClaim now i p ttl)"

definition svc_releaseClaim :: "time \<Rightarrow> string \<Rightarrow> string \<Rightarrow> bool \<Rightarrow> string \<Rightarrow> mind_detail option service" where
  "svc_releaseClaim now i p toWaiting note = store_then_changed (releaseClaim now i p toWaiting note)"

definition svc_logClaim ::
  "time \<Rightarrow> string \<Rightarrow> string \<Rightarrow> string \<Rightarrow> string \<Rightarrow> string \<Rightarrow> jsnum option \<Rightarrow> mind_detail option service" where
  "svc_logClaim now i p owner kind body ttl = store_then_changed (logClaim now i p owner kind body ttl)"

definition svc_addDependency :: "time \<Rightarrow> string \<Rightarrow> string \<Rightarrow> string \<Rightarrow> mind_detail option service" where
  "svc_addDependency now i j actor = store_then_changed (addDependency now i j actor)"

definition svc_removeDependency :: "time \<Rightarrow> string \<Rightarrow> string \<Rightarrow> string \<Rightarrow> mind_detail option service" where
  "svc_removeDependency now i j actor = store_then_changed (removeDependency now i j actor)"

definition svc_addComment :: "time \<Rightarrow> string \<Rightarrow> string \<Rightarrow> string \<Rightarrow> mind_comment service" where
  "svc_addComment now i body author = store_then_changed (addComment now i body author)"

definition svc_addReply :: "time \<Rightarrow> string \<Rightarrow> int \<Rightarrow> string \<Rightarrow> string \<Rightarrow> mind_comment service" where
  "svc_addReply now i n body author = store_then_changed (addReply now i n body author)"

definition svc_updateComment :: "time \<Rightarrow> int \<Rightarrow> string \<Rightarrow> string \<Rightarrow> mind_comment service" where
  "svc_updateComment now n body author = store_then_changed (updateComment now n body author)"

definition svc_deleteComment :: "time \<Rightarrow> int \<Rightarrow> string \<Rightarrow> bool service" where
  "svc_deleteComment now n actor = store_then_changed (deleteComment now n actor)"

definition svc_addTag :: "time \<Rightarrow> string \<Rightarrow> string \<Rightarrow> string \<Rightarrow> mind_detail option service" where
  "svc_addTag now i tag actor = store_then_changed (addTag now i tag actor)"

definition svc_removeTag :: "time \<Rightarrow> string \<Rightarrow> string \<Rightarrow> string \<Rightarrow> mind_detail option service" where
  "svc_removeTag now i tag actor = store_then_changed (removeTag now i tag actor)"

section \<open>Counting\<close>

lemma page_length:
  assumes "mind_list now db f = Inr xs"
  shows "length xs \<le> length (db_items db) - nat (list_offset f)"
proof (rule mind_list_cases [OF assms])
  fix sts kds tag srt
  let ?m = "filter (list_where now db f sts kds tag) (db_items db)"
  assume xs: "xs = filter (\<lambda>x. (lf_ready f \<longrightarrow> is_ready x) \<and> (lf_blocked f \<longrightarrow> mi_effective x = Blocked))
     (map (hydrate now db) (take (nat (list_limit f)) (drop (nat (list_offset f)) (sort_by (row_order db srt) ?m))))"
  have "length xs \<le> length (map (hydrate now db) (take (nat (list_limit f)) (drop (nat (list_offset f)) (sort_by (row_order db srt) ?m))))"
    unfolding xs by (rule length_filter_le)
  then have "length xs \<le> length ?m - nat (list_offset f)" by simp
  also have "\<dots> \<le> length (db_items db) - nat (list_offset f)" by (intro diff_le_mono length_filter_le)
  finally show ?thesis .
qed

definition count_page :: "list_filter \<Rightarrow> nat \<Rightarrow> list_filter" where
  "count_page f n = f\<lparr>lf_limit := Some 500, lf_offset := Some (int n)\<rparr>"

lemma count_page_frame [simp]:
  "list_limit (count_page f n) = 500" "list_offset (count_page f n) = int n"
  "lf_ready (count_page f n) = lf_ready f" "lf_blocked (count_page f n) = lf_blocked f"
  "lf_statuses (count_page f n) = lf_statuses f" "lf_kinds (count_page f n) = lf_kinds f"
  "lf_tag (count_page f n) = lf_tag f" "lf_sort (count_page f n) = lf_sort f"
  "list_where now db (count_page f n) sts kds tag = list_where now db f sts kds tag"
  by (simp_all add: count_page_def list_limit_def list_offset_def list_where_def fun_eq_iff)

function count_loop :: "time \<Rightarrow> mind_db \<Rightarrow> list_filter \<Rightarrow> nat \<Rightarrow> mind_error + nat" where
  "count_loop now db f n =
     (case mind_list now db (count_page f n) of
        Inl e \<Rightarrow> Inl e
      | Inr page \<Rightarrow> if length page < 500 then Inr (n + length page) else count_loop now db f (n + length page))"
  by pat_completeness auto
termination
proof (relation "measure (\<lambda>(now, db, f, n). length (db_items db) - n)", simp)
  fix now db f n page
  assume "mind_list now db (count_page f n) = Inr page" "\<not> length page < 500"
  from page_length [OF this(1)] this(2)
  show "((now, db, f, n + length page), now, db, f, n) \<in> measure (\<lambda>(now, db, f, n). length (db_items db) - n)"
    by simp
qed

declare count_loop.simps [simp del]

definition svc_count :: "time \<Rightarrow> list_filter \<Rightarrow> nat service" where
  "svc_count now f = reads (\<lambda>w. lift (count_loop now (mw_db w) f 0))"

lemma count_page_list:
  assumes "\<not> lf_ready f" "\<not> lf_blocked f"
    and v: "map_res assertStatus (lf_statuses f) = Inr sts" "map_res assertKind (lf_kinds f) = Inr kds"
      "(if lf_tag f = [] then Inr None else map_sum id Some (normalizeTag (lf_tag f))) = Inr tag"
      "assertSort (case lf_sort f of None \<Rightarrow> ''updated_desc'' | Some s \<Rightarrow> s) = Inr srt"
  shows "\<exists>page. mind_list now db (count_page f n) = Inr page \<and>
    length page = min 500 (length (filter (list_where now db f sts kds tag) (db_items db)) - n)"
  using assms unfolding mind_list_def count_page_frame by (simp add: Let_def del: if_False if_True)

text \<open>
  Counting is exact and ends: for a valid filter without readiness flags, \<open>count\<close> walks the
  pages of the listing and returns the number of stored rows that satisfy the filter.
\<close>

theorem count_is_exact:
  assumes "\<not> lf_ready f" "\<not> lf_blocked f"
    and v: "map_res assertStatus (lf_statuses f) = Inr sts" "map_res assertKind (lf_kinds f) = Inr kds"
      "(if lf_tag f = [] then Inr None else map_sum id Some (normalizeTag (lf_tag f))) = Inr tag"
      "assertSort (case lf_sort f of None \<Rightarrow> ''updated_desc'' | Some s \<Rightarrow> s) = Inr srt"
  shows "svc_count now f w = (Inr (length (filter (list_where now (mw_db w) f sts kds tag) (db_items (mw_db w)))), w)"
proof -
  let ?L = "length (filter (list_where now (mw_db w) f sts kds tag) (db_items (mw_db w)))"
  have "count_loop now (mw_db w) f n = Inr ?L" if "n \<le> ?L" for n
    using that
  proof (induction "?L - n" arbitrary: n rule: less_induct)
    case less
    from count_page_list [OF assms, of now "mw_db w" n]
    obtain page where p: "mind_list now (mw_db w) (count_page f n) = Inr page" "length page = min 500 (?L - n)" by blast
    have step: "count_loop now (mw_db w) f n =
       (if length page < 500 then Inr (n + length page) else count_loop now (mw_db w) f (n + length page))"
      by (subst count_loop.simps) (simp only: p(1) sum.case)
    show ?case
    proof (cases "length page < 500")
      case True
      then have "n + length page = ?L" using p(2) less.prems by linarith
      then show ?thesis unfolding step if_P [OF True] by (simp only:)
    next
      case False
      then have "?L - (n + length page) < ?L - n" "n + length page \<le> ?L" using p(2) by linarith+
      from less.hyps [OF this] show ?thesis unfolding step if_not_P [OF False] .
    qed
  qed
  from this [of 0] show ?thesis by (simp add: svc_count_def action_simps)
qed

definition quiet_world :: "mind_db \<Rightarrow> mind_world" where
  "quiet_world db = \<lparr>mw_db = db, mw_sched = fresh_sched, mw_depth = 0, mw_pending = False, mw_notified = 0, mw_states = []\<rparr>"

theorem count_is_exact_witness: "svc_count 3000 empty_filter (quiet_world pair_db) = (Inr 2, quiet_world pair_db)"
proof -
  have "filter (list_where 3000 (mw_db (quiet_world pair_db)) empty_filter [] [] None) (db_items (mw_db (quiet_world pair_db))) =
      [plain_row ''elm-00000005'' ''plan'', plain_row ''elm-00000007'' ''plan'']"
    by (simp add: quiet_world_def pair_items list_where_def empty_filter_def plain_row_def trim_def)
  moreover have "assertSort ''updated_desc'' = Inr UpdatedDesc" by (simp add: assertSort_def MIND_SORTS_def)
  ultimately show ?thesis
    using count_is_exact [of empty_filter "[]" "[]" None UpdatedDesc 3000 "quiet_world pair_db"]
    by (simp add: empty_filter_def)
qed

end
