(* ===== verification/Mind_Service_Correct.thy ===== *)
theory Mind_Service_Correct
  imports Mind_Service
begin

text \<open>
  What the Mind service adds to the store: reminders and scheduler tasks stay linked, closing an
  item cancels its reminders, and one batch of changes is announced once.
\<close>

section \<open>Reminders are left alone by the other store operations\<close>

named_theorems reminders_frame \<open>statements that do not touch the reminder table\<close>

lemma reminders_statements [reminders_frame]:
  "db_reminders (add_event i ty actor dat tm db) = db_reminders db"
  "db_reminders (touch i tm db) = db_reminders db"
  "db_reminders (set_status i st c tm db) = db_reminders db"
  "db_reminders (delete_claim i db) = db_reminders db"
  "db_reminders (insert_claim cl db) = db_reminders db"
  "db_reminders (update_claim i g db) = db_reminders db"
  "db_reminders (snd (addCommentInternal i body author tm reply db)) = db_reminders db"
  "db_reminders (insert_item row tags db) = db_reminders db"
  "db_reminders (start_claim tm ttl i opts existing db) = db_reminders db"
  "db_reminders (expire_one tm cl db) = db_reminders db"
  "db_reminders (write_columns tm i p db) = db_reminders db"
  "db_reminders (write_tags tm i p db) = db_reminders db"
  by (simp_all add: add_event_def touch_def set_status_def delete_claim_def insert_claim_def update_claim_def
      addCommentInternal_def insert_item_def start_claim_def expire_one_def write_columns_def write_tags_def
      Let_def split: option.split)

lemma reminders_writes [reminders_frame]:
  "db_reminders (revoke_claim tm i cur p actor db) = db_reminders db"
  "db_reminders (update_event tm i cur tags p actor db) = db_reminders db"
  by (simp_all add: revoke_claim_def update_event_def reminders_frame split: option.split)

lemma reminders_dependency [reminders_frame]:
  "db_reminders (snd (addDependencyInternal i j actor tm db)) = db_reminders db"
  "db_reminders (snd (for_each (\<lambda>j. addDependencyInternal i j actor tm) js db)) = db_reminders db"
proof -
  show one: "db_reminders (snd (addDependencyInternal i j actor tm db)) = db_reminders db" for j db
    by (simp add: addDependencyInternal_def reminders_frame)
  show "db_reminders (snd (for_each (\<lambda>j. addDependencyInternal i j actor tm) js db)) = db_reminders db"
  proof (induction js arbitrary: db)
    case (Cons j js)
    obtain r db1 where 1: "addDependencyInternal i j actor tm db = (r, db1)" by fastforce
    show ?case using Cons [of db1] one [of j db] 1 by (cases r) (auto simp: action_simps)
  qed (simp add: action_simps)
qed

lemma reminders_expire [reminders_frame]: "db_reminders (fold (expire_one tm) cs db) = db_reminders db"
  by (induction cs arbitrary: db) (simp_all add: reminders_frame)

abbreviation same_rem :: "reminder_row list \<Rightarrow> mind_db \<Rightarrow> bool" where
  "same_rem R \<equiv> \<lambda>d. db_reminders d = R"

lemma same_rem_add_dep:
  assumes "db_reminders db = R"
  shows "safe_at (same_rem R) (andThen (addDependencyInternal i j actor now) (\<lambda>_. modify (touch i now))) db"
proof -
  obtain r db1 where 1: "addDependencyInternal i j actor now db = (r, db1)" by fastforce
  then have "db_reminders db1 = R" using reminders_dependency(1) [of i j actor now db] assms by simp
  then show ?thesis using 1 by (cases r) (auto simp: safe_at_def action_simps reminders_frame)
qed

lemma same_rem_ops:
  assumes R: "db_reminders db = R"
  shows "safe_at (same_rem R) (mind_update now i patch actor) db" "safe_at (same_rem R) (mind_archive now i actor) db"
    "safe_at (same_rem R) (mind_restore now i actor) db" "safe_at (same_rem R) (renewClaim now i p ttl) db"
    "safe_at (same_rem R) (releaseClaim now i p wait note) db" "safe_at (same_rem R) (logClaim now i p owner kind body ttl) db"
    "safe_at (same_rem R) (finishClaim now i p owner res ver om) db" "safe_at (same_rem R) (addDependency now i j actor) db"
    "safe_at (same_rem R) (removeDependency now i j actor) db" "safe_at (same_rem R) (addTag now i tag actor) db"
    "safe_at (same_rem R) (removeTag now i tag actor) db" "safe_at (same_rem R) (expireClaims now) db"
proof -
  show "safe_at (same_rem R) (mind_update now i patch actor) db"
    unfolding mind_update_def using R by (auto intro!: safe_intro simp: reminders_frame split: option.split)
  show "safe_at (same_rem R) (mind_archive now i actor) db"
    unfolding mind_archive_def using R by (auto intro!: safe_intro simp: reminders_frame Let_def split: option.split)
  show "safe_at (same_rem R) (addDependency now i j actor) db"
    unfolding addDependency_def by (intro safe_intro R same_rem_add_dep)
  show "safe_at (same_rem R) (expireClaims now) db"
    using R by (simp add: safe_at_def expireClaims_def reminders_frame)
  show "safe_at (same_rem R) (finishClaim now i p owner res ver om) db"
    unfolding finishClaim_def using R by (intro safe_intro) (auto simp: reminders_frame Let_def)
qed (unfold mind_restore_def renewClaim_def releaseClaim_def logClaim_def removeDependency_def addTag_def removeTag_def,
    (intro safe_intro; simp add: R reminders_frame)+)

lemma same_rem_claims:
  assumes R: "db_reminders db = R"
  shows "safe_at (same_rem R) (claim now i opts) db" "safe_at (same_rem R) (resumeClaim now i opts) db"
proof -
  have "safe_at (same_rem R) (claim_tx now ttl i opts) db" "safe_at (same_rem R) (resume_tx now ttl i opts) db" for ttl
    using R by (auto simp: safe_at_def claim_tx_def resume_tx_def Let_def reminders_frame split: option.split)
  then show "safe_at (same_rem R) (claim now i opts) db" "safe_at (same_rem R) (resumeClaim now i opts) db"
    unfolding claim_def resumeClaim_def using R by (auto intro!: safe_intro)
qed

lemma same_rem_comments:
  assumes R: "db_reminders db = R"
  shows "safe_at (same_rem R) (addComment now i body author) db" "safe_at (same_rem R) (addReply now i n body author) db"
    "safe_at (same_rem R) (updateComment now n body author) db" "safe_at (same_rem R) (deleteComment now n actor) db"
  unfolding addComment_def addReply_def updateComment_def deleteComment_def using R
  by (auto intro!: safe_intro safe_addComment simp: reminders_frame split: option.split)

lemma same_rem_create:
  assumes R: "db_reminders db = R"
  shows "safe_at (same_rem R) (mind_create now vs opts) db"
proof -
  have tx: "safe_at (same_rem R) (create_tx now vs opts a) db" for a
  proof (cases "fresh_id db vs")
    case (Some ir)
    obtain i r where [simp]: "ir = (i, r)" by (cases ir)
    let ?e = "for_each (\<lambda>j. addDependencyInternal i j (ca_actor a) now) (ca_depends a)
       (insert_item (created_row now opts a i) (ca_tags a) db)"
    have "db_reminders (snd ?e) = R" by (simp add: reminders_frame R)
    then show ?thesis
      unfolding create_tx_def safe_at_def action_simps Some
      by (cases ?e; cases "fst ?e") (auto simp: action_simps reminders_frame)
  qed (simp add: create_tx_def safe_at_def action_simps R)
  have "safe_at (same_rem R) (andThen (transaction (create_tx now vs opts a)) (\<lambda>i. reads (\<lambda>db'. ok (mind_get now db' i)))) db" for a
    using tx [of a] R by (auto simp: safe_at_def action_simps split: prod.splits sum.splits)
  then show ?thesis unfolding mind_create_def by (intro safe_intro R)
qed

section \<open>Reminders and scheduler tasks stay linked\<close>

definition linked :: "mind_db \<Rightarrow> sched \<Rightarrow> bool" where
  "linked db sc \<longleftrightarrow> (\<forall>r \<in> set (db_reminders db). rm_task r < sc_next_id sc \<and>
     (is_pending r \<longrightarrow> (\<exists>t. getById sc (rm_task r) = Some t \<and> tk_done t = None \<and> tk_next t = rm_fire r)))"

definition svc_inv :: "mind_world \<Rightarrow> bool" where
  "svc_inv w \<longleftrightarrow> mind_inv_x {} (mw_db w) \<and> sched_inv (mw_sched w) \<and> linked (mw_db w) (mw_sched w)"

lemma svc_inv_frame [simp]:
  "svc_inv (w\<lparr>mw_depth := n\<rparr>) = svc_inv w" "svc_inv (w\<lparr>mw_pending := b\<rparr>) = svc_inv w"
  "svc_inv (w\<lparr>mw_notified := n\<rparr>) = svc_inv w" "svc_inv (w\<lparr>mw_states := l\<rparr>) = svc_inv w"
  "svc_inv (notifyChanged w) = svc_inv w"
  by (simp_all add: svc_inv_def notifyChanged_def)

lemma safe_changed [safe_intro]: "svc_inv w \<Longrightarrow> safe_at svc_inv (changed v) w"
  by (simp add: safe_at_def changed_def)

lemma safe_read_store [safe_intro]: "svc_inv w \<Longrightarrow> safe_at svc_inv (read_store f) w"
  by (simp add: safe_at_def read_store_def)

lemma safe_stateChanged [safe_intro]: "svc_inv w \<Longrightarrow> safe_at svc_inv (itemStateChanged x) w"
  by (simp add: safe_at_def itemStateChanged_def action_simps)

lemma safe_batch: "(\<And>n. safe_at svc_inv m (w\<lparr>mw_depth := n\<rparr>)) \<Longrightarrow> safe_at svc_inv (batch m) w"
  unfolding batch_def safe_at_def by (simp add: Let_def split: prod.splits) (metis snd_conv)

lemma safe_on_store:
  assumes "svc_inv w" and "safe_at (mind_inv_x {}) m (mw_db w)" and "safe_at (same_rem (db_reminders (mw_db w))) m (mw_db w)"
  shows "safe_at svc_inv (on_store m) w"
  using assms by (auto simp: safe_at_def on_store_def svc_inv_def linked_def split: prod.splits)

lemma safe_store_then_changed:
  assumes "svc_inv w" and "safe_at (mind_inv_x {}) m (mw_db w)" and "safe_at (same_rem (db_reminders (mw_db w))) m (mw_db w)"
  shows "safe_at svc_inv (store_then_changed m) w"
  unfolding store_then_changed_def by (intro safe_andThen safe_on_store [OF assms] safe_changed)

lemma svc_inv_db: "svc_inv w \<Longrightarrow> mind_inv_x {} (mw_db w)"
  by (simp add: svc_inv_def)

lemma safe_pass_through:
  assumes "svc_inv w"
  shows "safe_at svc_inv (svc_claim now i copts) w" "safe_at svc_inv (svc_resumeClaim now i copts) w"
    "safe_at svc_inv (svc_renewClaim now i p ttl) w" "safe_at svc_inv (svc_releaseClaim now i p wait note) w"
    "safe_at svc_inv (svc_logClaim now i p owner kind body ttl) w" "safe_at svc_inv (svc_addDependency now i j actor) w"
    "safe_at svc_inv (svc_removeDependency now i j actor) w" "safe_at svc_inv (svc_addComment now i body author) w"
    "safe_at svc_inv (svc_addReply now i n body author) w" "safe_at svc_inv (svc_updateComment now n body author) w"
    "safe_at svc_inv (svc_deleteComment now n actor) w" "safe_at svc_inv (svc_addTag now i tag actor) w"
    "safe_at svc_inv (svc_removeTag now i tag actor) w"
  unfolding svc_claim_def svc_resumeClaim_def svc_renewClaim_def svc_releaseClaim_def svc_logClaim_def
    svc_addDependency_def svc_removeDependency_def svc_addComment_def svc_addReply_def svc_updateComment_def
    svc_deleteComment_def svc_addTag_def svc_removeTag_def
  by (rule safe_store_then_changed [OF assms]; simp add: mind_safe same_rem_ops same_rem_claims same_rem_comments svc_inv_db [OF assms])+

lemma safe_archive_restore:
  assumes "svc_inv w"
  shows "safe_at svc_inv (svc_archive now i actor) w" "safe_at svc_inv (svc_restore now i actor) w"
    "safe_at svc_inv (svc_expireClaims now) w"
proof -
  note db = svc_inv_db [OF assms]
  have st: "safe_at svc_inv (case x of None \<Rightarrow> ok () | Some d \<Rightarrow> itemStateChanged d) w'" if "svc_inv w'"
    for x :: "mind_detail option" and w' using that by (auto intro: safe_intro split: option.split)
  show "safe_at svc_inv (svc_archive now i actor) w"
    unfolding svc_archive_def
    by (intro safe_andThen safe_on_store assms st safe_changed; simp add: mind_safe db same_rem_ops)
  show "safe_at svc_inv (svc_restore now i actor) w"
    unfolding svc_restore_def
    by (intro safe_andThen safe_on_store assms st safe_changed; simp add: mind_safe db same_rem_ops)
  show "safe_at svc_inv (svc_expireClaims now) w"
    unfolding svc_expireClaims_def when_do_def
    by (intro safe_andThen safe_on_store assms; auto simp: mind_safe db same_rem_ops intro: safe_intro)
qed

subsection \<open>The reminder operations\<close>

lemma reminder_tasks_distinct:
  "mind_inv_x X db \<Longrightarrow> distinct (map rm_task (db_reminders db)) \<and> distinct (map rm_id (db_reminders db))"
  by (simp add: mind_inv_x_def refs_inv_def rowids_def)

lemma reminderById_iff:
  assumes "mind_inv_x X db"
  shows "reminderById db n = Some r \<longleftrightarrow> r \<in> set (db_reminders db) \<and> rm_id r = n"
  unfolding reminderById_def by (rule find_key_iff) (simp add: reminder_tasks_distinct [OF assms])

lemma create_next_id: "task_create now o' sc = (Inr t, sc') \<Longrightarrow> tk_id t = sc_next_id sc \<and> sc_next_id sc' = sc_next_id sc + 1"
  by (auto simp: task_create_def Let_def new_task_def split: if_splits)

text \<open>A record for a task that was just created never meets the UNIQUE constraint.\<close>

lemma record_after_create:
  assumes inv: "svc_inv w" and item: "item_by_id (mw_db w) i = Some row" "it_status row \<noteq> Proposal"
    and t: "task_create now o' (mw_sched w) = (Inr t, sc')" and fire: "to_next o' = fireAt"
  shows "\<exists>rr db'. createReminderRecord now i (tk_id t) fireAt channel actor (mw_db w) = (Inr rr, db') \<and>
    mind_inv_x {} db' \<and> linked db' sc'"
proof -
  let ?db = "mw_db w" and ?n = "db_next_reminder (mw_db w)"
  have lk: "linked ?db (mw_sched w)" and sinv: "sched_inv (mw_sched w)" using inv by (auto simp: svc_inv_def)
  note new = create_next_id [OF t] and tnew = book.add_new [OF sinv t]
  have free: "\<not> list_ex (\<lambda>x. rm_task x = tk_id t) (db_reminders ?db)"
    using lk new by (fastforce simp: linked_def list_ex_iff)
  define rr where "rr = \<lparr>rm_id = ?n, rm_item = i, rm_task = tk_id t, rm_fire = fireAt, rm_channel = channel,
    rm_by = actor, rm_created = now, rm_fired = None, rm_cancelled = None\<rparr>"
  obtain db' where run: "createReminderRecord now i (tk_id t) fireAt channel actor ?db = (Inr rr, db')"
    and rem: "db_reminders db' = db_reminders ?db @ [rr]"
    using item free by (simp add: createReminderRecord_def Let_def rr_def reminders_frame)
  have "mind_inv_x {} db'"
    using safe_createReminderRecord [OF svc_inv_db [OF inv], of now i "tk_id t" fireAt channel actor] run by (simp add: safe_at_def)
  moreover have "linked db' sc'"
    unfolding linked_def rem
  proof (intro ballI)
    fix r assume "r \<in> set (db_reminders ?db @ [rr])"
    then consider "r \<in> set (db_reminders ?db)" | "r = rr" by auto
    then show "rm_task r < sc_next_id sc' \<and>
       (is_pending r \<longrightarrow> (\<exists>t. getById sc' (rm_task r) = Some t \<and> tk_done t = None \<and> tk_next t = rm_fire r))"
    proof cases
      case 1
      then have "rm_task r < sc_next_id (mw_sched w)" "rm_task r \<noteq> tk_id t" using lk new by (auto simp: linked_def)
      with 1 lk tnew new show ?thesis by (auto simp: linked_def)
    next
      case 2
      then show ?thesis using tnew new fire by (simp add: rr_def)
    qed
  qed
  ultimately show ?thesis using run by blast
qed

lemma safe_addReminder:
  assumes inv: "svc_inv w"
  shows "safe_at svc_inv (addReminder now rnd i fireAt actor channel) w"
proof (cases "mind_get now (mw_db w) i")
  case (Some item)
  let ?o = "reminder_opts now rnd item (finite_val fireAt) channel"
  obtain row where row: "item_by_id (mw_db w) i = Some row" "it_status item = it_status row"
    using mind_get_row [OF Some] by blast
  show ?thesis
  proof (cases "it_status item = Proposal \<or> \<not> isFinite fireAt \<or> finite_val fireAt \<le> now")
    case False
    obtain r sc' where c: "task_create now ?o (mw_sched w) = (r, sc')" by fastforce
    show ?thesis
    proof (cases r)
      case (Inl e)
      then have "sc' = mw_sched w" using c book.add_refused by blast
      then show ?thesis
        using inv c Inl Some False
        by (simp add: safe_at_def addReminder_def on_scheduler_def action_simps)
    next
      case (Inr t)
      have "sched_inv sc'" using book.good_add [of "mw_sched w" now ?o] inv c by (simp add: svc_inv_def)
      moreover obtain rr db' where "createReminderRecord now i (tk_id t) (finite_val fireAt) channel actor (mw_db w) = (Inr rr, db')"
        "mind_inv_x {} db'" "linked db' sc'"
        using record_after_create [OF inv row(1), of now ?o t sc' "finite_val fireAt" channel actor] c Inr row(2) False
        by (auto simp: reminder_opts_def)
      ultimately show ?thesis
        using Some False c Inr
        by (simp add: safe_at_def addReminder_def on_scheduler_def action_simps or_undo_def store_then_changed_def
            on_store_def changed_def svc_inv_def notifyChanged_def)
    qed
  qed (use inv Some in \<open>auto simp: safe_at_def addReminder_def action_simps\<close>)
qed (use inv in \<open>simp add: safe_at_def addReminder_def action_simps\<close>)

lemma reminders_update [simp]:
  "db_reminders (update_reminder n f db) = update_where (\<lambda>r. rm_id r = n) f (db_reminders db)"
  by (simp add: update_reminder_def)

lemma cancelled_reminders:
  assumes "mind_inv_x X db" and "reminderById db n = Some row"
  shows "db_reminders (snd (cancelReminderRecord now n actor db)) =
    (if is_pending row then update_where (\<lambda>r. rm_id r = n) (\<lambda>r. r\<lparr>rm_cancelled := Some now\<rparr>) (db_reminders db)
     else db_reminders db)"
  using assms by (simp add: cancelReminderRecord_def is_pending_def Let_def reminders_frame)

lemma delete_frame [simp]: "sc_next_id (snd (task_delete now i sc)) = sc_next_id sc"
  by (simp add: task_delete_def)

lemma linked_cancel:
  assumes inv: "mind_inv_x {} db" and lk: "linked db sc" and row: "reminderById db n = Some row"
  shows "linked (snd (cancelReminderRecord now n actor db)) (snd (task_delete now (rm_task row) sc))"
  unfolding linked_def cancelled_reminders [OF inv row]
proof (intro ballI)
  fix r assume r: "r \<in> set (if is_pending row then update_where (\<lambda>r. rm_id r = n) (\<lambda>r. r\<lparr>rm_cancelled := Some now\<rparr>) (db_reminders db)
     else db_reminders db)"
  have rowin: "row \<in> set (db_reminders db)" "rm_id row = n" using reminderById_iff [OF inv] row by auto
  have uniq: "a = row" if "a \<in> set (db_reminders db)" "rm_id a = n \<or> rm_task a = rm_task row" for a
    using that rowin reminder_tasks_distinct [OF inv] by (auto simp: distinct_map inj_on_def)
  consider (old) "r \<in> set (db_reminders db)" "rm_id r \<noteq> n \<or> \<not> is_pending row"
    | (new) q where "q \<in> set (db_reminders db)" "rm_id q = n" "r = q\<lparr>rm_cancelled := Some now\<rparr>"
    using r by (auto simp: set_update_where split: if_splits)
  then show "rm_task r < sc_next_id (snd (task_delete now (rm_task row) sc)) \<and> (is_pending r \<longrightarrow>
      (\<exists>t. getById (snd (task_delete now (rm_task row) sc)) (rm_task r) = Some t \<and> tk_done t = None \<and> tk_next t = rm_fire r))"
  proof cases
    case old
    then have "is_pending r \<Longrightarrow> rm_task r \<noteq> rm_task row" using uniq [of r] rowin by blast
    with old(1) lk show ?thesis by (auto simp: linked_def book.remove_lookup)
  next
    case new
    then show ?thesis using lk by (auto simp: linked_def is_pending_def)
  qed
qed

definition mark_changed :: "mind_world \<Rightarrow> mind_world" where
  "mark_changed w = (if mw_depth w > 0 then w\<lparr>mw_pending := True\<rparr> else notifyChanged w)"

lemma changed_run: "changed v w = (Inr v, mark_changed w)"
  by (simp add: changed_def mark_changed_def)

lemma svc_inv_mark [simp]: "svc_inv (mark_changed w) = svc_inv w"
  by (simp add: mark_changed_def)

lemma cancelReminder_run:
  assumes "reminderById (mw_db w) n = Some row"
  shows "cancelReminder now n actor w = (Inr (fst (cancelReminderRecord now n actor (mw_db w))),
    mark_changed (w\<lparr>mw_sched := snd (task_delete now (rm_task row) (mw_sched w)),
      mw_db := snd (cancelReminderRecord now n actor (mw_db w))\<rparr>))"
  using assms
  by (cases "cancelReminderRecord now n actor (mw_db w)")
    (simp add: cancelReminder_def action_simps store_then_changed_def on_store_def changed_run delete_task_def)

lemma safe_cancelReminder:
  assumes inv: "svc_inv w"
  shows "safe_at svc_inv (cancelReminder now n actor) w"
proof (cases "reminderById (mw_db w) n")
  case (Some row)
  have "linked (snd (cancelReminderRecord now n actor (mw_db w))) (snd (task_delete now (rm_task row) (mw_sched w)))"
    using inv Some by (intro linked_cancel) (auto simp: svc_inv_def)
  moreover have "mind_inv_x {} (snd (cancelReminderRecord now n actor (mw_db w)))"
    using inv by (intro inv_cancelReminderRecord) (simp add: svc_inv_def)
  moreover have "sched_inv (snd (task_delete now (rm_task row) (mw_sched w)))"
    using inv by (intro delete_inv) (simp add: svc_inv_def)
  ultimately show ?thesis
    by (simp add: safe_at_def cancelReminder_run [OF Some]) (simp add: svc_inv_def)
qed (use inv in \<open>simp add: safe_at_def cancelReminder_def action_simps\<close>)

lemma safe_for_each:
  "I s \<Longrightarrow> (\<And>x s. I s \<Longrightarrow> safe_at I (f x) s) \<Longrightarrow> safe_at I (for_each f xs) s"
proof (induction xs arbitrary: s)
  case (Cons x xs)
  show ?case unfolding for_each.simps
    by (rule safe_andThen) (use Cons in \<open>auto simp: safe_at_def\<close>)
qed (simp add: safe_intro)

lemma safe_cancelPending: "svc_inv w \<Longrightarrow> safe_at svc_inv (cancelPendingReminders now i actor) w"
  unfolding cancelPendingReminders_def
  by (intro safe_basic(5) safe_for_each safe_andThen safe_cancelReminder) (auto intro: safe_intro)

lemma safe_snoozeReminder:
  assumes inv: "svc_inv w"
  shows "safe_at svc_inv (snoozeReminder now n fireAt actor) w"
proof (cases "(isFinite fireAt \<and> now < finite_val fireAt) \<and> (\<exists>row. reminderById (mw_db w) n = Some row \<and> is_pending row)")
  case True
  then obtain row where row: "reminderById (mw_db w) n = Some row" "is_pending row" and fin: "isFinite fireAt" "now < finite_val fireAt"
    by blast
  let ?x = "finite_val fireAt"
  have db: "mind_inv_x {} (mw_db w)" and sinv: "sched_inv (mw_sched w)" and lk: "linked (mw_db w) (mw_sched w)"
    using inv by (auto simp: svc_inv_def)
  have rin: "row \<in> set (db_reminders (mw_db w))" "rm_id row = n" using row reminderById_iff [OF db] by auto
  then obtain t where t: "getById (mw_sched w) (rm_task row) = Some t" "tk_done t = None"
    using lk row(2) by (auto simp: linked_def)
  from book.change_time [OF sinv t, of now ?x]
  obtain sc' where sc': "task_update now (rm_task row) (empty_task_patch\<lparr>tp_next := Some ?x, tp_snooze := Some None\<rparr>) (mw_sched w) =
      (Inr (Some (t\<lparr>tk_next := ?x, tk_snooze := None\<rparr>)), sc')"
    "getById sc' = (getById (mw_sched w))(rm_task row \<mapsto> t\<lparr>tk_next := ?x, tk_snooze := None\<rparr>)" by blast
  have nid: "sc_next_id sc' = sc_next_id (mw_sched w)"
    using sc'(1) t by (auto simp: task_update_def empty_task_patch_def Let_def split: if_splits)
  have sinv': "sched_inv sc'" using book.good_change [OF sinv] sc'(1) by (metis snd_conv)
  obtain rr db' where u: "updateReminderRecord now n ?x actor (mw_db w) = (Inr rr, db')"
    and rem: "db_reminders db' = update_where (\<lambda>r. rm_id r = n) (\<lambda>r. r\<lparr>rm_fire := ?x\<rparr>) (db_reminders (mw_db w))"
    using row by (simp add: updateReminderRecord_def Let_def reminders_frame)
  have "mind_inv_x {} db'" using safe_updateReminderRecord [OF db, of now n ?x actor] u by (simp add: safe_at_def)
  moreover have "linked db' sc'"
    unfolding linked_def rem nid
  proof (intro ballI)
    fix r assume "r \<in> set (update_where (\<lambda>r. rm_id r = n) (\<lambda>r. r\<lparr>rm_fire := ?x\<rparr>) (db_reminders (mw_db w)))"
    then consider (same) "r \<in> set (db_reminders (mw_db w))" "rm_id r \<noteq> n"
      | (moved) q where "q \<in> set (db_reminders (mw_db w))" "rm_id q = n" "r = q\<lparr>rm_fire := ?x\<rparr>"
      by (auto simp: set_update_where)
    then show "rm_task r < sc_next_id (mw_sched w) \<and>
       (is_pending r \<longrightarrow> (\<exists>t. getById sc' (rm_task r) = Some t \<and> tk_done t = None \<and> tk_next t = rm_fire r))"
    proof cases
      case same
      then have "rm_task r \<noteq> rm_task row"
        using rin reminder_tasks_distinct [OF db] by (auto simp: distinct_map inj_on_def)
      with same lk sc'(2) show ?thesis by (auto simp: linked_def)
    next
      case moved
      then have "q = row" using rin reminder_tasks_distinct [OF db] by (auto simp: distinct_map inj_on_def)
      with moved lk rin sc'(2) t show ?thesis by (auto simp: linked_def)
    qed
  qed
  ultimately show ?thesis
    using row fin sc'(1) u sinv'
    by (simp add: safe_at_def snoozeReminder_def action_simps on_scheduler_def store_then_changed_def on_store_def
        changed_def svc_inv_def notifyChanged_def is_pending_def)
qed (use inv in \<open>auto simp: safe_at_def snoozeReminder_def action_simps is_pending_def split: option.split\<close>)

subsection \<open>Firing\<close>

text \<open>
  The wake callback of the host as far as the Mind service is concerned: the reminder of the
  task is marked fired, and then the message is enqueued, which is not part of the service and
  may fail.
\<close>

definition host_wake :: "(task \<Rightarrow> bool) \<Rightarrow> time \<Rightarrow> task \<Rightarrow> (sched_error, sched \<times> mind_world, unit) action" where
  "host_wake enqueued now t = (\<lambda>(sc, w).
     (if enqueued t then Inr () else Inl (WakeFailed (tk_name t)), (sc, snd (onScheduledTaskWake now t w))))"

definition poll_world :: "(task \<Rightarrow> bool) \<Rightarrow> time \<Rightarrow> mind_world \<Rightarrow> mind_world" where
  "poll_world enqueued now w = (case poll (host_wake enqueued now) now (mw_sched w, w) of (_, (sc, w')) \<Rightarrow> w'\<lparr>mw_sched := sc\<rparr>)"

lemma wake_db: "mw_db (snd (onScheduledTaskWake now t w)) = markReminderFiredByTask now (tk_id t) (mw_db w)"
  by (simp add: onScheduledTaskWake_def on_store_def action_simps changed_run mark_changed_def notifyChanged_def)

lemma fired_reminders:
  assumes inv: "mind_inv_x {} db" and r: "r \<in> set (db_reminders (markReminderFiredByTask now k db))"
  shows "(r \<in> set (db_reminders db) \<or> (\<exists>q \<in> set (db_reminders db). r = q\<lparr>rm_fired := Some now\<rparr>)) \<and>
    (is_pending r \<longrightarrow> r \<in> set (db_reminders db) \<and> rm_task r \<noteq> k)"
proof (cases "find (\<lambda>r. rm_task r = k \<and> is_pending r) (db_reminders db)")
  case None
  then have "markReminderFiredByTask now k db = db" by (simp add: markReminderFiredByTask_def)
  then show ?thesis using r None by (auto simp: find_None_iff)
next
  case (Some q)
  then have q: "q \<in> set (db_reminders db)" "rm_task q = k" by (auto dest: find_SomeD)
  have only: "a = q" if "a \<in> set (db_reminders db)" "rm_task a = k \<or> rm_id a = rm_id q" for a
    using that q reminder_tasks_distinct [OF inv] by (auto simp: distinct_map inj_on_def)
  from r Some have "r \<in> set (update_where (\<lambda>x. rm_id x = rm_id q) (\<lambda>x. x\<lparr>rm_fired := Some now\<rparr>) (db_reminders db))"
    by (simp add: markReminderFiredByTask_def reminders_frame)
  then consider "r \<in> set (db_reminders db)" "rm_id r \<noteq> rm_id q"
    | x where "x \<in> set (db_reminders db)" "r = x\<lparr>rm_fired := Some now\<rparr>" by (auto simp: set_update_where)
  then show ?thesis using only by cases (auto simp: is_pending_def)
qed

lemma linked_fired: "mind_inv_x {} db \<Longrightarrow> linked db sc \<Longrightarrow> linked (markReminderFiredByTask now k db) sc"
  unfolding linked_def by (metis (no_types, lifting) fired_reminders reminder_row.select_convs(3) reminder_row.surjective reminder_row.update_convs(8))

lemma linked_frame:
  assumes lk: "linked db sc" and fr: "frame k sc sc'"
    and other: "\<And>r. r \<in> set (db_reminders db) \<Longrightarrow> is_pending r \<Longrightarrow> rm_task r \<noteq> k"
  shows "linked db sc'"
  unfolding linked_def
proof (intro ballI conjI impI)
  fix r assume r: "r \<in> set (db_reminders db)"
  have lt: "rm_task r < sc_next_id sc" "sc_next_id sc \<le> sc_next_id sc'" using lk r fr by (auto simp: linked_def frame_def)
  then show "rm_task r < sc_next_id sc'" by simp
  assume p: "is_pending r"
  then obtain t where t: "getById sc (rm_task r) = Some t" "tk_done t = None" "tk_next t = rm_fire r"
    using lk r by (auto simp: linked_def)
  have "same_view sc sc' (rm_task r)" using fr other [OF r p] lt by (simp add: frame_def)
  from same_view_getD [OF this t(1)] t(2,3)
  show "\<exists>t. getById sc' (rm_task r) = Some t \<and> tk_done t = None \<and> tk_next t = rm_fire r"
    by (auto simp: view_def)
qed

definition poll_inv :: "sched \<times> mind_world \<Rightarrow> bool" where
  "poll_inv = (\<lambda>(sc, w). mind_inv_x {} (mw_db w) \<and> sched_inv sc \<and> linked (mw_db w) sc)"

lemma poll_step_linked:
  assumes "poll_inv (sc, w)"
  shows "poll_inv (snd (poll_step (host_wake enqueued now) now snap (errs, (sc, w))))"
proof (cases "\<exists>t. getById sc (tk_id snap) = Some t \<and> is_due now t")
  case True
  then obtain t where t: "getById sc (tk_id snap) = Some t" "is_due now t" by blast
  let ?w = "snd (onScheduledTaskWake now t w)" and ?k = "tk_id t"
  have db: "mind_inv_x {} (mw_db w)" and sinv: "sched_inv sc" and lk: "linked (mw_db w) sc"
    using assms by (auto simp: poll_inv_def)
  have id: "tk_id snap = ?k" using getById_id [OF t(1)] by simp
  have un: "untouched t t" using t(2) by (simp add: untouched_def is_due_def)
  have db': "mind_inv_x {} (mw_db ?w)" unfolding wake_db by (rule inv_markReminderFiredByTask [OF db])
  have lk': "linked (mw_db ?w) sc" unfolding wake_db by (rule linked_fired [OF db lk])
  have other: "rm_task r \<noteq> ?k" if "r \<in> set (db_reminders (mw_db ?w))" "is_pending r" for r
    using fired_reminders [OF db, of r now ?k] that unfolding wake_db by blast
  have good: "poll_inv (sc', ?w)" if "frame ?k sc sc'" for sc'
    using linked_frame [OF lk' that other] db' that by (simp add: poll_inv_def frame_def)
  obtain r sc1 where r: "reschedule now t sc = (r, sc1)" by fastforce
  have fr: "frame ?k sc sc1" using frame_reschedule [OF sinv, of t now] r by simp
  have "frame ?k sc1 (back_off now ?k sc1)" using fr by (intro frame_back_off) (simp add: frame_def)
  then have fr2: "frame ?k sc (back_off now ?k sc1)" by (rule frame_trans [OF fr])
  show ?thesis
    using t un r good [OF fr] good [OF fr2] good [OF frame_back_off [OF sinv]] id
    by (cases "enqueued t"; cases r)
      (simp_all add: poll_step_def handleDue_def host_wake_def action_simps on_sched_def)
qed (use assms in \<open>auto simp: poll_step_def split: option.split\<close>)

lemma poll_world_inv:
  assumes "svc_inv w"
  shows "svc_inv (poll_world enqueued now w)"
proof -
  have "poll_inv (snd (fold (poll_step (host_wake enqueued now) now) ds (errs, st)))" if "poll_inv st" for ds errs st
    using that
  proof (induction ds arbitrary: errs st)
    case (Cons d ds)
    obtain errs1 st1 where 1: "poll_step (host_wake enqueued now) now d (errs, st) = (errs1, st1)"
      by (cases "poll_step (host_wake enqueued now) now d (errs, st)") auto
    with poll_step_linked [of "fst st" "snd st" enqueued now d errs] Cons.prems have "poll_inv st1" by simp
    then show ?case using Cons.IH [of st1 errs1] 1 by simp
  qed simp
  moreover have "poll_inv (mw_sched w, w)" using assms by (simp add: svc_inv_def poll_inv_def)
  ultimately have "poll_inv (snd (fold (poll_step (host_wake enqueued now) now) (listDue (mw_sched w) now) ([], (mw_sched w, w))))"
    by blast
  then show ?thesis
    unfolding poll_world_def poll_def fst_conv
    by (auto simp: poll_inv_def svc_inv_def linked_def split: prod.splits)
qed

subsection \<open>The batched operations and the service as a whole\<close>

lemma safe_detail_changed:
  "svc_inv w \<Longrightarrow> safe_at svc_inv (case x of None \<Rightarrow> ok () | Some d \<Rightarrow> when_do b (itemStateChanged d)) w"
  "svc_inv w \<Longrightarrow> safe_at svc_inv (case x of None \<Rightarrow> ok () | Some d \<Rightarrow> itemStateChanged d) w"
  by (auto simp: when_do_def intro: safe_intro split: option.split)

lemma safe_svc_update:
  assumes "svc_inv w"
  shows "safe_at svc_inv (svc_update now i patch actor) w"
  unfolding svc_update_def
proof (rule safe_batch)
  fix n
  let ?w = "w\<lparr>mw_depth := n\<rparr>"
  have "safe_at svc_inv (on_store (mind_update now i patch actor)) ?w"
    using assms by (intro safe_on_store safe_update same_rem_ops) (simp_all add: svc_inv_db)
  moreover have "safe_at svc_inv (when_do b (cancelPendingReminders now i actor)) w'" if "svc_inv w'" for b w'
    using that safe_cancelPending by (simp add: when_do_def safe_intro)
  ultimately show "safe_at svc_inv (andThen (on_store (mind_update now i patch actor)) (\<lambda>item.
      andThen (when_do (case item of None \<Rightarrow> False | Some d \<Rightarrow> closes (it_status d)) (cancelPendingReminders now i actor)) (\<lambda>_.
      andThen (read_store (\<lambda>db. mind_get now db i)) (\<lambda>current.
      andThen (case current of None \<Rightarrow> ok () | Some d \<Rightarrow> when_do (up_status patch \<noteq> None) (itemStateChanged d)) (\<lambda>_.
      changed current))))) ?w"
    by (intro safe_andThen safe_read_store safe_detail_changed safe_changed)
qed

lemma safe_svc_finishClaim:
  assumes "svc_inv w"
  shows "safe_at svc_inv (svc_finishClaim now i p owner res ver om) w"
  unfolding svc_finishClaim_def
  by (intro safe_batch safe_andThen safe_on_store safe_cancelPending safe_read_store safe_detail_changed safe_changed
      safe_finishClaim same_rem_ops) (simp_all add: assms svc_inv_db)

lemma safe_svc_create:
  assumes "svc_inv w"
  shows "safe_at svc_inv (svc_create now vs rnd opts remindAt channel) w"
  unfolding svc_create_def
proof (rule safe_batch, rule safe_andThen)
  fix n
  show "safe_at svc_inv (on_store (mind_create now vs opts)) (w\<lparr>mw_depth := n\<rparr>)"
    using assms by (intro safe_on_store safe_create same_rem_create) (simp_all add: svc_inv_db)
next
  fix item :: "mind_detail option" and w' :: mind_world
  assume w': "svc_inv w'"
  have "safe_at svc_inv (case remindAt of None \<Rightarrow> ok ()
      | Some t \<Rightarrow> andThen (addReminder now rnd (it_id d) t who channel) (\<lambda>_. ok ())) w'" for d :: mind_detail and who
    using w' by (auto intro!: safe_andThen safe_addReminder safe_intro split: option.split)
  then show "safe_at svc_inv (case item of None \<Rightarrow> ok None | Some d \<Rightarrow>
      andThen (case remindAt of None \<Rightarrow> ok ()
        | Some at' \<Rightarrow> andThen (addReminder now rnd (it_id d) at' (case co_actor opts of None \<Rightarrow> ''agent'' | Some a \<Rightarrow> a) channel) (\<lambda>_. ok ())) (\<lambda>_.
      andThen (read_store (\<lambda>db. mind_get now db (it_id d))) changed)) w'"
    using w' by (cases item) (simp_all add: safe_intro, intro safe_andThen safe_read_store safe_changed)
qed

text \<open>One step is one call of the service, or one poll of the scheduler that wakes it.\<close>

inductive svc_step :: "mind_world \<Rightarrow> mind_world \<Rightarrow> bool" where
  create: "svc_step w (snd (svc_create now vs rnd opts remindAt channel w))"
| update: "svc_step w (snd (svc_update now i patch actor w))"
| finish: "svc_step w (snd (svc_finishClaim now i p owner res ver om w))"
| archive: "svc_step w (snd (svc_archive now i actor w))"
| restore: "svc_step w (snd (svc_restore now i actor w))"
| expire: "svc_step w (snd (svc_expireClaims now w))"
| claim: "svc_step w (snd (svc_claim now i copts w))"
| resume: "svc_step w (snd (svc_resumeClaim now i copts w))"
| renew: "svc_step w (snd (svc_renewClaim now i p ttl w))"
| release: "svc_step w (snd (svc_releaseClaim now i p wait note w))"
| log: "svc_step w (snd (svc_logClaim now i p owner kind body ttl w))"
| add_dep: "svc_step w (snd (svc_addDependency now i j actor w))"
| remove_dep: "svc_step w (snd (svc_removeDependency now i j actor w))"
| add_comment: "svc_step w (snd (svc_addComment now i body author w))"
| add_reply: "svc_step w (snd (svc_addReply now i n body author w))"
| update_comment: "svc_step w (snd (svc_updateComment now n body author w))"
| delete_comment: "svc_step w (snd (svc_deleteComment now n actor w))"
| add_tag: "svc_step w (snd (svc_addTag now i tag actor w))"
| remove_tag: "svc_step w (snd (svc_removeTag now i tag actor w))"
| add_reminder: "svc_step w (snd (addReminder now rnd i fireAt actor channel w))"
| snooze_reminder: "svc_step w (snd (snoozeReminder now n fireAt actor w))"
| cancel_reminder: "svc_step w (snd (cancelReminder now n actor w))"
| cancel_pending: "svc_step w (snd (cancelPendingReminders now i actor w))"
| polled: "svc_step w (poll_world enqueued now w)"

lemmas svc_safe = safe_svc_create safe_svc_update safe_svc_finishClaim safe_archive_restore safe_pass_through
  safe_addReminder safe_snoozeReminder safe_cancelReminder safe_cancelPending

interpretation service: step_system "\<lambda>w. w = quiet_world empty_db" svc_step svc_inv
proof
  show "w = quiet_world empty_db \<Longrightarrow> svc_inv w" for w
    using mind_inv_empty
    by (simp add: svc_inv_def quiet_world_def linked_def mind_inv_def) (simp add: empty_db_def fresh_sched_def sched_inv_def)
  show "svc_inv w'" if "svc_inv w" "svc_step w w'" for w w'
    using that(2,1) by cases (auto intro: svc_safe [unfolded safe_at_def] poll_world_inv)
qed

section \<open>Properties\<close>

text \<open>
  C3. A reminder that has neither fired nor been cancelled is always backed by the scheduler: in
  every state reachable by calls of the service and polls of the scheduler, in any order, there
  is exactly one scheduler task for it, still pending, that runs at the reminder's time; no two
  reminders share a task.
\<close>

theorem pending_reminder_has_task:
  assumes "svc_step\<^sup>*\<^sup>* (quiet_world empty_db) w" and "r \<in> set (db_reminders (mw_db w))"
  shows "(rm_fired r = None \<and> rm_cancelled r = None \<longrightarrow>
      (\<exists>t. filter (\<lambda>t. tk_id t = rm_task r) (sc_tasks (mw_sched w)) = [t] \<and> tk_done t = None \<and> tk_next t = rm_fire r)) \<and>
    filter (\<lambda>q. rm_task q = rm_task r) (db_reminders (mw_db w)) = [r]"
proof -
  have inv: "svc_inv w" by (rule service.inv_reachable [OF refl assms(1)])
  have "filter (\<lambda>q. rm_task q = rm_task r) (db_reminders (mw_db w)) = [r]"
    using reminder_tasks_distinct [OF svc_inv_db [OF inv]] assms(2) by (intro filter_key_single) simp_all
  moreover have "\<exists>t. filter (\<lambda>t. tk_id t = rm_task r) (sc_tasks (mw_sched w)) = [t] \<and> tk_done t = None \<and> tk_next t = rm_fire r"
    if p: "rm_fired r = None" "rm_cancelled r = None"
  proof -
    obtain t where t: "getById (mw_sched w) (rm_task r) = Some t" "tk_done t = None" "tk_next t = rm_fire r"
      using inv assms(2) p by (auto simp: svc_inv_def linked_def is_pending_def)
    have "filter (\<lambda>x. tk_id x = tk_id t) (sc_tasks (mw_sched w)) = [t]"
      using inv getById_id [OF t(1)] by (intro filter_key_single) (auto simp: svc_inv_def sched_inv_def)
    then show ?thesis using t getById_id [OF t(1)] by auto
  qed
  ultimately show ?thesis by blast
qed

definition plan_world :: mind_world where
  "plan_world = (quiet_world plan_db)\<lparr>mw_notified := 1\<rparr>"

lemma plan_world_reachable: "svc_step\<^sup>*\<^sup>* (quiet_world empty_db) plan_world"
proof -
  obtain d where d: "mind_get 1000 plan_db ''elm-00000005'' = Some d" "it_id d = ''elm-00000005''"
    using mind_get_id [of 1000 plan_db "''elm-00000005''"] by (auto simp: mind_get_def plan_item)
  have "snd (svc_create 1000 [5] ''x'' (plain_opts ''plan'') None None (quiet_world empty_db)) = plan_world"
    by (simp add: svc_create_def batch_def on_store_def action_simps quiet_world_def create_plan d read_store_def
        changed_def Let_def notifyChanged_def plan_world_def)
  then show ?thesis by (metis r_into_rtranclp svc_step.create)
qed

definition plan_reminder :: reminder_row where
  "plan_reminder = \<lparr>rm_id = 1, rm_item = ''elm-00000005'', rm_task = 1, rm_fire = 5000, rm_channel = None, rm_by = ''agent'',
     rm_created = 2000, rm_fired = None, rm_cancelled = None\<rparr>"

definition reminded_world :: mind_world where
  "reminded_world = snd (addReminder 2000 ''x'' ''elm-00000005'' (Num 5000) ''agent'' None plan_world)"

lemma reminded_reachable: "svc_step\<^sup>*\<^sup>* (quiet_world empty_db) reminded_world"
  using plan_world_reachable unfolding reminded_world_def
  by (rule rtranclp.rtrancl_into_rtrancl) (rule svc_step.add_reminder)

lemma reminded_row: "db_reminders (mw_db reminded_world) = [plan_reminder]"
proof -
  obtain d where d: "mind_get 2000 plan_db ''elm-00000005'' = Some d" "it_status d = Open"
    using mind_get_row [of 2000 plan_db "''elm-00000005''"] by (auto simp: mind_get_def plan_item plain_row_def)
  have db: "mw_db plan_world = plan_db" "mw_sched plan_world = fresh_sched" by (simp_all add: plan_world_def quiet_world_def)
  have c: "task_create 2000 o' fresh_sched = (Inr (new_task 2000 o' 1),
      rearm 2000 (fresh_sched\<lparr>sc_tasks := [new_task 2000 o' 1], sc_next_id := 2\<rparr>))" for o'
    by (simp add: task_create_def getByName_def fresh_sched_def Let_def)
  have r: "db_reminders (snd (createReminderRecord 2000 ''elm-00000005'' 1 5000 None ''agent'' plan_db)) = [plan_reminder]"
    "\<exists>rr db'. createReminderRecord 2000 ''elm-00000005'' 1 5000 None ''agent'' plan_db = (Inr rr, db')"
    by (simp_all add: createReminderRecord_def plan_item Let_def reminders_frame plan_reminder_def)
      (simp_all add: plain_row_def plan_db_def add_event_def empty_db_def)
  then show ?thesis
    unfolding reminded_world_def addReminder_def
    by (auto simp: action_simps db d on_scheduler_def c or_undo_def store_then_changed_def on_store_def new_task_def
        changed_run mark_changed_def notifyChanged_def)
qed

theorem pending_reminder_has_task_witness:
  "\<exists>t. filter (\<lambda>t. tk_id t = 1) (sc_tasks (mw_sched reminded_world)) = [t] \<and> tk_done t = None \<and> tk_next t = 5000"
  using pending_reminder_has_task [OF reminded_reachable, of plan_reminder]
  by (simp add: reminded_row) (simp add: plan_reminder_def)

lemma cancel_all:
  assumes "distinct (map rm_id (db_reminders (mw_db w)))" "distinct (map rm_id rs)" "mw_depth w > 0"
    and "\<forall>r \<in> set rs. r \<in> set (db_reminders (mw_db w)) \<and> is_pending r"
  shows "\<exists>w'. for_each (\<lambda>r. andThen (cancelReminder now (rm_id r) actor) (\<lambda>_. ok ())) rs w = (Inr (), w') \<and>
    db_reminders (mw_db w') = map (\<lambda>r. if rm_id r \<in> rm_id ` set rs then r\<lparr>rm_cancelled := Some now\<rparr> else r) (db_reminders (mw_db w)) \<and>
    getById (mw_sched w') = (\<lambda>i. if i \<in> rm_task ` set rs then None else getById (mw_sched w) i) \<and>
    db_items (mw_db w') = db_items (mw_db w) \<and> mw_depth w' = mw_depth w \<and> mw_notified w' = mw_notified w \<and>
    mw_states w' = mw_states w \<and> (mw_pending w' \<longleftrightarrow> mw_pending w \<or> rs \<noteq> [])"
  using assms
proof (induction rs arbitrary: w)
  case (Cons r rs)
  let ?db = "snd (cancelReminderRecord now (rm_id r) actor (mw_db w))"
  let ?w = "mark_changed (w\<lparr>mw_sched := snd (task_delete now (rm_task r) (mw_sched w)), mw_db := ?db\<rparr>)"
  have get: "reminderById (mw_db w) (rm_id r) = Some r"
    unfolding reminderById_def using Cons.prems by (intro find_key_in_set) auto
  have pend: "is_pending r" using Cons.prems(4) by simp
  have rem: "db_reminders ?db = update_where (\<lambda>q. rm_id q = rm_id r) (\<lambda>q. q\<lparr>rm_cancelled := Some now\<rparr>) (db_reminders (mw_db w))"
    and items: "db_items ?db = db_items (mw_db w)"
    using get pend by (simp_all add: cancelReminderRecord_def is_pending_def Let_def reminders_frame add_event_def update_reminder_def)
  have w: "mw_db ?w = ?db" "mw_sched ?w = snd (task_delete now (rm_task r) (mw_sched w))" "mw_depth ?w = mw_depth w"
    "mw_notified ?w = mw_notified w" "mw_states ?w = mw_states w" "mw_pending ?w"
    using Cons.prems(3) by (simp_all add: mark_changed_def)
  have ne: "rm_id q \<noteq> rm_id r" if "q \<in> set rs" for q using Cons.prems(2) that by (auto simp: image_iff)
  have "\<forall>q \<in> set rs. q \<in> set (db_reminders (mw_db ?w)) \<and> is_pending q"
    unfolding w rem using Cons.prems(4) ne by (auto simp: set_update_where)
  moreover have "distinct (map rm_id (db_reminders (mw_db ?w)))"
    unfolding w rem using Cons.prems(1) by (simp add: map_update_where)
  ultimately have
    "\<exists>w'. for_each (\<lambda>r. andThen (cancelReminder now (rm_id r) actor) (\<lambda>_. ok ())) rs ?w = (Inr (), w') \<and>
      db_reminders (mw_db w') = map (\<lambda>r. if rm_id r \<in> rm_id ` set rs then r\<lparr>rm_cancelled := Some now\<rparr> else r) (db_reminders (mw_db ?w)) \<and>
      getById (mw_sched w') = (\<lambda>i. if i \<in> rm_task ` set rs then None else getById (mw_sched ?w) i) \<and>
      db_items (mw_db w') = db_items (mw_db ?w) \<and> mw_depth w' = mw_depth ?w \<and> mw_notified w' = mw_notified ?w \<and>
      mw_states w' = mw_states ?w \<and> (mw_pending w' \<longleftrightarrow> mw_pending ?w \<or> rs \<noteq> [])"
    using Cons.prems(2,3) w(3) by (intro Cons.IH) simp_all
  then obtain w' where raw: "for_each (\<lambda>r. andThen (cancelReminder now (rm_id r) actor) (\<lambda>_. ok ())) rs ?w = (Inr (), w')"
    "db_reminders (mw_db w') = map (\<lambda>r. if rm_id r \<in> rm_id ` set rs then r\<lparr>rm_cancelled := Some now\<rparr> else r) (db_reminders (mw_db ?w))"
    "getById (mw_sched w') = (\<lambda>i. if i \<in> rm_task ` set rs then None else getById (mw_sched ?w) i)"
    "db_items (mw_db w') = db_items (mw_db ?w)" "mw_depth w' = mw_depth ?w" "mw_notified w' = mw_notified ?w"
    "mw_states w' = mw_states ?w" "mw_pending w' \<longleftrightarrow> mw_pending ?w \<or> rs \<noteq> []"
    by (elim exE conjE)
  note ih = raw(1) raw(2-8) [unfolded w(1-5)]
  have run: "for_each (\<lambda>r. andThen (cancelReminder now (rm_id r) actor) (\<lambda>_. ok ())) (r # rs) w = (Inr (), w')"
    using ih(1) by (simp add: action_simps cancelReminder_run [OF get])
  have "db_reminders (mw_db w') =
      map (\<lambda>q. if rm_id q \<in> rm_id ` set (r # rs) then q\<lparr>rm_cancelled := Some now\<rparr> else q) (db_reminders (mw_db w))"
    unfolding ih(2) rem update_where_def by simp
  moreover have "getById (mw_sched w') = (\<lambda>i. if i \<in> rm_task ` set (r # rs) then None else getById (mw_sched w) i)"
    unfolding ih(3) book.remove_lookup by auto
  moreover have "mw_pending w'" using raw(8) w(6) by blast
  ultimately show ?case using run ih(4-7) items by (intro exI [of _ w'] conjI) simp_all
qed (simp add: action_simps)

lemma cancelPending_run:
  assumes "mind_inv_x X (mw_db w)" and "mw_depth w > 0"
  shows "\<exists>w'. cancelPendingReminders now i actor w = (Inr (), w') \<and>
    (\<forall>r \<in> set (db_reminders (mw_db w')). rm_item r = i \<longrightarrow> \<not> is_pending r) \<and>
    (\<forall>r \<in> set (db_reminders (mw_db w)). rm_item r = i \<and> is_pending r \<longrightarrow> getById (mw_sched w') (rm_task r) = None) \<and>
    db_items (mw_db w') = db_items (mw_db w) \<and> mw_depth w' = mw_depth w \<and> mw_notified w' = mw_notified w \<and>
    mw_states w' = mw_states w"
proof -
  let ?rs = "pendingReminders (mw_db w) i"
  have d: "distinct (map rm_id (db_reminders (mw_db w)))" using reminder_tasks_distinct [OF assms(1)] by simp
  have rs: "set ?rs = {r \<in> set (db_reminders (mw_db w)). rm_item r = i \<and> is_pending r}"
    by (auto simp: pendingReminders_def)
  have "distinct (map rm_id ?rs)" using d by (simp add: pendingReminders_def distinct_map_filter)
  from cancel_all [OF d this assms(2), of now actor] rs
  obtain w' where w': "for_each (\<lambda>r. andThen (cancelReminder now (rm_id r) actor) (\<lambda>_. ok ())) ?rs w = (Inr (), w')"
    "db_reminders (mw_db w') = map (\<lambda>r. if rm_id r \<in> rm_id ` set ?rs then r\<lparr>rm_cancelled := Some now\<rparr> else r) (db_reminders (mw_db w))"
    "getById (mw_sched w') = (\<lambda>j. if j \<in> rm_task ` set ?rs then None else getById (mw_sched w) j)"
    "db_items (mw_db w') = db_items (mw_db w)" "mw_depth w' = mw_depth w" "mw_notified w' = mw_notified w" "mw_states w' = mw_states w"
    by auto
  have "\<not> is_pending r" if "r \<in> set (db_reminders (mw_db w'))" "rm_item r = i" for r
  proof -
    from that(1) obtain q where q: "q \<in> set (db_reminders (mw_db w))"
      "r = (if rm_id q \<in> rm_id ` set ?rs then q\<lparr>rm_cancelled := Some now\<rparr> else q)" unfolding w'(2) by auto
    then show ?thesis using that(2) rs by (cases "rm_id q \<in> rm_id ` set ?rs") (auto simp: is_pending_def)
  qed
  moreover have "getById (mw_sched w') (rm_task r) = None" if "r \<in> set ?rs" for r using that w'(3) by simp
  moreover have "cancelPendingReminders now i actor w = (Inr (), w')"
    using w'(1) by (simp add: cancelPendingReminders_def action_simps)
  ultimately show ?thesis using w'(4-7) rs by (intro exI [of _ w']) blast
qed

text \<open>
  Closing an item silences it: when an update leaves the item done or cancelled, the service
  returns the closed item, none of its reminders is pending any more, the scheduler tasks of those
  that were are gone, the item's new state is announced if the status was part of the patch, and
  listeners are notified exactly once.
\<close>

theorem closing_update_cancels_reminders:
  assumes "mind_inv (mw_db w)" and "mw_depth w = 0" "\<not> mw_pending w"
    and "mind_update now i patch actor (mw_db w) = (Inr (Some d), db1)" and "closes (it_status d)"
  shows "\<exists>d' w'. svc_update now i patch actor w = (Inr (Some d'), w') \<and> it_status d' = it_status d \<and>
    (\<forall>r \<in> set (db_reminders (mw_db w')). rm_item r = i \<longrightarrow> \<not> is_pending r) \<and>
    (\<forall>r \<in> set (db_reminders (mw_db w)). rm_item r = i \<and> is_pending r \<longrightarrow> getById (mw_sched w') (rm_task r) = None) \<and>
    mw_notified w' = mw_notified w + 1 \<and> mw_depth w' = 0 \<and>
    mw_states w' = mw_states w @ (if up_status patch = None then [] else [(i, it_status d, it_archived_at d \<noteq> None)])"
proof -
  let ?w1 = "w\<lparr>mw_depth := 1, mw_db := db1\<rparr>"
  have inv: "mind_inv_x {} db1"
    using safe_update [of "mw_db w" now i patch actor] assms(1,4) by (simp add: safe_at_def mind_inv_def)
  have rem: "db_reminders db1 = db_reminders (mw_db w)"
    using same_rem_ops(1) [OF refl, of "mw_db w" now i patch actor] assms(4) by (simp add: safe_at_def)
  have "mind_get now db1 i = Some d"
    using assms(4) by (auto simp: mind_update_def action_simps and_get_def split: sum.splits option.splits prod.splits)
  then obtain row where row: "item_by_id db1 i = Some row" "it_status d = it_status row" "it_archived_at d = it_archived_at row"
    using mind_get_row by blast
  from cancelPending_run [of "{}" ?w1 now i actor] inv
  obtain w2 where w2: "cancelPendingReminders now i actor ?w1 = (Inr (), w2)"
    "\<forall>r \<in> set (db_reminders (mw_db w2)). rm_item r = i \<longrightarrow> \<not> is_pending r"
    "\<forall>r \<in> set (db_reminders db1). rm_item r = i \<and> is_pending r \<longrightarrow> getById (mw_sched w2) (rm_task r) = None"
    "db_items (mw_db w2) = db_items db1" "mw_depth w2 = 1" "mw_notified w2 = mw_notified w" "mw_states w2 = mw_states w"
    by auto
  have row2: "item_by_id (mw_db w2) i = Some row" using row(1) w2(4) by (simp add: item_by_id_def)
  then obtain d' where d': "mind_get now (mw_db w2) i = Some d'" by (cases "mind_get now (mw_db w2) i") (simp_all add: mind_get_def)
  have d'2: "it_status d' = it_status row" "it_archived_at d' = it_archived_at row" "it_id d' = i"
    using mind_get_row [OF d'] mind_get_id [OF d'] row2 by simp_all
  have upd: "on_store (mind_update now i patch actor) (w\<lparr>mw_depth := 1\<rparr>) = (Inr (Some d), ?w1)"
    using assms(4) by (simp add: on_store_def)
  show ?thesis
    using assms(2,3,5) w2 d' d'2 row(2,3) rem upd
    by (simp add: svc_update_def batch_def action_simps read_store_def changed_run mark_changed_def
        itemStateChanged_def notifyChanged_def Let_def)
qed

lemma reminded_state: "mw_depth reminded_world = 0" "\<not> mw_pending reminded_world"
  "item_by_id (mw_db reminded_world) ''elm-00000005'' = Some (plain_row ''elm-00000005'' ''plan'')"
proof -
  obtain d where d: "mind_get 2000 plan_db ''elm-00000005'' = Some d" "it_status d = Open"
    using mind_get_row [of 2000 plan_db "''elm-00000005''"] by (auto simp: mind_get_def plan_item plain_row_def)
  have db: "mw_db plan_world = plan_db" "mw_sched plan_world = fresh_sched" "mw_depth plan_world = 0" "\<not> mw_pending plan_world"
    by (simp_all add: plan_world_def quiet_world_def)
  have c: "task_create 2000 o' fresh_sched = (Inr (new_task 2000 o' 1),
      rearm 2000 (fresh_sched\<lparr>sc_tasks := [new_task 2000 o' 1], sc_next_id := 2\<rparr>))" for o'
    by (simp add: task_create_def getByName_def fresh_sched_def Let_def)
  have "item_by_id (snd (createReminderRecord 2000 ''elm-00000005'' 1 5000 None ''agent'' plan_db)) ''elm-00000005'' =
      Some (plain_row ''elm-00000005'' ''plan'')"
    "\<exists>rr db'. createReminderRecord 2000 ''elm-00000005'' 1 5000 None ''agent'' plan_db = (Inr rr, db')"
    by (simp_all add: createReminderRecord_def plan_item Let_def)
      (simp_all add: plain_row_def plan_db_def add_event_def empty_db_def item_by_id_def)
  then show "mw_depth reminded_world = 0" "\<not> mw_pending reminded_world"
    "item_by_id (mw_db reminded_world) ''elm-00000005'' = Some (plain_row ''elm-00000005'' ''plan'')"
    unfolding reminded_world_def addReminder_def
    by (auto simp: action_simps db d on_scheduler_def c or_undo_def store_then_changed_def on_store_def new_task_def
        changed_run mark_changed_def notifyChanged_def)
qed

lemma cancel_open_item:
  assumes "item_by_id db i = Some r" "it_status r = Open" "isMindId i"
  shows "\<exists>d db1. mind_update now i (empty_patch\<lparr>up_status := Some ''cancelled''\<rparr>) actor db = (Inr (Some d), db1) \<and>
    it_status d = Cancelled"
proof -
  let ?p = "\<lparr>cp_title = None, cp_body = None, cp_kind = None, cp_status = Some Cancelled, cp_priority = None,
    cp_due = None, cp_parent = None, cp_tags = None\<rparr>"
  let ?db1 = "update_event now i r (tagsFor db i) ?p actor (revoke_claim now i r ?p actor (write_tags now i ?p (write_columns now i ?p db)))"
  have "check_update db r (empty_patch\<lparr>up_status := Some ''cancelled''\<rparr>) = Inr ?p"
    by (simp add: check_update_def empty_patch_def opt_res_def assertStatus_def MIND_STATUSES_def assms(2) assertStatusTransition_def)
  then have run: "mind_update now i (empty_patch\<lparr>up_status := Some ''cancelled''\<rparr>) actor db = (Inr (mind_get now ?db1 i), ?db1)"
    using assms by (simp add: mind_update_def action_simps requireId_def and_get_def)
  have it: "item_by_id ?db1 i = Some (apply_patch now ?p r)"
    using item_by_id_SomeD [OF assms(1)] assms(1)
    by (simp add: update_event_def revoke_claim_def write_tags_def write_columns_def sets_columns_def update_item_by_id apply_patch_def
        split: option.split)
  then obtain d where d: "mind_get now ?db1 i = Some d" by (cases "mind_get now ?db1 i") (simp_all add: mind_get_def)
  then have "it_status d = Cancelled" using mind_get_row [OF d] it by (auto simp: apply_patch_def or_else_def)
  with run d show ?thesis by auto
qed

theorem closing_update_cancels_reminders_witness:
  "\<exists>d w. svc_update 3000 ''elm-00000005'' (empty_patch\<lparr>up_status := Some ''cancelled''\<rparr>) ''ava'' reminded_world = (Inr (Some d), w) \<and>
     it_status d = Cancelled \<and> getById (mw_sched w) 1 = None"
proof -
  have inv: "mind_inv (mw_db reminded_world)"
    using service.inv_reachable [OF refl reminded_reachable] by (simp add: svc_inv_def mind_inv_def)
  have id: "isMindId ''elm-00000005''" by code_simp
  obtain d db1 where "mind_update 3000 ''elm-00000005'' (empty_patch\<lparr>up_status := Some ''cancelled''\<rparr>) ''ava'' (mw_db reminded_world) =
      (Inr (Some d), db1)" "it_status d = Cancelled"
    using cancel_open_item [OF reminded_state(3) _ id, of 3000 "''ava''"] by (auto simp: plain_row_def)
  from closing_update_cancels_reminders [OF inv reminded_state(1,2) this(1)] this(2) show ?thesis
    by (auto simp: closes_def reminded_row plan_reminder_def is_pending_def)
qed

text \<open>
  Creating an item with a reminder in the past: the insertion has been committed by the time the
  reminder is refused, so \<open>create\<close> throws, the item stays, and no listener hears of it.
\<close>

lemma failed_create_keeps_item:
  "\<exists>w. svc_create 1000 [5] ''x'' (plain_opts ''plan'') (Some (Num 900)) None (quiet_world empty_db) = (Inl ReminderNotFuture, w) \<and>
     mw_db w = plan_db \<and> mw_notified w = 0 \<and> mw_depth w = 0"
proof -
  obtain d where d: "mind_get 1000 plan_db ''elm-00000005'' = Some d" "it_id d = ''elm-00000005''" "it_status d = Open"
    using mind_get_id [of 1000 plan_db "''elm-00000005''"] mind_get_row [of 1000 plan_db "''elm-00000005''"]
    by (auto simp: mind_get_def plan_item plain_row_def)
  then show ?thesis
    by (simp add: svc_create_def batch_def on_store_def action_simps quiet_world_def create_plan read_store_def
        addReminder_def Let_def notifyChanged_def)
qed

end
