(* ===== verification/Worker_Session.thy ===== *)
theory Worker_Session
  imports Elpis_Prelude
begin

text \<open>
  Native worker sessions: the tables the worker brokers share (sessions, mailbox messages and
  workspace artifacts), the control token of a session (\<open>src/src/worker/auth.ts\<close>) and the binding of a
  token to an active session (\<open>src/src/worker/session.ts\<close>).

  SHA-256 is a parameter of every definition that hashes: a function from a string to its lower-case
  hexadecimal digest. What is used of it is \<open>hex_digest\<close>: 64 hexadecimal digits. The \<open>NOT NULL TEXT\<close>
  columns are strings, so the \<open>typeof row.model_ref\<close> tests of the code always pass.
\<close>

section \<open>Tables\<close>

datatype worker_status = Spawning | Running | Idle | Finished | Failed | Dismissed

record worker_session =
  ws_id :: string
  ws_slug :: string
  ws_status :: worker_status
  ws_model_ref :: string
  ws_mind_id :: string
  ws_runtime :: string
  ws_digest :: string
  ws_pod_name :: "string option"
  ws_pod_uid :: "string option"
  ws_workspace_ref :: "string option"
  ws_source_revision :: "string option"
  ws_source_sha256 :: "string option"
  ws_source_bytes :: "nat option"
  ws_created_at :: time
  ws_updated_at :: time
  ws_last_error :: "string option"
  ws_notified_at :: "time option"
  ws_cleanup_at :: "time option"
  ws_cleanup_error :: "string option"

datatype mailbox_direction = DispatcherToWorker | WorkerToDispatcher

datatype mailbox_kind = Message | Finish

record mailbox_message =
  mm_id :: int
  mm_session :: string
  mm_direction :: mailbox_direction
  mm_kind :: mailbox_kind
  mm_key :: string
  mm_sender :: string
  mm_body :: string
  mm_created :: time
  mm_acked :: "time option"

record artifact_row =
  ar_id :: int
  ar_session :: string
  ar_key :: string
  ar_kind :: string
  ar_source_sha256 :: string
  ar_sha256 :: string
  ar_size :: nat
  ar_path :: string
  ar_created :: time

text \<open>
  \<open>wd_announced\<close> is not a table: it is the sequence of finish events handed to the listeners of the
  mailbox broker.
\<close>

record worker_db =
  wd_sessions :: "worker_session list"
  wd_messages :: "mailbox_message list"
  wd_next_message :: int
  wd_artifacts :: "artifact_row list"
  wd_next_artifact :: int
  wd_announced :: "(string \<times> int) list"

definition is_active :: "worker_status \<Rightarrow> bool" where
  "is_active st \<longleftrightarrow> st \<in> {Spawning, Running, Idle}"

definition session_by_id :: "worker_db \<Rightarrow> string \<Rightarrow> worker_session option" where
  "session_by_id db i = find (\<lambda>s. ws_id s = i) (wd_sessions db)"

definition update_session :: "string \<Rightarrow> (worker_status \<Rightarrow> bool) \<Rightarrow> (worker_session \<Rightarrow> worker_session) \<Rightarrow> worker_db \<Rightarrow> worker_db" where
  "update_session i ok_status f db = db\<lparr>wd_sessions := update_where (\<lambda>s. ws_id s = i \<and> ok_status (ws_status s)) f (wd_sessions db)\<rparr>"

section \<open>Control tokens\<close>

definition is_base64url :: "char \<Rightarrow> bool" where
  "is_base64url c \<longleftrightarrow> is_upper_az c \<or> is_lower_az c \<or> is_digit c \<or> c = CHR ''_'' \<or> c = CHR ''-''"

definition workerControlTokenDigest :: "(string \<Rightarrow> string) \<Rightarrow> string \<Rightarrow> string option" where
  "workerControlTokenDigest sha tok =
     (if length tok = 43 \<and> list_all is_base64url tok then Some (sha tok) else None)"

text \<open>\<open>Buffer.from(s, 'hex')\<close> decodes pairs of digits of either case up to the first that is not one.\<close>

definition hex_val :: "char \<Rightarrow> nat option" where
  "hex_val c = (let n = code_unit c in
     if is_digit c then Some (n - 48)
     else if 97 \<le> n \<and> n \<le> 102 then Some (n - 87)
     else if 65 \<le> n \<and> n \<le> 70 then Some (n - 55)
     else None)"

fun from_hex :: "string \<Rightarrow> nat list" where
  "from_hex (a # b # rest) =
     (case (hex_val a, hex_val b) of (Some x, Some y) \<Rightarrow> (16 * x + y) # from_hex rest | _ \<Rightarrow> [])"
| "from_hex _ = []"

definition verifyWorkerControlToken :: "(string \<Rightarrow> string) \<Rightarrow> string \<Rightarrow> string \<Rightarrow> bool" where
  "verifyWorkerControlToken sha tok expected =
     (case workerControlTokenDigest sha tok of
        None \<Rightarrow> False
      | Some d \<Rightarrow> let actual = from_hex d; expect = from_hex expected
                 in length actual = 32 \<and> length expect = 32 \<and> actual = expect)"

text \<open>\<open>Buffer.toString('base64url')\<close>: no padding.\<close>

definition base64url_char :: "nat \<Rightarrow> char" where
  "base64url_char n =
     (if n < 26 then char_of (65 + n) else if n < 52 then char_of (71 + n)
      else if n < 62 then char_of (n - 4) else if n = 62 then CHR ''-'' else CHR ''_'')"

fun base64url :: "nat list \<Rightarrow> string" where
  "base64url [] = []"
| "base64url [a] = [base64url_char (a div 4), base64url_char (a mod 4 * 16)]"
| "base64url [a, b] = [base64url_char (a div 4), base64url_char (a mod 4 * 16 + b div 16), base64url_char (b mod 16 * 4)]"
| "base64url (a # b # c # rest) =
     base64url_char (a div 4) # base64url_char (a mod 4 * 16 + b div 16) #
     base64url_char (b mod 16 * 4 + c div 64) # base64url_char (c mod 64) # base64url rest"

text \<open>\<open>bytes\<close> is what \<open>randomBytes(32)\<close> draws; \<open>None\<close> is the digest's throw.\<close>

definition createWorkerControlCredential :: "(string \<Rightarrow> string) \<Rightarrow> nat list \<Rightarrow> (string \<times> string) option" where
  "createWorkerControlCredential sha bytes =
     (let tok = base64url bytes in map_option (\<lambda>d. (tok, d)) (workerControlTokenDigest sha tok))"

definition hex_digest :: "(string \<Rightarrow> string) \<Rightarrow> bool" where
  "hex_digest sha \<longleftrightarrow> (\<forall>s. length (sha s) = 64 \<and> list_all (\<lambda>c. hex_val c \<noteq> None) (sha s))"

section \<open>Bindings\<close>

record session_binding =
  sb_session :: string
  sb_worker :: string
  sb_model_ref :: string
  sb_mind_id :: string
  sb_runtime :: string

definition binding_of :: "worker_session \<Rightarrow> session_binding" where
  "binding_of s = \<lparr>sb_session = ws_id s, sb_worker = ''worker:'' @ ws_slug s, sb_model_ref = ws_model_ref s,
     sb_mind_id = ws_mind_id s, sb_runtime = ws_runtime s\<rparr>"

definition known_runtime :: "string \<Rightarrow> bool" where
  "known_runtime r \<longleftrightarrow> r = ''trusted'' \<or> r = ''kubernetes''"

definition resolveWorkerSession :: "(string \<Rightarrow> string) \<Rightarrow> worker_db \<Rightarrow> string \<Rightarrow> session_binding option" where
  "resolveWorkerSession sha db tok =
     (case workerControlTokenDigest sha tok of
        None \<Rightarrow> None
      | Some d \<Rightarrow>
          (case find (\<lambda>s. ws_digest s = d) (wd_sessions db) of
             None \<Rightarrow> None
           | Some s \<Rightarrow>
               if \<not> verifyWorkerControlToken sha tok (ws_digest s) then None
               else if \<not> known_runtime (ws_runtime s) then None
               else if \<not> is_active (ws_status s) then None
               else Some (binding_of s)))"

section \<open>Tokens\<close>

lemma length_from_hex:
  "list_all (\<lambda>c. hex_val c \<noteq> None) s \<Longrightarrow> length (from_hex s) = length s div 2"
  by (induction s rule: from_hex.induct) auto

lemma length_base64url: "length (base64url bs) = 4 * (length bs div 3) + (if length bs mod 3 = 0 then 0 else length bs mod 3 + 1)"
proof (induction bs rule: base64url.induct)
  case (4 a b c rest)
  have "Suc (Suc (Suc (length rest))) = length rest + 3" by simp
  then show ?case using 4 by (simp only: base64url.simps list.size) simp
qed simp_all

lemma is_base64url_char: "is_base64url (base64url_char n)"
  by (simp add: base64url_char_def is_base64url_def is_upper_az_def is_lower_az_def is_digit_def Let_def code_unit_char_of)
    linarith

lemma base64url_chars: "list_all is_base64url (base64url bs)"
  by (induction bs rule: base64url.induct) (simp_all add: is_base64url_char)

text \<open>The value of a base64url digit, to read a token back.\<close>

definition base64url_val :: "char \<Rightarrow> nat" where
  "base64url_val c = (let n = code_unit c in
     if is_upper_az c then n - 65 else if is_lower_az c then n - 71 else if is_digit c then n + 4
     else if c = CHR ''-'' then 62 else 63)"

lemma base64url_val_char: "n < 64 \<Longrightarrow> base64url_val (base64url_char n) = n"
proof -
  assume n: "n < 64"
  consider "n < 26" | "26 \<le> n" "n < 52" | "52 \<le> n" "n < 62" | "n = 62" | "n = 63" using n by linarith
  then show ?thesis
  proof cases
    case 4
    have "base64url_val CHR ''-'' = 62" by code_simp
    with 4 show ?thesis by (simp add: base64url_char_def)
  next
    case 5
    have "base64url_val CHR ''_'' = 63" by code_simp
    with 5 show ?thesis by (simp add: base64url_char_def)
  next
    case 3
    then have "48 \<le> n - 4 \<and> n - 4 \<le> 57" by linarith
    with 3 show ?thesis
      by (simp add: base64url_char_def base64url_val_def is_upper_az_def is_lower_az_def is_digit_def code_unit_char_of Let_def)
  qed (simp_all add: base64url_char_def base64url_val_def is_upper_az_def is_lower_az_def is_digit_def code_unit_char_of Let_def)
qed

lemma base64url_char_inj: "base64url_char m = base64url_char n \<Longrightarrow> m < 64 \<Longrightarrow> n < 64 \<Longrightarrow> m = n"
  by (metis base64url_val_char)

lemma div_mod_split: "(x::nat) div k = y div k \<Longrightarrow> x mod k = y mod k \<Longrightarrow> x = y"
  by (metis div_mult_mod_eq)

lemma mix_inj:
  fixes a b a' b' k :: nat
  assumes "a * k + b = a' * k + b'" "b < k" "b' < k"
  shows "a = a' \<and> b = b'"
proof -
  have "(a * k + b) div k = a" "(a' * k + b') div k = a'" using assms(2,3) by simp_all
  then have "a = a'" using assms(1) by simp
  with assms(1) show ?thesis by simp
qed

lemma base64url_inj:
  "base64url bs = base64url cs \<Longrightarrow> length bs = length cs \<Longrightarrow> \<forall>b \<in> set bs. b < 256 \<Longrightarrow> \<forall>c \<in> set cs. c < 256 \<Longrightarrow> bs = cs"
proof (induction bs arbitrary: cs rule: base64url.induct)
  case (2 a)
  then obtain a' where cs: "cs = [a']" by (auto simp: Suc_length_conv)
  have lt: "a div 4 < 64" "a' div 4 < 64" "a mod 4 * 16 < 64" "a' mod 4 * 16 < 64" using 2 cs by (simp_all add: less_mult_imp_div_less)
  have "a div 4 = a' div 4" "a mod 4 * 16 = a' mod 4 * 16"
    using 2(1) cs base64url_char_inj [OF _ lt(1,2)] base64url_char_inj [OF _ lt(3,4)] by simp_all
  then show ?case using cs div_mod_split [of a 4 a'] by simp
next
  case (3 a b)
  then obtain a' b' where cs: "cs = [a', b']" by (auto simp: Suc_length_conv length_Suc_conv)
  have lt: "a div 4 < 64" "a' div 4 < 64" "b div 16 < 16" "b' div 16 < 16" using 3 cs by (simp_all add: less_mult_imp_div_less)
  then have lt': "a mod 4 * 16 + b div 16 < 64" "a' mod 4 * 16 + b' div 16 < 64" "b mod 16 * 4 < 64" "b' mod 16 * 4 < 64"
    using mod_less_divisor [of 4 a] mod_less_divisor [of 4 a'] mod_less_divisor [of 16 b] mod_less_divisor [of 16 b'] by linarith+
  have "a div 4 = a' div 4" "a mod 4 * 16 + b div 16 = a' mod 4 * 16 + b' div 16" "b mod 16 * 4 = b' mod 16 * 4"
    using 3(1) cs base64url_char_inj [OF _ lt(1,2)] base64url_char_inj [OF _ lt'(1,2)] base64url_char_inj [OF _ lt'(3,4)] by simp_all
  moreover from this(2) have "a mod 4 = a' mod 4" "b div 16 = b' div 16" using mix_inj [OF _ lt(3,4)] by blast+
  ultimately have "a = a'" "b = b'" using div_mod_split [of a 4 a'] div_mod_split [of b 16 b'] by simp_all
  then show ?case using cs by simp
next
  case (4 a b c rest)
  then obtain a' b' c' rest' where cs: "cs = a' # b' # c' # rest'" "length rest' = length rest"
    by (auto simp: Suc_length_conv length_Suc_conv)
  have lt: "a div 4 < 64" "a' div 4 < 64" "b div 16 < 16" "b' div 16 < 16" "c div 64 < 4" "c' div 64 < 4"
    using 4 cs by (simp_all add: less_mult_imp_div_less)
  then have lt': "a mod 4 * 16 + b div 16 < 64" "a' mod 4 * 16 + b' div 16 < 64" "b mod 16 * 4 + c div 64 < 64"
    "b' mod 16 * 4 + c' div 64 < 64" "c mod 64 < 64" "c' mod 64 < 64"
    using mod_less_divisor [of 4 a] mod_less_divisor [of 4 a'] mod_less_divisor [of 16 b] mod_less_divisor [of 16 b'] by linarith+
  have eq: "a div 4 = a' div 4" "a mod 4 * 16 + b div 16 = a' mod 4 * 16 + b' div 16"
    "b mod 16 * 4 + c div 64 = b' mod 16 * 4 + c' div 64" "c mod 64 = c' mod 64" "base64url rest = base64url rest'"
    using "4.prems"(1) cs base64url_char_inj [OF _ lt(1,2)] base64url_char_inj [OF _ lt'(1,2)] base64url_char_inj [OF _ lt'(3,4)]
      base64url_char_inj [OF _ lt'(5,6)] by simp_all
  have "rest = rest'" using eq(5) cs "4.prems" by (intro "4.IH") auto
  moreover have "a = a'" "b div 16 = b' div 16" using mix_inj [OF eq(2) lt(3,4)] eq(1) div_mod_split [of a 4 a'] by blast+
  moreover have "b = b'" "c = c'" using mix_inj [OF eq(3) lt(5,6)] eq(4) \<open>b div 16 = b' div 16\<close> div_mod_split [of b 16 b'] div_mod_split [of c 64 c'] by blast+
  ultimately show ?case using cs by simp
qed simp

lemma digest_length: "hex_digest sha \<Longrightarrow> length (from_hex (sha s)) = 32"
  using length_from_hex [of "sha s"] by (simp add: hex_digest_def)

lemma verify_own: "hex_digest sha \<Longrightarrow> workerControlTokenDigest sha tok = Some d \<Longrightarrow> verifyWorkerControlToken sha tok d"
  by (auto simp: verifyWorkerControlToken_def Let_def digest_length workerControlTokenDigest_def split: if_splits)

text \<open>
  A fresh credential authenticates: from 32 random bytes the token is well formed (43 base64url
  characters), verification accepts it against the stored digest, and no two draws give the same
  token, so the token keeps all 256 bits.
\<close>

theorem credential_authenticates:
  assumes "hex_digest sha" and "length bytes = 32" and "length bytes' = 32"
    and "\<forall>b \<in> set bytes. b < 256" "\<forall>b \<in> set bytes'. b < 256"
  shows "\<exists>tok d. createWorkerControlCredential sha bytes = Some (tok, d) \<and> length tok = 43 \<and>
    verifyWorkerControlToken sha tok d \<and>
    (\<forall>d'. createWorkerControlCredential sha bytes' = Some (tok, d') \<longrightarrow> bytes' = bytes)"
proof -
  let ?tok = "base64url bytes"
  have l: "length ?tok = 43" using assms(2) by (simp add: length_base64url)
  have d: "workerControlTokenDigest sha ?tok = Some (sha ?tok)"
    using l base64url_chars by (simp add: workerControlTokenDigest_def)
  have "bytes' = bytes" if "createWorkerControlCredential sha bytes' = Some (?tok, d')" for d'
    using that base64url_inj [of bytes' bytes] assms(2-5) by (auto simp: createWorkerControlCredential_def Let_def)
  moreover have "createWorkerControlCredential sha bytes = Some (?tok, sha ?tok)"
    using d by (simp add: createWorkerControlCredential_def Let_def)
  ultimately show ?thesis using l verify_own [OF assms(1) d] by blast
qed

definition zero_sha :: "string \<Rightarrow> string" where
  "zero_sha s = replicate (64 - length s) CHR ''0'' @ map (\<lambda>c. if is_digit c then c else CHR ''a'') (take 64 s)"

lemma zero_sha_digest: "hex_digest zero_sha"
proof -
  have "hex_val CHR ''0'' \<noteq> None" "hex_val CHR ''a'' \<noteq> None" by code_simp+
  moreover have "is_digit c \<Longrightarrow> hex_val c \<noteq> None" for c by (simp add: hex_val_def Let_def)
  ultimately show ?thesis by (auto simp: hex_digest_def zero_sha_def list_all_iff)
qed

theorem credential_authenticates_witness:
  "\<exists>tok d. createWorkerControlCredential zero_sha (replicate 32 7) = Some (tok, d) \<and> length tok = 43 \<and>
     verifyWorkerControlToken zero_sha tok d"
  using credential_authenticates [OF zero_sha_digest, of "replicate 32 7" "replicate 32 7"] by auto

end
