(* ===== verification/Worker_Mailbox.thy ===== *)
theory Worker_Mailbox
  imports Worker_Session
begin

text \<open>
  The mailbox between a dispatcher and its workers (\<open>src/src/worker/mailbox.ts\<close>) and the request
  front end (\<open>src/src/worker/mailbox-request.ts\<close>): validation of keys, bodies, limits and ids;
  idempotent insertion under a message key; the one finish message of a session, which closes the
  session in the same transaction; pulling and acknowledging in both directions.

  The clock is read once per call. An \<open>INSERT\<close> that breaks a constraint of the table throws
  \<open>ConstraintFailed\<close>; SQLite's \<open>length\<close> stops at a NUL character.
\<close>

section \<open>Errors and validation\<close>

datatype mailbox_error =
    EmptyText string
  | TextTooLong string nat
  | BadMessageKey
  | BadLimit
  | BadIdCount
  | BadIds
  | BadKind
  | WorkerUnavailable
  | SessionUnavailable
  | KeyReused
  | MailboxFinished
  | ArtifactMissing
  | DuplicateFinish
  | SessionChanged
  | MessagesUnavailable
  | ConstraintFailed

type_synonym 'a mailbox = "(mailbox_error, worker_db, 'a) action"

definition boundedText :: "string \<Rightarrow> string \<Rightarrow> nat \<Rightarrow> mailbox_error + string" where
  "boundedText v label mx =
     (if trim v = [] then Inl (EmptyText label)
      else if length v > mx then Inl (TextTooLong label mx)
      else Inr v)"

definition is_alnum :: "char \<Rightarrow> bool" where
  "is_alnum c \<longleftrightarrow> is_upper_az c \<or> is_lower_az c \<or> is_digit c"

definition key_shape :: "string \<Rightarrow> bool" where
  "key_shape k = (case k of [] \<Rightarrow> False
     | c # cs \<Rightarrow> is_alnum c \<and> list_all (\<lambda>x. is_alnum x \<or> x \<in> {CHR ''.'', CHR ''_'', CHR '':'', CHR ''-''}) cs)"

definition messageKey :: "string \<Rightarrow> mailbox_error + string" where
  "messageKey v = bindR (boundedText v ''messageKey'' 80) (\<lambda>k. if key_shape k then Inr k else Inl BadMessageKey)"

definition boundedLimit :: "jsnum \<Rightarrow> mailbox_error + nat" where
  "boundedLimit v = (if \<not> isInteger v \<or> finite_val v < 1 \<or> finite_val v > 100 then Inl BadLimit
     else Inr (nat \<lfloor>finite_val v\<rfloor>))"

definition boundedIds :: "jsnum list \<Rightarrow> mailbox_error + int list" where
  "boundedIds v =
     (if length v < 1 \<or> length v > 100 then Inl BadIdCount
      else if list_ex (\<lambda>x. \<not> isSafeInteger x \<or> finite_val x \<le> 0) (uniq v) then Inl BadIds
      else Inr (map (\<lambda>x. \<lfloor>finite_val x\<rfloor>) (uniq v)))"

section \<open>Rows\<close>

definition existing :: "worker_db \<Rightarrow> string \<Rightarrow> mailbox_direction \<Rightarrow> string \<Rightarrow> mailbox_message option" where
  "existing db sid dir key =
     find (\<lambda>m. mm_session m = sid \<and> mm_direction m = dir \<and> mm_key m = key) (wd_messages db)"

definition is_finish :: "string \<Rightarrow> mailbox_message \<Rightarrow> bool" where
  "is_finish sid m \<longleftrightarrow> mm_session m = sid \<and> mm_direction m = WorkerToDispatcher \<and> mm_kind m = Finish"

definition finish_message :: "worker_db \<Rightarrow> string \<Rightarrow> mailbox_message option" where
  "finish_message db sid = find (is_finish sid) (wd_messages db)"

definition same_content :: "mailbox_message \<Rightarrow> mailbox_kind \<Rightarrow> string \<Rightarrow> string \<Rightarrow> bool" where
  "same_content m kind sender body \<longleftrightarrow> mm_kind m = kind \<and> mm_sender m = sender \<and> mm_body m = body"

definition sql_length :: "string \<Rightarrow> nat" where
  "sql_length s = length (takeWhile (\<lambda>c. code_unit c \<noteq> 0) s)"

definition sql_within :: "nat \<Rightarrow> string \<Rightarrow> bool" where
  "sql_within mx s \<longleftrightarrow> 1 \<le> sql_length s \<and> sql_length s \<le> mx"

definition violates :: "worker_db \<Rightarrow> mailbox_message \<Rightarrow> bool" where
  "violates db m \<longleftrightarrow>
     session_by_id db (mm_session m) = None \<or>
     \<not> sql_within 80 (mm_key m) \<or> \<not> sql_within 80 (mm_sender m) \<or> \<not> sql_within 100000 (mm_body m) \<or>
     (mm_direction m = DispatcherToWorker \<and> mm_kind m = Finish) \<or>
     existing db (mm_session m) (mm_direction m) (mm_key m) \<noteq> None \<or>
     (is_finish (mm_session m) m \<and> finish_message db (mm_session m) \<noteq> None)"

definition new_message ::
  "worker_db \<Rightarrow> string \<Rightarrow> mailbox_direction \<Rightarrow> mailbox_kind \<Rightarrow> string \<Rightarrow> string \<Rightarrow> string \<Rightarrow> time \<Rightarrow> mailbox_message" where
  "new_message db sid dir kind key sender body now =
     \<lparr>mm_id = wd_next_message db, mm_session = sid, mm_direction = dir, mm_kind = kind, mm_key = key,
      mm_sender = sender, mm_body = body, mm_created = now, mm_acked = None\<rparr>"

definition append_message :: "mailbox_message \<Rightarrow> worker_db \<Rightarrow> worker_db" where
  "append_message m db = db\<lparr>wd_messages := wd_messages db @ [m], wd_next_message := wd_next_message db + 1\<rparr>"

definition insert_row ::
  "time \<Rightarrow> string \<Rightarrow> mailbox_direction \<Rightarrow> mailbox_kind \<Rightarrow> string \<Rightarrow> string \<Rightarrow> string \<Rightarrow> mailbox_message mailbox" where
  "insert_row now sid dir kind key sender body = (\<lambda>db.
     let m = new_message db sid dir kind key sender body now
     in if violates db m then (Inl ConstraintFailed, db) else (Inr m, append_message m db))"

text \<open>A session bound to a source needs an artifact over that source.\<close>

definition in_custody :: "worker_db \<Rightarrow> string \<Rightarrow> string option \<Rightarrow> bool" where
  "in_custody db sid source =
     (case source of
        None \<Rightarrow> True
      | Some h \<Rightarrow> h = [] \<or> list_ex (\<lambda>a. ar_session a = sid \<and> ar_source_sha256 a = h) (wd_artifacts db))"

definition source_of :: "worker_db \<Rightarrow> string \<Rightarrow> string option" where
  "source_of db sid = (case session_by_id db sid of None \<Rightarrow> None | Some s \<Rightarrow> ws_source_sha256 s)"

section \<open>Insertion\<close>

definition worker_bound :: "(string \<Rightarrow> string) \<Rightarrow> string \<Rightarrow> session_binding mailbox" where
  "worker_bound sha tok = reads (\<lambda>db.
     case resolveWorkerSession sha db tok of None \<Rightarrow> throw WorkerUnavailable | Some b \<Rightarrow> ok b)"

definition dispatcherSession :: "string \<Rightarrow> bool \<Rightarrow> session_binding mailbox" where
  "dispatcherSession sid activeOnly = reads (\<lambda>db.
     case session_by_id db sid of
       None \<Rightarrow> throw SessionUnavailable
     | Some s \<Rightarrow>
         if (activeOnly \<and> \<not> is_active (ws_status s)) \<or> \<not> known_runtime (ws_runtime s) then throw SessionUnavailable
         else ok (binding_of s))"

definition mailbox_insert ::
  "time \<Rightarrow> string \<Rightarrow> mailbox_direction \<Rightarrow> mailbox_kind \<Rightarrow> string \<Rightarrow> string \<Rightarrow> string \<Rightarrow> mailbox_message mailbox" where
  "mailbox_insert now sid dir kind key sender body = reads (\<lambda>db.
     case existing db sid dir key of
       Some prior \<Rightarrow> if same_content prior kind sender body then ok prior else throw KeyReused
     | None \<Rightarrow>
         if finish_message db sid \<noteq> None then throw MailboxFinished
         else if dir = WorkerToDispatcher \<and> kind = Finish \<and> \<not> in_custody db sid (source_of db sid) then throw ArtifactMissing
         else (\<lambda>s. case insert_row now sid dir kind key sender body s of
             (Inr m, s') \<Rightarrow> (Inr m, s')
           | (Inl e, s') \<Rightarrow>
               (case existing s' sid dir key of
                  Some raced \<Rightarrow>
                    if same_content raced kind sender body then (Inr raced, s')
                    else (Inl (if kind = Finish then DuplicateFinish else e), s')
                | None \<Rightarrow> (Inl (if kind = Finish then DuplicateFinish else e), s'))))"

definition finish_again :: "time \<Rightarrow> worker_session \<Rightarrow> worker_session" where
  "finish_again t s = s\<lparr>ws_status := Finished, ws_updated_at := max (ws_updated_at s) t, ws_last_error := None\<rparr>"

definition finish_now :: "time \<Rightarrow> worker_session \<Rightarrow> worker_session" where
  "finish_now t s = s\<lparr>ws_status := Finished, ws_updated_at := max (ws_updated_at s) t, ws_last_error := None,
     ws_notified_at := None, ws_cleanup_at := None, ws_cleanup_error := None\<rparr>"

definition may_finish :: "worker_status \<Rightarrow> bool" where
  "may_finish st \<longleftrightarrow> st \<in> {Spawning, Running, Idle, Failed, Finished}"

definition changed_rows :: "worker_db \<Rightarrow> string \<Rightarrow> (worker_status \<Rightarrow> bool) \<Rightarrow> nat" where
  "changed_rows db sid ok_status = length (filter (\<lambda>s. ws_id s = sid \<and> ok_status (ws_status s)) (wd_sessions db))"

definition insertFinish :: "time \<Rightarrow> session_binding \<Rightarrow> string \<Rightarrow> string \<Rightarrow> mailbox_message mailbox" where
  "insertFinish now b key body = transaction (reads (\<lambda>db.
     case existing db (sb_session b) WorkerToDispatcher key of
       Some prior \<Rightarrow>
         if \<not> same_content prior Finish (sb_worker b) body then throw KeyReused
         else andThen (modify (update_session (sb_session b) may_finish (finish_again (mm_created prior)))) (\<lambda>_. ok prior)
     | None \<Rightarrow>
         if finish_message db (sb_session b) \<noteq> None then throw DuplicateFinish
         else case session_by_id db (sb_session b) of
           None \<Rightarrow> throw WorkerUnavailable
         | Some s \<Rightarrow>
             if \<not> is_active (ws_status s) then throw WorkerUnavailable
             else if \<not> in_custody db (sb_session b) (ws_source_sha256 s) then throw ArtifactMissing
             else andThen (insert_row now (sb_session b) WorkerToDispatcher Finish key (sb_worker b) body) (\<lambda>m.
               reads (\<lambda>db'.
                 if changed_rows db' (sb_session b) is_active \<noteq> 1 then throw SessionChanged
                 else andThen (modify (update_session (sb_session b) is_active (finish_now now))) (\<lambda>_. ok m)))))"

definition terminalFinishRetry ::
  "(string \<Rightarrow> string) \<Rightarrow> time \<Rightarrow> string \<Rightarrow> string \<Rightarrow> string \<Rightarrow> (session_binding \<times> mailbox_message) option mailbox" where
  "terminalFinishRetry sha now tok key body = reads (\<lambda>db.
     case workerControlTokenDigest sha tok of
       None \<Rightarrow> ok None
     | Some d \<Rightarrow>
         (case find (\<lambda>s. ws_digest s = d) (wd_sessions db) of
            None \<Rightarrow> ok None
          | Some s \<Rightarrow>
              if (ws_status s \<noteq> Finished \<and> ws_status s \<noteq> Failed) \<or> \<not> verifyWorkerControlToken sha tok (ws_digest s) \<or>
                 \<not> known_runtime (ws_runtime s) then ok None
              else case existing db (ws_id s) WorkerToDispatcher key of
                None \<Rightarrow> ok None
              | Some m \<Rightarrow>
                  if \<not> same_content m Finish (sb_worker (binding_of s)) body then ok None
                  else andThen (insertFinish now (binding_of s) key body) (\<lambda>r. ok (Some (binding_of s, r)))))"

section \<open>Pulling and acknowledging\<close>

definition pending_messages :: "worker_db \<Rightarrow> string \<Rightarrow> mailbox_direction \<Rightarrow> mailbox_message list" where
  "pending_messages db sid dir =
     sort_by (\<lambda>a b. mm_id a \<le> mm_id b)
       (filter (\<lambda>m. mm_session m = sid \<and> mm_direction m = dir \<and> mm_acked m = None) (wd_messages db))"

definition pending :: "string \<Rightarrow> mailbox_direction \<Rightarrow> jsnum \<Rightarrow> mailbox_message list mailbox" where
  "pending sid dir limit = andThen (lift (boundedLimit limit)) (\<lambda>n.
     reads (\<lambda>db. ok (take n (pending_messages db sid dir))))"

definition addressed :: "string \<Rightarrow> mailbox_direction \<Rightarrow> int list \<Rightarrow> mailbox_message \<Rightarrow> bool" where
  "addressed sid dir ids m \<longleftrightarrow> mm_session m = sid \<and> mm_direction m = dir \<and> mm_id m \<in> set ids"

definition ack_rows :: "time \<Rightarrow> string \<Rightarrow> mailbox_direction \<Rightarrow> int list \<Rightarrow> worker_db \<Rightarrow> worker_db" where
  "ack_rows now sid dir ids db = db\<lparr>wd_messages := update_where (addressed sid dir ids)
     (\<lambda>m. m\<lparr>mm_acked := (case mm_acked m of None \<Rightarrow> Some now | Some t \<Rightarrow> Some t)\<rparr>) (wd_messages db)\<rparr>"

definition acknowledge :: "time \<Rightarrow> string \<Rightarrow> mailbox_direction \<Rightarrow> jsnum list \<Rightarrow> nat mailbox" where
  "acknowledge now sid dir idsValue = andThen (lift (boundedIds idsValue)) (\<lambda>ids.
     transaction (reads (\<lambda>db.
       if length (filter (addressed sid dir ids) (wd_messages db)) \<noteq> length ids then throw MessagesUnavailable
       else andThen (modify (ack_rows now sid dir ids)) (\<lambda>_. ok (length ids)))))"

section \<open>Operations\<close>

definition sendToWorker :: "time \<Rightarrow> string \<Rightarrow> string \<Rightarrow> string \<Rightarrow> string \<Rightarrow> mailbox_message mailbox" where
  "sendToWorker now sid keyValue bodyValue sender =
     andThen (dispatcherSession sid True) (\<lambda>b.
     andThen (lift (messageKey keyValue)) (\<lambda>key.
     andThen (lift (boundedText sender ''sender'' 80)) (\<lambda>snder.
     andThen (lift (boundedText bodyValue ''body'' 100000)) (\<lambda>body.
     mailbox_insert now (sb_session b) DispatcherToWorker Message key snder body))))"

definition pullForWorker ::
  "(string \<Rightarrow> string) \<Rightarrow> string \<Rightarrow> jsnum \<Rightarrow> (session_binding \<times> mailbox_message list) mailbox" where
  "pullForWorker sha tok limit =
     andThen (worker_bound sha tok) (\<lambda>b.
     andThen (pending (sb_session b) DispatcherToWorker limit) (\<lambda>ms. ok (b, ms)))"

definition acknowledgeForWorker :: "(string \<Rightarrow> string) \<Rightarrow> time \<Rightarrow> string \<Rightarrow> jsnum list \<Rightarrow> nat mailbox" where
  "acknowledgeForWorker sha now tok ids =
     andThen (worker_bound sha tok) (\<lambda>b. acknowledge now (sb_session b) DispatcherToWorker ids)"

definition parse_kind :: "string \<Rightarrow> mailbox_error + mailbox_kind" where
  "parse_kind k = (if k = ''message'' then Inr Message else if k = ''finish'' then Inr Finish else Inl BadKind)"

definition announce :: "mailbox_message \<Rightarrow> worker_db \<Rightarrow> worker_db" where
  "announce m db = db\<lparr>wd_announced := wd_announced db @ [(mm_session m, mm_id m)]\<rparr>"

definition postFromWorker ::
  "(string \<Rightarrow> string) \<Rightarrow> time \<Rightarrow> string \<Rightarrow> string \<Rightarrow> string \<Rightarrow> string \<Rightarrow> mailbox_message mailbox" where
  "postFromWorker sha now tok keyValue kindValue bodyValue = reads (\<lambda>db.
     let active = resolveWorkerSession sha db tok in
     andThen (lift (parse_kind kindValue)) (\<lambda>kind.
     andThen (lift (messageKey keyValue)) (\<lambda>key.
     andThen (lift (boundedText bodyValue ''body'' 100000)) (\<lambda>body.
     andThen (if active = None \<and> kind = Finish then terminalFinishRetry sha now tok key body else ok None) (\<lambda>retry.
     andThen (case (retry, active) of
         (Some r, _) \<Rightarrow> ok (snd r)
       | (None, None) \<Rightarrow> throw WorkerUnavailable
       | (None, Some b) \<Rightarrow>
           if kind = Finish then insertFinish now b key body
           else mailbox_insert now (sb_session b) WorkerToDispatcher kind key (sb_worker b) body) (\<lambda>m.
     andThen (when_do (kind = Finish) (modify (announce m))) (\<lambda>_. ok m)))))))"

definition finishFromWorker :: "string \<Rightarrow> mailbox_message option mailbox" where
  "finishFromWorker sid =
     andThen (dispatcherSession sid False) (\<lambda>b. reads (\<lambda>db. ok (finish_message db (sb_session b))))"

definition pullFromWorker :: "string \<Rightarrow> jsnum \<Rightarrow> mailbox_message list mailbox" where
  "pullFromWorker sid limit =
     andThen (dispatcherSession sid False) (\<lambda>b. pending (sb_session b) WorkerToDispatcher limit)"

definition acknowledgeFromWorker :: "time \<Rightarrow> string \<Rightarrow> jsnum list \<Rightarrow> nat mailbox" where
  "acknowledgeFromWorker now sid ids =
     andThen (dispatcherSession sid False) (\<lambda>b. acknowledge now (sb_session b) WorkerToDispatcher ids)"

end
