(* ===== verification/Worker_Workspace.thy ===== *)
theory Worker_Workspace
  imports Worker_Session Mind_Id "HOL-Library.AList"
begin

text \<open>
  Custody of worker sources and artifacts (\<open>src/src/worker/workspace.ts\<close>): the archive a worker
  starts from and the patch it hands back, each a file whose size and SHA-256 are recorded in the
  database and verified whenever it is read.

  A file is its path under the storage root and its bytes; writing to a temporary name, syncing and
  renaming is one write. The results of the \<open>git\<close> processes are arguments. \<open>shab\<close> is the lower-case
  hexadecimal SHA-256 of a byte sequence. The triggers on the sessions table keep the three source
  columns null or set together.
\<close>

section \<open>State\<close>

datatype workspace_error =
    StorageUnavailable string
  | StorageUnauthorized
  | StorageInvalid string
  | StorageConflict string
  | DirtySource
  | StorageCorrupt string
  | StorageIO

record workspace =
  wk_db :: worker_db
  wk_files :: "(string \<times> nat list) list"

record workspace_options =
  wo_source_enabled :: bool
  wo_max_source :: nat
  wo_max_artifact :: nat

record git_result =
  gr_code :: int
  gr_stdout :: string
  gr_stderr :: string

type_synonym 'a custody = "(workspace_error, workspace, 'a) action"

definition session_shape :: "string \<Rightarrow> bool" where
  "session_shape s \<longleftrightarrow> prefix ''wrk-'' s \<and> length s = 12 \<and> list_all is_base36 (drop 4 s)"

definition artifact_key_shape :: "string \<Rightarrow> bool" where
  "artifact_key_shape k = (case k of [] \<Rightarrow> False
     | c # cs \<Rightarrow> is_base36 c \<and> length cs \<le> 79 \<and> list_all (\<lambda>x. is_base36 x \<or> x \<in> {CHR ''.'', CHR ''_'', CHR ''-''}) cs)"

definition is_lower_hex :: "char \<Rightarrow> bool" where
  "is_lower_hex c \<longleftrightarrow> is_digit c \<or> (97 \<le> code_unit c \<and> code_unit c \<le> 102)"

definition sha256_shape :: "string \<Rightarrow> bool" where
  "sha256_shape s \<longleftrightarrow> length s = 64 \<and> list_all is_lower_hex s"

definition bounded_diagnostic :: "string \<Rightarrow> string" where
  "bounded_diagnostic m = (let t = take 500 (trim m) in if t = [] then ''no diagnostic'' else t)"

definition source_path :: "string \<Rightarrow> string" where
  "source_path sid = ''sources/'' @ sid @ ''/source.tar.gz''"

definition artifact_path :: "string \<Rightarrow> string \<Rightarrow> string" where
  "artifact_path sid key = ''artifacts/'' @ sid @ ''/'' @ key"

definition write_file :: "string \<Rightarrow> nat list \<Rightarrow> workspace \<Rightarrow> workspace" where
  "write_file p d w = w\<lparr>wk_files := AList.update p d (wk_files w)\<rparr>"

definition remove_file :: "string \<Rightarrow> workspace \<Rightarrow> workspace" where
  "remove_file p w = w\<lparr>wk_files := AList.delete p (wk_files w)\<rparr>"

section \<open>Sources\<close>

record source_receipt =
  sr_revision :: string
  sr_sha256 :: string
  sr_bytes :: nat

definition strip_newline :: "string \<Rightarrow> string" where
  "strip_newline s = (if s \<noteq> [] \<and> last s = CHR 0x0A then butlast s else s)"

definition revision_shape :: "string \<Rightarrow> bool" where
  "revision_shape out = (let r = strip_newline out in 40 \<le> length r \<and> length r \<le> 64 \<and> list_all is_lower_hex r)"

definition prepareSource ::
  "(nat list \<Rightarrow> string) \<Rightarrow> workspace_options \<Rightarrow> git_result \<Rightarrow> git_result \<Rightarrow> git_result \<Rightarrow> nat list \<Rightarrow> string \<Rightarrow> source_receipt option custody" where
  "prepareSource shab wo status revision archive data sid =
     (if \<not> wo_source_enabled wo then ok None
      else if gr_code status \<noteq> 0 then throw (StorageUnavailable (''worker source status failed: '' @ bounded_diagnostic (gr_stderr status)))
      else if trim (gr_stdout status) \<noteq> [] then throw DirtySource
      else if gr_code revision \<noteq> 0 \<or> \<not> revision_shape (gr_stdout revision)
        then throw (StorageUnavailable (''worker source revision failed: '' @ bounded_diagnostic (gr_stderr revision)))
      else if \<not> session_shape sid then throw (StorageInvalid ''worker session id is invalid'')
      else if gr_code archive \<noteq> 0 then throw (StorageUnavailable (''worker source archive failed: '' @ bounded_diagnostic (gr_stderr archive)))
      else if length data > wo_max_source wo then throw (StorageInvalid (''worker source archive exceeds '' @ decimal (wo_max_source wo) @ '' bytes''))
      else andThen (modify (write_file (source_path sid) data)) (\<lambda>_.
        ok (Some \<lparr>sr_revision = trim (gr_stdout revision), sr_sha256 = shab data, sr_bytes = length data\<rparr>)))"

definition discardSource :: "string \<Rightarrow> unit custody" where
  "discardSource sid = andThen (require (session_shape sid) (StorageInvalid ''worker session id is invalid'')) (\<lambda>_.
     modify (remove_file (source_path sid)))"

definition sourceForWorker ::
  "(string \<Rightarrow> string) \<Rightarrow> (nat list \<Rightarrow> string) \<Rightarrow> string \<Rightarrow> (session_binding \<times> source_receipt \<times> nat list) option custody" where
  "sourceForWorker sha shab tok = reads (\<lambda>w.
     case resolveWorkerSession sha (wk_db w) tok of
       None \<Rightarrow> throw StorageUnauthorized
     | Some b \<Rightarrow>
         (case session_by_id (wk_db w) (sb_session b) of
            None \<Rightarrow> ok None
          | Some s \<Rightarrow>
              (case (ws_source_revision s, ws_source_sha256 s, ws_source_bytes s) of
                 (Some rv, Some h, Some n) \<Rightarrow>
                   if \<not> session_shape (sb_session b) then throw (StorageCorrupt ''worker source archive is missing'')
                   else (case map_of (wk_files w) (source_path (sb_session b)) of
                      None \<Rightarrow> throw (StorageCorrupt ''worker source archive is missing'')
                    | Some data \<Rightarrow>
                        if length data \<noteq> n \<or> shab data \<noteq> h then throw (StorageCorrupt ''worker source archive failed verification'')
                        else ok (Some (b, \<lparr>sr_revision = rv, sr_sha256 = h, sr_bytes = n\<rparr>, data)))
               | _ \<Rightarrow> ok None)))"

section \<open>Artifacts\<close>

definition find_artifact :: "worker_db \<Rightarrow> string \<Rightarrow> string \<Rightarrow> artifact_row option" where
  "find_artifact db sid key = find (\<lambda>a. ar_session a = sid \<and> ar_key a = key) (wd_artifacts db)"

definition artifactFile :: "(nat list \<Rightarrow> string) \<Rightarrow> string \<Rightarrow> string \<Rightarrow> artifact_row custody" where
  "artifactFile shab sid key = reads (\<lambda>w.
     case find_artifact (wk_db w) sid key of
       None \<Rightarrow> throw (StorageUnavailable ''worker artifact is unavailable'')
     | Some a \<Rightarrow>
         (case map_of (wk_files w) (ar_path a) of
            None \<Rightarrow> throw StorageIO
          | Some data \<Rightarrow>
              if length data \<noteq> ar_size a \<or> shab data \<noteq> ar_sha256 a then throw (StorageCorrupt ''worker artifact failed verification'')
              else ok a))"

definition listArtifacts :: "string \<Rightarrow> artifact_row list custody" where
  "listArtifacts sid = andThen (require (session_shape sid) (StorageInvalid ''worker session id is invalid'')) (\<lambda>_.
     reads (\<lambda>w. ok (sort_by (\<lambda>a b. ar_id a \<le> ar_id b) (filter (\<lambda>a. ar_session a = sid) (wd_artifacts (wk_db w))))))"

record artifact_input =
  ai_key :: string
  ai_kind :: string
  ai_source_sha256 :: string
  ai_data :: "nat list"
  ai_sha256 :: "string option"

definition check_artifact ::
  "(nat list \<Rightarrow> string) \<Rightarrow> workspace_options \<Rightarrow> worker_db \<Rightarrow> session_binding \<Rightarrow> artifact_input \<Rightarrow> workspace_error + string" where
  "check_artifact shab wo db b x =
     (if \<not> artifact_key_shape (ai_key x) then Inl (StorageInvalid ''worker artifact key is invalid'')
      else if ai_kind x \<noteq> ''unified_patch_gzip'' then Inl (StorageInvalid ''worker artifact kind is unsupported'')
      else if length (ai_data x) > wo_max_artifact wo then Inl (StorageInvalid (''worker artifact exceeds '' @ decimal (wo_max_artifact wo) @ '' bytes''))
      else if \<not> sha256_shape (ai_source_sha256 x) then Inl (StorageInvalid ''worker source digest is invalid'')
      else if (case session_by_id db (sb_session b) of None \<Rightarrow> True | Some s \<Rightarrow> ws_source_sha256 s \<noteq> Some (ai_source_sha256 x))
        then Inl (StorageConflict ''worker artifact source digest changed'')
      else if ai_sha256 x \<noteq> None \<and> ai_sha256 x \<noteq> Some (shab (ai_data x)) then Inl (StorageInvalid ''worker artifact digest is invalid'')
      else Inr (shab (ai_data x)))"

definition new_artifact :: "worker_db \<Rightarrow> time \<Rightarrow> session_binding \<Rightarrow> artifact_input \<Rightarrow> string \<Rightarrow> artifact_row" where
  "new_artifact db now b x h = \<lparr>ar_id = wd_next_artifact db, ar_session = sb_session b, ar_key = ai_key x, ar_kind = ai_kind x,
     ar_source_sha256 = ai_source_sha256 x, ar_sha256 = h, ar_size = length (ai_data x),
     ar_path = artifact_path (sb_session b) (ai_key x), ar_created = now\<rparr>"

definition add_artifact :: "artifact_row \<Rightarrow> workspace \<Rightarrow> workspace" where
  "add_artifact a w = w\<lparr>wk_db := (wk_db w)\<lparr>wd_artifacts := wd_artifacts (wk_db w) @ [a],
     wd_next_artifact := wd_next_artifact (wk_db w) + 1\<rparr>\<rparr>"

definition putArtifactForWorker ::
  "(string \<Rightarrow> string) \<Rightarrow> (nat list \<Rightarrow> string) \<Rightarrow> workspace_options \<Rightarrow> time \<Rightarrow> string \<Rightarrow> artifact_input \<Rightarrow> artifact_row custody" where
  "putArtifactForWorker sha shab wo now tok x = reads (\<lambda>w.
     case resolveWorkerSession sha (wk_db w) tok of
       None \<Rightarrow> throw StorageUnauthorized
     | Some b \<Rightarrow>
         andThen (lift (check_artifact shab wo (wk_db w) b x)) (\<lambda>h.
         case find_artifact (wk_db w) (sb_session b) (ai_key x) of
           Some a \<Rightarrow>
             if ar_kind a \<noteq> ai_kind x \<or> ar_source_sha256 a \<noteq> ai_source_sha256 x \<or> ar_sha256 a \<noteq> h \<or> ar_size a \<noteq> length (ai_data x)
             then throw (StorageConflict ''worker artifact key is already bound differently'')
             else artifactFile shab (sb_session b) (ai_key x)
         | None \<Rightarrow>
             if \<not> session_shape (sb_session b) then throw (StorageInvalid ''worker session id is invalid'')
             else let a = new_artifact (wk_db w) now b x h in
               andThen (modify (write_file (ar_path a) (ai_data x))) (\<lambda>_.
               if length h \<noteq> 64 then andThen (modify (remove_file (ar_path a))) (\<lambda>_. throw StorageIO)
               else andThen (modify (add_artifact a)) (\<lambda>_. ok a))))"

end
