(* ===== verification/Worker_Names.thy ===== *)
theory Worker_Names
  imports Mind_Id
begin

text \<open>
  Names of native workers (\<open>src/src/worker/names.ts\<close>): session ids, slugs that avoid those taken, and
  the shape of a valid slug. A random source is a function from the attempt to the numbers drawn.
\<close>

definition ADJECTIVES :: "string list" where
  "ADJECTIVES = [''brisk'', ''amber'', ''quiet'', ''bold'', ''calm'', ''crisp'', ''dusty'', ''eager'', ''faded'', ''gentle'',
     ''honest'', ''icy'', ''jolly'', ''keen'', ''lively'', ''mellow'', ''noble'', ''olive'', ''plain'', ''quick'', ''rustic'',
     ''solid'', ''tidy'', ''vivid'']"

definition NOUNS :: "string list" where
  "NOUNS = [''otter'', ''anvil'', ''kestrel'', ''birch'', ''cedar'', ''delta'', ''ember'', ''falcon'', ''granite'', ''harbor'',
     ''ibis'', ''juniper'', ''kelp'', ''lantern'', ''marsh'', ''nectar'', ''oak'', ''pebble'', ''quartz'', ''raven'', ''sable'',
     ''thistle'', ''urchin'', ''willow'']"

definition COMBO_COUNT :: nat where
  "COMBO_COUNT = length ADJECTIVES * length NOUNS"

text \<open>The eight draws of \<open>randomInt(36)\<close>.\<close>

definition newWorkerId :: "nat list \<Rightarrow> string" where
  "newWorkerId ds = ''wrk-'' @ map base36_char ds"

definition slug_pair :: "nat \<times> nat \<Rightarrow> string" where
  "slug_pair d = ADJECTIVES ! (fst d mod length ADJECTIVES) @ ''-'' @ NOUNS ! (snd d mod length NOUNS)"

definition slug_base :: string where
  "slug_base = ADJECTIVES ! 0 @ ''-'' @ NOUNS ! 0"

definition slug_numbered :: "nat \<Rightarrow> string" where
  "slug_numbered k = slug_base @ ''-'' @ decimal k"

text \<open>The first loop: \<open>n\<close> attempts are left.\<close>

fun try_pairs :: "(nat \<Rightarrow> nat \<times> nat) \<Rightarrow> string list \<Rightarrow> nat \<Rightarrow> string option" where
  "try_pairs draw taken 0 = None"
| "try_pairs draw taken (Suc n) =
     (let slug = slug_pair (draw n) in if slug \<notin> set taken then Some slug else try_pairs draw taken n)"

lemma digit_inj: "a < 10 \<Longrightarrow> b < 10 \<Longrightarrow> (char_of (48 + a :: nat) :: char) = char_of (48 + b) \<Longrightarrow> a = b"
  using arg_cong [of "char_of (48 + a)" "char_of (48 + b)" code_unit] by (simp add: code_unit_char_of)

lemma decimal_inj: "decimal m = decimal n \<Longrightarrow> m = n"
proof (induction m arbitrary: n rule: decimal.induct)
  case (1 m)
  have ne: "decimal k \<noteq> []" "[] \<noteq> decimal k" for k by (subst decimal.simps, simp)+
  have d: "x mod 10 = y mod 10" if "(char_of (48 + x mod 10 :: nat) :: char) = char_of (48 + y mod 10)" for x y :: nat
    using digit_inj [OF _ _ that] by simp
  show ?case
  proof (cases "m < 10"; cases "n < 10")
    assume "m < 10" "n < 10"
    then show ?thesis using 1(2) digit_inj [of m n] by (simp add: decimal.simps [of m] decimal.simps [of n])
  next
    assume m: "\<not> m < 10" and n: "\<not> n < 10"
    with 1(2) have "decimal (m div 10) = decimal (n div 10)" "m mod 10 = n mod 10"
      using d by (simp_all add: decimal.simps [of m] decimal.simps [of n])
    then show ?thesis using "1.IH" [OF m] by (metis div_mult_mod_eq)
  qed (use 1(2) ne in \<open>auto simp: decimal.simps [of m] decimal.simps [of n]\<close>)
qed

lemma slug_numbered_inj: "slug_numbered j = slug_numbered k \<longleftrightarrow> j = k"
  by (auto simp: slug_numbered_def dest: decimal_inj)

text \<open>The second loop ends: only finitely many numbered slugs are taken.\<close>

function free_suffix :: "string list \<Rightarrow> nat \<Rightarrow> nat" where
  "free_suffix taken k = (if slug_numbered k \<in> set taken then free_suffix taken (k + 1) else k)"
  by pat_completeness auto
termination
proof (relation "measure (\<lambda>(taken, k). card {j. k \<le> j \<and> slug_numbered j \<in> set taken})", simp)
  fix taken k
  assume k: "slug_numbered k \<in> set taken"
  have "finite (slug_numbered -` set taken)" by (rule finite_vimageI) (simp_all add: inj_def slug_numbered_inj)
  then have "finite {j. k \<le> j \<and> slug_numbered j \<in> set taken}" by (rule finite_subset [rotated]) auto
  then have "card {j. k + 1 \<le> j \<and> slug_numbered j \<in> set taken} < card {j. k \<le> j \<and> slug_numbered j \<in> set taken}"
  proof (rule psubset_card_mono)
    have "k \<in> {j. k \<le> j \<and> slug_numbered j \<in> set taken}" "k \<notin> {j. k + 1 \<le> j \<and> slug_numbered j \<in> set taken}"
      using k by simp_all
    then show "{j. k + 1 \<le> j \<and> slug_numbered j \<in> set taken} \<subset> {j. k \<le> j \<and> slug_numbered j \<in> set taken}"
      by (metis (no_types, lifting) Collect_mono add_leE psubsetI)
  qed
  then show "((taken, k + 1), taken, k) \<in> measure (\<lambda>(taken, k). card {j. k \<le> j \<and> slug_numbered j \<in> set taken})"
    by simp
qed

declare free_suffix.simps [simp del]

definition generateWorkerSlug :: "(nat \<Rightarrow> nat \<times> nat) \<Rightarrow> string list \<Rightarrow> string" where
  "generateWorkerSlug draw taken =
     (case try_pairs draw taken COMBO_COUNT of
        Some slug \<Rightarrow> slug
      | None \<Rightarrow> slug_numbered (free_suffix taken 2))"

definition slug_shape :: "string \<Rightarrow> bool" where
  "slug_shape s = (case s of [] \<Rightarrow> False
     | c # cs \<Rightarrow> is_base36 c \<and> list_all (\<lambda>x. is_base36 x \<or> x = CHR ''-'') cs \<and> length cs \<le> 79)"

definition validateWorkerSlug :: "string \<Rightarrow> bool" where
  "validateWorkerSlug s \<longleftrightarrow> slug_shape s \<and> \<not> prefix ''wrk-'' s"

section \<open>Fresh names\<close>

lemma try_pairs_sound: "try_pairs draw taken n = Some slug \<Longrightarrow> slug \<notin> set taken \<and> (\<exists>d. slug = slug_pair d)"
  by (induction n) (auto simp: Let_def simp del: split_paired_Ex split: if_splits)

lemma free_suffix_sound: "slug_numbered (free_suffix taken k) \<notin> set taken"
  by (induction taken k rule: free_suffix.induct) (subst free_suffix.simps, auto)

lemma free_suffix_least: "k \<le> free_suffix taken k \<and> (\<forall>j. k \<le> j \<and> j < free_suffix taken k \<longrightarrow> slug_numbered j \<in> set taken)"
proof (induction taken k rule: free_suffix.induct)
  case (1 taken k)
  show ?case
  proof (cases "slug_numbered k \<in> set taken")
    case True
    with 1 have ih: "k + 1 \<le> free_suffix taken (k + 1)"
      "\<forall>j. k + 1 \<le> j \<and> j < free_suffix taken (k + 1) \<longrightarrow> slug_numbered j \<in> set taken" by blast+
    have eq: "free_suffix taken k = free_suffix taken (k + 1)" using True by (subst free_suffix.simps) simp
    have "slug_numbered j \<in> set taken" if "k \<le> j" "j < free_suffix taken (k + 1)" for j
      using that ih(2) True by (cases "j = k") auto
    with ih(1) show ?thesis unfolding eq by auto
  next
    case False
    then have "free_suffix taken k = k" by (subst free_suffix.simps) simp
    then show ?thesis by auto
  qed
qed

lemma free_suffix_le: "free_suffix taken 2 \<le> length taken + 2"
proof -
  have "slug_numbered ` {2..<free_suffix taken 2} \<subseteq> set taken" using free_suffix_least [of 2 taken] by auto
  then have "card (slug_numbered ` {2..<free_suffix taken 2}) \<le> card (set taken)" by (rule card_mono [rotated]) simp
  moreover have "inj_on slug_numbered {2..<free_suffix taken 2}" by (simp add: inj_on_def slug_numbered_inj)
  ultimately have "free_suffix taken 2 - 2 \<le> length taken"
    using card_length [of taken] by (simp add: card_image)
  then show ?thesis by simp
qed

lemma length_decimal: "k < 10 ^ Suc n \<Longrightarrow> length (decimal k) \<le> Suc n"
proof (induction n arbitrary: k)
  case 0
  then show ?case by (subst decimal.simps) simp
next
  case (Suc n)
  then have "k div 10 < 10 ^ Suc n" by (simp add: less_mult_imp_div_less mult.commute)
  with Suc.IH have "length (decimal (k div 10)) \<le> Suc n" .
  then show ?case by (subst decimal.simps) simp
qed

lemma decimal_digits: "list_all is_base36 (decimal k)"
proof (induction k rule: decimal.induct)
  case (1 k)
  have "is_base36 (char_of (48 + d))" if "d < 10" for d :: nat
    using that by (simp add: is_base36_def is_digit_def code_unit_char_of Let_def)
  with 1 show ?case by (subst decimal.simps) simp
qed

lemma letters: "list_all is_base36 ''abcdefghijklmnopqrstuvwxyz''"
  by code_simp

definition slug_word :: "string \<Rightarrow> bool" where
  "slug_word w \<longleftrightarrow> w \<noteq> [] \<and> length w \<le> 9 \<and> list_all is_base36 w \<and> \<not> prefix w ''wrk-'' \<and> \<not> prefix ''wrk-'' w"

lemma words: "w \<in> set ADJECTIVES \<Longrightarrow> slug_word w" "w \<in> set NOUNS \<Longrightarrow> slug_word w"
proof -
  have "list_all slug_word ADJECTIVES" "list_all slug_word NOUNS"
    using letters by (simp_all add: ADJECTIVES_def NOUNS_def slug_word_def)
  then show "w \<in> set ADJECTIVES \<Longrightarrow> slug_word w" "w \<in> set NOUNS \<Longrightarrow> slug_word w" by (simp_all add: list_all_iff)
qed

lemma prefix_append_cases: "prefix p (a @ b) \<Longrightarrow> prefix p a \<or> prefix a p"
  by (meson prefix_def prefix_same_cases)

lemma joined_valid:
  assumes "slug_word a" and "list_all (\<lambda>x. is_base36 x \<or> x = CHR ''-'') b" and "length b \<le> 70"
  shows "validateWorkerSlug (a @ b)"
proof -
  obtain c cs where a: "a = c # cs" using assms(1) by (cases a) (auto simp: slug_word_def)
  have "list_all (\<lambda>x. is_base36 x \<or> x = CHR ''-'') cs" using assms(1) by (auto simp: slug_word_def a list_all_iff)
  moreover have "\<not> prefix ''wrk-'' (a @ b)" using prefix_append_cases assms(1) by (auto simp: slug_word_def)
  ultimately show ?thesis using assms by (simp add: validateWorkerSlug_def slug_shape_def slug_word_def a)
qed

lemma slug_pair_valid: "validateWorkerSlug (slug_pair d)"
proof -
  have "0 < length ADJECTIVES" "0 < length NOUNS" by (simp_all add: ADJECTIVES_def NOUNS_def)
  then have "ADJECTIVES ! (fst d mod length ADJECTIVES) \<in> set ADJECTIVES" "NOUNS ! (snd d mod length NOUNS) \<in> set NOUNS"
    by simp_all
  from words(1) [OF this(1)] words(2) [OF this(2)] show ?thesis
    unfolding slug_pair_def by (intro joined_valid) (auto simp: slug_word_def list_all_iff)
qed

lemma slug_numbered_valid:
  assumes "k < 10 ^ 63"
  shows "validateWorkerSlug (slug_numbered k)"
proof -
  have "length (decimal k) \<le> 63" using length_decimal [of k 62] assms by simp
  moreover have "list_all (\<lambda>x. is_base36 x \<or> x = CHR ''-'') (decimal k)"
    using decimal_digits by (auto simp: list_all_iff)
  moreover have "slug_word ''brisk''" "slug_word ''otter''" by (rule words, simp add: ADJECTIVES_def NOUNS_def)+
  ultimately show ?thesis
    unfolding slug_numbered_def slug_base_def append_assoc
    by (intro joined_valid) (auto simp: ADJECTIVES_def NOUNS_def slug_word_def list_all_iff)
qed

text \<open>
  A generated slug is new and well formed, whatever the random source yields: it is not among the
  slugs taken, it has the shape that validation asks for, and the search ends even when every
  adjective-noun pair is taken.
\<close>

theorem slug_is_fresh:
  assumes "length taken + 2 < 10 ^ 63"
  shows "generateWorkerSlug draw taken \<notin> set taken \<and> validateWorkerSlug (generateWorkerSlug draw taken)"
proof (cases "try_pairs draw taken COMBO_COUNT")
  case None
  have "free_suffix taken 2 < 10 ^ 63" using free_suffix_le [of taken] assms by linarith
  with None free_suffix_sound slug_numbered_valid show ?thesis by (simp add: generateWorkerSlug_def)
next
  case (Some slug)
  with try_pairs_sound [OF Some] slug_pair_valid show ?thesis by (auto simp: generateWorkerSlug_def simp del: split_paired_Ex)
qed

theorem slug_is_fresh_witness:
  "generateWorkerSlug (\<lambda>_. (0, 0)) [''brisk-otter'', ''brisk-otter-2''] \<notin> {''brisk-otter'', ''brisk-otter-2''}"
  using slug_is_fresh [of "[''brisk-otter'', ''brisk-otter-2'']" "\<lambda>_. (0, 0)"] by simp

end
