(* ===== verification/Json.thy ===== *)
theory Json
  imports Mind_Types "HOL-Library.AList"
begin

text \<open>
  \<open>JSON.parse\<close> and \<open>JSON.stringify\<close> of a string, as the worker code uses them: a recursive-descent
  parser over the grammar of RFC 8259 that gives a JSON value and the rest of the text, and quoting of
  strings. A repeated key of an object keeps its first place and takes the last value. A \<open>\u\<close> escape above
  \<open>00FF\<close> is outside the alphabet of the development and is refused. Each parser returns a strictly
  shorter rest; the tests of the lengths state it where the recursion needs it.
\<close>

section \<open>Quoting\<close>

definition json_escape :: "char \<Rightarrow> string" where
  "json_escape c = (let n = code_unit c; bs = CHR 0x5C in
     if c = CHR 0x22 \<or> c = bs then [bs, c]
     else if n = 8 then [bs, CHR ''b''] else if n = 9 then [bs, CHR ''t''] else if n = 10 then [bs, CHR ''n'']
     else if n = 12 then [bs, CHR ''f''] else if n = 13 then [bs, CHR ''r'']
     else if n < 32 then [bs, CHR ''u'', CHR ''0'', CHR ''0'', ''0123456789abcdef'' ! (n div 16), ''0123456789abcdef'' ! (n mod 16)]
     else [c])"

definition json_quote :: "string \<Rightarrow> string" where
  "json_quote s = [CHR 0x22] @ concat (map json_escape s) @ [CHR 0x22]"

section \<open>Parsing\<close>

definition json_space :: "char \<Rightarrow> bool" where
  "json_space c \<longleftrightarrow> code_unit c \<in> {9, 10, 13, 32}"

abbreviation skip_ws :: "string \<Rightarrow> string" where
  "skip_ws \<equiv> dropWhile json_space"

definition hex_digit :: "char \<Rightarrow> nat option" where
  "hex_digit c = (let n = code_unit c in
     if 48 \<le> n \<and> n \<le> 57 then Some (n - 48)
     else if 97 \<le> n \<and> n \<le> 102 then Some (n - 87)
     else if 65 \<le> n \<and> n \<le> 70 then Some (n - 55) else None)"

definition hex4 :: "char \<Rightarrow> char \<Rightarrow> char \<Rightarrow> char \<Rightarrow> nat option" where
  "hex4 a b c d = (case (hex_digit a, hex_digit b, hex_digit c, hex_digit d) of
     (Some w, Some x, Some y, Some z) \<Rightarrow> Some (((w * 16 + x) * 16 + y) * 16 + z) | _ \<Rightarrow> None)"

definition simple_escape :: "char \<Rightarrow> char option" where
  "simple_escape c =
     (if c \<in> {CHR 0x22, CHR 0x5C, CHR ''/''} then Some c
      else if c = CHR ''b'' then Some (CHR 0x08) else if c = CHR ''t'' then Some (CHR 0x09)
      else if c = CHR ''n'' then Some (CHR 0x0A) else if c = CHR ''f'' then Some (CHR 0x0C)
      else if c = CHR ''r'' then Some (CHR 0x0D) else None)"

text \<open>The characters of a string up to its closing quote.\<close>

fun json_chars :: "string \<Rightarrow> string \<Rightarrow> (string \<times> string) option" where
  "json_chars acc [] = None"
| "json_chars acc (c # cs) =
     (if c = CHR 0x22 then Some (acc, cs)
      else if code_unit c < 32 then None
      else if c \<noteq> CHR 0x5C then json_chars (acc @ [c]) cs
      else case cs of
        [] \<Rightarrow> None
      | e # r \<Rightarrow>
          if e = CHR ''u'' then
            (case r of
               a # b # x # d # r' \<Rightarrow>
                 (case hex4 a b x d of
                    None \<Rightarrow> None
                  | Some n \<Rightarrow> if n < 256 then json_chars (acc @ [char_of n]) r' else None)
             | _ \<Rightarrow> None)
          else case simple_escape e of None \<Rightarrow> None | Some x \<Rightarrow> json_chars (acc @ [x]) r)"

definition digits_val :: "string \<Rightarrow> rat" where
  "digits_val ds = foldl (\<lambda>v d. v * 10 + of_nat (code_unit d - 48)) 0 ds"

text \<open>Integer part, fraction and exponent of a number.\<close>

definition json_integer :: "string \<Rightarrow> (rat \<times> string) option" where
  "json_integer s = (let ds = takeWhile is_digit s; r = dropWhile is_digit s in
     if ds = [] \<or> (hd ds = CHR ''0'' \<and> length ds > 1) then None else Some (digits_val ds, r))"

definition json_fraction :: "string \<Rightarrow> (rat \<times> string) option" where
  "json_fraction s = (case s of
     CHR ''.'' # r \<Rightarrow> (let ds = takeWhile is_digit r in
        if ds = [] then None else Some (digits_val ds / 10 ^ length ds, dropWhile is_digit r))
   | _ \<Rightarrow> Some (0, s))"

definition json_exponent :: "string \<Rightarrow> (rat \<times> string) option" where
  "json_exponent s = (case s of
     e # r \<Rightarrow>
       if e \<noteq> CHR ''e'' \<and> e \<noteq> CHR ''E'' then Some (1, s)
       else (let neg = prefix ''-'' r; r' = (if prefix ''-'' r \<or> prefix ''+'' r then tl r else r);
                 ds = takeWhile is_digit r'; n = nat \<lfloor>digits_val ds\<rfloor> in
             if ds = [] then None else Some (if neg then 1 / 10 ^ n else 10 ^ n, dropWhile is_digit r'))
   | [] \<Rightarrow> Some (1, s))"

definition json_number :: "string \<Rightarrow> (json \<times> string) option" where
  "json_number s = (let neg = prefix ''-'' s; s' = (if neg then tl s else s) in
     case json_integer s' of None \<Rightarrow> None | Some (i, r) \<Rightarrow>
     (case json_fraction r of None \<Rightarrow> None | Some (f, r') \<Rightarrow>
     (case json_exponent r' of None \<Rightarrow> None | Some (e, r'') \<Rightarrow>
        Some (JNum ((if neg then - 1 else 1) * (i + f) * e), r''))))"

definition json_atom :: "string \<Rightarrow> (json \<times> string) option" where
  "json_atom s =
     (if prefix ''null'' s then Some (JNull, drop 4 s)
      else if prefix ''true'' s then Some (JBool True, drop 4 s)
      else if prefix ''false'' s then Some (JBool False, drop 5 s)
      else json_number s)"

lemma dropWhile_Cons_less: "dropWhile P s = c # cs \<Longrightarrow> length cs < length s"
  using length_dropWhile_le [of P s] by simp

function (sequential) json_value :: "string \<Rightarrow> (json \<times> string) option"
  and json_items :: "json list \<Rightarrow> string \<Rightarrow> (json \<times> string) option"
  and json_fields :: "(string \<times> json) list \<Rightarrow> string \<Rightarrow> (json \<times> string) option" where
  "json_value s =
     (case skip_ws s of
        [] \<Rightarrow> None
      | c # cs \<Rightarrow>
          if c = CHR 0x22 then map_option (apfst JStr) (json_chars [] cs)
          else if c = CHR ''['' then
            (case skip_ws cs of CHR '']'' # r \<Rightarrow> Some (JArr [], r) | _ \<Rightarrow> json_items [] cs)
          else if c = CHR ''{'' then
            (case skip_ws cs of CHR ''}'' # r \<Rightarrow> Some (JObj [], r) | _ \<Rightarrow> json_fields [] cs)
          else json_atom (c # cs))"
| "json_items acc s =
     (case json_value s of
        None \<Rightarrow> None
      | Some (v, r) \<Rightarrow>
          if \<not> length r < length s then None
          else case skip_ws r of
            CHR '','' # r' \<Rightarrow> json_items (acc @ [v]) r'
          | CHR '']'' # r' \<Rightarrow> Some (JArr (acc @ [v]), r')
          | _ \<Rightarrow> None)"
| "json_fields acc s =
     (case skip_ws s of
        CHR 0x22 # k \<Rightarrow>
          (case json_chars [] k of
             None \<Rightarrow> None
           | Some (key, r) \<Rightarrow>
               if \<not> length r < length s then None
               else case skip_ws r of
                 CHR '':'' # vs \<Rightarrow>
                   (case json_value vs of
                      None \<Rightarrow> None
                    | Some (v, r') \<Rightarrow>
                        if \<not> length r' < length vs then None
                        else case skip_ws r' of
                          CHR '','' # r'' \<Rightarrow> json_fields (AList.update key v acc) r''
                        | CHR ''}'' # r'' \<Rightarrow> Some (JObj (AList.update key v acc), r'')
                        | _ \<Rightarrow> None)
               | _ \<Rightarrow> None)
      | _ \<Rightarrow> None)"
  by pat_completeness auto
termination
  by (relation "measure (\<lambda>x. case x of Inl s \<Rightarrow> 2 * length s | Inr (Inl (acc, s)) \<Rightarrow> 2 * length s + 1 | Inr (Inr (acc, s)) \<Rightarrow> 2 * length s + 1)")
    (auto dest!: dropWhile_Cons_less)

declare json_value.simps [simp del] json_items.simps [simp del] json_fields.simps [simp del]

definition json_parse :: "string \<Rightarrow> json option" where
  "json_parse s = (case json_value s of Some (v, r) \<Rightarrow> if skip_ws r = [] then Some v else None | None \<Rightarrow> None)"

section \<open>Strings survive\<close>

lemma hex_digit_nth: "k < 16 \<Longrightarrow> hex_digit (''0123456789abcdef'' ! k) = Some k"
proof -
  have "list_all (\<lambda>k. hex_digit (''0123456789abcdef'' ! k) = Some k) [0..<16]" by code_simp
  then show "k < 16 \<Longrightarrow> ?thesis" by (simp add: list_all_iff)
qed

lemma char_of_code_unit: "code_unit c = n \<Longrightarrow> c = char_of n"
  by (auto simp: code_unit_def)

lemma json_chars_escape: "json_chars acc (json_escape c @ rest) = json_chars (acc @ [c]) rest"
proof -
  let ?n = "code_unit c"
  consider "c = CHR 0x22 \<or> c = CHR 0x5C" | "?n \<in> {8, 9, 10, 12, 13}"
    | "?n < 32" "?n \<notin> {8, 9, 10, 12, 13}" "c \<noteq> CHR 0x22" "c \<noteq> CHR 0x5C"
    | "\<not> ?n < 32" "c \<noteq> CHR 0x22" "c \<noteq> CHR 0x5C" by blast
  then show ?thesis
  proof cases
    case 1
    then show ?thesis by (auto simp: json_escape_def simple_escape_def code_unit_def)
  next
    case 2
    moreover have "char_of (8 :: nat) = CHR 0x08" "char_of (9 :: nat) = CHR 0x09" "char_of (10 :: nat) = CHR 0x0A"
      "char_of (12 :: nat) = CHR 0x0C" "char_of (13 :: nat) = CHR 0x0D" by (simp_all add: char_of_def bit_0)
    ultimately have "c \<in> {CHR 0x08, CHR 0x09, CHR 0x0A, CHR 0x0C, CHR 0x0D}" using char_of_code_unit [of c] by auto
    then show ?thesis by (auto simp: json_escape_def simple_escape_def code_unit_def Let_def)
  next
    case 3
    have h: "hex_digit CHR ''0'' = Some 0" by code_simp
    have d: "hex_digit (''0123456789abcdef'' ! (?n div 16)) = Some (?n div 16)" "hex_digit (''0123456789abcdef'' ! (?n mod 16)) = Some (?n mod 16)"
      using 3(1) by (simp_all only: hex_digit_nth)
    have u: "\<not> code_unit CHR 0x5C < 32" by (simp add: code_unit_def)
    have e: "json_escape c = [CHR 0x5C, CHR ''u'', CHR ''0'', CHR ''0'', ''0123456789abcdef'' ! (?n div 16), ''0123456789abcdef'' ! (?n mod 16)]"
      using 3 by (simp only: json_escape_def Let_def) simp
    have "hex4 CHR ''0'' CHR ''0'' (''0123456789abcdef'' ! (?n div 16)) (''0123456789abcdef'' ! (?n mod 16)) = Some ?n"
      unfolding hex4_def h d by simp
    then show ?thesis unfolding e using 3(1) u by (simp del: nth_Cons_numeral) (simp add: code_unit_def)
  next
    case 4
    then show ?thesis by (simp add: json_escape_def Let_def)
  qed
qed

lemma json_chars_quoted: "json_chars acc (concat (map json_escape s) @ CHR 0x22 # rest) = Some (acc @ s, rest)"
proof (induction s arbitrary: acc)
  case (Cons c s)
  then show ?case using json_chars_escape [of acc c] by simp
qed simp

text \<open>Quoting a string and parsing it gives the string back.\<close>

lemma json_parse_quote: "json_parse (json_quote s) = Some (JStr s)"
proof -
  have "\<not> json_space CHR 0x22" by code_simp
  then show ?thesis by (simp add: json_parse_def json_quote_def json_value.simps json_chars_quoted)
qed

end
