(* ===== verification/Worker_Spawn.thy ===== *)
theory Worker_Spawn
  imports Worker_Mailbox Worker_Workspace Worker_Names Mind_Read Json
begin

text \<open>
  Starting, dismissing, recovering and cleaning up worker sessions (\<open>src/src/worker/spawn.ts\<close>).

  The methods of \<open>WorkerSpawnBroker\<close> are asynchronous: between two \<open>await\<close>s they run without
  interruption, and any other call may run while one is suspended. Each uninterrupted segment is a
  definition here; the state keeps, per start that is under way, where it is suspended
  (\<open>sp_starting\<close>, whose keys are the keys of the \<open>provisioning\<close> map), the cleanups under way
  (\<open>cleaning\<close>) and the first observations of finished sessions (\<open>finishCleanupObservedAt\<close>).

  The Mind item is read from the Mind database; the LLM configuration appears as the error, if any,
  that resolving a model reference gives; the pod runtime and the workspace appear as the results of
  their calls. Sessions are never deleted and store only checked Mind ids, so \<open>rowSession\<close> and
  \<open>byId(id)!\<close> do not throw.
\<close>

section \<open>State\<close>

datatype spawn_error =
    SpawnDisabled
  | SpawnInvalid string
  | SpawnNotFound string
  | SpawnUnavailable string
  | SpawnBlocked string
  | SpawnConflict string
  | SpawnCapacity
  | WorkspaceFailed string
  | ProvisionFailed
  | CleanupFailed

datatype start_phase = PreparingSource | ProvisioningPod | Ending spawn_error

record spawner =
  sp_db :: worker_db
  sp_starting :: "(string \<times> start_phase) list"
  sp_cleaning :: "string list"
  sp_observed :: "(string \<times> time) list"
  sp_settled :: "string list"

record spawn_config =
  cf_enabled :: bool
  cf_max :: nat
  cf_main_ref :: string
  cf_ref_error :: "string \<Rightarrow> string option"
  cf_workspace :: bool

record provision_receipt =
  pr_pod_name :: string
  pr_pod_uid :: "string option"
  pr_workspace_ref :: string

datatype provision_state =
    PodPending
  | PodReady provision_receipt
  | PodSucceeded
  | PodFailed string
  | PodMissing

type_synonym 'a spawning = "(spawn_error, spawner, 'a) action"

definition disposed_error :: spawn_error where
  "disposed_error = SpawnUnavailable ''worker supervisor is disposed''"

definition revoked_error :: spawn_error where
  "revoked_error = SpawnConflict ''worker was revoked during provisioning''"

definition boundedError :: "string \<Rightarrow> string" where
  "boundedError msg = (let m = take 1000 msg in if m = [] then ''worker operation failed'' else m)"

section \<open>Checks of a start\<close>

definition parseStartOptions :: "json option \<Rightarrow> spawn_error + string option" where
  "parseStartOptions v =
     (case v of
        None \<Rightarrow> Inr None
      | Some (JObj fs) \<Rightarrow>
          (case filter (\<lambda>f. fst f \<noteq> ''modelRef'') fs of
             f # _ \<Rightarrow> Inl (SpawnInvalid (''unknown worker option '' @ json_quote (fst f)))
           | [] \<Rightarrow>
               (case map_of fs ''modelRef'' of
                  None \<Rightarrow> Inr None
                | Some (JStr r) \<Rightarrow> Inr (Some r)
                | Some _ \<Rightarrow> Inl (SpawnInvalid ''modelRef must be a string'')))
      | Some _ \<Rightarrow> Inl (SpawnInvalid ''worker options must be an object''))"

definition validateMind :: "time \<Rightarrow> mind_db \<Rightarrow> string \<Rightarrow> spawn_error + mind_detail" where
  "validateMind now mdb v =
     (if \<not> isMindId v then Inl (SpawnInvalid ''mindId must be a canonical elm- Mind identity'')
      else case mind_get now mdb v of
        None \<Rightarrow> Inl (SpawnNotFound ''Mind item is unavailable'')
      | Some d \<Rightarrow>
          if it_archived_at d \<noteq> None \<or> closes (it_status d) then Inl (SpawnUnavailable ''Mind item is closed'')
          else if it_status d = Proposal then Inl (SpawnBlocked ''Mind proposal is not committed work'')
          else if it_status d = Inbox \<or> it_status d = Waiting \<or> mi_effective d = Blocked
            then Inl (SpawnBlocked ''Mind item is not ready for a worker'')
          else Inr d)"

definition model_ref :: "spawn_config \<Rightarrow> string option \<Rightarrow> spawn_error + string" where
  "model_ref cf v = (let r = (case v of None \<Rightarrow> cf_main_ref cf | Some r \<Rightarrow> r)
     in case cf_ref_error cf r of None \<Rightarrow> Inr r | Some e \<Rightarrow> Inl (SpawnInvalid (boundedError e)))"

section \<open>Rows\<close>

definition active_sessions :: "worker_db \<Rightarrow> worker_session list" where
  "active_sessions db = filter (\<lambda>s. is_active (ws_status s)) (wd_sessions db)"

text \<open>The first of 32 candidate ids that no session has.\<close>

definition pick_id :: "string list \<Rightarrow> worker_db \<Rightarrow> string option" where
  "pick_id candidates db = find (\<lambda>c. c \<notin> ws_id ` set (wd_sessions db)) (take 32 candidates)"

definition new_session :: "string \<Rightarrow> string \<Rightarrow> string \<Rightarrow> string \<Rightarrow> string \<Rightarrow> time \<Rightarrow> worker_session" where
  "new_session i slug ref mindId d now =
     \<lparr>ws_id = i, ws_slug = slug, ws_status = Spawning, ws_model_ref = ref, ws_mind_id = mindId, ws_runtime = ''kubernetes'',
      ws_digest = d, ws_pod_name = None, ws_pod_uid = None, ws_workspace_ref = None, ws_source_revision = None,
      ws_source_sha256 = None, ws_source_bytes = None, ws_created_at = now, ws_updated_at = now, ws_last_error = None,
      ws_notified_at = None, ws_cleanup_at = None, ws_cleanup_error = None\<rparr>"

definition session_conflict :: "worker_db \<Rightarrow> worker_session \<Rightarrow> bool" where
  "session_conflict db n \<longleftrightarrow>
     ws_id n \<in> ws_id ` set (wd_sessions db) \<or> ws_slug n \<in> ws_slug ` set (wd_sessions db) \<or>
     ws_digest n \<in> ws_digest ` set (wd_sessions db) \<or> ws_mind_id n \<in> ws_mind_id ` set (active_sessions db) \<or>
     \<not> sql_within 80 (ws_slug n) \<or> sql_length (ws_digest n) \<noteq> 64"

definition reserve_session ::
  "spawn_config \<Rightarrow> time \<Rightarrow> string list \<Rightarrow> (nat \<Rightarrow> nat \<times> nat) \<Rightarrow> string \<Rightarrow> string \<Rightarrow> string \<Rightarrow> (spawn_error, worker_db, string) action" where
  "reserve_session cf now candidates draw ref mindId d = transaction (reads (\<lambda>db.
     if length (active_sessions db) \<ge> cf_max cf then throw SpawnCapacity
     else if mindId \<in> ws_mind_id ` set (active_sessions db) then throw (SpawnConflict ''Mind item already has an active worker'')
     else case pick_id candidates db of
       None \<Rightarrow> throw (SpawnConflict ''worker id space is exhausted'')
     | Some i \<Rightarrow>
         let n = new_session i (generateWorkerSlug draw (map ws_slug (wd_sessions db))) ref mindId d now
         in if session_conflict db n then throw (SpawnConflict ''constraint failed'')
            else andThen (modify (\<lambda>db. db\<lparr>wd_sessions := wd_sessions db @ [n]\<rparr>)) (\<lambda>_. ok i)))"

definition on_db :: "(worker_db \<Rightarrow> worker_db) \<Rightarrow> spawner \<Rightarrow> spawner" where
  "on_db f s = s\<lparr>sp_db := f (sp_db s)\<rparr>"

definition set_phase :: "string \<Rightarrow> start_phase \<Rightarrow> spawner \<Rightarrow> spawner" where
  "set_phase i p s = s\<lparr>sp_starting := AList.update i p (sp_starting s)\<rparr>"

text \<open>The \<open>finally\<close> block of \<open>start\<close>.\<close>

definition end_start :: "string \<Rightarrow> spawner \<Rightarrow> spawner" where
  "end_start i s = (if i \<in> fst ` set (sp_starting s)
     then s\<lparr>sp_starting := AList.delete i (sp_starting s), sp_settled := sp_settled s @ [i]\<rparr> else s)"

section \<open>Start\<close>

definition start_begin ::
  "spawn_config \<Rightarrow> time \<Rightarrow> mind_db \<Rightarrow> bool \<Rightarrow> string list \<Rightarrow> (nat \<Rightarrow> nat \<times> nat) \<Rightarrow> string \<Rightarrow> string \<Rightarrow> json option \<Rightarrow> string spawning" where
  "start_begin cf now mdb current candidates draw d mindId opts =
     andThen (require current disposed_error) (\<lambda>_.
     andThen (require (cf_enabled cf) SpawnDisabled) (\<lambda>_.
     andThen (lift (validateMind now mdb mindId)) (\<lambda>item.
     andThen (lift (parseStartOptions opts)) (\<lambda>v.
     andThen (lift (model_ref cf v)) (\<lambda>ref.
     (\<lambda>s. case reserve_session cf now candidates draw ref (it_id item) d (sp_db s) of
         (Inl e, db) \<Rightarrow> (Inl e, s\<lparr>sp_db := db\<rparr>)
       | (Inr i, db) \<Rightarrow>
           (Inr i, set_phase i (if cf_workspace cf then PreparingSource else ProvisioningPod) (s\<lparr>sp_db := db\<rparr>))))))))"

definition bind_source :: "time \<Rightarrow> source_receipt \<Rightarrow> worker_session \<Rightarrow> worker_session" where
  "bind_source now r s = s\<lparr>ws_source_revision := Some (sr_revision r), ws_source_sha256 := Some (sr_sha256 r),
     ws_source_bytes := Some (sr_bytes r), ws_updated_at := now\<rparr>"

definition unbound :: "worker_session \<Rightarrow> bool" where
  "unbound s \<longleftrightarrow> ws_status s = Spawning \<and> ws_source_revision s = None \<and> ws_source_sha256 s = None \<and> ws_source_bytes s = None"

definition fail_source :: "time \<Rightarrow> string \<Rightarrow> worker_session \<Rightarrow> worker_session" where
  "fail_source t msg s = s\<lparr>ws_status := Failed, ws_updated_at := max (ws_created_at s) (max (ws_updated_at s) t),
     ws_last_error := Some msg, ws_notified_at := None,
     ws_cleanup_at := Some (max (ws_created_at s) (max (ws_updated_at s) t)), ws_cleanup_error := None\<rparr>"

text \<open>The \<open>catch\<close> around the source: \<open>error\<close> is what was caught, with its message.\<close>

definition source_caught :: "time \<Rightarrow> bool \<Rightarrow> string \<Rightarrow> string \<Rightarrow> spawn_error \<Rightarrow> 'a spawning" where
  "source_caught now current i msg error =
     (if \<not> current then andThen (modify (end_start i)) (\<lambda>_. throw disposed_error)
      else andThen (modify (\<lambda>s. end_start i (on_db (update_session i (\<lambda>st. st = Spawning) (fail_source now (boundedError msg))) s)))
        (\<lambda>_. throw error))"

definition start_source ::
  "time \<Rightarrow> bool \<Rightarrow> string \<Rightarrow> source_receipt option \<Rightarrow> unit spawning" where
  "start_source now current i src =
     (if \<not> current then source_caught now current i ''worker supervisor is disposed'' disposed_error
      else case src of
        None \<Rightarrow> modify (set_phase i ProvisioningPod)
      | Some r \<Rightarrow> reads (\<lambda>s.
          if length (filter (\<lambda>x. ws_id x = i \<and> unbound x) (wd_sessions (sp_db s))) \<noteq> 1
          then source_caught now current i ''worker was revoked during source preparation''
                 (SpawnConflict ''worker was revoked during source preparation'')
          else modify (\<lambda>s. set_phase i ProvisioningPod (on_db (\<lambda>db. db\<lparr>wd_sessions :=
                 update_where (\<lambda>x. ws_id x = i \<and> unbound x) (bind_source now r) (wd_sessions db)\<rparr>) s))))"

definition start_source_failed :: "time \<Rightarrow> bool \<Rightarrow> string \<Rightarrow> string \<Rightarrow> bool \<Rightarrow> unit spawning" where
  "start_source_failed now current i msg dirty = source_caught now current i msg
     (WorkspaceFailed ((if dirty then ''worker source repository must be clean; checkpoint changes before starting a worker''
        else ''worker source preparation failed'') @ ''; inspect elpis.worker.status('' @ [CHR 0x22] @ i @ [CHR 0x22] @ '') for details''))"

definition cleanupCompleted :: "string \<Rightarrow> worker_db \<Rightarrow> bool" where
  "cleanupCompleted i db = (case session_by_id db i of None \<Rightarrow> False | Some s \<Rightarrow> ws_cleanup_at s \<noteq> None)"

text \<open>\<open>cleanupRuntime\<close> up to the runtime's cleanup call, and from its outcome on.\<close>

definition cleanup_begin :: "string \<Rightarrow> spawner \<Rightarrow> spawner" where
  "cleanup_begin i s =
     (if cleanupCompleted i (sp_db s) \<or> i \<in> set (sp_cleaning s) then s else s\<lparr>sp_cleaning := sp_cleaning s @ [i]\<rparr>)"

definition is_terminal :: "worker_status \<Rightarrow> bool" where
  "is_terminal st \<longleftrightarrow> st \<in> {Finished, Failed, Dismissed}"

definition uncleaned :: "string \<Rightarrow> worker_session \<Rightarrow> bool" where
  "uncleaned i s \<longleftrightarrow> ws_id s = i \<and> is_terminal (ws_status s) \<and> ws_cleanup_at s = None"

definition record_cleanup :: "time \<Rightarrow> string option \<Rightarrow> worker_session \<Rightarrow> worker_session" where
  "record_cleanup now outcome s =
     (case outcome of
        Some e \<Rightarrow> s\<lparr>ws_cleanup_error := Some (boundedError e)\<rparr>
      | None \<Rightarrow> s\<lparr>ws_cleanup_at := Some (max (ws_created_at s) (max (ws_updated_at s) now)), ws_cleanup_error := None\<rparr>)"

definition cleanup_end :: "time \<Rightarrow> bool \<Rightarrow> string \<Rightarrow> string option \<Rightarrow> spawner \<Rightarrow> spawner" where
  "cleanup_end now canPersist i outcome s =
     (let s1 = s\<lparr>sp_cleaning := filter (\<lambda>x. x \<noteq> i) (sp_cleaning s)\<rparr>
      in if canPersist then on_db (\<lambda>db. db\<lparr>wd_sessions := update_where (uncleaned i) (record_cleanup now outcome) (wd_sessions db)\<rparr>) s1
         else s1)"

definition set_running :: "time \<Rightarrow> provision_receipt \<Rightarrow> worker_session \<Rightarrow> worker_session" where
  "set_running now r s = s\<lparr>ws_status := Running, ws_pod_name := Some (pr_pod_name r), ws_pod_uid := pr_pod_uid r,
     ws_workspace_ref := Some (pr_workspace_ref r), ws_updated_at := now, ws_last_error := None\<rparr>"

definition set_failed :: "time \<Rightarrow> string \<Rightarrow> worker_session \<Rightarrow> worker_session" where
  "set_failed now e s = s\<lparr>ws_status := Failed, ws_updated_at := now, ws_last_error := Some e, ws_notified_at := None\<rparr>"

definition has_status :: "string \<Rightarrow> worker_status \<Rightarrow> worker_db \<Rightarrow> bool" where
  "has_status i st db = (case session_by_id db i of None \<Rightarrow> False | Some s \<Rightarrow> ws_status s = st)"

text \<open>
  After the pod call: when the row is no longer spawning, a finished session is returned as it is,
  any other is cleaned up before the error is thrown. \<open>None\<close> is a call still suspended.
\<close>

definition abandon :: "string \<Rightarrow> spawn_error \<Rightarrow> spawner \<Rightarrow> spawner" where
  "abandon i e s = (if has_status i Finished (sp_db s) then end_start i s else cleanup_begin i (set_phase i (Ending e) s))"

definition start_pod_ready :: "time \<Rightarrow> bool \<Rightarrow> string \<Rightarrow> provision_receipt \<Rightarrow> spawner \<Rightarrow> spawner" where
  "start_pod_ready now current i r s =
     (if \<not> current then set_phase i (Ending disposed_error) s
      else if changed_rows (sp_db s) i (\<lambda>st. st = Spawning) \<noteq> 1 then abandon i revoked_error s
      else end_start i (on_db (update_session i (\<lambda>st. st = Spawning) (set_running now r)) s))"

definition start_pod_failed :: "time \<Rightarrow> bool \<Rightarrow> string \<Rightarrow> string \<Rightarrow> spawner \<Rightarrow> spawner" where
  "start_pod_failed now current i msg s =
     (if \<not> current then set_phase i (Ending disposed_error) s
      else abandon i (if changed_rows (sp_db s) i (\<lambda>st. st = Spawning) \<noteq> 1 then revoked_error else ProvisionFailed)
        (on_db (update_session i (\<lambda>st. st = Spawning) (set_failed now (boundedError msg))) s))"

section \<open>Dismissal\<close>

definition worker_matches :: "string \<Rightarrow> worker_db \<Rightarrow> worker_session list" where
  "worker_matches clean db = filter (\<lambda>s. ws_id s = clean \<or> ws_slug s = clean \<or> sql_like (clean @ ''%'') (ws_id s)) (wd_sessions db)"

definition resolve_worker :: "string \<Rightarrow> worker_db \<Rightarrow> spawn_error + worker_session" where
  "resolve_worker ref db =
     (if trim ref = [] then Inl (SpawnInvalid ''worker ref must be a string'')
      else let clean = (if prefix ''worker:'' ref then drop 7 ref else ref)
           in case worker_matches clean db of
                [] \<Rightarrow> Inl (SpawnNotFound ''worker session is unavailable'')
              | [s] \<Rightarrow> Inr s
              | _ \<Rightarrow> Inl (SpawnConflict ''worker ref is ambiguous''))"

definition list_sessions :: "worker_db \<Rightarrow> worker_session list" where
  "list_sessions db = sort_by (\<lambda>a b. ws_created_at b < ws_created_at a \<or> (ws_created_at a = ws_created_at b \<and> ws_id b \<le> ws_id a))
     (wd_sessions db)"

definition set_dismissed :: "time \<Rightarrow> worker_session \<Rightarrow> worker_session" where
  "set_dismissed now s = s\<lparr>ws_status := Dismissed, ws_updated_at := now\<rparr>"

text \<open>Up to the wait: the id, and whether a cleanup is still to be done.\<close>

definition dismiss_begin :: "time \<Rightarrow> bool \<Rightarrow> string \<Rightarrow> (string \<times> bool) spawning" where
  "dismiss_begin now current ref =
     andThen (require current disposed_error) (\<lambda>_.
     reads (\<lambda>s. andThen (lift (resolve_worker ref (sp_db s))) (\<lambda>x.
       let changes = changed_rows (sp_db s) (ws_id x) is_active in
       andThen (modify (on_db (update_session (ws_id x) is_active (set_dismissed now)))) (\<lambda>_.
       reads (\<lambda>s'. ok (ws_id x, \<not> (changes = 0 \<and>
         (\<not> has_status (ws_id x) Dismissed (sp_db s') \<or> cleanupCompleted (ws_id x) (sp_db s')))))))))"

definition awaits_provisioning :: "string \<Rightarrow> spawner \<Rightarrow> bool" where
  "awaits_provisioning i s \<longleftrightarrow> map_of (sp_starting s) i \<in> {Some PreparingSource, Some ProvisioningPod}"

definition dismiss_cleanup :: "bool \<Rightarrow> string \<Rightarrow> unit spawning" where
  "dismiss_cleanup current i = andThen (require current disposed_error) (\<lambda>_. modify (cleanup_begin i))"

section \<open>Recovery\<close>

definition hasDurableFinish :: "string \<Rightarrow> worker_db \<Rightarrow> bool" where
  "hasDurableFinish i db \<longleftrightarrow> finish_message db i \<noteq> None"

definition finish_times :: "string \<Rightarrow> worker_db \<Rightarrow> time list" where
  "finish_times i db = map mm_created (filter (is_finish i) (wd_messages db))"

definition finish_recovered :: "worker_db \<Rightarrow> worker_session \<Rightarrow> worker_session" where
  "finish_recovered db s = s\<lparr>ws_status := Finished,
     ws_updated_at := fold max (finish_times (ws_id s) db) (ws_updated_at s), ws_last_error := None\<rparr>"

definition recover_failed_finishes :: "worker_db \<Rightarrow> worker_db" where
  "recover_failed_finishes db = db\<lparr>wd_sessions :=
     update_where (\<lambda>s. ws_status s = Failed \<and> hasDurableFinish (ws_id s) db) (finish_recovered db) (wd_sessions db)\<rparr>"

definition finish_from_mail :: "string \<Rightarrow> worker_db \<Rightarrow> worker_db" where
  "finish_from_mail i db = update_session i is_active (finish_recovered db) db"

text \<open>One session of the pass: before its pod is inspected, and with the result (\<open>None\<close>: the inspection threw).\<close>

definition recover_before :: "string \<Rightarrow> worker_db \<Rightarrow> worker_db" where
  "recover_before i db = (if hasDurableFinish i db then finish_from_mail i db else db)"

definition pod_error :: "provision_state \<Rightarrow> string" where
  "pod_error st = (case st of PodSucceeded \<Rightarrow> ''worker Pod exited successfully without a durable finish''
     | PodFailed e \<Rightarrow> boundedError e | _ \<Rightarrow> ''worker Pod is missing'')"

definition recover_after :: "time \<Rightarrow> string \<Rightarrow> provision_state option \<Rightarrow> worker_db \<Rightarrow> worker_db" where
  "recover_after now i result db =
     (if hasDurableFinish i db then finish_from_mail i db
      else case result of
        None \<Rightarrow> db
      | Some PodPending \<Rightarrow> db
      | Some (PodReady r) \<Rightarrow> update_session i is_active (set_running now r) db
      | Some st \<Rightarrow> update_session i is_active (set_failed now (pod_error st)) db)"

definition recoverable :: "spawner \<Rightarrow> string list" where
  "recoverable s = map ws_id (filter (\<lambda>x. is_active (ws_status x) \<and> ws_id x \<notin> fst ` set (sp_starting s)) (list_sessions (sp_db s)))"

text \<open>A whole pass that stays current, with \<open>inspect\<close> the results of the inspections.\<close>

definition recover_one :: "time \<Rightarrow> (string \<Rightarrow> provision_state option) \<Rightarrow> string \<Rightarrow> worker_db \<Rightarrow> worker_db" where
  "recover_one now inspect i db =
     (if hasDurableFinish i db then recover_before i db else recover_after now i (inspect i) db)"

definition recoverState :: "time \<Rightarrow> (string \<Rightarrow> provision_state option) \<Rightarrow> spawner \<Rightarrow> spawner" where
  "recoverState now inspect s =
     (let s1 = on_db recover_failed_finishes s
      in on_db (fold (recover_one now inspect) (recoverable s1)) s1)"

section \<open>Cleanup\<close>

definition FINISH_CLEANUP_GRACE_MS :: time where
  "FINISH_CLEANUP_GRACE_MS = 30000"

definition cleanup_rows :: "worker_db \<Rightarrow> worker_session list" where
  "cleanup_rows db = sort_by (\<lambda>a b. ws_updated_at a < ws_updated_at b \<or> (ws_updated_at a = ws_updated_at b \<and> ws_id a \<le> ws_id b))
     (filter (\<lambda>s. is_terminal (ws_status s) \<and> ws_cleanup_at s = None) (wd_sessions db))"

definition first_observed :: "time \<Rightarrow> string \<Rightarrow> spawner \<Rightarrow> time" where
  "first_observed tick i s = (case map_of (sp_observed s) i of None \<Rightarrow> tick | Some t \<Rightarrow> t)"

definition still_alive :: "provision_state option \<Rightarrow> bool" where
  "still_alive st = (case st of None \<Rightarrow> True | Some PodPending \<Rightarrow> True | Some (PodReady _) \<Rightarrow> True | _ \<Rightarrow> False)"

text \<open>
  One row of the pass, given the status it was read with: a session being provisioned is skipped; a
  finished one is left alone within the grace time while its pod is alive or cannot be inspected.
  The flag tells whether the pass goes on to clean the session up.
\<close>

definition cleanup_visit :: "time \<Rightarrow> provision_state option \<Rightarrow> worker_session \<Rightarrow> spawner \<Rightarrow> bool \<times> spawner" where
  "cleanup_visit tick state x s =
     (if ws_id x \<in> fst ` set (sp_starting s) then (False, s)
      else if ws_status x = Finished then
        let first = first_observed tick (ws_id x) s;
            graceExpired = max 0 (tick - first) \<ge> FINISH_CLEANUP_GRACE_MS
        in (\<not> still_alive state \<or> graceExpired, s\<lparr>sp_observed := AList.update (ws_id x) first (sp_observed s)\<rparr>)
      else (True, s))"

definition forget_observed :: "string \<Rightarrow> spawner \<Rightarrow> spawner" where
  "forget_observed i s =
     (if cleanupCompleted i (sp_db s) then s\<lparr>sp_observed := AList.delete i (sp_observed s)\<rparr> else s)"

text \<open>A whole pass that stays current: \<open>outcome\<close> gives the error, if any, of the runtime's cleanup.\<close>

definition cleanup_one ::
  "time \<Rightarrow> time \<Rightarrow> (string \<Rightarrow> provision_state option) \<Rightarrow> (string \<Rightarrow> string option) \<Rightarrow> worker_session \<Rightarrow> spawner \<Rightarrow> spawner" where
  "cleanup_one now tick inspect outcome x s =
     (case cleanup_visit tick (inspect (ws_id x)) x s of
        (False, s1) \<Rightarrow> s1
      | (True, s1) \<Rightarrow>
          let s2 = cleanup_begin (ws_id x) s1
          in forget_observed (ws_id x)
               (if ws_id x \<in> set (sp_cleaning s2) then cleanup_end now True (ws_id x) (outcome (ws_id x)) s2 else s2))"

definition cleanupPending ::
  "time \<Rightarrow> time \<Rightarrow> (string \<Rightarrow> provision_state option) \<Rightarrow> (string \<Rightarrow> string option) \<Rightarrow> spawner \<Rightarrow> spawner" where
  "cleanupPending now tick inspect outcome s = fold (cleanup_one now tick inspect outcome) (cleanup_rows (sp_db s)) s"

definition recover ::
  "time \<Rightarrow> time \<Rightarrow> (string \<Rightarrow> provision_state option) \<Rightarrow> (string \<Rightarrow> string option) \<Rightarrow> spawner \<Rightarrow> spawner" where
  "recover now tick inspect outcome s = cleanupPending now tick inspect outcome (recoverState now inspect s)"

text \<open>What \<open>dispose\<close> of the supervisor does to the starts under way.\<close>

definition revoke_start :: "time \<Rightarrow> worker_session \<Rightarrow> worker_session" where
  "revoke_start now s = s\<lparr>ws_status := Failed, ws_updated_at := max (ws_created_at s) (max (ws_updated_at s) now),
     ws_last_error := Some ''worker supervisor stopped during provisioning'', ws_notified_at := None,
     ws_cleanup_at := None, ws_cleanup_error := None\<rparr>"

definition revokeProvisioning :: "time \<Rightarrow> spawner \<Rightarrow> spawner" where
  "revokeProvisioning now s = on_db (\<lambda>db. db\<lparr>wd_sessions :=
     update_where (\<lambda>x. ws_id x \<in> fst ` set (sp_starting s) \<and> ws_status x = Spawning) (revoke_start now) (wd_sessions db)\<rparr>) s"

end
