(* ===== verification/Worker_Invariant.thy ===== *)
theory Worker_Invariant
  imports Worker_Spawn
begin

text \<open>
  The integrity of the worker tables and its preservation by every segment of the mailbox and spawn
  brokers: identities are unique, an item has at most one active worker, the number of active workers
  stays within the configured bound, message keys are unique per session and direction, a session has
  at most one finish message, a session is finished exactly when that message exists, and a finished
  session that was bound to a source has an artifact in custody.
\<close>

section \<open>The invariant\<close>

definition sessions_inv :: "nat \<Rightarrow> worker_session list \<Rightarrow> bool" where
  "sessions_inv N ss \<longleftrightarrow> distinct (map ws_id ss) \<and> distinct (map ws_slug ss) \<and> distinct (map ws_digest ss) \<and>
     distinct (map ws_mind_id (filter (\<lambda>s. is_active (ws_status s)) ss)) \<and>
     length (filter (\<lambda>s. is_active (ws_status s)) ss) \<le> N \<and> list_all (\<lambda>s. isMindId (ws_mind_id s)) ss"

definition message_key :: "mailbox_message \<Rightarrow> string \<times> mailbox_direction \<times> string" where
  "message_key m = (mm_session m, mm_direction m, mm_key m)"

definition mail_inv :: "worker_db \<Rightarrow> bool" where
  "mail_inv db \<longleftrightarrow> rowids mm_id (wd_next_message db) (wd_messages db) \<and> sorted (map mm_id (wd_messages db)) \<and>
     distinct (map message_key (wd_messages db)) \<and>
     mm_session ` set (wd_messages db) \<subseteq> ws_id ` set (wd_sessions db) \<and>
     (\<forall>m \<in> set (wd_messages db). mm_direction m = DispatcherToWorker \<longrightarrow> mm_kind m = Message) \<and>
     distinct (map mm_session (filter (\<lambda>m. mm_kind m = Finish) (wd_messages db)))"

definition finish_inv :: "worker_db \<Rightarrow> bool" where
  "finish_inv db \<longleftrightarrow> (\<forall>s \<in> set (wd_sessions db).
     (ws_status s = Finished \<longleftrightarrow> hasDurableFinish (ws_id s) db) \<and>
     (ws_status s = Finished \<longrightarrow> in_custody db (ws_id s) (ws_source_sha256 s)))"

definition announced_inv :: "worker_db \<Rightarrow> bool" where
  "announced_inv db \<longleftrightarrow> set (wd_announced db) \<subseteq> {(mm_session m, mm_id m) | m. m \<in> set (wd_messages db) \<and> mm_kind m = Finish}"

definition worker_inv :: "nat \<Rightarrow> worker_db \<Rightarrow> bool" where
  "worker_inv N db \<longleftrightarrow> sessions_inv N (wd_sessions db) \<and> mail_inv db \<and> finish_inv db \<and> announced_inv db"

definition empty_worker_db :: worker_db where
  "empty_worker_db = \<lparr>wd_sessions = [], wd_messages = [], wd_next_message = 1, wd_artifacts = [], wd_next_artifact = 1, wd_announced = []\<rparr>"

lemma worker_inv_empty: "worker_inv N empty_worker_db"
  by (simp add: worker_inv_def sessions_inv_def mail_inv_def finish_inv_def announced_inv_def empty_worker_db_def rowids_def)

section \<open>Sessions\<close>

lemma filter_map_shrinks:
  assumes "\<forall>x \<in> set xs. key (g x) = key x \<and> (P (g x) \<longrightarrow> P x)"
  shows "subseq (map key (filter P (map g xs))) (map key (filter P xs))"
  using assms
proof (induction xs)
  case (Cons x xs)
  then have ih: "subseq (map key (filter P (map g xs))) (map key (filter P xs))" by simp
  consider "P (g x)" "P x" | "\<not> P (g x)" using Cons.prems by auto
  then show ?case using ih Cons.prems by cases auto
qed simp

lemma distinct_subseq: "subseq xs ys \<Longrightarrow> distinct ys \<Longrightarrow> distinct xs"
  by (metis distinct_nthsI subseq_conv_nths)

text \<open>An update of session rows that may retire sessions but neither activates nor renames one.\<close>

definition retires :: "worker_session \<Rightarrow> worker_session \<Rightarrow> bool" where
  "retires s s' \<longleftrightarrow> ws_id s' = ws_id s \<and> ws_slug s' = ws_slug s \<and> ws_digest s' = ws_digest s \<and> ws_mind_id s' = ws_mind_id s \<and>
     (is_active (ws_status s') \<longrightarrow> is_active (ws_status s))"

lemma sessions_inv_update:
  assumes inv: "sessions_inv N ss" and f: "\<And>s. s \<in> set ss \<Longrightarrow> p s \<Longrightarrow> retires s (f s)"
  shows "sessions_inv N (update_where p f ss)"
proof -
  let ?g = "\<lambda>s. if p s then f s else s"
  have g: "retires s (?g s)" if "s \<in> set ss" for s using f that by (simp add: retires_def)
  have keys: "map ws_id (map ?g ss) = map ws_id ss" "map ws_slug (map ?g ss) = map ws_slug ss"
    "map ws_digest (map ?g ss) = map ws_digest ss" "map ws_mind_id (map ?g ss) = map ws_mind_id ss"
    using g unfolding map_map by (auto simp: retires_def intro!: map_cong)
  have sub: "subseq (map ws_mind_id (filter (\<lambda>s. is_active (ws_status s)) (map ?g ss)))
      (map ws_mind_id (filter (\<lambda>s. is_active (ws_status s)) ss))"
    using g by (intro filter_map_shrinks) (simp add: retires_def)
  have valid: "list_all (\<lambda>s. isMindId (ws_mind_id s)) xs = list_all isMindId (map ws_mind_id xs)" for xs
    by (simp add: list.pred_map comp_def)
  have d: "distinct (map ws_mind_id (filter (\<lambda>s. is_active (ws_status s)) (map ?g ss)))"
    using distinct_subseq [OF sub] inv by (simp only: sessions_inv_def)
  have l: "length (filter (\<lambda>s. is_active (ws_status s)) (map ?g ss)) \<le> N"
    using list_emb_length [OF sub] inv unfolding sessions_inv_def length_map by linarith
  from inv show ?thesis
    unfolding sessions_inv_def update_where_def valid keys using d l by blast
qed

lemma ids_update:
  "(\<And>s. s \<in> set ss \<Longrightarrow> p s \<Longrightarrow> ws_id (f s) = ws_id s) \<Longrightarrow> map ws_id (update_where p f ss) = map ws_id ss"
  by (auto simp: update_where_def)

lemma mail_inv_sessions:
  assumes "mail_inv db" "map ws_id ss = map ws_id (wd_sessions db)"
  shows "mail_inv (db\<lparr>wd_sessions := ss\<rparr>)"
proof -
  have "ws_id ` set ss = ws_id ` set (wd_sessions db)" using assms(2) by (metis list.set_map)
  with assms(1) show ?thesis by (simp add: mail_inv_def)
qed

text \<open>
  Updating rows under an invariant: besides retiring sessions, the update may finish only sessions
  with a finish message and an artifact in custody, and never leaves that state.
\<close>

definition finishes_rightly :: "worker_db \<Rightarrow> worker_session \<Rightarrow> bool" where
  "finishes_rightly db s \<longleftrightarrow> (ws_status s = Finished \<longleftrightarrow> hasDurableFinish (ws_id s) db) \<and>
     (ws_status s = Finished \<longrightarrow> in_custody db (ws_id s) (ws_source_sha256 s))"

lemma finish_inv_iff: "finish_inv db \<longleftrightarrow> (\<forall>s \<in> set (wd_sessions db). finishes_rightly db s)"
  by (simp add: finish_inv_def finishes_rightly_def)

lemma finishes_frame [simp]: "finishes_rightly (db\<lparr>wd_sessions := ss\<rparr>) s = finishes_rightly db s"
  by (simp add: finishes_rightly_def hasDurableFinish_def finish_message_def in_custody_def cong: option.case_cong)

lemma worker_inv_update:
  assumes inv: "worker_inv N db"
    and f: "\<And>s. s \<in> set (wd_sessions db) \<Longrightarrow> p s \<Longrightarrow> retires s (f s) \<and> finishes_rightly db (f s)"
  shows "worker_inv N (db\<lparr>wd_sessions := update_where p f (wd_sessions db)\<rparr>)"
proof -
  have "sessions_inv N (update_where p f (wd_sessions db))"
    using inv f by (intro sessions_inv_update) (auto simp: worker_inv_def)
  moreover have "mail_inv (db\<lparr>wd_sessions := update_where p f (wd_sessions db)\<rparr>)"
    using inv f by (intro mail_inv_sessions ids_update) (auto simp: worker_inv_def retires_def)
  moreover have "finish_inv (db\<lparr>wd_sessions := update_where p f (wd_sessions db)\<rparr>)"
    using inv f by (auto simp: worker_inv_def finish_inv_iff set_update_where)
  moreover have "announced_inv (db\<lparr>wd_sessions := update_where p f (wd_sessions db)\<rparr>)"
    using inv by (simp add: worker_inv_def announced_inv_def)
  ultimately show ?thesis by (simp add: worker_inv_def)
qed

section \<open>Messages\<close>

lemma is_finish_kind: "is_finish i m \<longleftrightarrow> mm_session m = i \<and> mm_kind m = Finish"
  if "mm_direction m = DispatcherToWorker \<longrightarrow> mm_kind m = Message" for m
  using that by (cases "mm_direction m") (auto simp: is_finish_def)

lemma durable_iff: "hasDurableFinish i db \<longleftrightarrow> (\<exists>m \<in> set (wd_messages db). is_finish i m)"
  by (auto simp: hasDurableFinish_def finish_message_def find_None_iff)

lemma existing_None:
  "existing db i dir key = None \<longleftrightarrow> (i, dir, key) \<notin> message_key ` set (wd_messages db)"
  by (auto simp: existing_def find_None_iff message_key_def image_iff)

lemma session_by_id_None: "session_by_id db i = None \<longleftrightarrow> i \<notin> ws_id ` set (wd_sessions db)"
  by (simp add: session_by_id_def find_key_None)

lemma mail_inv_append:
  assumes inv: "mail_inv db" and ok: "\<not> violates db m" and id: "mm_id m = wd_next_message db"
  shows "mail_inv (append_message m db)"
proof -
  have rows: "rowids mm_id (wd_next_message db + 1) (wd_messages db @ [m])"
    using inv id by (intro rowids_append) (simp_all add: mail_inv_def)
  have below: "mm_id x < mm_id m" if "x \<in> set (wd_messages db)" for x
    using inv that id by (auto simp: mail_inv_def rowids_def)
  have dirs: "\<forall>x \<in> set (wd_messages db @ [m]). mm_direction x = DispatcherToWorker \<longrightarrow> mm_kind x = Message"
    using inv ok by (cases "mm_kind m") (auto simp: mail_inv_def violates_def)
  have "mm_session m \<notin> mm_session ` set (filter (\<lambda>x. mm_kind x = Finish) (wd_messages db))" if fin: "mm_kind m = Finish"
  proof -
    have "is_finish (mm_session m) m" using fin dirs by (simp add: is_finish_kind)
    with ok have "\<not> hasDurableFinish (mm_session m) db" by (simp add: violates_def hasDurableFinish_def)
    then show ?thesis using dirs by (force simp: durable_iff is_finish_kind)
  qed
  moreover have "message_key m \<notin> message_key ` set (wd_messages db)"
    using ok by (simp add: violates_def existing_None message_key_def)
  moreover have "mm_session m \<in> ws_id ` set (wd_sessions db)" using ok by (simp add: violates_def session_by_id_None)
  ultimately show ?thesis
    using inv rows dirs below
    by (auto simp: mail_inv_def append_message_def sorted_append less_imp_le)
qed

text \<open>An update of message rows that keeps what identifies a message and what it says.\<close>

lemma mail_inv_messages:
  assumes inv: "mail_inv db"
    and f: "\<And>m. mm_id (f m) = mm_id m" "\<And>m. mm_session (f m) = mm_session m" "\<And>m. mm_direction (f m) = mm_direction m"
      "\<And>m. mm_kind (f m) = mm_kind m" "\<And>m. mm_key (f m) = mm_key m"
  shows "mail_inv (db\<lparr>wd_messages := update_where p f (wd_messages db)\<rparr>)"
proof -
  let ?ms = "update_where p f (wd_messages db)"
  have key: "message_key (f m) = message_key m" for m by (simp add: message_key_def f)
  have fin: "map mm_session (filter (\<lambda>m. mm_kind m = Finish) ?ms) = map mm_session (filter (\<lambda>m. mm_kind m = Finish) (wd_messages db))"
    by (induction "wd_messages db" arbitrary: db) (auto simp: update_where_def filter_map comp_def f intro!: map_cong)
  show ?thesis
    using inv fin unfolding mail_inv_def
    by (auto simp: map_update_where [where g = mm_id, OF f(1)] map_update_where [where g = message_key, OF key] rowids_update f
        set_update_where)
qed

lemma worker_inv_messages:
  assumes inv: "worker_inv N db"
    and f: "\<And>m. mm_id (f m) = mm_id m" "\<And>m. mm_session (f m) = mm_session m" "\<And>m. mm_direction (f m) = mm_direction m"
      "\<And>m. mm_kind (f m) = mm_kind m" "\<And>m. mm_key (f m) = mm_key m"
  shows "worker_inv N (db\<lparr>wd_messages := update_where p f (wd_messages db)\<rparr>)"
proof -
  let ?ms = "update_where p f (wd_messages db)" and ?db = "db\<lparr>wd_messages := update_where p f (wd_messages db)\<rparr>"
  have dur: "hasDurableFinish i ?db = hasDurableFinish i db" for i
  proof -
    have "is_finish i (f m) = is_finish i m" for m by (simp add: is_finish_def f)
    then show ?thesis by (simp add: durable_iff set_update_where bex_Un) blast
  qed
  have "mail_inv ?db" using inv f by (intro mail_inv_messages) (simp_all add: worker_inv_def)
  moreover have "finish_inv ?db"
    using inv by (simp add: worker_inv_def finish_inv_def dur in_custody_def cong: option.case_cong)
  moreover have "announced_inv ?db"
  proof -
    have "\<exists>m' \<in> set ?ms. mm_session m' = mm_session m \<and> mm_id m' = mm_id m \<and> mm_kind m' = mm_kind m"
      if "m \<in> set (wd_messages db)" for m
      using that f by (intro bexI [of _ "if p m then f m else m"]) (auto simp: update_where_def)
    then have "{(mm_session m, mm_id m) |m. m \<in> set (wd_messages db) \<and> mm_kind m = Finish} \<subseteq>
        {(mm_session m, mm_id m) |m. m \<in> set ?ms \<and> mm_kind m = Finish}" by clarsimp metis
    moreover have "announced_inv db" using inv by (simp add: worker_inv_def)
    ultimately show ?thesis unfolding announced_inv_def by simp
  qed
  ultimately show ?thesis using inv by (simp add: worker_inv_def)
qed

lemma announced_append: "announced_inv db \<Longrightarrow> announced_inv (append_message m db)"
  by (auto simp: announced_inv_def append_message_def)

lemma worker_inv_message:
  assumes inv: "worker_inv N db" and ok: "\<not> violates db m" and id: "mm_id m = wd_next_message db" and kind: "mm_kind m = Message"
  shows "worker_inv N (append_message m db)"
proof -
  have "hasDurableFinish i (append_message m db) = hasDurableFinish i db" for i
    using kind by (auto simp: durable_iff append_message_def is_finish_def)
  then have "finish_inv (append_message m db)"
    using inv by (simp add: worker_inv_def finish_inv_def append_message_def in_custody_def cong: option.case_cong)
  then show ?thesis
    using inv mail_inv_append [OF _ ok id] announced_append by (simp add: worker_inv_def) (simp add: append_message_def)
qed

text \<open>The finish message and the end of its session, together.\<close>

lemma worker_inv_finish:
  assumes inv: "worker_inv N db" and ok: "\<not> violates db m" and id: "mm_id m = wd_next_message db"
    and fin: "is_finish i m" and s: "session_by_id db i = Some s" "is_active (ws_status s)" "in_custody db i (ws_source_sha256 s)"
  shows "worker_inv N (update_session i is_active (finish_now t) (append_message m db))"
proof -
  let ?db = "append_message m db"
  let ?ss = "update_where (\<lambda>s. ws_id s = i \<and> is_active (ws_status s)) (finish_now t) (wd_sessions db)"
  have eq: "update_session i is_active (finish_now t) ?db = ?db\<lparr>wd_sessions := ?ss\<rparr>"
    by (simp add: update_session_def append_message_def)
  have frame: "wd_sessions ?db = wd_sessions db" "in_custody ?db = in_custody db"
    by (auto simp: append_message_def in_custody_def fun_eq_iff split: option.split)
  have ids: "distinct (map ws_id (wd_sessions db))" using inv by (simp add: worker_inv_def sessions_inv_def)
  have dur: "hasDurableFinish j ?db \<longleftrightarrow> j = i \<or> hasDurableFinish j db" for j
    using fin by (auto simp: durable_iff append_message_def is_finish_def)
  have only: "x = s" if "x \<in> set (wd_sessions db)" "ws_id x = i" for x
    using find_key_in_set [OF ids that(1)] that(2) s(1) by (simp add: session_by_id_def)
  have "sessions_inv N ?ss"
    using inv by (intro sessions_inv_update) (auto simp: worker_inv_def retires_def finish_now_def is_active_def)
  moreover have "mail_inv (?db\<lparr>wd_sessions := ?ss\<rparr>)"
    using mail_inv_append [OF _ ok id] inv
    by (intro mail_inv_sessions) (simp_all add: worker_inv_def frame map_update_where finish_now_def)
  moreover have "finish_inv (?db\<lparr>wd_sessions := ?ss\<rparr>)"
    unfolding finish_inv_iff finishes_frame
  proof
    fix x assume "x \<in> set (wd_sessions (?db\<lparr>wd_sessions := ?ss\<rparr>))"
    then consider "x = finish_now t s" | "x \<in> set (wd_sessions db)" "ws_id x \<noteq> i"
      using only s(2) by (auto simp: set_update_where)
    then show "finishes_rightly ?db x"
    proof cases
      case 1
      moreover have "ws_id s = i" using s(1) by (auto simp: session_by_id_def dest: find_SomeD)
      ultimately show ?thesis using s(3) by (simp add: finishes_rightly_def finish_now_def dur frame)
    next
      case 2
      then show ?thesis using inv by (simp add: worker_inv_def finish_inv_def finishes_rightly_def dur frame)
    qed
  qed
  moreover have "announced_inv (?db\<lparr>wd_sessions := ?ss\<rparr>)"
    using inv announced_append [of db m] by (simp add: worker_inv_def announced_inv_def)
  ultimately show ?thesis unfolding eq by (simp add: worker_inv_def)
qed

section \<open>Mailbox operations\<close>

lemma session_in: "session_by_id db i = Some s \<Longrightarrow> s \<in> set (wd_sessions db) \<and> ws_id s = i"
  by (auto simp: session_by_id_def dest: find_SomeD)

lemma new_message_fields [simp]:
  "mm_id (new_message db sid dir kind key sender body now) = wd_next_message db"
  "mm_kind (new_message db sid dir kind key sender body now) = kind"
  "mm_session (new_message db sid dir kind key sender body now) = sid"
  "mm_direction (new_message db sid dir kind key sender body now) = dir"
  "mm_key (new_message db sid dir kind key sender body now) = key"
  "mm_sender (new_message db sid dir kind key sender body now) = sender"
  "mm_body (new_message db sid dir kind key sender body now) = body"
  "mm_created (new_message db sid dir kind key sender body now) = now"
  "mm_acked (new_message db sid dir kind key sender body now) = None"
  by (simp_all add: new_message_def)

lemma existing_SomeD:
  "existing db sid dir key = Some m \<Longrightarrow> m \<in> set (wd_messages db) \<and> mm_session m = sid \<and> mm_direction m = dir \<and> mm_key m = key"
  by (auto simp: existing_def dest: find_SomeD)

lemma safe_mailbox_insert:
  "worker_inv N db \<Longrightarrow> safe_at (worker_inv N) (mailbox_insert now sid dir Message key sender body) db"
  unfolding mailbox_insert_def
  by (rule safe_intro, cases "existing db sid dir key")
    (auto simp: safe_at_def action_simps insert_row_def Let_def intro: worker_inv_message)

lemma finish_again_inv:
  assumes inv: "worker_inv N db" and prior: "existing db i WorkerToDispatcher key = Some m" "mm_kind m = Finish"
  shows "worker_inv N (update_session i may_finish (finish_again t) db)"
  unfolding update_session_def
proof (rule worker_inv_update [OF inv])
  fix s assume s: "s \<in> set (wd_sessions db)" "ws_id s = i \<and> may_finish (ws_status s)"
  have "hasDurableFinish i db" using existing_SomeD [OF prior(1)] prior(2) by (auto simp: durable_iff is_finish_def)
  with inv s have "ws_status s = Finished \<and> in_custody db i (ws_source_sha256 s)"
    by (auto simp: worker_inv_def finish_inv_def)
  with \<open>hasDurableFinish i db\<close> s show "retires s (finish_again t s) \<and> finishes_rightly db (finish_again t s)"
    by (simp add: retires_def finishes_rightly_def finish_again_def)
qed

text \<open>What \<open>insertFinish\<close> can do: refuse, confirm the finish that is there, or commit a new one.\<close>

lemma insertFinish_cases:
  obtains (error) e where "insertFinish now b key body db = (Inl e, db)"
  | (again) m where "existing db (sb_session b) WorkerToDispatcher key = Some m" "same_content m Finish (sb_worker b) body"
      "insertFinish now b key body db = (Inr m, update_session (sb_session b) may_finish (finish_again (mm_created m)) db)"
  | (fresh) m s where "m = new_message db (sb_session b) WorkerToDispatcher Finish key (sb_worker b) body now"
      "existing db (sb_session b) WorkerToDispatcher key = None" "finish_message db (sb_session b) = None"
      "session_by_id db (sb_session b) = Some s" "is_active (ws_status s)" "in_custody db (sb_session b) (ws_source_sha256 s)"
      "\<not> violates db m"
      "insertFinish now b key body db = (Inr m, update_session (sb_session b) is_active (finish_now now) (append_message m db))"
proof (cases "existing db (sb_session b) WorkerToDispatcher key")
  case (Some m)
  then show thesis
    using error again by (cases "same_content m Finish (sb_worker b) body") (auto simp: insertFinish_def action_simps)
next
  case None
  let ?m = "new_message db (sb_session b) WorkerToDispatcher Finish key (sb_worker b) body now"
  show thesis
  proof (cases "session_by_id db (sb_session b)")
    case N: None
    with None have "\<exists>e. insertFinish now b key body db = (Inl e, db)"
      by (cases "finish_message db (sb_session b)") (simp_all add: insertFinish_def action_simps)
    then show thesis using error by blast
  next
    case (Some s)
    show thesis
    proof (cases "finish_message db (sb_session b) = None \<and> is_active (ws_status s) \<and>
        in_custody db (sb_session b) (ws_source_sha256 s) \<and> \<not> violates db ?m \<and>
        changed_rows (append_message ?m db) (sb_session b) is_active = 1")
      case True
      with None Some show thesis
        by (intro fresh [of ?m s]) (simp_all add: insertFinish_def action_simps insert_row_def Let_def)
    next
      case False
      with None Some have "\<exists>e. insertFinish now b key body db = (Inl e, db)"
        by (cases "finish_message db (sb_session b) \<noteq> None"; cases "is_active (ws_status s)";
            cases "in_custody db (sb_session b) (ws_source_sha256 s)"; cases "violates db ?m")
          (simp_all add: insertFinish_def action_simps insert_row_def Let_def)
      then show thesis using error by blast
    qed
  qed
qed

lemma safe_insertFinish:
  assumes inv: "worker_inv N db"
  shows "safe_at (worker_inv N) (insertFinish now b key body) db"
proof (cases now b key body db rule: insertFinish_cases)
  case (again m)
  with inv show ?thesis by (simp add: safe_at_def finish_again_inv same_content_def)
next
  case (fresh m s)
  with inv show ?thesis
    by (simp add: safe_at_def) (rule worker_inv_finish, simp_all add: is_finish_def)
qed (use inv in \<open>simp add: safe_at_def\<close>)

lemma ack_inv: "worker_inv N db \<Longrightarrow> worker_inv N (ack_rows now sid dir ids db)"
  unfolding ack_rows_def by (rule worker_inv_messages) simp_all

lemma safe_acknowledge: "worker_inv N db \<Longrightarrow> safe_at (worker_inv N) (acknowledge now sid dir ids) db"
  unfolding acknowledge_def
  by (cases "boundedIds ids") (auto simp: safe_at_def action_simps ack_inv)

lemma announce_inv:
  assumes "worker_inv N db" "m \<in> set (wd_messages db)" "mm_kind m = Finish"
  shows "worker_inv N (announce m db)"
proof -
  have "finish_inv (announce m db) = finish_inv db"
    by (simp add: finish_inv_def announce_def hasDurableFinish_def finish_message_def in_custody_def cong: option.case_cong)
  moreover have "mail_inv (announce m db) = mail_inv db" by (simp add: mail_inv_def announce_def)
  moreover have "announced_inv (announce m db)" using assms by (auto simp: worker_inv_def announced_inv_def announce_def)
  ultimately show ?thesis using assms(1) by (simp add: worker_inv_def) (simp add: announce_def)
qed

text \<open>A committed or confirmed finish is in the table, so it may be announced.\<close>

lemma insertFinish_message:
  assumes "insertFinish now b key body db = (Inr m, db')"
  shows "m \<in> set (wd_messages db') \<and> is_finish (sb_session b) m \<and> mm_key m = key \<and> same_content m Finish (sb_worker b) body"
proof (cases now b key body db rule: insertFinish_cases)
  case (again m')
  with assms existing_SomeD [OF again(1)] show ?thesis
    by (auto simp: is_finish_def same_content_def update_session_def)
next
  case (fresh m' s)
  with assms show ?thesis by (auto simp: is_finish_def same_content_def update_session_def append_message_def)
qed (use assms in simp)

lemma finish_then_announce:
  assumes "worker_inv N db" "insertFinish now b key body db = (Inr m, db')"
  shows "worker_inv N db' \<and> worker_inv N (announce m db')"
proof -
  have "worker_inv N db'" using safe_insertFinish [OF assms(1), of now b key body] assms(2) by (simp add: safe_at_def)
  with insertFinish_message [OF assms(2)] show ?thesis by (simp add: announce_inv is_finish_def)
qed

lemma terminal_cases:
  obtains (none) "terminalFinishRetry sha now tok key body db = (Inr None, db)"
  | (retry) s where "find (\<lambda>s. ws_digest s = sha tok) (wd_sessions db) = Some s" "ws_status s = Finished \<or> ws_status s = Failed"
      "terminalFinishRetry sha now tok key body db =
        (case insertFinish now (binding_of s) key body db of
           (Inl e, d) \<Rightarrow> (Inl e, d) | (Inr m, d) \<Rightarrow> (Inr (Some (binding_of s, m)), d))"
proof (cases "workerControlTokenDigest sha tok")
  case None
  then show thesis using none by (simp add: terminalFinishRetry_def action_simps)
next
  case (Some d)
  then have d: "d = sha tok" by (simp add: workerControlTokenDigest_def split: if_splits)
  show thesis
  proof (cases "find (\<lambda>s. ws_digest s = d) (wd_sessions db)")
    case None
    with Some show thesis using none by (simp add: terminalFinishRetry_def action_simps)
  next
    case S: (Some s)
    let ?bad = "(ws_status s \<noteq> Finished \<and> ws_status s \<noteq> Failed) \<or> \<not> verifyWorkerControlToken sha tok (ws_digest s) \<or>
      \<not> known_runtime (ws_runtime s)"
    show thesis
    proof (cases "?bad \<or> existing db (ws_id s) WorkerToDispatcher key = None \<or>
        \<not> same_content (the (existing db (ws_id s) WorkerToDispatcher key)) Finish (sb_worker (binding_of s)) body")
      case True
      then have "terminalFinishRetry sha now tok key body db = (Inr None, db)"
        using Some S by (cases ?bad; cases "existing db (ws_id s) WorkerToDispatcher key")
          (auto simp: terminalFinishRetry_def action_simps)
      then show thesis by (rule none)
    next
      case False
      with S Some show thesis
        by (intro retry [of s]) (auto simp: terminalFinishRetry_def action_simps d split: prod.split sum.split)
    qed
  qed
qed

text \<open>\<open>postFromWorker\<close> after its checks: one insertion, and a finish is announced.\<close>

lemma postFromWorker_cases:
  obtains (error) e where "postFromWorker sha now tok keyValue kindValue bodyValue db = (Inl e, db)"
  | (message) b where "resolveWorkerSession sha db tok = Some b" "messageKey keyValue = Inr keyValue" "kindValue = ''message''"
      "postFromWorker sha now tok keyValue kindValue bodyValue db =
        mailbox_insert now (sb_session b) WorkerToDispatcher Message keyValue (sb_worker b) bodyValue db"
  | (finish) b m db' where "insertFinish now b keyValue bodyValue db = (Inr m, db')" "kindValue = ''finish''"
      "messageKey keyValue = Inr keyValue" "boundedText bodyValue ''body'' 100000 = Inr bodyValue"
      "resolveWorkerSession sha db tok = Some b \<or>
        (\<exists>s. find (\<lambda>s. ws_digest s = sha tok) (wd_sessions db) = Some s \<and> b = binding_of s \<and> ws_status s \<in> {Finished, Failed})"
      "postFromWorker sha now tok keyValue kindValue bodyValue db = (Inr m, announce m db')"
proof -
  have bt: "boundedText v l n = Inr x \<Longrightarrow> x = v" for v l n x by (auto simp: boundedText_def split: if_splits)
  have mk: "messageKey v = Inr x \<Longrightarrow> x = v" for v x by (auto simp: messageKey_def bindR_Inr_iff split: if_splits dest: bt)
  have err: "\<exists>e. insertFinish now b k x db = (Inl e, db)" if "\<nexists>m d. insertFinish now b k x db = (Inr m, d)" for b k x
    by (cases now b k x db rule: insertFinish_cases) (use that in auto)
  consider (bad) "(\<exists>e. parse_kind kindValue = Inl e) \<or> (\<exists>e. messageKey keyValue = Inl e) \<or> (\<exists>e. boundedText bodyValue ''body'' 100000 = Inl e)"
    | (good) kind where "parse_kind kindValue = Inr kind" "messageKey keyValue = Inr keyValue" "boundedText bodyValue ''body'' 100000 = Inr bodyValue"
    using bt mk by (metis sum.exhaust)
  then show thesis
  proof cases
    case bad
    then have "\<exists>e. postFromWorker sha now tok keyValue kindValue bodyValue db = (Inl e, db)"
      by (cases "parse_kind kindValue"; cases "messageKey keyValue"; cases "boundedText bodyValue ''body'' 100000")
        (auto simp: postFromWorker_def action_simps Let_def)
    then show thesis using error by blast
  next
    case good
    note eval = postFromWorker_def action_simps Let_def good
    show thesis
    proof (cases "resolveWorkerSession sha db tok")
      case None
      show thesis
      proof (cases sha now tok keyValue bodyValue db rule: terminal_cases)
        case none
        with None have "postFromWorker sha now tok keyValue kindValue bodyValue db = (Inl WorkerUnavailable, db)"
          by (simp add: eval)
        then show thesis by (rule error)
      next
        case (retry s)
        consider "kind = Message" | e where "insertFinish now (binding_of s) keyValue bodyValue db = (Inl e, db)" "kind = Finish"
          | m d where "insertFinish now (binding_of s) keyValue bodyValue db = (Inr m, d)" "kind = Finish"
          by (cases kind) (use err [of "binding_of s" keyValue bodyValue] in blast)+
        then show thesis
        proof cases
          case 1
          with None have "postFromWorker sha now tok keyValue kindValue bodyValue db = (Inl WorkerUnavailable, db)"
            by (simp add: eval)
          then show thesis by (rule error)
        next
          case 2
          with None retry show thesis by (intro error [of e]) (simp add: eval)
        next
          case 3
          with None retry have run: "postFromWorker sha now tok keyValue kindValue bodyValue db = (Inr m, announce m d)"
            by (simp add: eval)
          from good(1) 3(2) have "kindValue = ''finish''" by (simp add: parse_kind_def split: if_splits)
          then show thesis using finish [OF 3(1)] run retry(1,2) good(2,3) by blast
        qed
      qed
    next
      case (Some b)
      consider "kind = Message" | e where "insertFinish now b keyValue bodyValue db = (Inl e, db)" "kind = Finish"
        | m d where "insertFinish now b keyValue bodyValue db = (Inr m, d)" "kind = Finish"
        by (cases kind) (use err [of b keyValue bodyValue] in blast)+
      then show thesis
      proof cases
        case 1
        with Some have run: "postFromWorker sha now tok keyValue kindValue bodyValue db =
            mailbox_insert now (sb_session b) WorkerToDispatcher Message keyValue (sb_worker b) bodyValue db"
          by (simp add: eval split: prod.split sum.split)
        from good(1) 1 have "kindValue = ''message''" by (simp add: parse_kind_def split: if_splits)
        then show thesis using message [OF Some good(2)] run by blast
      next
        case 2
        with Some show thesis by (intro error [of e]) (simp add: eval)
      next
        case 3
        with Some have run: "postFromWorker sha now tok keyValue kindValue bodyValue db = (Inr m, announce m d)"
          by (simp add: eval)
        from good(1) 3(2) have "kindValue = ''finish''" by (simp add: parse_kind_def split: if_splits)
        then show thesis using finish [OF 3(1)] run Some good(2,3) by blast
      qed
    qed
  qed
qed

end
