(* ===== verification/Worker_Lifecycle.thy ===== *)
theory Worker_Lifecycle
  imports Worker_Invariant Mind_Correct
begin

text \<open>
  The worker brokers as one system: every segment of the mailbox, workspace and spawn brokers, in any
  order and any interleaving, keeps the invariant of the worker tables. The properties of the session
  lifecycle follow.
\<close>

section \<open>Segments keep the invariant\<close>

lemma safe_send: "worker_inv N db \<Longrightarrow> safe_at (worker_inv N) (sendToWorker now sid key body sender) db"
  unfolding sendToWorker_def dispatcherSession_def
  by (rule safe_andThen)
    (auto simp: safe_at_def [of _ "reads _"] action_simps split: option.split intro!: safe_intro safe_mailbox_insert)

lemma safe_post: "worker_inv N db \<Longrightarrow> safe_at (worker_inv N) (postFromWorker sha now tok key kind body) db"
proof (cases sha now tok key kind body db rule: postFromWorker_cases)
  case (message b)
  then show "worker_inv N db \<Longrightarrow> ?thesis" using safe_mailbox_insert [of N db now "sb_session b" WorkerToDispatcher key "sb_worker b" body]
    by (simp add: safe_at_def)
next
  case (finish b m db')
  then show "worker_inv N db \<Longrightarrow> ?thesis" using finish_then_announce by (simp add: safe_at_def)
qed (simp add: safe_at_def)

lemma safe_ackForWorker: "worker_inv N db \<Longrightarrow> safe_at (worker_inv N) (acknowledgeForWorker sha now tok ids) db"
  unfolding acknowledgeForWorker_def worker_bound_def
  by (rule safe_andThen) (auto simp: safe_at_def [of _ "reads _"] action_simps safe_acknowledge split: option.split)

lemma safe_ackFromWorker: "worker_inv N db \<Longrightarrow> safe_at (worker_inv N) (acknowledgeFromWorker now sid ids) db"
  unfolding acknowledgeFromWorker_def dispatcherSession_def
  by (rule safe_andThen) (auto simp: safe_at_def [of _ "reads _"] action_simps safe_acknowledge split: option.split)

text \<open>Custody only grows.\<close>

lemma worker_inv_artifact:
  assumes "worker_inv N db"
  shows "worker_inv N (db\<lparr>wd_artifacts := wd_artifacts db @ [a], wd_next_artifact := n\<rparr>)" (is "worker_inv N ?db")
proof -
  have "in_custody db i h \<Longrightarrow> in_custody ?db i h" for i h
    by (auto simp: in_custody_def split: option.splits)
  moreover have "hasDurableFinish i ?db = hasDurableFinish i db" for i by (simp add: durable_iff)
  ultimately have "finish_inv ?db" using assms by (simp add: worker_inv_def finish_inv_def)
  with assms show ?thesis by (simp add: worker_inv_def mail_inv_def announced_inv_def)
qed

lemma safe_putArtifact:
  assumes inv: "worker_inv N (wk_db w)"
  shows "worker_inv N (wk_db (snd (putArtifactForWorker sha shab wo now tok x w)))"
proof -
  have keep: "wk_db (write_file p d v) = wk_db v" "wk_db (remove_file p v) = wk_db v" for p d v
    by (simp_all add: write_file_def remove_file_def)
  have "wk_db (snd (artifactFile shab i k w)) = wk_db w" for i k
    by (simp add: artifactFile_def action_simps split: option.split)
  with inv show ?thesis
    unfolding putArtifactForWorker_def
    by (auto simp: action_simps keep add_artifact_def Let_def worker_inv_artifact split: option.split sum.split)
qed

lemma worker_inv_update_open:
  assumes inv: "worker_inv N db"
    and f: "\<And>s. s \<in> set (wd_sessions db) \<Longrightarrow> p s \<Longrightarrow> retires s (f s) \<and> ws_status s \<noteq> Finished \<and> ws_status (f s) \<noteq> Finished"
  shows "worker_inv N (db\<lparr>wd_sessions := update_where p f (wd_sessions db)\<rparr>)"
proof (rule worker_inv_update [OF inv])
  fix s assume s: "s \<in> set (wd_sessions db)" "p s"
  have "\<not> hasDurableFinish (ws_id s) db" using inv s f [OF s] by (auto simp: worker_inv_def finish_inv_def)
  with f [OF s] show "retires s (f s) \<and> finishes_rightly db (f s)" by (simp add: finishes_rightly_def retires_def)
qed

lemma spawn_updates:
  "retires s (bind_source now r s)" "ws_status (bind_source now r s) = ws_status s"
  "retires s (fail_source t msg s)" "ws_status (fail_source t msg s) = Failed"
  "is_active (ws_status s) \<Longrightarrow> retires s (set_running now pr s)" "ws_status (set_running now pr s) = Running"
  "retires s (set_failed now e s)" "ws_status (set_failed now e s) = Failed"
  "retires s (set_dismissed now s)" "ws_status (set_dismissed now s) = Dismissed"
  "retires s (revoke_start now s)" "ws_status (revoke_start now s) = Failed"
  by (simp_all add: retires_def bind_source_def fail_source_def set_running_def set_failed_def set_dismissed_def revoke_start_def
      is_active_def)

lemma active_not_finished: "is_active st \<Longrightarrow> st \<noteq> Finished"
  by (auto simp: is_active_def)

lemma cleanup_inv:
  assumes inv: "worker_inv N db"
  shows "worker_inv N (db\<lparr>wd_sessions := update_where (uncleaned i) (record_cleanup now outcome) (wd_sessions db)\<rparr>)"
proof (rule worker_inv_update [OF inv])
  fix s assume "s \<in> set (wd_sessions db)"
  with inv have "finishes_rightly db s" by (simp add: worker_inv_def finish_inv_iff)
  then show "retires s (record_cleanup now outcome s) \<and> finishes_rightly db (record_cleanup now outcome s)"
    by (cases outcome) (simp_all add: retires_def finishes_rightly_def record_cleanup_def)
qed

text \<open>
  A session with a finish message is finished already in every state the brokers reach, so the
  recovery updates find nothing to repair there.
\<close>

lemma recovered_inv:
  assumes inv: "worker_inv N db" and p: "\<And>s. s \<in> set (wd_sessions db) \<Longrightarrow> p s \<Longrightarrow> ws_status s \<noteq> Finished \<and> hasDurableFinish (ws_id s) db"
  shows "worker_inv N (db\<lparr>wd_sessions := update_where p f (wd_sessions db)\<rparr>)"
proof (rule worker_inv_update [OF inv])
  fix s assume "s \<in> set (wd_sessions db)" "p s"
  with p inv show "retires s (f s) \<and> finishes_rightly db (f s)" by (auto simp: worker_inv_def finish_inv_def)
qed

lemma recover_inv:
  assumes inv: "worker_inv N db"
  shows "worker_inv N (recover_failed_finishes db)" "worker_inv N (recover_before i db)" "worker_inv N (recover_after now i res db)"
proof -
  have mail: "worker_inv N (finish_from_mail i db)" if "hasDurableFinish i db"
    unfolding finish_from_mail_def update_session_def
    by (rule recovered_inv [OF inv]) (use that active_not_finished in auto)
  show "worker_inv N (recover_failed_finishes db)"
    unfolding recover_failed_finishes_def by (rule recovered_inv [OF inv]) auto
  show "worker_inv N (recover_before i db)" using mail inv by (simp add: recover_before_def)
  have "worker_inv N (update_session i is_active (set_running now r) db)" "worker_inv N (update_session i is_active (set_failed now e) db)" for r e
    unfolding update_session_def
    by (rule worker_inv_update_open [OF inv], use active_not_finished spawn_updates in auto)+
  then show "worker_inv N (recover_after now i res db)"
    using mail inv by (simp add: recover_after_def split: option.split provision_state.split)
qed

lemma reserve_cases:
  obtains (error) e where "reserve_session cf now cands draw ref mindId d db = (Inl e, db)"
  | (reserved) i n where "reserve_session cf now cands draw ref mindId d db = (Inr i, db\<lparr>wd_sessions := wd_sessions db @ [n]\<rparr>)"
      "n = new_session i (generateWorkerSlug draw (map ws_slug (wd_sessions db))) ref mindId d now"
      "\<not> session_conflict db n" "length (active_sessions db) < cf_max cf" "i \<in> set cands"
proof (cases "length (active_sessions db) \<ge> cf_max cf \<or> mindId \<in> ws_mind_id ` set (active_sessions db) \<or> pick_id cands db = None")
  case True
  then have "\<exists>e. reserve_session cf now cands draw ref mindId d db = (Inl e, db)"
    by (cases "cf_max cf \<le> length (active_sessions db)"; cases "mindId \<in> ws_mind_id ` set (active_sessions db)")
      (simp_all add: reserve_session_def action_simps)
  then show thesis using error by blast
next
  case False
  then obtain i where i: "pick_id cands db = Some i" by auto
  then have "i \<in> set cands" by (auto simp: pick_id_def dest!: find_SomeD in_set_takeD)
  let ?n = "new_session i (generateWorkerSlug draw (map ws_slug (wd_sessions db))) ref mindId d now"
  show thesis
  proof (cases "session_conflict db ?n")
    case True
    with False i show thesis by (intro error [of "SpawnConflict ''constraint failed''"]) (simp add: reserve_session_def action_simps Let_def)
  next
    case fine: False
    with False i \<open>i \<in> set cands\<close> show thesis
      by (intro reserved [OF _ refl fine]) (simp_all add: reserve_session_def action_simps Let_def)
  qed
qed

lemma reserve_inv:
  assumes inv: "worker_inv (cf_max cf) db" and mind: "isMindId mindId"
  shows "worker_inv (cf_max cf) (snd (reserve_session cf now cands draw ref mindId d db))"
proof (cases cf now cands draw ref mindId d db rule: reserve_cases)
  case (reserved i n)
  have n: "ws_status n = Spawning" "is_active (ws_status n)" "ws_mind_id n = mindId" "isMindId (ws_mind_id n)"
    using reserved(2) mind by (simp_all add: new_session_def is_active_def)
  have "sessions_inv (cf_max cf) (wd_sessions db @ [n])"
    using inv reserved(3,4) n by (auto simp: worker_inv_def sessions_inv_def session_conflict_def active_sessions_def)
  moreover have "mail_inv (db\<lparr>wd_sessions := wd_sessions db @ [n]\<rparr>)" using inv by (auto simp: worker_inv_def mail_inv_def)
  moreover have "\<not> hasDurableFinish (ws_id n) db"
  proof -
    have "mm_session ` set (wd_messages db) \<subseteq> ws_id ` set (wd_sessions db)" "ws_id n \<notin> ws_id ` set (wd_sessions db)"
      using inv reserved(3) by (simp_all add: worker_inv_def mail_inv_def session_conflict_def)
    then have fresh: "ws_id n \<notin> mm_session ` set (wd_messages db)" by blast
    then show ?thesis by (auto simp: durable_iff is_finish_def image_iff)
  qed
  then have "finishes_rightly db n" using n(1) by (simp add: finishes_rightly_def)
  then have "finish_inv (db\<lparr>wd_sessions := wd_sessions db @ [n]\<rparr>)"
    using inv by (simp add: worker_inv_def finish_inv_iff)
  moreover have "announced_inv (db\<lparr>wd_sessions := wd_sessions db @ [n]\<rparr>)" using inv by (simp add: worker_inv_def announced_inv_def)
  ultimately show ?thesis using reserved(1) by (simp add: worker_inv_def)
qed (use inv in simp)

section \<open>The system\<close>

text \<open>Beside the tables: starts and cleanups under way are listed once.\<close>

definition spawn_inv :: "nat \<Rightarrow> spawner \<Rightarrow> bool" where
  "spawn_inv N s \<longleftrightarrow> worker_inv N (sp_db s) \<and> distinct (map fst (sp_starting s)) \<and> distinct (sp_cleaning s)"

lemma spawn_inv_db [intro]: "spawn_inv N s \<Longrightarrow> worker_inv N (f (sp_db s)) \<Longrightarrow> spawn_inv N (on_db f s)"
  by (simp add: spawn_inv_def on_db_def)

lemma spawn_inv_phase [intro]: "spawn_inv N s \<Longrightarrow> spawn_inv N (set_phase i p s)"
  by (simp add: spawn_inv_def set_phase_def distinct_update)

lemma spawn_inv_end [intro]: "spawn_inv N s \<Longrightarrow> spawn_inv N (end_start i s)"
  by (simp add: spawn_inv_def end_start_def distinct_delete)

lemma spawn_inv_cleanup_begin [intro]: "spawn_inv N s \<Longrightarrow> spawn_inv N (cleanup_begin i s)"
  by (simp add: spawn_inv_def cleanup_begin_def)

lemma spawn_inv_abandon [intro]: "spawn_inv N s \<Longrightarrow> spawn_inv N (abandon i e s)"
  by (auto simp: abandon_def)

lemma spawn_inv_cleanup_end: "spawn_inv N s \<Longrightarrow> spawn_inv N (cleanup_end now p i outcome s)"
  by (simp add: spawn_inv_def cleanup_end_def Let_def on_db_def cleanup_inv)

lemma worker_inv_session:
  assumes "spawn_inv N s" "\<And>x. P (ws_status x) \<Longrightarrow> retires x (f x) \<and> ws_status x \<noteq> Finished \<and> ws_status (f x) \<noteq> Finished"
  shows "spawn_inv N (on_db (update_session i P f) s)"
  using assms unfolding update_session_def by (intro spawn_inv_db worker_inv_update_open) (auto simp: spawn_inv_def)

lemma spawn_inv_source_caught: "spawn_inv N s \<Longrightarrow> safe_at (spawn_inv N) (source_caught now current i msg e) s"
  unfolding source_caught_def
  by (auto simp: safe_at_def action_simps spawn_updates intro!: spawn_inv_end worker_inv_session)

lemma spawn_inv_source: "spawn_inv N s \<Longrightarrow> safe_at (spawn_inv N) (start_source now current i src) s"
proof -
  assume inv: "spawn_inv N s"
  have "spawn_inv N (on_db (\<lambda>db. db\<lparr>wd_sessions := update_where (\<lambda>x. ws_id x = i \<and> unbound x) (bind_source now r) (wd_sessions db)\<rparr>) s)" for r
    using inv by (intro spawn_inv_db worker_inv_update_open) (auto simp: spawn_inv_def spawn_updates unbound_def)
  with inv spawn_inv_source_caught [OF inv] show ?thesis
    unfolding start_source_def by (auto simp: safe_at_def action_simps split: option.split)
qed

lemma spawn_inv_pod: "spawn_inv N s \<Longrightarrow> spawn_inv N (start_pod_ready now current i r s)"
  "spawn_inv N s \<Longrightarrow> spawn_inv N (start_pod_failed now current i msg s)"
  unfolding start_pod_ready_def start_pod_failed_def
  by (auto simp: spawn_updates is_active_def intro!: spawn_inv_end spawn_inv_abandon worker_inv_session)

lemma spawn_inv_start:
  assumes inv: "spawn_inv (cf_max cf) s"
  shows "safe_at (spawn_inv (cf_max cf)) (start_begin cf now mdb current cands draw d mindId opts) s"
proof -
  have "spawn_inv (cf_max cf) (snd (case reserve_session cf now cands draw ref (it_id item) d (sp_db s) of
      (Inl e, db) \<Rightarrow> (Inl e, s\<lparr>sp_db := db\<rparr>)
    | (Inr i, db) \<Rightarrow> (Inr i, set_phase i (if cf_workspace cf then PreparingSource else ProvisioningPod) (s\<lparr>sp_db := db\<rparr>))))"
    if "validateMind now mdb mindId = Inr item" for item ref
  proof -
    have "isMindId (it_id item)"
      using that by (auto simp: validateMind_def dest: mind_get_id split: if_splits option.splits)
    then have "spawn_inv (cf_max cf) (s\<lparr>sp_db := snd (reserve_session cf now cands draw ref (it_id item) d (sp_db s))\<rparr>)"
      using inv reserve_inv by (simp add: spawn_inv_def)
    then show ?thesis by (auto split: prod.split sum.split)
  qed
  with inv show ?thesis unfolding start_begin_def by (intro safe_intro) (auto simp: safe_at_def)
qed

lemma spawn_inv_dismiss: "spawn_inv N s \<Longrightarrow> safe_at (spawn_inv N) (dismiss_begin now current ref) s"
  unfolding dismiss_begin_def
  by (intro safe_intro) (auto simp: Let_def action_simps safe_at_def spawn_updates intro!: worker_inv_session dest: active_not_finished)

definition on_mail :: "'a mailbox \<Rightarrow> spawner \<Rightarrow> spawner" where
  "on_mail m s = s\<lparr>sp_db := snd (m (sp_db s))\<rparr>"

text \<open>
  One step per segment. A suspended call resumes only where it is suspended; what the pod runtime,
  the workspace, the clock and the random source answer is arbitrary. A restart of the process loses
  everything but the database.
\<close>

inductive spawn_step :: "spawn_config \<Rightarrow> (string \<Rightarrow> string) \<Rightarrow> (nat list \<Rightarrow> string) \<Rightarrow> spawner \<Rightarrow> spawner \<Rightarrow> bool"
  for cf sha shab where
  send: "spawn_step cf sha shab s (on_mail (sendToWorker now sid key body sender) s)"
| post: "spawn_step cf sha shab s (on_mail (postFromWorker sha now tok key kind body) s)"
| ack_for: "spawn_step cf sha shab s (on_mail (acknowledgeForWorker sha now tok ids) s)"
| ack_from: "spawn_step cf sha shab s (on_mail (acknowledgeFromWorker now sid ids) s)"
| artifact: "spawn_step cf sha shab s (on_db (\<lambda>db. wk_db (snd (putArtifactForWorker sha shab wo now tok x \<lparr>wk_db = db, wk_files = fs\<rparr>))) s)"
| start: "spawn_step cf sha shab s (snd (start_begin cf now mdb current cands draw d mindId opts s))"
| source: "map_of (sp_starting s) i = Some PreparingSource \<Longrightarrow> spawn_step cf sha shab s (snd (start_source now current i src s))"
| source_failed: "map_of (sp_starting s) i = Some PreparingSource \<Longrightarrow>
    spawn_step cf sha shab s (snd (start_source_failed now current i msg dirty s))"
| pod_ready: "map_of (sp_starting s) i = Some ProvisioningPod \<Longrightarrow> spawn_step cf sha shab s (start_pod_ready now current i r s)"
| pod_failed: "map_of (sp_starting s) i = Some ProvisioningPod \<Longrightarrow> spawn_step cf sha shab s (start_pod_failed now current i msg s)"
| start_ends: "map_of (sp_starting s) i = Some (Ending e) \<Longrightarrow> spawn_step cf sha shab s (end_start i s)"
| dismiss: "spawn_step cf sha shab s (snd (dismiss_begin now current ref s))"
| dismiss_cleans: "\<not> awaits_provisioning i s \<Longrightarrow> spawn_step cf sha shab s (snd (dismiss_cleanup current i s))"
| cleanup_ends: "i \<in> set (sp_cleaning s) \<Longrightarrow> spawn_step cf sha shab s (cleanup_end now canPersist i outcome s)"
| recover_first: "spawn_step cf sha shab s (on_db recover_failed_finishes s)"
| recover_check: "spawn_step cf sha shab s (on_db (recover_before i) s)"
| recover_inspected: "spawn_step cf sha shab s (on_db (recover_after now i res) s)"
| cleanup_look: "cleanup_visit tick st x s = (False, s') \<Longrightarrow> spawn_step cf sha shab s s'"
| cleanup_starts: "cleanup_visit tick st x s = (True, s') \<Longrightarrow> spawn_step cf sha shab s (cleanup_begin (ws_id x) s')"
| forget: "spawn_step cf sha shab s (forget_observed i s)"
| dispose: "spawn_step cf sha shab s (revokeProvisioning now s)"
| restart: "spawn_step cf sha shab s (s\<lparr>sp_starting := [], sp_cleaning := [], sp_observed := []\<rparr>)"

inductive_cases spawn_stepE: "spawn_step cf sha shab s s'"

definition fresh_spawner :: spawner where
  "fresh_spawner = \<lparr>sp_db = empty_worker_db, sp_starting = [], sp_cleaning = [], sp_observed = [], sp_settled = []\<rparr>"

lemma spawn_inv_mail: "spawn_inv N s \<Longrightarrow> safe_at (worker_inv N) m (sp_db s) \<Longrightarrow> spawn_inv N (on_mail m s)"
  by (simp add: spawn_inv_def on_mail_def safe_at_def)

lemma spawn_inv_visit: "spawn_inv N s \<Longrightarrow> cleanup_visit tick st x s = (b, s') \<Longrightarrow> spawn_inv N s'"
  by (auto simp: cleanup_visit_def Let_def spawn_inv_def split: if_splits)

lemma spawn_inv_revoke: "spawn_inv N s \<Longrightarrow> spawn_inv N (revokeProvisioning now s)"
  unfolding revokeProvisioning_def
  by (intro spawn_inv_db worker_inv_update_open) (auto simp: spawn_inv_def spawn_updates)

lemma spawn_inv_step:
  assumes "spawn_step cf sha shab s s'" and inv: "spawn_inv (cf_max cf) s"
  shows "spawn_inv (cf_max cf) s'"
proof -
  have w: "worker_inv (cf_max cf) (sp_db s)" using inv by (simp add: spawn_inv_def)
  note safe_at = safe_at_def [THEN iffD1]
  show ?thesis
    using assms(1)
  proof cases
    case (source_failed i now current msg dirty)
    then show ?thesis using safe_at [OF spawn_inv_source_caught [OF inv]] unfolding start_source_failed_def by blast
  next
    case (dismiss_cleans i current)
    then show ?thesis using inv by (auto simp: dismiss_cleanup_def action_simps)
  next
    case (forget i)
    then show ?thesis using inv by (simp add: forget_observed_def spawn_inv_def)
  next
    case restart
    then show ?thesis using inv by (simp add: spawn_inv_def)
  next
    case (artifact wo now tok x fs)
    then show ?thesis using inv w safe_putArtifact [of "cf_max cf" "\<lparr>wk_db = sp_db s, wk_files = fs\<rparr>"] by (simp add: spawn_inv_db)
  next
    case (cleanup_starts tick st x s1)
    then show ?thesis using spawn_inv_visit [OF inv] by blast
  qed (auto intro: spawn_inv_mail [OF inv] safe_send [OF w] safe_post [OF w] safe_ackForWorker [OF w] safe_ackFromWorker [OF w]
      safe_at [OF spawn_inv_start [OF inv]] safe_at [OF spawn_inv_source [OF inv]] safe_at [OF spawn_inv_dismiss [OF inv]]
      spawn_inv_pod [OF inv] spawn_inv_end [OF inv] spawn_inv_cleanup_end [OF inv] spawn_inv_db [OF inv] recover_inv [OF w]
      spawn_inv_visit [OF inv] spawn_inv_revoke [OF inv])
qed

interpretation worker: step_system "\<lambda>s. s = fresh_spawner" "spawn_step cf sha shab" "spawn_inv (cf_max cf)" for cf sha shab
proof
  show "s = fresh_spawner \<Longrightarrow> spawn_inv (cf_max cf) s" for s
    by (simp add: spawn_inv_def fresh_spawner_def worker_inv_empty)
qed (rule spawn_inv_step)

section \<open>Consistency of sessions\<close>

text \<open>
  C4. Whatever the order in which mailbox requests, artifact uploads, starts, pod results, dismissals,
  recovery and cleanup passes, disposal and process restarts interleave: at most \<open>maxConcurrent\<close>
  sessions are active, no Mind item has two active sessions, a session is finished exactly when its
  finish message is in the mailbox, it has only one, and a finished session that was given a source
  has an artifact over that source in custody.
\<close>

theorem worker_sessions_consistent:
  assumes "(spawn_step cf sha shab)\<^sup>*\<^sup>* fresh_spawner s"
  shows "length (filter (\<lambda>x. is_active (ws_status x)) (wd_sessions (sp_db s))) \<le> cf_max cf \<and>
    (\<forall>x \<in> set (wd_sessions (sp_db s)). \<forall>y \<in> set (wd_sessions (sp_db s)).
       is_active (ws_status x) \<and> is_active (ws_status y) \<and> ws_mind_id x = ws_mind_id y \<longrightarrow> x = y) \<and>
    (\<forall>x \<in> set (wd_sessions (sp_db s)).
       (ws_status x = Finished \<longleftrightarrow> (\<exists>!m. m \<in> set (wd_messages (sp_db s)) \<and> mm_session m = ws_id x \<and> mm_kind m = Finish)) \<and>
       (\<forall>h. ws_status x = Finished \<and> ws_source_sha256 x = Some h \<and> h \<noteq> [] \<longrightarrow>
          (\<exists>a \<in> set (wd_artifacts (sp_db s)). ar_session a = ws_id x \<and> ar_source_sha256 a = h)))"
proof -
  let ?db = "sp_db s"
  have inv: "worker_inv (cf_max cf) ?db" using worker.inv_reachable [OF refl assms] by (simp add: spawn_inv_def)
  have minds: "x = y" if "x \<in> set (wd_sessions ?db)" "y \<in> set (wd_sessions ?db)" "is_active (ws_status x)" "is_active (ws_status y)"
    "ws_mind_id x = ws_mind_id y" for x y
    using inv that by (auto simp: worker_inv_def sessions_inv_def distinct_map inj_on_def)
  have fin: "is_finish i m \<longleftrightarrow> mm_session m = i \<and> mm_kind m = Finish" if "m \<in> set (wd_messages ?db)" for i m
    using inv that by (intro is_finish_kind) (auto simp: worker_inv_def mail_inv_def)
  have one: "m = m'" if "m \<in> set (wd_messages ?db)" "m' \<in> set (wd_messages ?db)" "mm_kind m = Finish" "mm_kind m' = Finish"
    "mm_session m = mm_session m'" for m m'
    using inv that by (auto simp: worker_inv_def mail_inv_def distinct_map inj_on_def)
  have "ws_status x = Finished \<longleftrightarrow> (\<exists>!m. m \<in> set (wd_messages ?db) \<and> mm_session m = ws_id x \<and> mm_kind m = Finish)"
    if "x \<in> set (wd_sessions ?db)" for x
  proof -
    have "ws_status x = Finished \<longleftrightarrow> (\<exists>m \<in> set (wd_messages ?db). mm_session m = ws_id x \<and> mm_kind m = Finish)"
      using inv that fin by (auto simp: worker_inv_def finish_inv_def durable_iff)
    then show ?thesis using one by metis
  qed
  moreover have "\<exists>a \<in> set (wd_artifacts ?db). ar_session a = ws_id x \<and> ar_source_sha256 a = h"
    if "x \<in> set (wd_sessions ?db)" "ws_status x = Finished" "ws_source_sha256 x = Some h" "h \<noteq> []" for x h
    using inv that by (auto simp: worker_inv_def finish_inv_def in_custody_def list_ex_iff)
  moreover have "length (filter (\<lambda>x. is_active (ws_status x)) (wd_sessions ?db)) \<le> cf_max cf"
    using inv by (simp add: worker_inv_def sessions_inv_def)
  ultimately show ?thesis using minds by blast
qed

text \<open>A worker started for the sample item, whose control token is a run of \<open>A\<close>s.\<close>

definition demo_config :: spawn_config where
  "demo_config = \<lparr>cf_enabled = True, cf_max = 1, cf_main_ref = ''main/model'', cf_ref_error = (\<lambda>_. None), cf_workspace = False\<rparr>"

definition demo_token :: string where
  "demo_token = replicate 43 CHR ''A''"

definition demo_session :: worker_session where
  "demo_session = new_session ''wrk-aaaaaaaa'' ''brisk-otter'' ''main/model'' ''elm-00000005'' (zero_sha demo_token) 2000"

definition started :: spawner where
  "started = snd (start_begin demo_config 2000 plan_db True [''wrk-aaaaaaaa''] (\<lambda>_. (0, 0)) (zero_sha demo_token)
     ''elm-00000005'' None fresh_spawner)"

lemma demo_digest: "workerControlTokenDigest zero_sha demo_token = Some (zero_sha demo_token)"
proof -
  have "is_base64url CHR ''A''" by code_simp
  then show ?thesis by (simp add: workerControlTokenDigest_def demo_token_def list_all_iff)
qed

lemma zero_sha_length: "sql_length (zero_sha demo_token) = 64"
proof -
  have "zero_sha demo_token = replicate 21 CHR ''0'' @ replicate 43 CHR ''a''"
    by (simp add: zero_sha_def demo_token_def map_replicate_const is_digit_def code_unit_def)
  moreover have "code_unit CHR ''0'' \<noteq> 0" "code_unit CHR ''a'' \<noteq> 0" by code_simp+
  ultimately show ?thesis by (simp add: sql_length_def takeWhile_append takeWhile_replicate)
qed

lemma demo_slug: "generateWorkerSlug (\<lambda>_. (0, 0)) [] = ''brisk-otter''"
proof -
  have c: "COMBO_COUNT = Suc 575" by (simp add: COMBO_COUNT_def ADJECTIVES_def NOUNS_def)
  show ?thesis unfolding generateWorkerSlug_def c try_pairs.simps by (simp add: slug_pair_def ADJECTIVES_def NOUNS_def)
qed

lemma plan_ready: "\<exists>d. validateMind 2000 plan_db ''elm-00000005'' = Inr d \<and> it_id d = ''elm-00000005''"
proof -
  have id: "isMindId ''elm-00000005''" by code_simp
  obtain d where d: "mind_get 2000 plan_db ''elm-00000005'' = Some d" by (simp add: mind_get_def plan_item)
  have "it_status d = Open" "it_archived_at d = None" "it_id d = ''elm-00000005''"
    using mind_get_row [OF d] mind_get_id [OF d] by (auto simp: plan_item plain_row_def)
  moreover have "unresolvedDependencies plan_db i = []" for i
    by (simp add: unresolvedDependencies_def dependency_rows_def plan_db_def add_event_def empty_db_def)
  then have "mi_effective d \<noteq> Blocked"
    using d by (auto simp: mind_get_def plan_item hydrate_def Let_def plan_free item_row.defs mind_item.defs mind_detail.defs plain_row_def)
  ultimately show ?thesis using d id by (simp add: validateMind_def closes_def)
qed

lemma started_eq: "started = fresh_spawner\<lparr>sp_db := empty_worker_db\<lparr>wd_sessions := [demo_session]\<rparr>,
    sp_starting := [(''wrk-aaaaaaaa'', ProvisioningPod)]\<rparr>"
proof -
  obtain d where d: "validateMind 2000 plan_db ''elm-00000005'' = Inr d" "it_id d = ''elm-00000005''" using plan_ready by blast
  have w: "sql_within 80 ''brisk-otter''" by code_simp
  have "reserve_session demo_config 2000 [''wrk-aaaaaaaa''] (\<lambda>_. (0, 0)) ''main/model'' ''elm-00000005'' (zero_sha demo_token) empty_worker_db =
      (Inr ''wrk-aaaaaaaa'', empty_worker_db\<lparr>wd_sessions := [demo_session]\<rparr>)"
    by (simp add: reserve_session_def action_simps demo_config_def active_sessions_def empty_worker_db_def pick_id_def demo_slug
        session_conflict_def Let_def demo_session_def)
      (simp add: new_session_def zero_sha_length w)
  then show ?thesis
    using d by (simp add: started_def start_begin_def action_simps parseStartOptions_def model_ref_def Let_def set_phase_def)
      (simp add: demo_config_def fresh_spawner_def set_phase_def)
qed

lemma started_reachable: "(spawn_step demo_config zero_sha shab)\<^sup>*\<^sup>* fresh_spawner started"
  unfolding started_def by (rule r_into_rtranclp) (rule spawn_step.start)

theorem worker_sessions_consistent_witness:
  "wd_sessions (sp_db started) = [demo_session] \<and> is_active (ws_status demo_session) \<and>
   length (filter (\<lambda>x. is_active (ws_status x)) (wd_sessions (sp_db started))) \<le> 1"
  using worker_sessions_consistent [OF started_reachable]
  by (simp add: started_eq demo_session_def new_session_def is_active_def demo_config_def)

end
