(* ===== verification/Worker_Correct.thy ===== *)
theory Worker_Correct
  imports Worker_Lifecycle
begin

text \<open>
  Properties of the worker brokers: terminal states are final, a finish revokes the worker's token,
  posting is idempotent under its key, pulling and acknowledging deliver every message once and in
  order, recovery and cleanup settle every session, artifacts are kept intact.
\<close>

section \<open>Terminal sessions\<close>

text \<open>Every terminal session of the first table is there, with the same status and confirmation, in the second.\<close>

definition keeps_terminal :: "worker_session list \<Rightarrow> worker_session list \<Rightarrow> bool" where
  "keeps_terminal ss ss' \<longleftrightarrow> (\<forall>x \<in> set ss. is_terminal (ws_status x) \<longrightarrow> (\<exists>y \<in> set ss'. ws_id y = ws_id x \<and> ws_status y = ws_status x \<and> ws_notified_at y = ws_notified_at x))"

lemma keeps_terminal_refl [simp]: "keeps_terminal ss ss"
  by (auto simp: keeps_terminal_def)

lemma keeps_terminal_trans: "keeps_terminal a b \<Longrightarrow> keeps_terminal b c \<Longrightarrow> keeps_terminal a c"
  unfolding keeps_terminal_def by metis

lemma keeps_terminal_update:
  assumes "\<And>x. x \<in> set ss \<Longrightarrow> p x \<Longrightarrow> is_terminal (ws_status x) \<Longrightarrow>
      ws_id (f x) = ws_id x \<and> ws_status (f x) = ws_status x \<and> ws_notified_at (f x) = ws_notified_at x"
  shows "keeps_terminal ss (update_where p f ss)"
  unfolding keeps_terminal_def
proof (intro ballI impI)
  fix x assume "x \<in> set ss" "is_terminal (ws_status x)"
  then show "\<exists>y \<in> set (update_where p f ss). ws_id y = ws_id x \<and> ws_status y = ws_status x \<and> ws_notified_at y = ws_notified_at x"
    using assms by (intro bexI [of _ "if p x then f x else x"]) (auto simp: update_where_def)
qed

lemma keeps_terminal_update_open:
  "(\<And>x. p x \<Longrightarrow> \<not> is_terminal (ws_status x)) \<Longrightarrow> keeps_terminal ss (update_where p f ss)"
  by (rule keeps_terminal_update) blast

lemma active_not_terminal: "is_active st \<Longrightarrow> \<not> is_terminal st" "\<not> is_terminal Spawning"
  by (auto simp: is_active_def is_terminal_def)

lemma keeps_terminal_session:
  "(\<And>st. P st \<Longrightarrow> \<not> is_terminal st) \<Longrightarrow> keeps_terminal (wd_sessions db) (wd_sessions (update_session i P f db))"
  unfolding update_session_def by (auto intro: keeps_terminal_update_open)

lemma mailbox_insert_sessions: "wd_sessions (snd (mailbox_insert now sid dir kind key sender body db)) = wd_sessions db"
  by (auto simp: mailbox_insert_def action_simps insert_row_def Let_def append_message_def split: option.split)

lemma acknowledge_sessions: "wd_sessions (snd (acknowledge now sid dir ids db)) = wd_sessions db"
  by (cases "boundedIds ids") (auto simp: acknowledge_def action_simps ack_rows_def)

lemma keeps_terminal_finish:
  assumes inv: "worker_inv N db" and run: "insertFinish now b key body db = (Inr m, db')"
  shows "keeps_terminal (wd_sessions db) (wd_sessions db')"
proof (cases now b key body db rule: insertFinish_cases)
  case (again m')
  have "hasDurableFinish (sb_session b) db"
    using existing_SomeD [OF again(1)] again(2) by (auto simp: durable_iff is_finish_def same_content_def)
  then have "ws_status x = Finished" if "x \<in> set (wd_sessions db)" "ws_id x = sb_session b" for x
    using inv that by (auto simp: worker_inv_def finish_inv_def)
  then show ?thesis
    using again(3) run by (auto simp: update_session_def finish_again_def intro!: keeps_terminal_update)
next
  case (fresh m' s)
  have "wd_sessions db' = wd_sessions (update_session (sb_session b) is_active (finish_now now) db)"
    using fresh(8) run by (auto simp: update_session_def append_message_def)
  then show ?thesis using keeps_terminal_session active_not_terminal by simp
qed (use run in simp)

lemma keeps_terminal_post:
  assumes "worker_inv N db"
  shows "keeps_terminal (wd_sessions db) (wd_sessions (snd (postFromWorker sha now tok key kind body db)))"
proof (cases sha now tok key kind body db rule: postFromWorker_cases)
  case (message b)
  then show ?thesis by (simp add: mailbox_insert_sessions)
next
  case (finish b m db')
  then show ?thesis using keeps_terminal_finish [OF assms finish(1)] by (simp add: announce_def)
qed simp

lemma bound_sessions:
  "wd_sessions (snd (sendToWorker now sid key body sender db)) = wd_sessions db"
  "wd_sessions (snd (acknowledgeForWorker sha now tok ids db)) = wd_sessions db"
  "wd_sessions (snd (acknowledgeFromWorker now sid ids db)) = wd_sessions db"
  by (auto simp: sendToWorker_def acknowledgeForWorker_def acknowledgeFromWorker_def dispatcherSession_def worker_bound_def
      action_simps acknowledge_sessions mailbox_insert_sessions split: option.split sum.split)

lemma putArtifact_sessions: "wd_sessions (wk_db (snd (putArtifactForWorker sha shab wo now tok x w))) = wd_sessions (wk_db w)"
  by (auto simp: putArtifactForWorker_def action_simps write_file_def remove_file_def add_artifact_def artifactFile_def Let_def
      split: option.split sum.split)

lemma keeps_terminal_recover:
  assumes inv: "worker_inv N db"
  shows "keeps_terminal (wd_sessions db) (wd_sessions (recover_failed_finishes db))"
    "keeps_terminal (wd_sessions db) (wd_sessions (recover_before i db))"
    "keeps_terminal (wd_sessions db) (wd_sessions (recover_after now i res db))"
proof -
  show "keeps_terminal (wd_sessions db) (wd_sessions (recover_failed_finishes db))"
    unfolding recover_failed_finishes_def
    using inv by (auto simp: worker_inv_def finish_inv_def intro!: keeps_terminal_update)
  show "keeps_terminal (wd_sessions db) (wd_sessions (recover_before i db))"
    "keeps_terminal (wd_sessions db) (wd_sessions (recover_after now i res db))"
    using active_not_terminal
    by (auto simp: recover_before_def recover_after_def finish_from_mail_def split: option.split provision_state.split
        intro!: keeps_terminal_session)
qed

lemma end_start_db [simp]: "sp_db (end_start i s) = sp_db s" "sp_db (cleanup_begin i s) = sp_db s" "sp_db (set_phase i p s) = sp_db s"
  "sp_db (forget_observed i s) = sp_db s" "sp_db (abandon i e s) = sp_db s"
  by (simp_all add: end_start_def cleanup_begin_def set_phase_def forget_observed_def abandon_def)

lemma keeps_terminal_start: "keeps_terminal (wd_sessions (sp_db s)) (wd_sessions (sp_db (snd (start_begin cf now mdb current cands draw d mindId opts s))))"
proof -
  have app: "keeps_terminal ss (ss @ [n])" for ss n by (auto simp: keeps_terminal_def)
  have "keeps_terminal (wd_sessions (sp_db s)) (wd_sessions db')"
    if "reserve_session cf now cands draw ref i d (sp_db s) = (r, db')" for ref i r db'
    using that by (cases cf now cands draw ref i d "sp_db s" rule: reserve_cases) (auto simp: app)
  then show ?thesis unfolding start_begin_def by (simp add: action_simps split: sum.split prod.split)
qed

lemma keeps_terminal_source:
  "keeps_terminal (wd_sessions (sp_db s)) (wd_sessions (sp_db (snd (source_caught now current i msg e s))))"
  "keeps_terminal (wd_sessions (sp_db s)) (wd_sessions (sp_db (snd (start_source now current i src s))))"
proof -
  show caught: "keeps_terminal (wd_sessions (sp_db s)) (wd_sessions (sp_db (snd (source_caught now current i msg e s))))" for msg e current
    by (auto simp: source_caught_def action_simps on_db_def active_not_terminal intro!: keeps_terminal_session)
  show "keeps_terminal (wd_sessions (sp_db s)) (wd_sessions (sp_db (snd (start_source now current i src s))))"
    using caught
    by (auto simp: start_source_def action_simps on_db_def unbound_def active_not_terminal intro!: keeps_terminal_update_open split: option.split)
qed

lemma keeps_terminal_pod:
  "keeps_terminal (wd_sessions (sp_db s)) (wd_sessions (sp_db (start_pod_ready now current i r s)))"
  "keeps_terminal (wd_sessions (sp_db s)) (wd_sessions (sp_db (start_pod_failed now current i msg s)))"
  by (auto simp: start_pod_ready_def start_pod_failed_def on_db_def active_not_terminal intro!: keeps_terminal_session)

lemma keeps_terminal_dismiss:
  "keeps_terminal (wd_sessions (sp_db s)) (wd_sessions (sp_db (snd (dismiss_begin now current ref s))))"
  using active_not_terminal
  by (auto simp: dismiss_begin_def action_simps on_db_def Let_def intro!: keeps_terminal_session split: sum.split)

lemma keeps_terminal_step:
  assumes "spawn_step cf sha shab s s'" and inv: "spawn_inv N s"
  shows "keeps_terminal (wd_sessions (sp_db s)) (wd_sessions (sp_db s'))"
proof -
  have w: "worker_inv N (sp_db s)" using inv by (simp add: spawn_inv_def)
  show ?thesis
    using assms(1)
  proof cases
    case (source_failed i now current msg dirty)
    then show ?thesis using keeps_terminal_source(1) unfolding start_source_failed_def by blast
  next
    case (dismiss_cleans i current)
    then show ?thesis by (simp add: dismiss_cleanup_def action_simps)
  next
    case (cleanup_look tick st x)
    then show ?thesis by (auto simp: cleanup_visit_def Let_def split: if_splits)
  next
    case (cleanup_starts tick st x s1)
    then show ?thesis by (auto simp: cleanup_visit_def Let_def split: if_splits)
  next
    case (cleanup_ends i now canPersist outcome)
    have "ws_id (record_cleanup now outcome x) = ws_id x \<and> ws_status (record_cleanup now outcome x) = ws_status x \<and>
        ws_notified_at (record_cleanup now outcome x) = ws_notified_at x" for x
      by (cases outcome) (simp_all add: record_cleanup_def)
    with cleanup_ends show ?thesis by (auto simp: cleanup_end_def on_db_def Let_def intro!: keeps_terminal_update)
  next
    case (dispose now)
    then show ?thesis by (auto simp: revokeProvisioning_def on_db_def active_not_terminal intro!: keeps_terminal_update_open)
  qed (auto simp: on_mail_def on_db_def bound_sessions putArtifact_sessions keeps_terminal_post [OF w] keeps_terminal_start
      keeps_terminal_source keeps_terminal_pod keeps_terminal_dismiss keeps_terminal_recover [OF w])
qed

lemma keeps_terminal_steps:
  assumes "(spawn_step cf sha shab)\<^sup>*\<^sup>* s s'" and "spawn_inv (cf_max cf) s"
  shows "keeps_terminal (wd_sessions (sp_db s)) (wd_sessions (sp_db s'))"
  using assms
proof (induction rule: rtranclp_induct)
  case (step y z)
  then show ?case using keeps_terminal_step worker.inv_steps keeps_terminal_trans by blast
qed simp

text \<open>
  C7. Terminal states are final: once a session of a reachable state is finished, failed or dismissed,
  it has that status in every later state. A pod that comes up late, a late finish, a retry, recovery
  or a restart never revive it or turn one outcome into another.
\<close>

theorem terminal_is_final:
  assumes "(spawn_step cf sha shab)\<^sup>*\<^sup>* fresh_spawner s" and "(spawn_step cf sha shab)\<^sup>*\<^sup>* s s'"
    and "x \<in> set (wd_sessions (sp_db s))" and "ws_status x \<in> {Finished, Failed, Dismissed}"
  shows "\<exists>y \<in> set (wd_sessions (sp_db s')). ws_id y = ws_id x \<and> ws_status y = ws_status x"
  using keeps_terminal_steps [OF assms(2) worker.inv_reachable [OF refl assms(1)]] assms(3,4)
  unfolding keeps_terminal_def is_terminal_def by blast

definition dismissed :: spawner where
  "dismissed = snd (dismiss_begin 3000 True ''wrk-aaaaaaaa'' started)"

lemma dismissed_eq: "wd_sessions (sp_db dismissed) = [set_dismissed 3000 demo_session]"
  "sp_starting dismissed = [(''wrk-aaaaaaaa'', ProvisioningPod)]"
proof -
  have r: "resolve_worker ''wrk-aaaaaaaa'' (empty_worker_db\<lparr>wd_sessions := [demo_session]\<rparr>) = Inr demo_session"
    by (simp add: resolve_worker_def worker_matches_def demo_session_def new_session_def trim_eq_Nil)
      (simp add: is_space_def code_unit_def)
  show "wd_sessions (sp_db dismissed) = [set_dismissed 3000 demo_session]" "sp_starting dismissed = [(''wrk-aaaaaaaa'', ProvisioningPod)]"
    by (simp_all add: dismissed_def started_eq dismiss_begin_def action_simps fresh_spawner_def r Let_def on_db_def update_session_def
        update_where_def) (simp add: demo_session_def new_session_def is_active_def)
qed

theorem terminal_is_final_witness:
  "\<exists>y \<in> set (wd_sessions (sp_db (start_pod_ready 4000 True ''wrk-aaaaaaaa'' \<lparr>pr_pod_name = ''p'', pr_pod_uid = None, pr_workspace_ref = ''w''\<rparr> dismissed))).
     ws_id y = ''wrk-aaaaaaaa'' \<and> ws_status y = Dismissed"
proof -
  have reach: "(spawn_step demo_config zero_sha (\<lambda>_. []))\<^sup>*\<^sup>* fresh_spawner dismissed"
    using started_reachable unfolding dismissed_def by (rule rtranclp.rtrancl_into_rtrancl) (rule spawn_step.dismiss)
  let ?s' = "start_pod_ready 4000 True ''wrk-aaaaaaaa'' \<lparr>pr_pod_name = ''p'', pr_pod_uid = None, pr_workspace_ref = ''w''\<rparr> dismissed"
  have "spawn_step demo_config zero_sha (\<lambda>_. []) dismissed ?s'" by (rule spawn_step.pod_ready) (simp add: dismissed_eq)
  then have "(spawn_step demo_config zero_sha (\<lambda>_. []))\<^sup>*\<^sup>* dismissed ?s'" by (rule r_into_rtranclp)
  from terminal_is_final [OF reach this, of "set_dismissed 3000 demo_session"] show ?thesis
    by (simp add: dismissed_eq spawn_updates) (simp add: set_dismissed_def demo_session_def new_session_def)
qed

section \<open>Finishing\<close>

lemma resolve_SomeD:
  assumes "resolveWorkerSession sha db tok = Some b"
  obtains s where "workerControlTokenDigest sha tok = Some (sha tok)" "find (\<lambda>s. ws_digest s = sha tok) (wd_sessions db) = Some s"
    "verifyWorkerControlToken sha tok (ws_digest s)" "known_runtime (ws_runtime s)" "is_active (ws_status s)" "b = binding_of s"
  using assms that
  by (auto simp: resolveWorkerSession_def workerControlTokenDigest_def split: option.splits if_splits)

lemma insertFinish_session:
  assumes "insertFinish now (binding_of s) key body db = (Inr m, db')" and "is_active (ws_status s)"
    and "find (\<lambda>s. ws_digest s = h) (wd_sessions db) = Some s"
  shows "\<exists>s'. find (\<lambda>s. ws_digest s = h) (wd_sessions db') = Some s' \<and> ws_status s' = Finished \<and> binding_of s' = binding_of s \<and>
    ws_digest s' = ws_digest s \<and> ws_runtime s' = ws_runtime s \<and> existing db' (ws_id s) WorkerToDispatcher key = Some m"
proof -
  have sid: "sb_session (binding_of s) = ws_id s" by (simp add: binding_of_def)
  have frame: "find (\<lambda>s. ws_digest s = h) (wd_sessions (update_session (ws_id s) P f d)) =
      map_option (\<lambda>r. if ws_id r = ws_id s \<and> P (ws_status r) then f r else r) (find (\<lambda>s. ws_digest s = h) (wd_sessions d))"
    if "\<And>r. ws_digest (f r) = ws_digest r" for P f and d :: worker_db
    using that by (simp add: update_session_def find_update_where)
  have mf: "may_finish (ws_status s)" using assms(2) by (auto simp: may_finish_def is_active_def)
  show ?thesis
  proof (cases now "binding_of s" key body db rule: insertFinish_cases)
    case (again m')
    then show ?thesis
      using assms(1,3) mf frame [of "finish_again (mm_created m')" may_finish db]
      by (auto simp: sid finish_again_def binding_of_def existing_def update_session_def)
  next
    case (fresh m' x)
    have "existing (append_message m' db) (ws_id s) WorkerToDispatcher key = Some m'"
      using fresh(1,2) by (simp add: existing_def append_message_def find_append sid)
    then show ?thesis
      using fresh(8) assms frame [of "finish_now now" is_active "append_message m' db"]
      by (auto simp: sid finish_now_def binding_of_def existing_def update_session_def append_message_def)
  qed (use assms(1) in simp)
qed

text \<open>
  C8. A finish is the worker's last word: when a worker's finish is accepted the message is stored
  under its key, the session is finished, the token stops resolving, so that pulling, acknowledging
  and posting messages with it are refused and change nothing; and repeating the same finish, as a
  worker that missed the reply would, returns the same message and adds none.
\<close>

theorem finish_revokes_token:
  assumes "resolveWorkerSession sha db tok = Some b"
    and "postFromWorker sha now tok key ''finish'' body db = (Inr m, db')"
  shows "m \<in> set (wd_messages db') \<and> mm_session m = sb_session b \<and> mm_kind m = Finish \<and> mm_key m = key \<and> mm_body m = body \<and>
    (\<exists>s \<in> set (wd_sessions db'). ws_id s = sb_session b \<and> ws_status s = Finished) \<and>
    resolveWorkerSession sha db' tok = None \<and>
    pullForWorker sha tok n db' = (Inl WorkerUnavailable, db') \<and>
    acknowledgeForWorker sha t tok ids db' = (Inl WorkerUnavailable, db') \<and>
    (\<exists>e. postFromWorker sha t tok key' ''message'' body' db' = (Inl e, db')) \<and>
    (\<exists>db''. postFromWorker sha t tok key ''finish'' body db' = (Inr m, db'') \<and> wd_messages db'' = wd_messages db')"
proof -
  from resolve_SomeD [OF assms(1)] obtain s where s: "workerControlTokenDigest sha tok = Some (sha tok)"
    "find (\<lambda>s. ws_digest s = sha tok) (wd_sessions db) = Some s"
    "verifyWorkerControlToken sha tok (ws_digest s)" "known_runtime (ws_runtime s)" "is_active (ws_status s)" "b = binding_of s" .
  obtain db1 where run: "insertFinish now b key body db = (Inr m, db1)" "db' = announce m db1"
    and checks: "messageKey key = Inr key" "boundedText body ''body'' 100000 = Inr body"
  proof (cases sha now tok key "''finish''" body db rule: postFromWorker_cases)
    case (finish b' m' d)
    have "b' = b" using finish(5) assms(1) s(2,5) by (auto simp: is_active_def)
    with finish that assms(2) show thesis by auto
  qed (use assms(2) in auto)
  from insertFinish_session [OF run(1) [unfolded s(6)] s(5,2)] obtain s' where
    s': "find (\<lambda>s. ws_digest s = sha tok) (wd_sessions db') = Some s'" "ws_status s' = Finished" "binding_of s' = b"
      "ws_digest s' = ws_digest s" "ws_runtime s' = ws_runtime s" "existing db' (ws_id s) WorkerToDispatcher key = Some m"
    by (auto simp: run(2) announce_def existing_def s(6))
  have sid: "sb_session b = ws_id s" "ws_id s' = ws_id s"
    using s(6) s'(3) by (simp_all add: binding_of_def)
  have gone: "resolveWorkerSession sha db' tok = None"
    using s(1) s' by (simp add: resolveWorkerSession_def is_active_def)
  have msg: "m \<in> set (wd_messages db')" "is_finish (sb_session b) m" "mm_key m = key" "same_content m Finish (sb_worker b) body"
    using insertFinish_message [OF run(1)] by (auto simp: run(2) announce_def)
  have refused: "\<exists>e. postFromWorker sha t tok key' ''message'' body' db' = (Inl e, db')"
    by (cases sha t tok key' "''message''" body' db' rule: postFromWorker_cases) (use gone in auto)
  have "insertFinish t b key body db' = (Inr m, update_session (sb_session b) may_finish (finish_again (mm_created m)) db')"
    using s'(6) msg(4) by (simp add: insertFinish_def action_simps sid)
  then have "terminalFinishRetry sha t tok key body db' =
      (Inr (Some (b, m)), update_session (sb_session b) may_finish (finish_again (mm_created m)) db')"
    using s(1,3,4) s' msg(4) sid by (simp add: terminalFinishRetry_def action_simps)
  then have "postFromWorker sha t tok key ''finish'' body db' =
      (Inr m, announce m (update_session (sb_session b) may_finish (finish_again (mm_created m)) db'))"
    by (simp add: postFromWorker_def action_simps gone parse_kind_def checks)
  moreover have "s' \<in> set (wd_sessions db')" using s'(1) by (auto dest: find_SomeD)
  ultimately show ?thesis
    using gone refused msg s'(2) sid
    by (auto simp: is_finish_def same_content_def pullForWorker_def acknowledgeForWorker_def worker_bound_def action_simps
        announce_def update_session_def)
qed

definition demo_db :: worker_db where
  "demo_db = empty_worker_db\<lparr>wd_sessions := [demo_session]\<rparr>"

lemma demo_resolves: "resolveWorkerSession zero_sha demo_db demo_token = Some (binding_of demo_session)"
proof -
  have "verifyWorkerControlToken zero_sha demo_token (zero_sha demo_token)" by (rule verify_own [OF zero_sha_digest demo_digest])
  then show ?thesis
    by (simp add: resolveWorkerSession_def demo_digest demo_db_def demo_session_def new_session_def known_runtime_def is_active_def)
qed

lemma demo_texts: "messageKey ''f1'' = Inr ''f1''" "boundedText ''all good'' ''body'' 100000 = Inr ''all good''"
  "sql_within 80 ''f1''" "sql_within 80 ''worker:brisk-otter''" "sql_within 100000 ''all good''"
proof -
  have nz: "code_unit c \<noteq> 0" if "c \<in> set (''f1worker:brisk-otter'' @ ''all good'')" for c
    using that by (auto simp: code_unit_def)
  then have len: "sql_length w = length w" if "set w \<subseteq> set (''f1worker:brisk-otter'' @ ''all good'')" for w
    unfolding sql_length_def using that by (subst takeWhile_eq_all_conv [THEN iffD2]) auto
  show "sql_within 80 ''f1''" "sql_within 80 ''worker:brisk-otter''" "sql_within 100000 ''all good''"
    unfolding sql_within_def by (simp_all add: len)
  have "trim ''f1'' \<noteq> []" "trim ''all good'' \<noteq> []" "key_shape ''f1''" by code_simp+
  then show "messageKey ''f1'' = Inr ''f1''" "boundedText ''all good'' ''body'' 100000 = Inr ''all good''"
    by (simp_all add: messageKey_def boundedText_def)
qed

lemma demo_finish: "\<exists>m db'. postFromWorker zero_sha 5000 demo_token ''f1'' ''finish'' ''all good'' demo_db = (Inr m, db')"
proof -
  let ?b = "binding_of demo_session"
  let ?m = "new_message demo_db ''wrk-aaaaaaaa'' WorkerToDispatcher Finish ''f1'' ''worker:brisk-otter'' ''all good'' 5000"
  have b: "sb_session ?b = ''wrk-aaaaaaaa''" "sb_worker ?b = ''worker:brisk-otter''"
    by (simp_all add: binding_of_def demo_session_def new_session_def)
  have s: "session_by_id demo_db ''wrk-aaaaaaaa'' = Some demo_session" "is_active (ws_status demo_session)" "ws_source_sha256 demo_session = None"
    by (simp_all add: session_by_id_def demo_db_def demo_session_def new_session_def is_active_def)
  have e: "existing demo_db i dir k = None" "finish_message demo_db i = None" for i dir k
    by (simp_all add: existing_def finish_message_def demo_db_def empty_worker_db_def)
  have "\<not> violates demo_db ?m" by (simp add: violates_def s e demo_texts)
  moreover have "changed_rows (append_message ?m demo_db) ''wrk-aaaaaaaa'' is_active = 1"
    by (simp add: changed_rows_def append_message_def demo_db_def demo_session_def new_session_def is_active_def)
  ultimately have "\<exists>m d. insertFinish 5000 ?b ''f1'' ''all good'' demo_db = (Inr m, d)"
    by (simp add: insertFinish_def action_simps b s e in_custody_def insert_row_def Let_def)
  then show ?thesis
    by (auto simp: postFromWorker_def action_simps demo_resolves parse_kind_def demo_texts)
qed

theorem finish_revokes_token_witness:
  "\<exists>m db'. postFromWorker zero_sha 5000 demo_token ''f1'' ''finish'' ''all good'' demo_db = (Inr m, db') \<and>
     mm_session m = ''wrk-aaaaaaaa'' \<and> resolveWorkerSession zero_sha db' demo_token = None"
proof -
  obtain m db' where run: "postFromWorker zero_sha 5000 demo_token ''f1'' ''finish'' ''all good'' demo_db = (Inr m, db')"
    using demo_finish by blast
  from finish_revokes_token [OF demo_resolves run] run show ?thesis
    by (auto simp: binding_of_def demo_session_def new_session_def)
qed

section \<open>Message keys\<close>

lemma boundedText_id: "boundedText v l n = Inr x \<Longrightarrow> x = v"
  by (auto simp: boundedText_def split: if_splits)

lemma messageKey_id: "messageKey v = Inr x \<Longrightarrow> x = v"
  by (auto simp: messageKey_def bindR_Inr_iff split: if_splits dest: boundedText_id)

lemma mailbox_insert_existing:
  assumes "mailbox_insert now sid dir kind key sender body db = (Inr m, db')"
  shows "existing db' sid dir key = Some m \<and> same_content m kind sender body \<and> wd_sessions db' = wd_sessions db \<and>
    (db' = db \<or> db' = append_message m db)"
proof (cases "existing db sid dir key")
  case (Some p)
  then show ?thesis using assms by (auto simp: mailbox_insert_def action_simps split: if_splits)
next
  case None
  let ?m = "new_message db sid dir kind key sender body now"
  have run: "finish_message db sid = None" "\<not> violates db ?m" "m = ?m" "db' = append_message ?m db"
    using assms None by (auto simp: mailbox_insert_def action_simps insert_row_def Let_def split: if_splits)
  have "existing (append_message ?m db) sid dir key = Some ?m"
    using None by (simp add: existing_def append_message_def find_append)
  with run show ?thesis by (simp add: same_content_def append_message_def)
qed

text \<open>
  Sending is idempotent under the message key: repeating a send to a worker, at any later time,
  returns the message already stored and changes nothing, while reusing the key for another body is
  refused as a conflict and changes nothing.
\<close>

theorem send_is_idempotent:
  assumes "sendToWorker now sid key body sender db = (Inr m, db')"
  shows "sendToWorker t sid key body sender db' = (Inr m, db') \<and>
    (trim body' \<noteq> [] \<and> length body' \<le> 100000 \<and> body' \<noteq> body \<longrightarrow>
       sendToWorker t sid key body' sender db' = (Inl KeyReused, db'))"
proof -
  obtain b k sd bd where b: "dispatcherSession sid True db = (Inr b, db)" and raw: "messageKey key = Inr k"
      "boundedText sender ''sender'' 80 = Inr sd" "boundedText body ''body'' 100000 = Inr bd"
      "mailbox_insert now (sb_session b) DispatcherToWorker Message k sd bd db = (Inr m, db')"
    using assms by (auto simp: sendToWorker_def dispatcherSession_def action_simps split: option.splits if_splits sum.splits)
  have same: "k = key" "sd = sender" "bd = body" using raw messageKey_id boundedText_id by blast+
  note checks = raw(1-3) [unfolded same] and ins = raw(4) [unfolded same]
  note e = mailbox_insert_existing [OF ins]
  have b': "dispatcherSession sid True db' = (Inr b, db')"
    using b e by (auto simp: dispatcherSession_def action_simps session_by_id_def split: option.splits if_splits)
  have again: "mailbox_insert t (sb_session b) DispatcherToWorker Message key sender x db' =
      (if mm_body m = x then (Inr m, db') else (Inl KeyReused, db'))" for x
    using e by (auto simp: mailbox_insert_def action_simps same_content_def)
  have "mm_body m = body" using e by (simp add: same_content_def)
  then show ?thesis using b' checks again by (simp add: sendToWorker_def action_simps boundedText_def)
qed

definition demo_mail :: mailbox_message where
  "demo_mail = new_message demo_db ''wrk-aaaaaaaa'' DispatcherToWorker Message ''f1'' ''dispatcher'' ''all good'' 5000"

lemma demo_send: "sendToWorker 5000 ''wrk-aaaaaaaa'' ''f1'' ''all good'' ''dispatcher'' demo_db = (Inr demo_mail, append_message demo_mail demo_db)"
proof -
  have s: "session_by_id demo_db ''wrk-aaaaaaaa'' = Some demo_session" "is_active (ws_status demo_session)" "known_runtime (ws_runtime demo_session)"
    "ws_id demo_session = ''wrk-aaaaaaaa''"
    by (simp_all add: session_by_id_def demo_db_def demo_session_def new_session_def is_active_def known_runtime_def)
  have e: "existing demo_db i dir k = None" "finish_message demo_db i = None" for i dir k
    by (simp_all add: existing_def finish_message_def demo_db_def empty_worker_db_def)
  have "sql_within 80 ''dispatcher''" "boundedText ''dispatcher'' ''sender'' 80 = Inr ''dispatcher''" by code_simp+
  moreover from this(1) have "\<not> violates demo_db demo_mail" by (simp add: demo_mail_def violates_def s e demo_texts is_finish_def)
  ultimately show ?thesis
    using s e demo_texts
    by (simp add: sendToWorker_def dispatcherSession_def action_simps binding_of_def mailbox_insert_def insert_row_def Let_def demo_mail_def)
qed

theorem send_is_idempotent_witness:
  "sendToWorker 6000 ''wrk-aaaaaaaa'' ''f1'' ''all good'' ''dispatcher'' (append_message demo_mail demo_db) =
     (Inr demo_mail, append_message demo_mail demo_db)"
  using send_is_idempotent [OF demo_send, of 6000] by blast

section \<open>Delivery\<close>

text \<open>
  The contract of a queue with acknowledgements, as a reader sees it: pushing appends to what is
  pending, acknowledging removes exactly the acknowledged messages. Under it, reading in rounds of
  bounded size and acknowledging each round delivers everything once and in order.
\<close>

fun drain :: "('s \<Rightarrow> 'm list) \<Rightarrow> ('i list \<Rightarrow> 's \<Rightarrow> 's) \<Rightarrow> ('m \<Rightarrow> 'i) \<Rightarrow> nat \<Rightarrow> nat \<Rightarrow> 's \<Rightarrow> 'm list \<times> 's" where
  "drain pend ack ident l 0 s = ([], s)"
| "drain pend ack ident l (Suc n) s =
     (let xs = take l (pend s); (ys, s') = drain pend ack ident l n (ack (map ident xs) s) in (xs @ ys, s'))"

locale acknowledged_queue =
  fixes pend :: "'s \<Rightarrow> 'm list"
    and push :: "'m \<Rightarrow> 's \<Rightarrow> 's"
    and ack :: "'i list \<Rightarrow> 's \<Rightarrow> 's"
    and ident :: "'m \<Rightarrow> 'i"
    and good :: "'s \<Rightarrow> bool"
    and fits :: "'m \<Rightarrow> 's \<Rightarrow> bool"
  assumes pend_push: "good s \<Longrightarrow> fits m s \<Longrightarrow> pend (push m s) = pend s @ [m]"
    and good_push: "good s \<Longrightarrow> fits m s \<Longrightarrow> good (push m s)"
    and pend_ack: "good s \<Longrightarrow> pend (ack ids s) = filter (\<lambda>m. ident m \<notin> set ids) (pend s)"
    and good_ack: "good s \<Longrightarrow> good (ack ids s)"
    and distinct_pend: "good s \<Longrightarrow> distinct (map ident (pend s))"
begin

lemma pend_ack_round: "good s \<Longrightarrow> pend (ack (map ident (take l (pend s))) s) = drop l (pend s)"
proof -
  assume good: "good s"
  have d: "distinct (map ident (take l (pend s) @ drop l (pend s)))" using distinct_pend [OF good] by simp
  then have "filter (\<lambda>m. ident m \<notin> ident ` set (take l (pend s))) (take l (pend s) @ drop l (pend s)) = drop l (pend s)"
    unfolding map_append distinct_append filter_append
    by (simp add: filter_empty_conv filter_id_conv) (metis disjoint_iff image_eqI list.set_map)
  then show ?thesis using pend_ack [OF good] by simp
qed

lemma drain_all:
  "good s \<Longrightarrow> length (pend s) \<le> n * l \<Longrightarrow> fst (drain pend ack ident l n s) = pend s \<and> pend (snd (drain pend ack ident l n s)) = []"
proof (induction n arbitrary: s)
  case (Suc n)
  let ?s = "ack (map ident (take l (pend s))) s"
  have p: "pend ?s = drop l (pend s)" using pend_ack_round Suc.prems(1) by blast
  have "fst (drain pend ack ident l n ?s) = pend ?s \<and> pend (snd (drain pend ack ident l n ?s)) = []"
    using Suc.prems p by (intro Suc.IH good_ack) auto
  then show ?case by (simp add: Let_def split_beta p)
qed simp

lemma push_then_drain:
  "good s \<Longrightarrow> fits m s \<Longrightarrow> length (pend s) < n * l \<Longrightarrow> fst (drain pend ack ident l n (push m s)) = pend s @ [m]"
  using drain_all [of "push m s" n l] by (simp add: pend_push good_push Suc_le_eq)

end

definition unacked :: "string \<Rightarrow> mailbox_direction \<Rightarrow> mailbox_message \<Rightarrow> bool" where
  "unacked sid dir m \<longleftrightarrow> mm_session m = sid \<and> mm_direction m = dir \<and> mm_acked m = None"

lemma pending_eq: "mail_inv db \<Longrightarrow> pending_messages db sid dir = filter (unacked sid dir) (wd_messages db)"
proof -
  assume "mail_inv db"
  then have "sorted_wrt (\<lambda>a b. mm_id a \<le> mm_id b) (wd_messages db)" by (simp add: mail_inv_def sorted_map)
  then show ?thesis
    unfolding pending_messages_def unacked_def by (intro sort_by_sorted sorted_wrt_filter)
qed

lemma mail_inv_ack: "mail_inv db \<Longrightarrow> mail_inv (ack_rows now sid dir ids db)"
  unfolding ack_rows_def by (rule mail_inv_messages) simp_all

interpretation mailbox_queue: acknowledged_queue
  "\<lambda>db. pending_messages db sid dir" append_message "ack_rows now sid dir" mm_id mail_inv
  "\<lambda>m db. \<not> violates db m \<and> mm_id m = wd_next_message db \<and> unacked sid dir m"
  for sid dir now
proof
  fix db m
  assume inv: "mail_inv db" and m: "\<not> violates db m \<and> mm_id m = wd_next_message db \<and> unacked sid dir m"
  show inv': "mail_inv (append_message m db)" using mail_inv_append [OF inv] m by blast
  show "pending_messages (append_message m db) sid dir = pending_messages db sid dir @ [m]"
    using m unfolding pending_eq [OF inv'] pending_eq [OF inv] by (simp add: append_message_def)
next
  fix db ids
  assume inv: "mail_inv db"
  show inv': "mail_inv (ack_rows now sid dir ids db)" by (rule mail_inv_ack [OF inv])
  let ?f = "\<lambda>m. m\<lparr>mm_acked := (case mm_acked m of None \<Rightarrow> Some now | Some t \<Rightarrow> Some t)\<rparr>"
  have "unacked sid dir (if addressed sid dir ids m then ?f m else m) \<longleftrightarrow> unacked sid dir m \<and> mm_id m \<notin> set ids" for m
    by (auto simp: unacked_def addressed_def split: option.split)
  moreover have "(if addressed sid dir ids m then ?f m else m) = m" if "unacked sid dir m \<and> mm_id m \<notin> set ids" for m
    using that by (simp add: unacked_def addressed_def)
  ultimately have "filter (unacked sid dir) (map (\<lambda>m. if addressed sid dir ids m then ?f m else m) ms) =
      filter (\<lambda>m. mm_id m \<notin> set ids) (filter (unacked sid dir) ms)" for ms
    by (induction ms) auto
  then show "pending_messages (ack_rows now sid dir ids db) sid dir = filter (\<lambda>m. mm_id m \<notin> set ids) (pending_messages db sid dir)"
    unfolding pending_eq [OF inv'] pending_eq [OF inv] by (simp add: ack_rows_def update_where_def)
next
  fix db assume inv: "mail_inv db"
  then show "distinct (map mm_id (pending_messages db sid dir))"
    unfolding pending_eq [OF inv] by (simp add: mail_inv_def rowids_def distinct_map_filter)
qed

text \<open>
  A worker reading its mailbox: rounds of pulling at most \<open>l\<close> messages and acknowledging them.
\<close>

fun pull_rounds :: "(string \<Rightarrow> string) \<Rightarrow> time \<Rightarrow> string \<Rightarrow> nat \<Rightarrow> nat \<Rightarrow> mailbox_message list mailbox" where
  "pull_rounds sha now tok l 0 = ok []"
| "pull_rounds sha now tok l (Suc n) =
     andThen (pullForWorker sha tok (Num (of_nat l))) (\<lambda>(b, ms).
       if ms = [] then ok []
       else andThen (acknowledgeForWorker sha now tok (map (\<lambda>m. Num (of_int (mm_id m))) ms)) (\<lambda>_.
            andThen (pull_rounds sha now tok l n) (\<lambda>rest. ok (ms @ rest))))"

lemma boundedIds_ok:
  assumes "distinct (map mm_id ms)" "ms \<noteq> []" "length ms \<le> 100" "\<forall>m \<in> set ms. 0 < mm_id m \<and> mm_id m < 9007199254740992"
  shows "boundedIds (map (\<lambda>m. Num (of_int (mm_id m))) ms) = Inr (map mm_id ms)"
proof -
  let ?v = "map (\<lambda>m. Num (of_int (mm_id m))) ms"
  have "distinct ?v" using assms(1) by (simp add: distinct_map inj_on_def)
  then have u: "uniq ?v = ?v" by (rule uniq_distinct)
  have "of_int (mm_id m) \<le> (9007199254740991::rat)" if "m \<in> set ms" for m
  proof -
    have "mm_id m \<le> 9007199254740991" using assms(4) that by fastforce
    then have "(of_int (mm_id m) :: rat) \<le> of_int 9007199254740991" by (simp only: of_int_le_iff)
    then show ?thesis by simp
  qed
  then have "\<not> list_ex (\<lambda>x. \<not> isSafeInteger x \<or> finite_val x \<le> 0) ?v"
    using assms(4) by (auto simp: list_ex_iff)
  then show ?thesis
    using assms(2,3) unfolding boundedIds_def u by (simp add: comp_def Suc_le_eq)
qed

lemma ack_rows_Nil: "ack_rows now sid dir [] db = db"
  by (simp add: ack_rows_def addressed_def update_where_def)

lemma drain_empty: "pending_messages db sid dir = [] \<Longrightarrow>
    drain (\<lambda>db. pending_messages db sid dir) (ack_rows now sid dir) mm_id l n db = ([], db)"
  by (induction n) (simp_all add: ack_rows_Nil)

lemma ack_round:
  assumes inv: "mail_inv db" and res: "resolveWorkerSession sha db tok = Some b" and l: "1 \<le> l" "l \<le> 100"
    and nx: "wd_next_message db \<le> 9007199254740992"
    and ms: "ms = take l (pending_messages db (sb_session b) DispatcherToWorker)" "ms \<noteq> []"
  shows "acknowledgeForWorker sha now tok (map (\<lambda>m. Num (of_int (mm_id m))) ms) db =
    (Inr (length ms), ack_rows now (sb_session b) DispatcherToWorker (map mm_id ms) db)"
proof -
  let ?sid = "sb_session b"
  have dm: "distinct (map mm_id (wd_messages db))" using inv by (simp add: mail_inv_def rowids_def)
  have sub: "set ms \<subseteq> {m \<in> set (wd_messages db). unacked ?sid DispatcherToWorker m}"
    using ms(1) pending_eq [OF inv] by (auto dest: in_set_takeD)
  have dist: "distinct (map mm_id ms)"
    using mailbox_queue.distinct_pend [OF inv] ms(1) by (simp flip: take_map)
  have ids: "boundedIds (map (\<lambda>m. Num (of_int (mm_id m))) ms) = Inr (map mm_id ms)"
    using dist ms l sub inv nx by (intro boundedIds_ok) (fastforce simp: mail_inv_def rowids_def)+
  have "set (filter (addressed ?sid DispatcherToWorker (map mm_id ms)) (wd_messages db)) = set ms"
    using sub dm by (auto simp: addressed_def unacked_def distinct_map inj_on_def)
  moreover have "distinct (filter (addressed ?sid DispatcherToWorker (map mm_id ms)) (wd_messages db))" "distinct ms"
    using dm dist by (auto simp: distinct_map)
  ultimately have "length (filter (addressed ?sid DispatcherToWorker (map mm_id ms)) (wd_messages db)) = length ms"
    by (metis distinct_card)
  then show ?thesis
    using ids res by (simp add: acknowledgeForWorker_def worker_bound_def acknowledge_def action_simps)
qed

lemma pull_rounds_drain:
  assumes "mail_inv db" "resolveWorkerSession sha db tok = Some b" "1 \<le> l" "l \<le> 100" "wd_next_message db \<le> 9007199254740992"
  shows "pull_rounds sha now tok l n db = map_prod Inr id
    (drain (\<lambda>db. pending_messages db (sb_session b) DispatcherToWorker) (ack_rows now (sb_session b) DispatcherToWorker) mm_id l n db)"
  using assms
proof (induction n arbitrary: db)
  case (Suc n)
  let ?pend = "\<lambda>db. pending_messages db (sb_session b) DispatcherToWorker"
  let ?ms = "take l (?pend db)" and ?db = "ack_rows now (sb_session b) DispatcherToWorker (map mm_id (take l (?pend db))) db"
  have "boundedLimit (Num (of_nat l)) = Inr l"
    using Suc.prems(3,4) integral_of_int [of "int l"] by (simp add: boundedLimit_def)
  then have pull: "pullForWorker sha tok (Num (of_nat l)) db = (Inr (b, ?ms), db)"
    using Suc.prems(2) by (simp add: pullForWorker_def worker_bound_def pending_def action_simps)
  show ?case
  proof (cases "?ms = []")
    case True
    then have "?pend db = []" using Suc.prems(3) by simp
    with True pull drain_empty show ?thesis by (simp add: action_simps ack_rows_Nil)
  next
    case False
    have ih: "pull_rounds sha now tok l n ?db = map_prod Inr id (drain ?pend (ack_rows now (sb_session b) DispatcherToWorker) mm_id l n ?db)"
      using Suc.prems mail_inv_ack
      by (intro Suc.IH) (simp_all add: ack_rows_def resolveWorkerSession_def cong: option.case_cong)
    from pull ack_round [OF Suc.prems refl False, of now] ih False show ?thesis
      by (simp add: action_simps Let_def split_beta map_prod_def)
  qed
qed (simp add: action_simps)

text \<open>
  C9. Mail is delivered once and in order: a worker that pulls at most \<open>l\<close> messages at a time and
  acknowledges each batch gets, over enough rounds, exactly the messages pending for it, in the order
  they were sent, each once; afterwards none is pending, and a message sent in between queues last.
\<close>

theorem mailbox_delivers_in_order:
  assumes "worker_inv N db" and "resolveWorkerSession sha db tok = Some b"
    and "1 \<le> l" "l \<le> 100" and "wd_next_message db \<le> 9007199254740992"
    and "length (pending_messages db (sb_session b) DispatcherToWorker) \<le> n * l"
  shows "\<exists>db'. pull_rounds sha now tok l n db = (Inr (pending_messages db (sb_session b) DispatcherToWorker), db') \<and>
      pending_messages db' (sb_session b) DispatcherToWorker = [] \<and>
      distinct (map mm_id (pending_messages db (sb_session b) DispatcherToWorker)) \<and>
      sorted (map mm_id (pending_messages db (sb_session b) DispatcherToWorker)) \<and>
    (\<forall>m db2. mailbox_insert t (sb_session b) DispatcherToWorker Message key sender body db = (Inr m, db2) \<and> db2 \<noteq> db \<longrightarrow>
      pending_messages db2 (sb_session b) DispatcherToWorker = pending_messages db (sb_session b) DispatcherToWorker @ [m])"
proof -
  let ?pend = "\<lambda>db. pending_messages db (sb_session b) DispatcherToWorker"
  have inv: "mail_inv db" using assms(1) by (simp add: worker_inv_def)
  let ?d = "drain ?pend (ack_rows now (sb_session b) DispatcherToWorker) mm_id l n db"
  have d: "fst ?d = ?pend db" "?pend (snd ?d) = []" using mailbox_queue.drain_all [OF inv assms(6)] by simp_all
  have "pull_rounds sha now tok l n db = (Inr (?pend db), snd ?d)"
    unfolding pull_rounds_drain [OF inv assms(2-5)] by (metis (no_types) d(1) id_apply map_prod_simp prod.collapse)
  moreover have "sorted (map mm_id (?pend db))"
  proof -
    have "sorted (map mm_id (wd_messages db))" using inv by (simp add: mail_inv_def)
    then show ?thesis unfolding pending_eq [OF inv] by (rule sorted_filter)
  qed
  moreover have "?pend db2 = ?pend db @ [m]"
    if "mailbox_insert t (sb_session b) DispatcherToWorker Message key sender body db = (Inr m, db2)" "db2 \<noteq> db" for m db2
  proof -
    have "db2 = append_message m db" "\<not> violates db m" "mm_id m = wd_next_message db" "unacked (sb_session b) DispatcherToWorker m"
      using that by (auto simp: mailbox_insert_def action_simps insert_row_def Let_def unacked_def split: option.splits if_splits)
    with mailbox_queue.pend_push [OF inv] show ?thesis by blast
  qed
  ultimately show ?thesis using d(2) mailbox_queue.distinct_pend [OF inv] by blast
qed

theorem mailbox_delivers_in_order_witness:
  "\<exists>db'. pull_rounds zero_sha 7000 demo_token 1 1 (append_message demo_mail demo_db) = (Inr [demo_mail], db')"
proof -
  let ?db = "append_message demo_mail demo_db"
  have "(spawn_step demo_config zero_sha (\<lambda>_. []))\<^sup>*\<^sup>* fresh_spawner (on_mail (sendToWorker 5000 ''wrk-aaaaaaaa'' ''f1'' ''all good'' ''dispatcher'') started)"
    using started_reachable by (rule rtranclp.rtrancl_into_rtrancl) (rule spawn_step.send)
  from worker.inv_reachable [OF refl this] have inv: "worker_inv 1 ?db"
    using demo_send by (simp add: spawn_inv_def on_mail_def started_eq fresh_spawner_def demo_db_def demo_config_def)
  have res: "resolveWorkerSession zero_sha ?db demo_token = Some (binding_of demo_session)"
    using demo_resolves by (simp add: resolveWorkerSession_def append_message_def cong: option.case_cong)
  have "pending_messages ?db (sb_session (binding_of demo_session)) DispatcherToWorker = [demo_mail]"
    by (simp add: pending_messages_def append_message_def demo_db_def empty_worker_db_def demo_mail_def binding_of_def demo_session_def
        new_session_def)
  with mailbox_delivers_in_order [OF inv res, of 1 1 7000] show ?thesis
    by (simp add: append_message_def demo_db_def empty_worker_db_def) blast
qed

section \<open>Recovery\<close>

text \<open>What one recovery pass owes a session that is active and not being started.\<close>

definition pod_outcome :: "time \<Rightarrow> provision_state option \<Rightarrow> worker_session \<Rightarrow> worker_session" where
  "pod_outcome now res x =
     (case res of
        None \<Rightarrow> x
      | Some PodPending \<Rightarrow> x
      | Some (PodReady r) \<Rightarrow> set_running now r x
      | Some st \<Rightarrow> set_failed now (pod_error st) x)"

lemma session_by_id_update:
  assumes "\<And>x. ws_id (f x) = ws_id x"
  shows "session_by_id (update_session j P f db) i =
    map_option (\<lambda>x. if i = j \<and> P (ws_status x) then f x else x) (session_by_id db i)"
proof (cases "find (\<lambda>s. ws_id s = i) (wd_sessions db)")
  case (Some x)
  then show ?thesis
    using assms find_SomeD [OF Some] by (simp add: session_by_id_def update_session_def find_update_where)
qed (use assms in \<open>simp add: session_by_id_def update_session_def find_update_where\<close>)

lemma durable_update_session [simp]: "hasDurableFinish i (update_session j P f db) = hasDurableFinish i db"
  by (simp add: durable_iff update_session_def)

lemma pod_outcome_id [simp]: "ws_id (pod_outcome now res x) = ws_id x"
  by (simp add: pod_outcome_def set_running_def set_failed_def split: option.split provision_state.split)

lemma pod_outcome_cases:
  "pod_outcome now None = (\<lambda>x. x)" "pod_outcome now (Some PodPending) = (\<lambda>x. x)" "pod_outcome now (Some (PodReady r)) = set_running now r"
  "pod_outcome now (Some PodSucceeded) = set_failed now (pod_error PodSucceeded)"
  "pod_outcome now (Some (PodFailed e)) = set_failed now (pod_error (PodFailed e))"
  "pod_outcome now (Some PodMissing) = set_failed now (pod_error PodMissing)"
  by (simp_all add: pod_outcome_def fun_eq_iff)

lemma recover_one_messages: "wd_messages (recover_one now inspect i db) = wd_messages db"
  by (simp add: recover_one_def recover_before_def recover_after_def finish_from_mail_def update_session_def
      split: option.split provision_state.split)

lemma recover_one_undelivered:
  "\<not> hasDurableFinish i db \<Longrightarrow> recover_one now inspect i db = update_session i is_active (pod_outcome now (inspect i)) db"
proof -
  have "update_session i is_active (\<lambda>x. x) db = db" by (simp add: update_session_def update_where_def)
  moreover assume "\<not> hasDurableFinish i db"
  ultimately show ?thesis
    by (simp add: recover_one_def recover_after_def pod_outcome_cases split: option.split provision_state.split)
qed

lemma recover_fold:
  assumes "distinct is" and "\<forall>j \<in> set is. \<not> hasDurableFinish j db"
  shows "session_by_id (fold (recover_one now inspect) is db) i =
    map_option (\<lambda>x. if i \<in> set is \<and> is_active (ws_status x) then pod_outcome now (inspect i) x else x) (session_by_id db i)"
  using assms
proof (induction "is" arbitrary: db)
  case Nil
  then show ?case by (simp add: option.map_ident)
next
  case (Cons j js)
  let ?db = "update_session j is_active (pod_outcome now (inspect j)) db"
  have one: "recover_one now inspect j db = ?db" using Cons.prems(2) by (simp add: recover_one_undelivered)
  have "session_by_id (fold (recover_one now inspect) js ?db) i =
      map_option (\<lambda>x. if i \<in> set js \<and> is_active (ws_status x) then pod_outcome now (inspect i) x else x) (session_by_id ?db i)"
    using Cons.prems by (intro Cons.IH) auto
  then show ?case
    using Cons.prems(1) by (cases "i = j") (auto simp: one session_by_id_update option.map_comp comp_def intro!: option.map_cong)
qed



end
