(* ===== verification/Worker_Custody.thy ===== *)
theory Worker_Custody
  imports Worker_Correct
begin

text \<open>
  Correctness of the custody of worker sources and artifacts: every artifact the database names is a
  file with the recorded size and digest, whatever the workspace store does afterwards, what a worker
  hands in can be read back, and a worker starts from exactly the archive that was prepared for it.
\<close>

section \<open>Paths\<close>

lemma session_shape_length: "session_shape sid \<Longrightarrow> length sid = 12"
  by (simp add: session_shape_def)

lemma artifact_path_inj:
  "session_shape sid \<Longrightarrow> session_shape sid' \<Longrightarrow> artifact_path sid key = artifact_path sid' key' \<longleftrightarrow> sid = sid' \<and> key = key'"
  using session_shape_length [of sid] session_shape_length [of sid'] by (simp add: artifact_path_def append_eq_append_conv)

lemma source_not_artifact [simp]: "source_path sid \<noteq> artifact_path sid' key" "artifact_path sid' key \<noteq> source_path sid"
  by (simp_all add: source_path_def artifact_path_def)

section \<open>Invariant\<close>

definition file_verifies :: "(nat list \<Rightarrow> string) \<Rightarrow> workspace \<Rightarrow> artifact_row \<Rightarrow> bool" where
  "file_verifies shab w a = (case map_of (wk_files w) (ar_path a) of
     None \<Rightarrow> False | Some data \<Rightarrow> length data = ar_size a \<and> shab data = ar_sha256 a)"

definition custody_inv :: "(nat list \<Rightarrow> string) \<Rightarrow> workspace \<Rightarrow> bool" where
  "custody_inv shab w \<longleftrightarrow>
     (\<forall>a \<in> set (wd_artifacts (wk_db w)). session_shape (ar_session a) \<and> ar_path a = artifact_path (ar_session a) (ar_key a) \<and>
        file_verifies shab w a) \<and>
     distinct (map (\<lambda>a. (ar_session a, ar_key a)) (wd_artifacts (wk_db w))) \<and>
     rowids ar_id (wd_next_artifact (wk_db w)) (wd_artifacts (wk_db w))"

text \<open>
  The operations of the store, and any change of the database by the other brokers: they neither add
  nor remove artifact rows.
\<close>

inductive custody_step :: "(string \<Rightarrow> string) \<Rightarrow> (nat list \<Rightarrow> string) \<Rightarrow> workspace_options \<Rightarrow> workspace \<Rightarrow> workspace \<Rightarrow> bool"
  for sha shab wo where
  prepare: "custody_step sha shab wo w (snd (prepareSource shab wo status revision archive data sid w))"
| discard: "custody_step sha shab wo w (snd (discardSource sid w))"
| put: "custody_step sha shab wo w (snd (putArtifactForWorker sha shab wo now tok x w))"
| others: "wd_artifacts db = wd_artifacts (wk_db w) \<Longrightarrow> wd_next_artifact db = wd_next_artifact (wk_db w) \<Longrightarrow>
    custody_step sha shab wo w (w\<lparr>wk_db := db\<rparr>)"

inductive_cases custody_stepE: "custody_step sha shab wo w w'"

lemma map_of_files [simp]:
  "map_of (wk_files (write_file p d w)) q = (if q = p then Some d else map_of (wk_files w) q)"
  "map_of (wk_files (remove_file p w)) q = (if q = p then None else map_of (wk_files w) q)"
  "wk_db (write_file p d w) = wk_db w" "wk_db (remove_file p w) = wk_db w"
  by (simp_all add: write_file_def remove_file_def update_conv' delete_conv')

lemma add_artifact_sel [simp]:
  "wk_files (add_artifact a w) = wk_files w" "wd_artifacts (wk_db (add_artifact a w)) = wd_artifacts (wk_db w) @ [a]"
  "wd_next_artifact (wk_db (add_artifact a w)) = wd_next_artifact (wk_db w) + 1"
  by (simp_all add: add_artifact_def)

lemma find_artifact_None: "find_artifact db sid key = None \<longleftrightarrow> (\<forall>a \<in> set (wd_artifacts db). \<not> (ar_session a = sid \<and> ar_key a = key))"
  by (auto simp: find_artifact_def find_None_iff)

lemma find_artifact_Some: "find_artifact db sid key = Some a \<Longrightarrow> a \<in> set (wd_artifacts db) \<and> ar_session a = sid \<and> ar_key a = key"
  unfolding find_artifact_def by (drule find_SomeD) simp

lemma new_artifact_sel [simp]:
  "ar_session (new_artifact db now b x h) = sb_session b" "ar_key (new_artifact db now b x h) = ai_key x"
  "ar_path (new_artifact db now b x h) = artifact_path (sb_session b) (ai_key x)" "ar_sha256 (new_artifact db now b x h) = h"
  "ar_size (new_artifact db now b x h) = length (ai_data x)" "ar_id (new_artifact db now b x h) = wd_next_artifact db"
  "ar_kind (new_artifact db now b x h) = ai_kind x" "ar_source_sha256 (new_artifact db now b x h) = ai_source_sha256 x"
  by (simp_all add: new_artifact_def)

lemma check_artifact_digest: "check_artifact shab wo db b x = Inr h \<Longrightarrow> h = shab (ai_data x)"
  by (simp add: check_artifact_def split: if_splits)

text \<open>A file whose path is no artifact's does not matter to the invariant.\<close>

lemma custody_inv_other_file:
  assumes "custody_inv shab w" and "wk_db w' = wk_db w"
    and "\<And>a. a \<in> set (wd_artifacts (wk_db w)) \<Longrightarrow> map_of (wk_files w') (ar_path a) = map_of (wk_files w) (ar_path a)"
  shows "custody_inv shab w'"
proof -
  have "file_verifies shab w' a = file_verifies shab w a" if "a \<in> set (wd_artifacts (wk_db w))" for a
    by (simp only: file_verifies_def assms(3) [OF that])
  then show ?thesis using assms(1) by (simp add: custody_inv_def assms(2))
qed

lemma custody_inv_source:
  assumes "custody_inv shab w"
  shows "custody_inv shab (write_file (source_path sid) d w)" "custody_inv shab (remove_file (source_path sid) w)"
  by (rule custody_inv_other_file [OF assms]; use assms in \<open>simp add: custody_inv_def\<close>)+

lemma custody_inv_remove_unbound:
  assumes "custody_inv shab w" and "session_shape sid" and "find_artifact (wk_db w) sid key = None"
  shows "custody_inv shab (remove_file (artifact_path sid key) (write_file (artifact_path sid key) d w))"
  using assms by (intro custody_inv_other_file [OF assms(1)]) (auto simp: custody_inv_def find_artifact_None artifact_path_inj)

lemma custody_inv_add:
  assumes "custody_inv shab w" and "session_shape (sb_session b)" and "find_artifact (wk_db w) (sb_session b) (ai_key x) = None"
  shows "custody_inv shab (add_artifact (new_artifact (wk_db w) now b x (shab (ai_data x)))
    (write_file (artifact_path (sb_session b) (ai_key x)) (ai_data x) w))"
proof -
  let ?a = "new_artifact (wk_db w) now b x (shab (ai_data x))"
  let ?w = "add_artifact ?a (write_file (artifact_path (sb_session b) (ai_key x)) (ai_data x) w)"
  have keep: "file_verifies shab ?w a" if "a \<in> set (wd_artifacts (wk_db w))" for a
    using that assms by (auto simp: custody_inv_def find_artifact_None artifact_path_inj file_verifies_def)
  have "file_verifies shab ?w ?a" by (simp add: file_verifies_def)
  moreover have "rowids ar_id (wd_next_artifact (wk_db w) + 1) (wd_artifacts (wk_db w) @ [?a])"
    using assms(1) by (simp add: custody_inv_def rowids_append)
  moreover have "distinct (map (\<lambda>a. (ar_session a, ar_key a)) (wd_artifacts (wk_db w) @ [?a]))"
    using assms by (auto simp: custody_inv_def find_artifact_None)
  ultimately show ?thesis
    using keep assms(1,2) by (auto simp: custody_inv_def)
qed

lemma custody_inv_put:
  assumes "custody_inv shab w"
  shows "custody_inv shab (snd (putArtifactForWorker sha shab wo now tok x w))"
proof (cases "resolveWorkerSession sha (wk_db w) tok")
  case None
  then show ?thesis using assms by (simp add: putArtifactForWorker_def action_simps)
next
  case (Some b)
  show ?thesis
  proof (cases "check_artifact shab wo (wk_db w) b x")
    case (Inl e)
    then show ?thesis using assms Some by (simp add: putArtifactForWorker_def action_simps)
  next
    case (Inr h)
    have h: "h = shab (ai_data x)" by (rule check_artifact_digest [OF Inr])
    show ?thesis
    proof (cases "find_artifact (wk_db w) (sb_session b) (ai_key x)")
      case None
      then show ?thesis
        using assms Some Inr h custody_inv_add [OF assms _ None] custody_inv_remove_unbound [OF assms _ None]
        by (simp add: putArtifactForWorker_def action_simps Let_def)
    next
      case (Some a)
      have "snd (artifactFile shab sid key w) = w" for sid key
        by (simp add: artifactFile_def action_simps split: option.split)
      then show ?thesis using assms \<open>resolveWorkerSession sha (wk_db w) tok = Some b\<close> Inr Some
        by (simp add: putArtifactForWorker_def action_simps)
    qed
  qed
qed

lemma custody_inv_step:
  assumes "custody_step sha shab wo w w'" and inv: "custody_inv shab w"
  shows "custody_inv shab w'"
  using assms(1)
proof cases
  case (prepare status revision archive data sid)
  then show ?thesis using inv custody_inv_source(1) [OF inv] by (simp add: prepareSource_def action_simps)
next
  case (discard sid)
  then show ?thesis using inv custody_inv_source(2) [OF inv] by (simp add: discardSource_def action_simps)
next
  case (put now tok x)
  then show ?thesis using custody_inv_put [OF inv] by simp
next
  case (others db)
  have "file_verifies shab (w\<lparr>wk_db := db\<rparr>) = file_verifies shab w" by (simp add: file_verifies_def fun_eq_iff)
  then show ?thesis using inv others by (simp add: custody_inv_def)
qed

definition nothing_in_custody :: "workspace \<Rightarrow> bool" where
  "nothing_in_custody w \<longleftrightarrow> wd_artifacts (wk_db w) = [] \<and> wd_next_artifact (wk_db w) = 1"

interpretation custody: step_system nothing_in_custody "custody_step sha shab wo" "custody_inv shab" for sha shab wo
proof
  show "nothing_in_custody w \<Longrightarrow> custody_inv shab w" for w by (simp add: nothing_in_custody_def custody_inv_def rowids_def)
qed (rule custody_inv_step)

section \<open>Reading back\<close>

lemma find_artifact_own:
  assumes "custody_inv shab w" and "a \<in> set (wd_artifacts (wk_db w))"
  shows "find_artifact (wk_db w) (ar_session a) (ar_key a) = Some a"
  using assms find_key_in_set [of "\<lambda>a. (ar_session a, ar_key a)" "wd_artifacts (wk_db w)" a]
  by (simp add: custody_inv_def find_artifact_def)

lemma artifactFile_own:
  assumes "custody_inv shab w" and "a \<in> set (wd_artifacts (wk_db w))"
  shows "artifactFile shab (ar_session a) (ar_key a) w = (Inr a, w)"
proof -
  obtain data where "map_of (wk_files w) (ar_path a) = Some data" "length data = ar_size a" "shab data = ar_sha256 a"
    using assms by (auto simp: custody_inv_def file_verifies_def split: option.splits)
  then show ?thesis by (simp add: artifactFile_def action_simps find_artifact_own [OF assms])
qed


text \<open>What a successful hand-in leaves behind: the row it returns, over the bytes handed in.\<close>

lemma put_result:
  assumes "custody_inv shab w" and "putArtifactForWorker sha shab wo now tok x w = (Inr a, w')"
  obtains b where "resolveWorkerSession sha (wk_db w) tok = Some b" "check_artifact shab wo (wk_db w) b x = Inr (shab (ai_data x))"
    "a \<in> set (wd_artifacts (wk_db w'))" "ar_session a = sb_session b" "ar_key a = ai_key x" "ar_kind a = ai_kind x"
    "ar_source_sha256 a = ai_source_sha256 x" "ar_sha256 a = shab (ai_data x)" "ar_size a = length (ai_data x)"
    "wd_sessions (wk_db w') = wd_sessions (wk_db w)"
    "find_artifact (wk_db w) (sb_session b) (ai_key x) = None \<longrightarrow> map_of (wk_files w') (ar_path a) = Some (ai_data x)"
proof -
  from assms(2) obtain b where b: "resolveWorkerSession sha (wk_db w) tok = Some b"
    by (auto simp: putArtifactForWorker_def action_simps split: option.splits)
  with assms(2) obtain h where h: "check_artifact shab wo (wk_db w) b x = Inr h"
    by (auto simp: putArtifactForWorker_def action_simps split: sum.splits)
  note d = check_artifact_digest [OF h]
  show thesis
  proof (cases "find_artifact (wk_db w) (sb_session b) (ai_key x)")
    case None
    with assms(2) b h have "a = new_artifact (wk_db w) now b x h"
      "w' = add_artifact a (write_file (ar_path a) (ai_data x) w)"
      by (auto simp: putArtifactForWorker_def action_simps Let_def split: if_splits)
    then show thesis using b h d None by (intro that) (simp_all add: add_artifact_def)
  next
    case (Some a')
    note a' = find_artifact_Some [OF Some]
    have "artifactFile shab (sb_session b) (ai_key x) w = (Inr a', w)" using artifactFile_own [OF assms(1)] a' by metis
    with assms(2) b h Some have "a = a'" "w' = w"
      "ar_kind a' = ai_kind x" "ar_source_sha256 a' = ai_source_sha256 x" "ar_sha256 a' = h" "ar_size a' = length (ai_data x)"
      by (auto simp: putArtifactForWorker_def action_simps split: if_splits)
    then show thesis using b h d a' by (intro that [of b]) (use Some in simp_all)
  qed
qed

text \<open>
  What a worker hands in can be read back: the receipt of a successful hand-in carries the digest
  and the size of the bytes handed in and the source they were made from, reading the artifact under
  its key returns this receipt, a first hand-in stores exactly these bytes, and handing the same input
  in again, at any later time, returns the same receipt and changes nothing.
\<close>

theorem put_artifact_reads_back:
  assumes "custody_inv shab w" and "putArtifactForWorker sha shab wo now tok x w = (Inr a, w')"
  shows "artifactFile shab (ar_session a) (ai_key x) w' = (Inr a, w') \<and>
    ar_sha256 a = shab (ai_data x) \<and> ar_size a = length (ai_data x) \<and> ar_source_sha256 a = ai_source_sha256 x \<and>
    (find_artifact (wk_db w) (ar_session a) (ai_key x) = None \<longrightarrow> map_of (wk_files w') (ar_path a) = Some (ai_data x)) \<and>
    putArtifactForWorker sha shab wo later tok x w' = (Inr a, w')"
proof -
  obtain b where b: "resolveWorkerSession sha (wk_db w) tok = Some b"
    and h: "check_artifact shab wo (wk_db w) b x = Inr (shab (ai_data x))"
    and a: "a \<in> set (wd_artifacts (wk_db w'))" "ar_session a = sb_session b" "ar_key a = ai_key x" "ar_kind a = ai_kind x"
      "ar_source_sha256 a = ai_source_sha256 x" "ar_sha256 a = shab (ai_data x)" "ar_size a = length (ai_data x)"
    and same: "wd_sessions (wk_db w') = wd_sessions (wk_db w)"
    and fresh: "find_artifact (wk_db w) (sb_session b) (ai_key x) = None \<longrightarrow> map_of (wk_files w') (ar_path a) = Some (ai_data x)"
    by (rule put_result [OF assms])
  have inv: "custody_inv shab w'" using custody_inv_put [OF assms(1), of sha wo now tok x] assms(2) by simp
  have stored: "artifactFile shab (sb_session b) (ai_key x) w' = (Inr a, w')" using artifactFile_own [OF inv a(1)] a(2,3) by simp
  have found: "find_artifact (wk_db w') (sb_session b) (ai_key x) = Some a" using find_artifact_own [OF inv a(1)] a(2,3) by simp
  have b': "resolveWorkerSession sha (wk_db w') tok = Some b"
    using b by (simp add: resolveWorkerSession_def same cong: option.case_cong)
  have h': "check_artifact shab wo (wk_db w') b x = Inr (shab (ai_data x))"
    using h unfolding check_artifact_def session_by_id_def same .
  have "putArtifactForWorker sha shab wo later tok x w' = (Inr a, w')"
    by (simp add: putArtifactForWorker_def action_simps b' h' found a stored)
  then show ?thesis using a stored fresh by simp
qed

section \<open>Sources\<close>

lemma prepareSource_Some:
  assumes "prepareSource shab wo status revision archive data i w = (Inr (Some r), w')"
  shows "w' = write_file (source_path i) data w \<and> session_shape i \<and> sr_sha256 r = shab data \<and> sr_bytes r = length data \<and>
    length data \<le> wo_max_source wo"
  using assms by (auto simp: prepareSource_def action_simps split: if_splits)

lemma start_source_bound:
  assumes "distinct (map ws_id (wd_sessions (sp_db s)))" and "start_source now True i (Some r) s = (Inr (), s')"
  obtains x where "session_by_id (sp_db s') i = Some (bind_source now r x)"
proof -
  from assms(2) have "length (filter (\<lambda>x. ws_id x = i \<and> unbound x) (wd_sessions (sp_db s))) = 1"
    and s': "sp_db s' = (sp_db s)\<lparr>wd_sessions := update_where (\<lambda>x. ws_id x = i \<and> unbound x) (bind_source now r) (wd_sessions (sp_db s))\<rparr>"
    by (auto simp: start_source_def action_simps source_caught_def set_phase_def on_db_def split: if_splits)
  then have "filter (\<lambda>x. ws_id x = i \<and> unbound x) (wd_sessions (sp_db s)) \<noteq> []" by auto
  then obtain x where x: "x \<in> set (wd_sessions (sp_db s))" "ws_id x = i" "unbound x" by (auto simp: filter_empty_conv)
  have "find (\<lambda>y. ws_id y = i) (wd_sessions (sp_db s)) = Some x" using find_key_in_set [OF assms(1) x(1)] x(2) by simp
  then have "session_by_id (sp_db s') i = Some (bind_source now r x)"
    using x by (simp add: session_by_id_def s' find_update_where bind_source_def)
  then show thesis by (rule that)
qed

text \<open>
  C31. A worker starts from exactly the archive prepared for it: once a source was prepared for a
  session and bound to it, a request with the session's token returns the receipt and the very bytes
  that were archived, at most \<open>maxSourceBytes\<close> of them; bytes that differ in length or digest are
  refused as corrupt, and so is a missing file.
\<close>

theorem worker_gets_prepared_source:
  assumes "spawn_inv N s" and "prepareSource shab wo status revision archive data i w = (Inr (Some r), w1)"
    and "start_source now True i (Some r) s = (Inr (), s')"
    and "resolveWorkerSession sha (sp_db s') tok = Some b" and "sb_session b = i"
  shows "sourceForWorker sha shab tok (w1\<lparr>wk_db := sp_db s'\<rparr>) = (Inr (Some (b, r, data)), w1\<lparr>wk_db := sp_db s'\<rparr>) \<and>
    length data \<le> wo_max_source wo \<and>
    (\<forall>w2. wk_db w2 = sp_db s' \<and> (\<forall>d. map_of (wk_files w2) (source_path i) = Some d \<longrightarrow> length d \<noteq> length data \<or> shab d \<noteq> shab data) \<longrightarrow>
      (\<exists>e. sourceForWorker sha shab tok w2 = (Inl (StorageCorrupt e), w2)))"
proof -
  have "distinct (map ws_id (wd_sessions (sp_db s)))" using assms(1) by (simp add: spawn_inv_def worker_inv_def sessions_inv_def)
  from start_source_bound [OF this assms(3)] obtain x where x: "session_by_id (sp_db s') i = Some (bind_source now r x)" by blast
  note p = prepareSource_Some [OF assms(2)]
  have "\<exists>e. sourceForWorker sha shab tok w2 = (Inl (StorageCorrupt e), w2)"
    if "wk_db w2 = sp_db s'" "\<forall>d. map_of (wk_files w2) (source_path i) = Some d \<longrightarrow> length d \<noteq> length data \<or> shab d \<noteq> shab data" for w2
    using that assms(4,5) x p
    by (cases "map_of (wk_files w2) (source_path i)") (auto simp: sourceForWorker_def action_simps bind_source_def)
  then show ?thesis
    using assms(4,5) x p by (auto simp: sourceForWorker_def action_simps bind_source_def write_file_def update_conv')
qed

section \<open>Samples\<close>

text \<open>The sample worker with a source of two bytes, its archive, and a patch of three bytes.\<close>

definition flat_sha :: "nat list \<Rightarrow> string" where
  "flat_sha bs = replicate 64 CHR ''0''"

definition demo_options :: workspace_options where
  "demo_options = \<lparr>wo_source_enabled = True, wo_max_source = 5, wo_max_artifact = 5\<rparr>"

definition demo_git :: git_result where
  "demo_git = \<lparr>gr_code = 0, gr_stdout = [], gr_stderr = []\<rparr>"

definition demo_head :: git_result where
  "demo_head = \<lparr>gr_code = 0, gr_stdout = replicate 40 CHR ''a'', gr_stderr = []\<rparr>"

definition demo_receipt :: source_receipt where
  "demo_receipt = \<lparr>sr_revision = replicate 40 CHR ''a'', sr_sha256 = replicate 64 CHR ''0'', sr_bytes = 2\<rparr>"

definition bound_session :: worker_session where
  "bound_session = bind_source 2500 demo_receipt demo_session"

definition bound_db :: worker_db where
  "bound_db = empty_worker_db\<lparr>wd_sessions := [bound_session]\<rparr>"

definition demo_patch :: artifact_input where
  "demo_patch = \<lparr>ai_key = ''p1'', ai_kind = ''unified_patch_gzip'', ai_source_sha256 = replicate 64 CHR ''0'', ai_data = [7, 8, 9],
     ai_sha256 = None\<rparr>"

definition empty_workspace :: workspace where
  "empty_workspace = \<lparr>wk_db = bound_db, wk_files = []\<rparr>"

definition demo_artifact :: artifact_row where
  "demo_artifact = new_artifact bound_db 4000 (binding_of demo_session) demo_patch (replicate 64 CHR ''0'')"

lemma bound_sel [simp]:
  "ws_id bound_session = ''wrk-aaaaaaaa''" "ws_digest bound_session = zero_sha demo_token" "ws_status bound_session = Spawning"
  "ws_source_sha256 bound_session = Some (replicate 64 CHR ''0'')" "binding_of bound_session = binding_of demo_session"
  "sb_session (binding_of demo_session) = ''wrk-aaaaaaaa''"
  by (simp_all add: bound_session_def bind_source_def demo_session_def new_session_def demo_receipt_def binding_of_def)

lemma bound_resolves: "resolveWorkerSession zero_sha bound_db demo_token = Some (binding_of demo_session)"
proof -
  have "verifyWorkerControlToken zero_sha demo_token (zero_sha demo_token)" by (rule verify_own [OF zero_sha_digest demo_digest])
  moreover have "known_runtime (ws_runtime bound_session)"
    by (simp add: bound_session_def bind_source_def demo_session_def new_session_def known_runtime_def)
  ultimately show ?thesis by (simp add: resolveWorkerSession_def demo_digest bound_db_def is_active_def)
qed

lemma demo_shapes: "session_shape ''wrk-aaaaaaaa''" "artifact_key_shape ''p1''" "is_lower_hex CHR ''0''" "is_lower_hex CHR ''a''"
  by code_simp+

lemma demo_put: "putArtifactForWorker zero_sha flat_sha demo_options 4000 demo_token demo_patch empty_workspace =
    (Inr demo_artifact, add_artifact demo_artifact (write_file (ar_path demo_artifact) [7, 8, 9] empty_workspace))"
proof -
  have p: "ai_key demo_patch = ''p1''" "ai_kind demo_patch = ''unified_patch_gzip''" "ai_data demo_patch = [7, 8, 9]"
    "ai_source_sha256 demo_patch = replicate 64 CHR ''0''" "ai_sha256 demo_patch = None"
    by (simp_all add: demo_patch_def)
  have "check_artifact flat_sha demo_options bound_db (binding_of demo_session) demo_patch = Inr (replicate 64 CHR ''0'')"
    using demo_shapes by (simp add: check_artifact_def p sha256_shape_def session_by_id_def bound_db_def flat_sha_def list_all_iff demo_options_def)
  moreover have "find_artifact bound_db i k = None" for i k by (simp add: find_artifact_def bound_db_def empty_worker_db_def)
  moreover have "wk_db empty_workspace = bound_db" by (simp add: empty_workspace_def)
  ultimately show ?thesis
    by (simp add: putArtifactForWorker_def action_simps bound_resolves demo_shapes Let_def demo_artifact_def p)
qed

lemma nothing_at_first: "nothing_in_custody empty_workspace"
  by (simp add: nothing_in_custody_def empty_workspace_def bound_db_def empty_worker_db_def)


theorem put_artifact_reads_back_witness:
  "\<exists>w'. putArtifactForWorker zero_sha flat_sha demo_options 4000 demo_token demo_patch empty_workspace = (Inr demo_artifact, w') \<and>
     putArtifactForWorker zero_sha flat_sha demo_options 6000 demo_token demo_patch w' = (Inr demo_artifact, w')"
  using put_artifact_reads_back [OF custody.inv_init [OF nothing_at_first] demo_put, of 6000] demo_put by blast

theorem worker_gets_prepared_source_witness:
  "\<exists>w. wk_db w = bound_db \<and> sourceForWorker zero_sha flat_sha demo_token w = (Inr (Some (binding_of demo_session, demo_receipt, [1, 2])), w)"
proof -
  let ?w = "\<lparr>wk_db = demo_db, wk_files = []\<rparr>"
  have "trim (replicate 40 CHR ''a'') = replicate 40 CHR ''a''" by code_simp
  moreover have "revision_shape (replicate 40 CHR ''a'')" by code_simp
  moreover have "trim [] = []" by (simp add: trim_def)
  ultimately have prep: "prepareSource flat_sha demo_options demo_git demo_head demo_git [1, 2] ''wrk-aaaaaaaa'' ?w =
      (Inr (Some demo_receipt), write_file (source_path ''wrk-aaaaaaaa'') [1, 2] ?w)"
    using demo_shapes by (simp add: prepareSource_def action_simps demo_options_def demo_git_def demo_head_def demo_receipt_def flat_sha_def)
  have "unbound demo_session" by (simp add: unbound_def demo_session_def new_session_def)
  then have src: "\<exists>s'. start_source 2500 True ''wrk-aaaaaaaa'' (Some demo_receipt) started = (Inr (), s') \<and> sp_db s' = bound_db"
    by (simp add: start_source_def action_simps started_eq fresh_spawner_def set_phase_def on_db_def bound_db_def bound_session_def
        update_where_def) (simp add: demo_session_def new_session_def)
  then obtain s' where s': "start_source 2500 True ''wrk-aaaaaaaa'' (Some demo_receipt) started = (Inr (), s')" "sp_db s' = bound_db" by blast
  have "spawn_inv 1 started" using worker.inv_reachable [OF refl started_reachable] by (simp add: demo_config_def)
  from worker_gets_prepared_source [OF this prep s'(1), of zero_sha demo_token "binding_of demo_session"]
  have "sourceForWorker zero_sha flat_sha demo_token (write_file (source_path ''wrk-aaaaaaaa'') [1, 2] ?w\<lparr>wk_db := bound_db\<rparr>) =
      (Inr (Some (binding_of demo_session, demo_receipt, [1, 2])), write_file (source_path ''wrk-aaaaaaaa'') [1, 2] ?w\<lparr>wk_db := bound_db\<rparr>)"
    using bound_resolves by (simp only: s'(2) bound_sel simp_thms)
  moreover have "wk_db (write_file (source_path ''wrk-aaaaaaaa'') [1, 2] ?w\<lparr>wk_db := bound_db\<rparr>) = bound_db" by simp
  ultimately show ?thesis by blast
qed

end
