(* ===== verification/Worker_Journal.thy ===== *)
theory Worker_Journal
  imports Json
begin

text \<open>
  The journal of a worker episode (\<open>src/src/kernel/worker-journal.ts\<close>): an append-only file of
  records from which a restarted worker rebuilds its transcript, the guidance it has seen, the tools
  it had prepared and its finish.

  The file is the list of its lines, each decoded by \<open>JSON.parse\<close> as far as the code looks at it,
  and a flag that tells whether it ends inside a line. The optional fields of a chat message that the
  worker only carries along are \<open>ch_extra\<close>. A guidance id that JSON cannot represent is written as
  \<open>null\<close> and read back as not a number.
\<close>

section \<open>Data\<close>

datatype chat_role = SystemRole | UserRole | AssistantRole | ToolRole

record tool_call =
  tc_id :: string
  tc_name :: string
  tc_arguments :: string

record chat_message =
  ch_role :: chat_role
  ch_content :: string
  ch_calls :: "tool_call list option"
  ch_call_id :: "string option"
  ch_extra :: "(string \<times> json) list"

record prepared_tool =
  pt_call :: tool_call
  pt_at :: time

record journal_state =
  js_messages :: "chat_message list"
  js_guidance :: "jsnum list"
  js_tools :: "(string \<times> prepared_tool) list"
  js_pending :: "(string \<times> string) option"
  js_finished :: "(string \<times> string) option"

datatype journal_record =
    Initialized "chat_message list"
  | MessageRecord chat_message
  | GuidanceRecord jsnum chat_message
  | ToolPrepared tool_call time
  | ToolCompleted string chat_message
  | FinishPrepared string string
  | FinishedRecord string string
  | UnknownRecord string

datatype journal_line = NotJson | NotObject | Untyped | Entry journal_record

record journal_file =
  jf_lines :: "journal_line list"
  jf_partial :: bool

record journal =
  jn_file :: journal_file
  jn_state :: journal_state

datatype journal_error =
    PartialRecord
  | LineNotJson nat
  | LineNotObject nat
  | LineUntyped nat
  | InvalidInitialization
  | InvalidGuidanceId
  | PreparedTwice string
  | CompletedUnprepared string
  | ConflictingPrepared
  | FinishedUnprepared
  | ConflictingFinished
  | UnknownRecordType string
  | AlreadyInitialized
  | AlreadyPrepared string
  | NotPrepared string
  | FinishedDifferently
  | PreparedDifferently
  | FinishNotPrepared

section \<open>Reading the journal\<close>

definition empty_state :: journal_state where
  "empty_state = \<lparr>js_messages = [], js_guidance = [], js_tools = [], js_pending = None, js_finished = None\<rparr>"

definition push_messages :: "chat_message list \<Rightarrow> journal_state \<Rightarrow> journal_state" where
  "push_messages ms st = st\<lparr>js_messages := js_messages st @ ms\<rparr>"

definition guidance_id_ok :: "jsnum \<Rightarrow> bool" where
  "guidance_id_ok i \<longleftrightarrow> isSafeInteger i \<and> finite_val i > 0"

definition add_guidance :: "jsnum \<Rightarrow> chat_message \<Rightarrow> journal_state \<Rightarrow> journal_state" where
  "add_guidance i m st = push_messages [m] (st\<lparr>js_guidance := js_guidance st @ [i]\<rparr>)"

definition add_tool :: "tool_call \<Rightarrow> time \<Rightarrow> journal_state \<Rightarrow> journal_state" where
  "add_tool c t st = st\<lparr>js_tools := js_tools st @ [(tc_id c, \<lparr>pt_call = c, pt_at = t\<rparr>)]\<rparr>"

definition end_tool :: "string \<Rightarrow> chat_message \<Rightarrow> journal_state \<Rightarrow> journal_state" where
  "end_tool i m st = push_messages [m] (st\<lparr>js_tools := AList.delete i (js_tools st)\<rparr>)"

definition tool_pending :: "journal_state \<Rightarrow> string \<Rightarrow> bool" where
  "tool_pending st i \<longleftrightarrow> i \<in> fst ` set (js_tools st)"

definition set_finished :: "string \<Rightarrow> string \<Rightarrow> journal_state \<Rightarrow> journal_state" where
  "set_finished k b st = st\<lparr>js_pending := None, js_finished := Some (k, b)\<rparr>"

text \<open>One record of the log, as the loop of \<open>reduce\<close> applies it.\<close>

fun apply_record :: "journal_record \<Rightarrow> journal_state \<Rightarrow> journal_error + journal_state" where
  "apply_record (Initialized ms) st =
     (if js_messages st \<noteq> [] \<or> ms = [] then Inl InvalidInitialization else Inr (push_messages ms st))"
| "apply_record (MessageRecord m) st = Inr (push_messages [m] st)"
| "apply_record (GuidanceRecord i m) st =
     (if \<not> guidance_id_ok i then Inl InvalidGuidanceId
      else if i \<in> set (js_guidance st) then Inr st else Inr (add_guidance i m st))"
| "apply_record (ToolPrepared c t) st =
     (if tool_pending st (tc_id c) then Inl (PreparedTwice (tc_id c)) else Inr (add_tool c t st))"
| "apply_record (ToolCompleted i m) st =
     (if \<not> tool_pending st i then Inl (CompletedUnprepared i) else Inr (end_tool i m st))"
| "apply_record (FinishPrepared k b) st =
     (if js_pending st \<notin> {None, Some (k, b)} then Inl ConflictingPrepared else Inr (st\<lparr>js_pending := Some (k, b)\<rparr>))"
| "apply_record (FinishedRecord k b) st =
     (if js_pending st \<noteq> Some (k, b) then Inl FinishedUnprepared
      else if js_finished st \<notin> {None, Some (k, b)} then Inl ConflictingFinished
      else Inr (set_finished k b st))"
| "apply_record (UnknownRecord t) st = Inl (UnknownRecordType t)"

definition reduce :: "journal_record list \<Rightarrow> journal_error + journal_state" where
  "reduce rs = foldR apply_record rs empty_state"

fun decode_line :: "nat \<Rightarrow> journal_line \<Rightarrow> journal_error + journal_record" where
  "decode_line n NotJson = Inl (LineNotJson n)"
| "decode_line n NotObject = Inl (LineNotObject n)"
| "decode_line n Untyped = Inl (LineUntyped n)"
| "decode_line n (Entry r) = Inr r"

primrec decode_lines :: "nat \<Rightarrow> journal_line list \<Rightarrow> journal_error + journal_record list" where
  "decode_lines n [] = Inr []"
| "decode_lines n (l # ls) = bindR (decode_line n l) (\<lambda>r. bindR (decode_lines (n + 1) ls) (\<lambda>rs. Inr (r # rs)))"

definition open_journal :: "journal_file \<Rightarrow> journal_error + journal" where
  "open_journal f =
     (if jf_partial f then Inl PartialRecord
      else bindR (decode_lines 1 (jf_lines f)) (\<lambda>rs. bindR (reduce rs) (\<lambda>st. Inr \<lparr>jn_file = f, jn_state = st\<rparr>)))"

section \<open>Writing the journal\<close>

type_synonym 'a journalling = "(journal_error, journal, 'a) action"

text \<open>The record is on disk before the state in memory changes.\<close>

definition append_record :: "journal_record \<Rightarrow> (journal_state \<Rightarrow> journal_state) \<Rightarrow> unit journalling" where
  "append_record r f = modify (\<lambda>j. j\<lparr>jn_file := (jn_file j)\<lparr>jf_lines := jf_lines (jn_file j) @ [Entry r]\<rparr>, jn_state := f (jn_state j)\<rparr>)"

definition initialize :: "chat_message list \<Rightarrow> unit journalling" where
  "initialize ms = reads (\<lambda>j.
     if js_messages (jn_state j) \<noteq> [] \<or> ms = [] then throw AlreadyInitialized
     else append_record (Initialized ms) (push_messages ms))"

definition appendMessage :: "chat_message \<Rightarrow> unit journalling" where
  "appendMessage m = append_record (MessageRecord m) (push_messages [m])"

definition appendGuidance :: "jsnum \<Rightarrow> chat_message \<Rightarrow> bool journalling" where
  "appendGuidance i m = reads (\<lambda>j.
     if i \<in> set (js_guidance (jn_state j)) then ok False
     else andThen (append_record (GuidanceRecord i m) (add_guidance i m)) (\<lambda>_. ok True))"

definition prepareTool :: "time \<Rightarrow> tool_call \<Rightarrow> unit journalling" where
  "prepareTool now c = reads (\<lambda>j.
     if tool_pending (jn_state j) (tc_id c) then throw (AlreadyPrepared (tc_id c))
     else append_record (ToolPrepared c now) (add_tool c now))"

definition completeTool :: "string \<Rightarrow> chat_message \<Rightarrow> unit journalling" where
  "completeTool i m = reads (\<lambda>j.
     if \<not> tool_pending (jn_state j) i then throw (NotPrepared i)
     else append_record (ToolCompleted i m) (end_tool i m))"

definition prepareFinish :: "string \<Rightarrow> string \<Rightarrow> unit journalling" where
  "prepareFinish k b = reads (\<lambda>j.
     case js_finished (jn_state j) of
       Some f \<Rightarrow> if f \<noteq> (k, b) then throw FinishedDifferently else ok ()
     | None \<Rightarrow>
         (case js_pending (jn_state j) of
            Some p \<Rightarrow> if p \<noteq> (k, b) then throw PreparedDifferently else ok ()
          | None \<Rightarrow> append_record (FinishPrepared k b) (\<lambda>st. st\<lparr>js_pending := Some (k, b)\<rparr>)))"

definition completeFinish :: "string \<Rightarrow> string \<Rightarrow> unit journalling" where
  "completeFinish k b = reads (\<lambda>j.
     if js_pending (jn_state j) \<noteq> Some (k, b) then throw FinishNotPrepared
     else append_record (FinishedRecord k b) (set_finished k b))"

section \<open>Restarts\<close>

definition empty_journal :: journal where
  "empty_journal = \<lparr>jn_file = \<lparr>jf_lines = [], jf_partial = False\<rparr>, jn_state = empty_state\<rparr>"

inductive journal_step :: "journal \<Rightarrow> journal \<Rightarrow> bool" where
  initialize: "journal_step j (snd (initialize ms j))"
| message: "journal_step j (snd (appendMessage m j))"
| guidance: "guidance_id_ok i \<Longrightarrow> journal_step j (snd (appendGuidance i m j))"
| prepare_tool: "journal_step j (snd (prepareTool now c j))"
| complete_tool: "journal_step j (snd (completeTool i m j))"
| prepare_finish: "journal_step j (snd (prepareFinish k b j))"
| complete_finish: "journal_step j (snd (completeFinish k b j))"
| reopen: "open_journal (jn_file j) = Inr j' \<Longrightarrow> journal_step j j'"

inductive_cases journal_stepE: "journal_step j j'"

definition entries :: "journal \<Rightarrow> journal_record list" where
  "entries j = concat (map (\<lambda>l. case l of Entry r \<Rightarrow> [r] | _ \<Rightarrow> []) (jf_lines (jn_file j)))"

text \<open>A finish is never prepared again once it is complete.\<close>

definition one_finish :: "journal_state \<Rightarrow> bool" where
  "one_finish st \<longleftrightarrow> (js_pending st \<noteq> None \<longrightarrow> js_finished st = None)"

lemma decode_lines_Inr: "decode_lines n ls = Inr rs \<longleftrightarrow> ls = map Entry rs"
proof (induction ls arbitrary: n rs)
  case (Cons l ls)
  then show ?case by (cases l; cases rs) (auto simp: bindR_Inr_iff)
qed auto

lemma entries_map: "jf_lines (jn_file j) = map Entry rs \<Longrightarrow> entries j = rs"
  by (simp add: entries_def comp_def)

lemma entries_all: "\<forall>l \<in> set (jf_lines (jn_file j)). \<exists>r. l = Entry r \<Longrightarrow> jf_lines (jn_file j) = map Entry (entries j)"
proof -
  have "\<forall>l \<in> set ls. \<exists>r. l = Entry r \<Longrightarrow> ls = map Entry (concat (map (\<lambda>l. case l of Entry r \<Rightarrow> [r] | _ \<Rightarrow> []) ls))" for ls
    by (induction ls) auto
  then show "\<forall>l \<in> set (jf_lines (jn_file j)). \<exists>r. l = Entry r \<Longrightarrow> ?thesis" unfolding entries_def by blast
qed

lemma open_journal_Inr:
  "open_journal f = Inr j \<longleftrightarrow> \<not> jf_partial f \<and> jn_file j = f \<and> jf_lines f = map Entry (entries j) \<and> reduce (entries j) = Inr (jn_state j)"
  by (cases j) (auto simp: open_journal_def bindR_Inr_iff decode_lines_Inr entries_def comp_def)

lemma entries_append: "entries (j\<lparr>jn_file := (jn_file j)\<lparr>jf_lines := jf_lines (jn_file j) @ [Entry r]\<rparr>, jn_state := st\<rparr>) = entries j @ [r]"
  by (simp add: entries_def)

lemmas journal_ops = initialize_def appendMessage_def appendGuidance_def prepareTool_def completeTool_def prepareFinish_def
  completeFinish_def append_record_def action_simps entries_append

interpretation journal_log: event_log apply_record empty_state one_finish entries jn_state journal_step
proof
  show "one_finish empty_state" by (simp add: one_finish_def empty_state_def)
next
  fix j j' assume step: "journal_step j j'" and good: "one_finish (jn_state j)" and log: "foldR apply_record (entries j) empty_state = Inr (jn_state j)"
  have same: "entries j' = entries j \<and> jn_state j' = jn_state j" if "open_journal (jn_file j) = Inr j'"
  proof -
    from that have "jn_file j' = jn_file j" "reduce (entries j') = Inr (jn_state j')" by (simp_all add: open_journal_Inr)
    moreover from this(1) have "entries j' = entries j" by (simp add: entries_def)
    ultimately show ?thesis using log by (simp add: reduce_def)
  qed
  show "one_finish (jn_state j')"
    using step
    by cases (use good same in \<open>auto simp: journal_ops one_finish_def push_messages_def add_guidance_def add_tool_def end_tool_def
      set_finished_def split: option.splits\<close>)
  show "entries j' = entries j \<and> jn_state j' = jn_state j \<or>
      (\<exists>r. entries j' = entries j @ [r] \<and> apply_record r (jn_state j) = Inr (jn_state j'))"
    using step
    by cases (use good same in \<open>auto simp: journal_ops one_finish_def split: option.splits\<close>)
qed


definition demo_call :: tool_call where
  "demo_call = \<lparr>tc_id = ''c1'', tc_name = ''run'', tc_arguments = ''{}''\<rparr>"

definition demo_prompt :: chat_message where
  "demo_prompt = \<lparr>ch_role = SystemRole, ch_content = ''go'', ch_calls = None, ch_call_id = None, ch_extra = []\<rparr>"

definition demo_journal :: journal where
  "demo_journal = snd (prepareTool 7 demo_call (snd (initialize [demo_prompt] empty_journal)))"


end
