(* ===== verification/Worker_Episode.thy ===== *)
theory Worker_Episode
  imports Worker_Journal
begin

text \<open>
  One worker episode: the shared turn of the kernel (\<open>src/src/kernel/turn.ts\<close>) and the loop that a
  worker process runs (\<open>src/src/kernel/worker-episode.ts\<close>).

  What the episode does to the world is a sequence of events: lines written to the journal, requests
  to the broker, code run in the sandbox. What the world answers is a function of the events so far,
  the one being answered included, so an answer may depend on everything that happened. A process that
  is killed leaves a prefix of the events. \<open>JSON.stringify\<close> of a sandbox result and of the lists of a
  mandate is given as text, as is the message of a \<open>SyntaxError\<close>; \<open>sha\<close> is the hexadecimal SHA-256.
\<close>

section \<open>The kernel turn\<close>

record kernel_output =
  kt_content :: string
  kt_extra :: "(string \<times> json) list"

definition tool_message :: "tool_call \<Rightarrow> kernel_output \<Rightarrow> chat_message" where
  "tool_message c out = \<lparr>ch_role = ToolRole, ch_content = kt_content out, ch_calls = None, ch_call_id = Some (tc_id c), ch_extra = kt_extra out\<rparr>"

primrec dispatch_from ::
  "nat \<Rightarrow> nat \<Rightarrow> (tool_call \<Rightarrow> nat \<Rightarrow> nat \<Rightarrow> ('e, 's, kernel_output) action) \<Rightarrow> (chat_message \<Rightarrow> nat \<Rightarrow> nat \<Rightarrow> ('e, 's, unit) action) \<Rightarrow>
    tool_call list \<Rightarrow> ('e, 's, chat_message list) action" where
  "dispatch_from i n handle add [] = ok []"
| "dispatch_from i n handle add (c # cs) =
     andThen (handle c i n) (\<lambda>out.
     andThen (add (tool_message c out) i n) (\<lambda>_.
     andThen (dispatch_from (Suc i) n handle add cs) (\<lambda>ms. ok (tool_message c out # ms))))"

definition calls_of :: "chat_message \<Rightarrow> tool_call list" where
  "calls_of m = (case ch_calls m of None \<Rightarrow> [] | Some cs \<Rightarrow> cs)"

definition dispatchKernelTools where
  "dispatchKernelTools m handle add = dispatch_from 0 (length (calls_of m)) handle add (calls_of m)"

record turn_application =
  ta_assistant :: chat_message
  ta_tools :: "chat_message list"
  ta_continue :: bool

text \<open>\<open>bad\<close> is the error for a message of another role.\<close>

definition applyKernelTurn where
  "applyKernelTurn bad m handle appendAssistant appendTool =
     (if ch_role m \<noteq> AssistantRole then throw bad
      else andThen (appendAssistant m) (\<lambda>_.
           andThen (dispatchKernelTools m handle appendTool) (\<lambda>ms.
           ok \<lparr>ta_assistant = m, ta_tools = ms, ta_continue = ms \<noteq> []\<rparr>)))"

section \<open>Data of an episode\<close>

record mandate =
  md_id :: string
  md_title :: string
  md_body :: string
  md_status :: string
  md_dependencies :: string
  md_comments :: string

record guidance =
  gd_id :: jsnum
  gd_sender :: string
  gd_body :: string

record run_result =
  rr_text :: string
  rr_detached :: bool

datatype episode_error =
    AmbiguousTool "string list"
  | EmptyFinish
  | MessageLimit nat
  | TurnLimit nat
  | JournalFault journal_error
  | BrokerFault string
  | SandboxFault string
  | DetachedTool
  | NotAssistant
  | NoCallId
  | Aborted

datatype episode_event =
    Logged journal_line
  | AskedMandate
  | PulledGuidance
  | Acknowledged "jsnum list"
  | AskedCompletion "chat_message list"
  | RanCode string string
  | ExportedWork string string
  | SentFinish string string

record episode_env =
  ee_mandate :: "episode_event list \<Rightarrow> string + mandate"
  ee_guidance :: "episode_event list \<Rightarrow> string + guidance list"
  ee_ack :: "episode_event list \<Rightarrow> string + unit"
  ee_complete :: "episode_event list \<Rightarrow> string + chat_message"
  ee_sandbox :: "episode_event list \<Rightarrow> string + run_result"
  ee_export :: "episode_event list \<Rightarrow> string + unit"
  ee_finish :: "episode_event list \<Rightarrow> string + unit"
  ee_aborted :: "episode_event list \<Rightarrow> bool"
  ee_now :: "episode_event list \<Rightarrow> time"
  ee_syntax_error :: "string \<Rightarrow> string"
  ee_max_turns :: nat
  ee_max_messages :: nat

record episode =
  ep_journal :: journal
  ep_events :: "episode_event list"
  ep_messages :: "chat_message list"
  ep_prepared :: "string list"

record episode_result =
  er_body :: string
  er_key :: string
  er_turns :: nat
  er_resumed :: bool

type_synonym 'a episodic = "(episode_error, episode, 'a) action"

definition ask :: "episode_event \<Rightarrow> (string \<Rightarrow> episode_error) \<Rightarrow> (episode_event list \<Rightarrow> string + 'a) \<Rightarrow> 'a episodic" where
  "ask ev fault answer = (\<lambda>e. let evs = ep_events e @ [ev]; e' = e\<lparr>ep_events := evs\<rparr>
     in case answer evs of Inl msg \<Rightarrow> (Inl (fault msg), e') | Inr a \<Rightarrow> (Inr a, e'))"

text \<open>A journal operation, with the lines it wrote as events.\<close>

definition on_journal :: "'a journalling \<Rightarrow> 'a episodic" where
  "on_journal m = (\<lambda>e. case m (ep_journal e) of
     (r, j) \<Rightarrow> (map_sum JournalFault id r,
       e\<lparr>ep_journal := j, ep_events := ep_events e @ map Logged (drop (length (jf_lines (jn_file (ep_journal e)))) (jf_lines (jn_file j)))\<rparr>))"

definition push_message :: "chat_message \<Rightarrow> episode \<Rightarrow> episode" where
  "push_message m e = e\<lparr>ep_messages := ep_messages e @ [m]\<rparr>"

section \<open>Messages and arguments\<close>

definition line_feed :: char where
  "line_feed = CHR 0x0A"

definition WORKER_SYSTEM_PROMPT :: string where
  "WORKER_SYSTEM_PROMPT = join [line_feed]
    [''You are an ephemeral Elpis worker executing one bounded delegated task.'',
     ''Your original mandate is the linked Mind item supplied below. It is the only original prompt.'',
     ''You have task-local transcript and workspace continuity, not resident identity, SOUL, autobiographical MEMORY, people history, Discord, Scheduler, or autonomous wake machinery.'',
     ''When source is supplied, the workspace is a tracked-file archive without Git metadata or commit history. Missing .git is expected, not evidence that source checkout failed. The dispatcher supplies source provenance; inspect the files directly. For an exact-checkpoint review, use the supplied exact diff or comparison baseline and report any missing comparison evidence. Do not create a Git repository to manufacture ancestry. The harness exports your final workspace patch automatically; a worker Git commit is not required.'',
     ''Use run for concrete work in your isolated workspace. Continue until the mandate is complete, then answer with a concise result for the dispatcher.'']"

definition plain_message :: "chat_role \<Rightarrow> string \<Rightarrow> chat_message" where
  "plain_message r s = \<lparr>ch_role = r, ch_content = s, ch_calls = None, ch_call_id = None, ch_extra = []\<rparr>"

definition mandateMessage :: "mandate \<Rightarrow> chat_message" where
  "mandateMessage m = plain_message UserRole (join [line_feed]
     [''<worker-mandate id='' @ json_quote (md_id m) @ '' status='' @ json_quote (md_status m) @ ''>'',
      ''<title>'' @ md_title m @ ''</title>'',
      ''<body>'' @ md_body m @ ''</body>'',
      ''<dependencies>'' @ md_dependencies m @ ''</dependencies>'',
      ''<comments>'' @ md_comments m @ ''</comments>'',
      ''</worker-mandate>''])"

definition guidanceMessage :: "guidance \<Rightarrow> chat_message" where
  "guidanceMessage g = plain_message UserRole (''<worker-guidance sender='' @ json_quote (gd_sender g) @ ''>'' @ gd_body g @ ''</worker-guidance>'')"

definition parseObject :: "(string \<Rightarrow> string) \<Rightarrow> string \<Rightarrow> string + (string \<times> json) list" where
  "parseObject syntax_error raw =
     (case json_parse raw of
        None \<Rightarrow> Inl (syntax_error raw)
      | Some (JObj fs) \<Rightarrow> Inr fs
      | Some _ \<Rightarrow> Inl ''tool arguments must be an object'')"

definition exactKeys :: "(string \<times> json) list \<Rightarrow> string list \<Rightarrow> string + unit" where
  "exactKeys fs expected = (let wanted = sort expected in
     if sort (map fst fs) \<noteq> wanted then Inl (''tool arguments must contain exactly '' @ join '', '' wanted) else Inr ())"

definition runArguments :: "(string \<Rightarrow> string) \<Rightarrow> string \<Rightarrow> string + (string \<times> string)" where
  "runArguments syntax_error raw =
     bindR (parseObject syntax_error raw) (\<lambda>fs.
     bindR (exactKeys fs [''code'', ''detail'']) (\<lambda>_.
     case map_of fs ''code'' of
       Some (JStr code) \<Rightarrow>
         if code = [] then Inl ''run.code must be a non-empty string''
         else (case map_of fs ''detail'' of
             Some (JStr detail) \<Rightarrow>
               if line_feed \<in> set detail \<or> length detail > 120 then Inl ''run.detail must be one line of at most 120 characters''
               else let words = filter (\<lambda>w. w \<noteq> []) (split_runs is_space (trim detail)) in
                 if length words < 1 \<or> length words > 10 then Inl ''run.detail must contain 1 to 10 words'' else Inr (code, detail)
           | _ \<Rightarrow> Inl ''run.detail must be one line of at most 120 characters'')
     | _ \<Rightarrow> Inl ''run.code must be a non-empty string''))"

definition thinkArguments :: "(string \<Rightarrow> string) \<Rightarrow> string \<Rightarrow> string + unit" where
  "thinkArguments syntax_error raw =
     bindR (parseObject syntax_error raw) (\<lambda>fs.
     bindR (exactKeys fs [''thoughts'']) (\<lambda>_.
     case map_of fs ''thoughts'' of
       Some (JStr t) \<Rightarrow> if trim t = [] then Inl ''think.thoughts must be a non-empty string'' else Inr ()
     | _ \<Rightarrow> Inl ''think.thoughts must be a non-empty string''))"

definition quote_mark :: string where
  "quote_mark = [CHR 0x22]"

definition toolError :: "string \<Rightarrow> kernel_output" where
  "toolError msg = \<lparr>kt_content = ''{'' @ quote_mark @ ''ok'' @ quote_mark @ '':false,'' @ quote_mark @ ''error'' @ quote_mark @ '':'' @ json_quote msg @ ''}'',
     kt_extra = []\<rparr>"

definition recorded_output :: kernel_output where
  "recorded_output = \<lparr>kt_content = ''{'' @ quote_mark @ ''ok'' @ quote_mark @ '':true,'' @ quote_mark @ ''recorded'' @ quote_mark @ '':true}'', kt_extra = []\<rparr>"

definition finishKey :: "(string \<Rightarrow> string) \<Rightarrow> string \<Rightarrow> string" where
  "finishKey sha body = ''worker-finish-'' @ take 24 (sha body)"

section \<open>A turn of the episode\<close>

text \<open>
  A throw before the tool is prepared becomes the tool's result, a later one ends the episode: the
  handler rethrows when the call is among \<open>preparedRuns\<close>, and no earlier call of the turn is, since
  \<open>appendTool\<close> takes each out. The only way \<open>prepareTool\<close> throws is a tool that is already prepared.
\<close>

definition run_prepared :: "episode_env \<Rightarrow> tool_call \<Rightarrow> string \<Rightarrow> kernel_output episodic" where
  "run_prepared env c code =
     andThen (reads (\<lambda>e. on_journal (prepareTool (ee_now env (ep_events e)) c))) (\<lambda>_.
     andThen (modify (\<lambda>e. e\<lparr>ep_prepared := ep_prepared e @ [tc_id c]\<rparr>)) (\<lambda>_.
     andThen (ask (RanCode (tc_id c) code) SandboxFault (ee_sandbox env)) (\<lambda>res.
     if rr_detached res then throw DetachedTool else ok \<lparr>kt_content = rr_text res, kt_extra = []\<rparr>)))"

definition handle_call :: "episode_env \<Rightarrow> tool_call \<Rightarrow> nat \<Rightarrow> nat \<Rightarrow> kernel_output episodic" where
  "handle_call env c i n = reads (\<lambda>e.
     if tc_name c = ''think'' then
       (case thinkArguments (ee_syntax_error env) (tc_arguments c) of Inl msg \<Rightarrow> ok (toolError msg) | Inr _ \<Rightarrow> ok recorded_output)
     else if tc_name c \<noteq> ''run'' then ok (toolError (''unsupported worker tool '' @ tc_name c))
     else case runArguments (ee_syntax_error env) (tc_arguments c) of
       Inl msg \<Rightarrow> ok (toolError msg)
     | Inr (code, detail) \<Rightarrow>
         if tool_pending (jn_state (ep_journal e)) (tc_id c) then ok (toolError (''worker tool '' @ tc_id c @ '' is already prepared''))
         else run_prepared env c code)"

definition append_assistant :: "chat_message \<Rightarrow> unit episodic" where
  "append_assistant m = andThen (on_journal (appendMessage m)) (\<lambda>_. modify (push_message m))"

definition append_tool :: "chat_message \<Rightarrow> nat \<Rightarrow> nat \<Rightarrow> unit episodic" where
  "append_tool m i n =
     (case ch_call_id m of
        None \<Rightarrow> throw NoCallId
      | Some cid \<Rightarrow>
          if cid = [] then throw NoCallId
          else reads (\<lambda>e.
            andThen (if cid \<in> set (ep_prepared e)
                     then andThen (modify (\<lambda>e. e\<lparr>ep_prepared := filter (\<lambda>x. x \<noteq> cid) (ep_prepared e)\<rparr>)) (\<lambda>_. on_journal (completeTool cid m))
                     else on_journal (appendMessage m)) (\<lambda>_. modify (push_message m))))"

definition take_guidance :: "guidance \<Rightarrow> unit episodic" where
  "take_guidance g = andThen (on_journal (appendGuidance (gd_id g) (guidanceMessage g))) (\<lambda>new.
     when_do new (modify (push_message (guidanceMessage g))))"

definition finish_with :: "episode_env \<Rightarrow> string \<Rightarrow> string \<Rightarrow> unit episodic" where
  "finish_with env key body =
     andThen (ask (SentFinish key body) BrokerFault (ee_finish env)) (\<lambda>_. on_journal (completeFinish key body))"

definition one_turn :: "(string \<Rightarrow> string) \<Rightarrow> episode_env \<Rightarrow> bool \<Rightarrow> nat \<Rightarrow> episode_result option episodic" where
  "one_turn sha env resumed turns = reads (\<lambda>e0.
     andThen (require (\<not> ee_aborted env (ep_events e0)) Aborted) (\<lambda>_.
     andThen (ask PulledGuidance BrokerFault (ee_guidance env)) (\<lambda>gs.
     andThen (for_each take_guidance gs) (\<lambda>_.
     andThen (if gs \<noteq> [] then ask (Acknowledged (map gd_id gs)) BrokerFault (ee_ack env) else ok ()) (\<lambda>_.
     reads (\<lambda>e.
     andThen (require (length (ep_messages e) \<le> ee_max_messages env) (MessageLimit (ee_max_messages env))) (\<lambda>_.
     andThen (ask (AskedCompletion (ep_messages e)) BrokerFault (ee_complete env)) (\<lambda>m.
     andThen (modify (\<lambda>e. e\<lparr>ep_prepared := []\<rparr>)) (\<lambda>_.
     andThen (applyKernelTurn NotAssistant m (handle_call env) append_assistant append_tool) (\<lambda>turn.
     if ta_continue turn then ok None
     else let body = trim (ch_content m); key = finishKey sha body in
       andThen (require (body \<noteq> []) EmptyFinish) (\<lambda>_.
       andThen (ask (ExportedWork key body) BrokerFault (ee_export env)) (\<lambda>_.
       andThen (on_journal (prepareFinish key body)) (\<lambda>_.
       andThen (finish_with env key body) (\<lambda>_.
       ok (Some \<lparr>er_body = body, er_key = key, er_turns = turns, er_resumed = resumed\<rparr>)))))))))))))))"

primrec turn_loop :: "(string \<Rightarrow> string) \<Rightarrow> episode_env \<Rightarrow> bool \<Rightarrow> nat \<Rightarrow> nat \<Rightarrow> episode_result episodic" where
  "turn_loop sha env resumed turns 0 = throw (TurnLimit (ee_max_turns env))"
| "turn_loop sha env resumed turns (Suc n) =
     andThen (one_turn sha env resumed turns) (\<lambda>r. case r of
       Some res \<Rightarrow> ok res
     | None \<Rightarrow> turn_loop sha env resumed (Suc turns) n)"

definition first_messages :: "mandate \<Rightarrow> chat_message list" where
  "first_messages m = [plain_message SystemRole WORKER_SYSTEM_PROMPT, mandateMessage m]"

definition begin_episode :: "episode_env \<Rightarrow> unit episodic" where
  "begin_episode env = reads (\<lambda>e0.
     andThen (require (\<not> ee_aborted env (ep_events e0)) Aborted) (\<lambda>_.
     andThen (ask AskedMandate BrokerFault (ee_mandate env)) (\<lambda>m.
     andThen (on_journal (initialize (first_messages m))) (\<lambda>_.
     modify (\<lambda>e. e\<lparr>ep_messages := ep_messages e @ first_messages m\<rparr>)))))"

definition episode_run :: "(string \<Rightarrow> string) \<Rightarrow> episode_env \<Rightarrow> episode_result episodic" where
  "episode_run sha env = reads (\<lambda>e. let st = jn_state (ep_journal e) in
     if js_tools st \<noteq> [] then throw (AmbiguousTool (map fst (js_tools st)))
     else case js_finished st of
       Some (k, b) \<Rightarrow> ok \<lparr>er_body = b, er_key = k, er_turns = 0, er_resumed = True\<rparr>
     | None \<Rightarrow>
         (case js_pending st of
            Some (k, b) \<Rightarrow> andThen (finish_with env k b) (\<lambda>_. ok \<lparr>er_body = b, er_key = k, er_turns = 0, er_resumed = True\<rparr>)
          | None \<Rightarrow>
              andThen (modify (\<lambda>e. e\<lparr>ep_messages := js_messages st\<rparr>)) (\<lambda>_.
              andThen (if js_messages st = [] then begin_episode env else ok ()) (\<lambda>_.
              turn_loop sha env (js_messages st \<noteq> []) 1 (ee_max_turns env)))))"

end
