(* ===== verification/Worker_Episode_Correct.thy ===== *)
theory Worker_Episode_Correct
  imports Worker_Episode
begin

text \<open>
  An episode across crashes: whenever the process dies, and however often it is restarted from its
  journal, the journal can be opened, code that may have run is not run again, the model is asked
  with exactly the durable transcript, and the broker is told one finish only.
\<close>

section \<open>What the events say\<close>

definition logged :: "episode_event list \<Rightarrow> journal_line list" where
  "logged evs = concat (map (\<lambda>ev. case ev of Logged l \<Rightarrow> [l] | _ \<Rightarrow> []) evs)"

definition file_of :: "episode_event list \<Rightarrow> journal_file" where
  "file_of evs = \<lparr>jf_lines = logged evs, jf_partial = False\<rparr>"

definition state_at :: "episode_event list \<Rightarrow> journal_state option" where
  "state_at evs = (case open_journal (file_of evs) of Inl _ \<Rightarrow> None | Inr j \<Rightarrow> Some (jn_state j))"

text \<open>What may happen after the events \<open>evs\<close>.\<close>

definition record_allowed :: "journal_state \<Rightarrow> journal_record \<Rightarrow> bool" where
  "record_allowed st r \<longleftrightarrow> (\<exists>st'. apply_record r st = Inr st') \<and>
     (case r of FinishPrepared k b \<Rightarrow> js_finished st = None \<and> js_pending st = None | _ \<Rightarrow> True)"

definition allowed :: "episode_event list \<Rightarrow> episode_event \<Rightarrow> bool" where
  "allowed evs ev \<longleftrightarrow> (case ev of
     Logged l \<Rightarrow> (\<exists>r st. l = Entry r \<and> state_at evs = Some st \<and> record_allowed st r)
   | RanCode i code \<Rightarrow> (\<exists>past c t. evs = past @ [Logged (Entry (ToolPrepared c t))] \<and> tc_id c = i)
   | SentFinish k b \<Rightarrow> (\<exists>st. state_at evs = Some st \<and> js_pending st = Some (k, b))
   | AskedCompletion ms \<Rightarrow> (\<exists>st. state_at evs = Some st \<and> js_messages st = ms \<and> js_tools st = [])
   | _ \<Rightarrow> True)"

definition trace_ok :: "episode_event list \<Rightarrow> bool" where
  "trace_ok evs \<longleftrightarrow> (\<forall>xs ev ys. evs = xs @ ev # ys \<longrightarrow> allowed xs ev)"

lemma trace_ok_Nil: "trace_ok []"
  by (simp add: trace_ok_def)

lemma trace_ok_snoc: "trace_ok (evs @ [ev]) \<longleftrightarrow> trace_ok evs \<and> allowed evs ev"
proof
  assume *: "trace_ok (evs @ [ev])"
  then have "allowed xs e" if "evs = xs @ e # ys" for xs e ys
    using that by (simp add: trace_ok_def)
  moreover from * have "allowed evs ev" by (simp add: trace_ok_def)
  ultimately show "trace_ok evs \<and> allowed evs ev" by (simp add: trace_ok_def)
next
  assume *: "trace_ok evs \<and> allowed evs ev"
  show "trace_ok (evs @ [ev])" unfolding trace_ok_def
  proof (intro allI impI)
    fix xs e ys assume eq: "evs @ [ev] = xs @ e # ys"
    show "allowed xs e"
    proof (cases ys rule: rev_cases)
      case Nil
      then show ?thesis using eq * by simp
    next
      case (snoc zs z)
      then have "evs = xs @ e # zs" using eq by simp
      then show ?thesis using * by (simp add: trace_ok_def)
    qed
  qed
qed

lemma trace_ok_prefix: "trace_ok evs \<Longrightarrow> prefix evs' evs \<Longrightarrow> trace_ok evs'"
  by (auto simp: trace_ok_def prefix_def)

lemma logged_simps [simp]:
  "logged [] = []" "logged (evs @ [Logged l]) = logged evs @ [l]" "logged (evs @ [AskedMandate]) = logged evs"
  "logged (evs @ [PulledGuidance]) = logged evs" "logged (evs @ [Acknowledged is]) = logged evs"
  "logged (evs @ [AskedCompletion ms]) = logged evs" "logged (evs @ [RanCode i c]) = logged evs"
  "logged (evs @ [ExportedWork k b]) = logged evs" "logged (evs @ [SentFinish k b]) = logged evs"
  by (simp_all add: logged_def)

text \<open>The journal in memory is the one on disk.\<close>

definition mirrors :: "episode \<Rightarrow> bool" where
  "mirrors e \<longleftrightarrow> trace_ok (ep_events e) \<and> open_journal (file_of (ep_events e)) = Inr (ep_journal e)"

lemma mirrors_state: "mirrors e \<Longrightarrow> state_at (ep_events e) = Some (jn_state (ep_journal e))"
  by (simp add: mirrors_def state_at_def)

lemma mirrors_event:
  assumes "mirrors e" and "allowed (ep_events e) ev" and "logged (ep_events e @ [ev]) = logged (ep_events e)"
  shows "mirrors (e\<lparr>ep_events := ep_events e @ [ev]\<rparr>)"
  using assms by (simp add: mirrors_def trace_ok_snoc file_of_def)

lemma open_append:
  assumes "open_journal f = Inr j" and "apply_record r (jn_state j) = Inr st"
  shows "open_journal (f\<lparr>jf_lines := jf_lines f @ [Entry r]\<rparr>) = Inr \<lparr>jn_file = f\<lparr>jf_lines := jf_lines f @ [Entry r]\<rparr>, jn_state = st\<rparr>"
proof -
  let ?j = "\<lparr>jn_file = f\<lparr>jf_lines := jf_lines f @ [Entry r]\<rparr>, jn_state = st\<rparr>"
  have f: "\<not> jf_partial f" "jn_file j = f" "jf_lines f = map Entry (entries j)" "reduce (entries j) = Inr (jn_state j)"
    using assms(1) by (simp_all add: open_journal_Inr)
  have "entries ?j = entries j @ [r]" using f(2) by (simp add: entries_def)
  then show ?thesis using f assms(2) by (simp add: open_journal_Inr reduce_def foldR_append)
qed

text \<open>A journal operation that writes a record the log may have.\<close>

lemma mirrors_record:
  assumes "mirrors e" and "record_allowed (jn_state (ep_journal e)) r" and "apply_record r (jn_state (ep_journal e)) = Inr (f (jn_state (ep_journal e)))"
    and "on_journal (append_record r f) e = (res, e')"
  shows "mirrors e' \<and> jn_state (ep_journal e') = f (jn_state (ep_journal e)) \<and> ep_events e' = ep_events e @ [Logged (Entry r)] \<and>
    ep_messages e' = ep_messages e \<and> ep_prepared e' = ep_prepared e \<and> res = Inr ()"
proof -
  have open_e: "open_journal (file_of (ep_events e)) = Inr (ep_journal e)" and ok: "trace_ok (ep_events e)"
    using assms(1) by (simp_all add: mirrors_def)
  have "file_of (ep_events e @ [Logged (Entry r)]) = (file_of (ep_events e))\<lparr>jf_lines := jf_lines (file_of (ep_events e)) @ [Entry r]\<rparr>"
    by (simp add: file_of_def)
  with open_append [OF open_e assms(3)]
  have new: "open_journal (file_of (ep_events e @ [Logged (Entry r)])) =
      Inr \<lparr>jn_file = (jn_file (ep_journal e))\<lparr>jf_lines := jf_lines (jn_file (ep_journal e)) @ [Entry r]\<rparr>, jn_state = f (jn_state (ep_journal e))\<rparr>"
    using open_e by (simp add: open_journal_Inr)
  have "allowed (ep_events e) (Logged (Entry r))"
    using assms(2) mirrors_state [OF assms(1)] by (simp add: allowed_def)
  then show ?thesis
    using assms(4) ok new by (cases "ep_journal e") (auto simp: on_journal_def append_record_def action_simps mirrors_def trace_ok_snoc)
qed

section \<open>States of an episode\<close>

abbreviation memory :: "episode \<Rightarrow> journal_state" where
  "memory e \<equiv> jn_state (ep_journal e)"

text \<open>Between calls of a turn; while the call \<open>c\<close> has run and is not complete; when a finish is prepared.\<close>

definition idle :: "episode \<Rightarrow> bool" where
  "idle e \<longleftrightarrow> mirrors e \<and> js_tools (memory e) = [] \<and> js_pending (memory e) = None \<and> js_finished (memory e) = None \<and>
     ep_messages e = js_messages (memory e)"

definition ready :: "episode \<Rightarrow> bool" where
  "ready e \<longleftrightarrow> idle e \<and> ep_prepared e = []"

definition called :: "tool_call \<Rightarrow> episode \<Rightarrow> bool" where
  "called c e \<longleftrightarrow> mirrors e \<and> (\<exists>p. js_tools (memory e) = [(tc_id c, p)]) \<and> ep_prepared e = [tc_id c] \<and>
     js_pending (memory e) = None \<and> js_finished (memory e) = None \<and> ep_messages e = js_messages (memory e)"

definition finishing :: "string \<Rightarrow> string \<Rightarrow> episode \<Rightarrow> bool" where
  "finishing k b e \<longleftrightarrow> mirrors e \<and> js_pending (memory e) = Some (k, b) \<and> js_finished (memory e) = None"

definition crashed :: "episode \<Rightarrow> bool" where
  "crashed e \<longleftrightarrow> trace_ok (ep_events e)"

lemma crashedI: "mirrors e \<Longrightarrow> crashed e" "idle e \<Longrightarrow> crashed e" "ready e \<Longrightarrow> crashed e" "called c e \<Longrightarrow> crashed e"
  "finishing k b e \<Longrightarrow> crashed e"
  by (simp_all add: crashed_def mirrors_def idle_def ready_def called_def finishing_def)

lemma memory_update [simp]: "mirrors (e\<lparr>ep_messages := ms\<rparr>) = mirrors e" "mirrors (e\<lparr>ep_prepared := is\<rparr>) = mirrors e"
  by (simp_all add: mirrors_def)

lemma state_simps [simp]:
  "js_tools (push_messages ms st) = js_tools st" "js_pending (push_messages ms st) = js_pending st"
  "js_finished (push_messages ms st) = js_finished st" "js_messages (push_messages ms st) = js_messages st @ ms"
  "js_tools (add_guidance i m st) = js_tools st" "js_pending (add_guidance i m st) = js_pending st"
  "js_finished (add_guidance i m st) = js_finished st" "js_messages (add_guidance i m st) = js_messages st @ [m]"
  "js_messages (add_tool c t st) = js_messages st" "js_pending (add_tool c t st) = js_pending st"
  "js_finished (add_tool c t st) = js_finished st" "js_messages (end_tool cid m st) = js_messages st @ [m]"
  "js_pending (end_tool cid m st) = js_pending st" "js_finished (end_tool cid m st) = js_finished st"
  "js_tools (end_tool cid m st) = AList.delete cid (js_tools st)"
  "js_tools (add_tool c t st) = js_tools st @ [(tc_id c, \<lparr>pt_call = c, pt_at = t\<rparr>)]"
  by (simp_all add: push_messages_def add_guidance_def add_tool_def end_tool_def)

text \<open>A request that the events allow.\<close>

lemma ask_triple:
  assumes "\<And>e. P e \<Longrightarrow> mirrors e \<and> allowed (ep_events e) ev" and "\<And>evs. logged (evs @ [ev]) = logged evs"
    and "\<And>e. P e \<Longrightarrow> mirrors (e\<lparr>ep_events := ep_events e @ [ev]\<rparr>) \<Longrightarrow> Q (e\<lparr>ep_events := ep_events e @ [ev]\<rparr>)"
  shows "triple P (ask ev fault answer) (\<lambda>a e. Q e \<and> (\<exists>evs. answer evs = Inr a)) (\<lambda>_. crashed)"
  unfolding triple_def
proof (intro allI impI)
  fix e assume P: "P e"
  then have m: "mirrors (e\<lparr>ep_events := ep_events e @ [ev]\<rparr>)" using assms(1,2) mirrors_event by blast
  then have "Q (e\<lparr>ep_events := ep_events e @ [ev]\<rparr>)" "crashed (e\<lparr>ep_events := ep_events e @ [ev]\<rparr>)"
    using assms(3) [OF P] by (auto intro: crashedI)
  then show "case ask ev fault answer e of (Inl x, e') \<Rightarrow> crashed e' | (Inr a, e') \<Rightarrow> Q e' \<and> (\<exists>evs. answer evs = Inr a)"
    by (auto simp: ask_def Let_def split: sum.split)
qed

lemma ask_idle:
  assumes "\<And>e. idle e \<Longrightarrow> allowed (ep_events e) ev" and "\<And>evs. logged (evs @ [ev]) = logged evs"
  shows "triple idle (ask ev fault answer) (\<lambda>a e. idle e \<and> (\<exists>evs. answer evs = Inr a)) (\<lambda>_. crashed)"
  using assms by (intro ask_triple) (auto simp: idle_def)

text \<open>A journal operation that appends one record.\<close>

lemma record_triple:
  assumes "\<And>e. P e \<Longrightarrow> mirrors e \<and> record_allowed (memory e) r \<and> apply_record r (memory e) = Inr (f (memory e))"
    and "\<And>e e'. P e \<Longrightarrow> mirrors e' \<Longrightarrow> memory e' = f (memory e) \<Longrightarrow> ep_messages e' = ep_messages e \<Longrightarrow>
      ep_prepared e' = ep_prepared e \<Longrightarrow> ep_events e' = ep_events e @ [Logged (Entry r)] \<Longrightarrow> Q e'"
  shows "triple P (on_journal (append_record r f)) (\<lambda>_. Q) E"
  unfolding triple_def
proof (intro allI impI)
  fix e assume P: "P e"
  obtain res e' where run: "on_journal (append_record r f) e = (res, e')" by force
  from mirrors_record [OF _ _ _ run] assms(1) [OF P] have "mirrors e' \<and> memory e' = f (memory e) \<and>
    ep_events e' = ep_events e @ [Logged (Entry r)] \<and> ep_messages e' = ep_messages e \<and> ep_prepared e' = ep_prepared e \<and> res = Inr ()" by blast
  with assms(2) [OF P, of e'] show "case on_journal (append_record r f) e of (Inl x, s') \<Rightarrow> E x s' | (Inr a, s') \<Rightarrow> Q s'"
    by (simp add: run)
qed

lemma on_journal_reads: "on_journal (reads g) e = on_journal (g (ep_journal e)) e"
  by (simp add: on_journal_def action_simps)

lemma on_journal_ok: "on_journal (ok a) e = (Inr a, e)"
  by (simp add: on_journal_def action_simps)

lemma on_journal_throw: "on_journal (throw x) e = (Inl (JournalFault x), e)"
  by (simp add: on_journal_def action_simps)

lemma on_journal_then: "on_journal (andThen (append_record r f) (\<lambda>_. ok a)) = andThen (on_journal (append_record r f)) (\<lambda>_. ok a)"
  by (simp add: on_journal_def action_simps append_record_def fun_eq_iff)

section \<open>The steps of a turn\<close>

lemma guidance_triple:
  assumes "guidance_id_ok (gd_id g)"
  shows "triple idle (take_guidance g) (\<lambda>_. idle) (\<lambda>_. crashed)"
proof -
  let ?m = "guidanceMessage g" and ?i = "gd_id g"
  let ?after = "\<lambda>new e. if new then idle (push_message ?m e) else idle e"
  have rec: "triple (\<lambda>e. idle e \<and> ?i \<notin> set (js_guidance (memory e))) (on_journal (append_record (GuidanceRecord ?i ?m) (add_guidance ?i ?m)))
      (\<lambda>_ e. idle (push_message ?m e)) (\<lambda>_. crashed)"
    by (rule record_triple) (use assms in \<open>auto simp: idle_def record_allowed_def push_message_def\<close>)
  have app: "triple idle (on_journal (appendGuidance ?i ?m)) ?after (\<lambda>_. crashed)"
    unfolding triple_def
  proof (intro allI impI)
    fix e assume "idle e"
    show "case on_journal (appendGuidance ?i ?m) e of (Inl x, e') \<Rightarrow> crashed e' | (Inr new, e') \<Rightarrow> ?after new e'"
    proof (cases "?i \<in> set (js_guidance (memory e))")
      case True
      then show ?thesis using \<open>idle e\<close> by (simp add: appendGuidance_def on_journal_reads on_journal_ok)
    next
      case False
      obtain r e' where run: "on_journal (append_record (GuidanceRecord ?i ?m) (add_guidance ?i ?m)) e = (r, e')" by force
      with tripleD [OF rec _ run] False \<open>idle e\<close> show ?thesis
        by (cases r) (simp_all add: appendGuidance_def on_journal_reads on_journal_then action_simps)
    qed
  qed
  have "triple (?after new) (when_do new (modify (push_message ?m))) (\<lambda>_. idle) (\<lambda>_. crashed)" for new
    by (cases new) (simp_all add: when_do_def triple_basic)
  with app show ?thesis unfolding take_guidance_def by (rule triple_andThen)
qed

lemma message_triple: "triple ready (append_assistant m) (\<lambda>_. ready) (\<lambda>_. crashed)"
  unfolding append_assistant_def appendMessage_def
proof (rule triple_andThen)
  show "triple ready (on_journal (append_record (MessageRecord m) (push_messages [m]))) (\<lambda>_ e. ready (push_message m e)) (\<lambda>_. crashed)"
    by (rule record_triple) (auto simp: ready_def idle_def record_allowed_def push_message_def)
qed (auto intro: triple_basic)

lemma run_triple:
  "triple (\<lambda>e. ready e \<and> \<not> tool_pending (memory e) (tc_id c)) (run_prepared env c code) (\<lambda>_. called c) (\<lambda>_. crashed)"
proof -
  let ?prepared = "\<lambda>e. mirrors e \<and> (\<exists>past t. ep_events e = past @ [Logged (Entry (ToolPrepared c t))]) \<and>
    (\<exists>p. js_tools (memory e) = [(tc_id c, p)]) \<and> js_pending (memory e) = None \<and> js_finished (memory e) = None \<and>
    ep_messages e = js_messages (memory e)"
  have prep: "triple (\<lambda>e. ready e \<and> \<not> tool_pending (memory e) (tc_id c)) (reads (\<lambda>e. on_journal (prepareTool (ee_now env (ep_events e)) c)))
      (\<lambda>_ e. ?prepared e \<and> ep_prepared e = []) (\<lambda>_. crashed)"
  proof (rule triple_reads)
    fix e0 assume e0: "ready e0 \<and> \<not> tool_pending (memory e0) (tc_id c)"
    let ?t = "ee_now env (ep_events e0)"
    have "triple (\<lambda>e. e = e0) (on_journal (append_record (ToolPrepared c ?t) (add_tool c ?t))) (\<lambda>_ e. ?prepared e \<and> ep_prepared e = []) (\<lambda>_. crashed)"
      by (rule record_triple) (use e0 in \<open>auto simp: ready_def idle_def record_allowed_def tool_pending_def\<close>)
    then show "triple (\<lambda>e. e = e0) (on_journal (prepareTool ?t c)) (\<lambda>_ e. ?prepared e \<and> ep_prepared e = []) (\<lambda>_. crashed)"
      using e0 by (simp add: triple_def prepareTool_def on_journal_reads)
  qed
  have run: "triple (\<lambda>e. ?prepared e \<and> ep_prepared e = [tc_id c]) (ask (RanCode (tc_id c) code) SandboxFault (ee_sandbox env))
      (\<lambda>a e. called c e \<and> (\<exists>evs. ee_sandbox env evs = Inr a)) (\<lambda>_. crashed)"
    by (rule ask_triple) (auto simp: called_def allowed_def)
  show ?thesis unfolding run_prepared_def
  proof (rule triple_andThen [OF prep], rule triple_andThen)
    show "triple (\<lambda>e. ?prepared e \<and> ep_prepared e = []) (modify (\<lambda>e. e\<lparr>ep_prepared := ep_prepared e @ [tc_id c]\<rparr>))
        (\<lambda>_ e. ?prepared e \<and> ep_prepared e = [tc_id c]) (\<lambda>_. crashed)"
      by (rule triple_basic) auto
    show "triple (\<lambda>e. ?prepared e \<and> ep_prepared e = [tc_id c]) (andThen (ask (RanCode (tc_id c) code) SandboxFault (ee_sandbox env))
        (\<lambda>res. if rr_detached res then throw DetachedTool else ok \<lparr>kt_content = rr_text res, kt_extra = []\<rparr>)) (\<lambda>_. called c) (\<lambda>_. crashed)" for a
      by (rule triple_andThen [OF run]) (auto simp: triple_def action_simps intro: crashedI)
  qed
qed

lemma handle_triple: "triple ready (handle_call env c i n) (\<lambda>_ e. ready e \<or> called c e) (\<lambda>_. crashed)"
  unfolding handle_call_def
proof (rule triple_reads)
  fix e0 assume "ready e0"
  then have ready: "triple (\<lambda>e. e = e0) (ok out) (\<lambda>_ e. ready e \<or> called c e) (\<lambda>_. crashed)" for out by (simp add: triple_def action_simps)
  have run: "triple (\<lambda>e. e = e0) (run_prepared env c code) (\<lambda>_ e. ready e \<or> called c e) (\<lambda>_. crashed)" if "\<not> tool_pending (memory e0) (tc_id c)" for code
    by (rule triple_conseq [OF run_triple]) (use \<open>ready e0\<close> that in auto)
  show "triple (\<lambda>e. e = e0)
      (if tc_name c = ''think'' then (case thinkArguments (ee_syntax_error env) (tc_arguments c) of Inl msg \<Rightarrow> ok (toolError msg) | Inr _ \<Rightarrow> ok recorded_output)
       else if tc_name c \<noteq> ''run'' then ok (toolError (''unsupported worker tool '' @ tc_name c))
       else case runArguments (ee_syntax_error env) (tc_arguments c) of Inl msg \<Rightarrow> ok (toolError msg)
         | Inr (code, detail) \<Rightarrow> if tool_pending (memory e0) (tc_id c) then ok (toolError (''worker tool '' @ tc_id c @ '' is already prepared''))
             else run_prepared env c code) (\<lambda>_ e. ready e \<or> called c e) (\<lambda>_. crashed)"
    using ready run by (auto split: sum.split prod.split)
qed

lemma append_tool_triple:
  assumes "ch_call_id m = Some (tc_id c)"
  shows "triple (\<lambda>e. ready e \<or> called c e) (append_tool m i n) (\<lambda>_. ready) (\<lambda>_. crashed)"
proof (cases "tc_id c = []")
  case True
  then show ?thesis using assms by (auto simp: append_tool_def triple_def action_simps intro: crashedI)
next
  case False
  let ?cid = "tc_id c"
  have msg: "triple ready (andThen (on_journal (appendMessage m)) (\<lambda>_. modify (push_message m))) (\<lambda>_. ready) (\<lambda>_. crashed)"
    using message_triple [of m] by (simp add: append_assistant_def)
  let ?waiting = "\<lambda>e. mirrors e \<and> (\<exists>p. js_tools (memory e) = [(?cid, p)]) \<and> ep_prepared e = [] \<and> js_pending (memory e) = None \<and>
    js_finished (memory e) = None \<and> ep_messages e = js_messages (memory e)"
  have completes: "triple ?waiting (on_journal (completeTool ?cid m)) (\<lambda>_ e. ready (push_message m e)) (\<lambda>_. crashed)"
  proof -
    have "triple ?waiting (on_journal (append_record (ToolCompleted ?cid m) (end_tool ?cid m))) (\<lambda>_ e. ready (push_message m e)) (\<lambda>_. crashed)"
      by (rule record_triple) (auto simp: ready_def idle_def record_allowed_def tool_pending_def push_message_def)
    then show ?thesis by (auto simp: triple_def completeTool_def on_journal_reads tool_pending_def)
  qed
  have closes: "triple (called c) (andThen (andThen (modify (\<lambda>e. e\<lparr>ep_prepared := filter (\<lambda>x. x \<noteq> ?cid) (ep_prepared e)\<rparr>)) (\<lambda>_. on_journal (completeTool ?cid m)))
      (\<lambda>_. modify (push_message m))) (\<lambda>_. ready) (\<lambda>_. crashed)"
    by (rule triple_andThen [where R = "\<lambda>_ e. ready (push_message m e)"], rule triple_andThen [where R = "\<lambda>_. ?waiting"])
      (auto simp: called_def intro: triple_basic completes)
  show ?thesis unfolding append_tool_def assms option.case if_not_P [OF False]
  proof (rule triple_reads, elim disjE)
    fix e0 assume e0: "ready e0"
    then have "?cid \<notin> set (ep_prepared e0)" by (simp add: ready_def)
    then show "triple (\<lambda>e. e = e0) (andThen (if ?cid \<in> set (ep_prepared e0)
        then andThen (modify (\<lambda>e. e\<lparr>ep_prepared := filter (\<lambda>x. x \<noteq> ?cid) (ep_prepared e)\<rparr>)) (\<lambda>_. on_journal (completeTool ?cid m))
        else on_journal (appendMessage m)) (\<lambda>_. modify (push_message m))) (\<lambda>_. ready) (\<lambda>_. crashed)"
      using triple_conseq [OF msg, of "\<lambda>e. e = e0" "\<lambda>_. ready"] e0 by simp
  next
    fix e0 assume e0: "called c e0"
    then have "?cid \<in> set (ep_prepared e0)" by (simp add: called_def)
    then show "triple (\<lambda>e. e = e0) (andThen (if ?cid \<in> set (ep_prepared e0)
        then andThen (modify (\<lambda>e. e\<lparr>ep_prepared := filter (\<lambda>x. x \<noteq> ?cid) (ep_prepared e)\<rparr>)) (\<lambda>_. on_journal (completeTool ?cid m))
        else on_journal (appendMessage m)) (\<lambda>_. modify (push_message m))) (\<lambda>_. ready) (\<lambda>_. crashed)"
      using triple_conseq [OF closes, of "\<lambda>e. e = e0" "\<lambda>_. ready"] e0 by simp
  qed
qed

lemma dispatch_triple: "triple ready (dispatch_from i n (handle_call env) append_tool cs) (\<lambda>_. ready) (\<lambda>_. crashed)"
proof (induction cs arbitrary: i)
  case Nil
  then show ?case by (simp add: triple_def action_simps)
next
  case (Cons c cs)
  show ?case unfolding dispatch_from.simps
  proof (rule triple_andThen [OF handle_triple])
    fix out
    have t: "triple (\<lambda>e. ready e \<or> called c e) (append_tool (tool_message c out) i n) (\<lambda>_. ready) (\<lambda>_. crashed)"
      by (rule append_tool_triple) (simp add: tool_message_def)
    show "triple (\<lambda>e. ready e \<or> called c e) (andThen (append_tool (tool_message c out) i n) (\<lambda>_.
        andThen (dispatch_from (Suc i) n (handle_call env) append_tool cs) (\<lambda>ms. ok (tool_message c out # ms)))) (\<lambda>_. ready) (\<lambda>_. crashed)"
      by (rule triple_andThen [OF t], rule triple_andThen [OF Cons.IH]) (simp add: triple_def action_simps)
  qed
qed

lemma turn_triple: "triple ready (applyKernelTurn NotAssistant m (handle_call env) append_assistant append_tool) (\<lambda>_. ready) (\<lambda>_. crashed)"
proof (cases "ch_role m = AssistantRole")
  case True
  then show ?thesis unfolding applyKernelTurn_def dispatchKernelTools_def
    by (simp, intro triple_andThen [OF message_triple] triple_andThen [OF dispatch_triple]) (simp add: triple_def action_simps)
next
  case False
  then show ?thesis by (auto simp: applyKernelTurn_def triple_def action_simps intro: crashedI)
qed

lemma finish_triple: "triple (finishing k b) (finish_with env k b) (\<lambda>_. crashed) (\<lambda>_. crashed)"
  unfolding finish_with_def
proof (rule triple_andThen)
  show "triple (finishing k b) (ask (SentFinish k b) BrokerFault (ee_finish env))
      (\<lambda>a e. finishing k b e \<and> (\<exists>evs. ee_finish env evs = Inr a)) (\<lambda>_. crashed)"
    by (rule ask_triple) (auto simp: finishing_def allowed_def dest: mirrors_state)
  have "triple (finishing k b) (on_journal (append_record (FinishedRecord k b) (set_finished k b))) (\<lambda>_. crashed) (\<lambda>_. crashed)"
    by (rule record_triple) (auto simp: finishing_def record_allowed_def intro: crashedI)
  then show "triple (\<lambda>e. finishing k b e \<and> (\<exists>evs. ee_finish env evs = Inr a)) (on_journal (completeFinish k b)) (\<lambda>_. crashed) (\<lambda>_. crashed)" for a
    by (auto simp: triple_def completeFinish_def on_journal_reads finishing_def)
qed

lemma prepare_triple: "triple idle (on_journal (prepareFinish k b)) (\<lambda>_. finishing k b) (\<lambda>_. crashed)"
proof -
  have "triple idle (on_journal (append_record (FinishPrepared k b) (\<lambda>st. st\<lparr>js_pending := Some (k, b)\<rparr>))) (\<lambda>_. finishing k b) (\<lambda>_. crashed)"
    by (rule record_triple) (auto simp: idle_def finishing_def record_allowed_def)
  then show ?thesis by (auto simp: triple_def prepareFinish_def on_journal_reads idle_def)
qed

text \<open>The ids of guidance are those the worker's client lets through.\<close>

definition env_ok :: "episode_env \<Rightarrow> bool" where
  "env_ok env \<longleftrightarrow> (\<forall>evs gs. ee_guidance env evs = Inr gs \<longrightarrow> list_all (\<lambda>g. guidance_id_ok (gd_id g)) gs)"

lemma closing_triple:
  "triple ready
     (let body = trim (ch_content m); key = finishKey sha body in
       andThen (require (body \<noteq> []) EmptyFinish) (\<lambda>_.
       andThen (ask (ExportedWork key body) BrokerFault (ee_export env)) (\<lambda>_.
       andThen (on_journal (prepareFinish key body)) (\<lambda>_.
       andThen (finish_with env key body) (\<lambda>_. ok (Some \<lparr>er_body = body, er_key = key, er_turns = turns, er_resumed = resumed\<rparr>))))))
     (\<lambda>r e. case r of None \<Rightarrow> idle e | Some _ \<Rightarrow> crashed e) (\<lambda>_. crashed)"
  unfolding Let_def
proof (rule triple_andThen [where R = "\<lambda>_. idle"])
  let ?body = "trim (ch_content m)" and ?key = "finishKey sha (trim (ch_content m))"
  show "triple ready (require (?body \<noteq> []) EmptyFinish) (\<lambda>_. idle) (\<lambda>_. crashed)"
    by (rule triple_basic) (auto simp: ready_def intro: crashedI)
  have ex: "triple idle (ask (ExportedWork ?key ?body) BrokerFault (ee_export env)) (\<lambda>_. idle) (\<lambda>_. crashed)"
    by (rule triple_conseq [OF ask_idle]) (auto simp: allowed_def)
  show "triple idle (andThen (ask (ExportedWork ?key ?body) BrokerFault (ee_export env)) (\<lambda>_.
      andThen (on_journal (prepareFinish ?key ?body)) (\<lambda>_.
      andThen (finish_with env ?key ?body) (\<lambda>_. ok (Some \<lparr>er_body = ?body, er_key = ?key, er_turns = turns, er_resumed = resumed\<rparr>)))))
      (\<lambda>r e. case r of None \<Rightarrow> idle e | Some _ \<Rightarrow> crashed e) (\<lambda>_. crashed)" for a
    by (rule triple_andThen [OF ex], rule triple_andThen [OF prepare_triple], rule triple_andThen [OF finish_triple])
      (simp add: triple_def action_simps)
qed

lemma completion_triple:
  "triple idle (reads (\<lambda>e.
     andThen (require (length (ep_messages e) \<le> ee_max_messages env) (MessageLimit (ee_max_messages env))) (\<lambda>_.
     ask (AskedCompletion (ep_messages e)) BrokerFault (ee_complete env)))) (\<lambda>_. idle) (\<lambda>_. crashed)"
proof (rule triple_reads, rule triple_andThen)
  fix e0 assume e0: "idle e0"
  show "triple (\<lambda>e. e = e0) (require (length (ep_messages e0) \<le> ee_max_messages env) (MessageLimit (ee_max_messages env)))
      (\<lambda>_ e. idle e \<and> ep_messages e = ep_messages e0) (\<lambda>_. crashed)"
    by (rule triple_basic) (use e0 in \<open>auto intro: crashedI\<close>)
  show "triple (\<lambda>e. idle e \<and> ep_messages e = ep_messages e0) (ask (AskedCompletion (ep_messages e0)) BrokerFault (ee_complete env)) (\<lambda>_. idle) (\<lambda>_. crashed)" for a
    by (rule triple_conseq [OF ask_triple [where P = "\<lambda>e. idle e \<and> ep_messages e = ep_messages e0" and Q = idle]]) (auto simp: idle_def allowed_def dest: mirrors_state)
qed

lemma andThen_assoc: "andThen (andThen m k) l = andThen m (\<lambda>a. andThen (k a) l)"
  by (simp add: fun_eq_iff action_simps split: prod.split sum.split)

lemma reads_andThen: "andThen (reads f) l = reads (\<lambda>s. andThen (f s) l)"
  by (simp add: fun_eq_iff action_simps)

lemma one_turn_triple:
  assumes "env_ok env"
  shows "triple idle (one_turn sha env resumed turns) (\<lambda>r e. case r of None \<Rightarrow> idle e | Some _ \<Rightarrow> crashed e) (\<lambda>_. crashed)"
proof -
  let ?Q = "\<lambda>r e. case r of None \<Rightarrow> idle e | Some _ \<Rightarrow> crashed e"
  let ?close = "\<lambda>m. let body = trim (ch_content m); key = finishKey sha body in
       andThen (require (body \<noteq> []) EmptyFinish) (\<lambda>_.
       andThen (ask (ExportedWork key body) BrokerFault (ee_export env)) (\<lambda>_.
       andThen (on_journal (prepareFinish key body)) (\<lambda>_.
       andThen (finish_with env key body) (\<lambda>_. ok (Some \<lparr>er_body = body, er_key = key, er_turns = turns, er_resumed = resumed\<rparr>)))))"
  let ?answer = "\<lambda>m. andThen (modify (\<lambda>e. e\<lparr>ep_prepared := []\<rparr>)) (\<lambda>_.
     andThen (applyKernelTurn NotAssistant m (handle_call env) append_assistant append_tool) (\<lambda>turn. if ta_continue turn then ok None else ?close m))"
  have answer: "triple idle (?answer m) ?Q (\<lambda>_. crashed)" for m
  proof (rule triple_andThen [where R = "\<lambda>_. ready"])
    show "triple idle (modify (\<lambda>e. e\<lparr>ep_prepared := []\<rparr>)) (\<lambda>_. ready) (\<lambda>_. crashed)"
      by (rule triple_basic) (simp add: ready_def idle_def)
    have "triple ready (ok None :: episode_result option episodic) ?Q (\<lambda>_. crashed)" by (simp add: triple_def action_simps ready_def)
    then show "triple ready (andThen (applyKernelTurn NotAssistant m (handle_call env) append_assistant append_tool)
        (\<lambda>turn. if ta_continue turn then ok None else ?close m)) ?Q (\<lambda>_. crashed)" for a
      using closing_triple by (intro triple_andThen [OF turn_triple]) auto
  qed
  have complete: "triple idle (reads (\<lambda>e.
     andThen (require (length (ep_messages e) \<le> ee_max_messages env) (MessageLimit (ee_max_messages env))) (\<lambda>_.
     andThen (ask (AskedCompletion (ep_messages e)) BrokerFault (ee_complete env)) ?answer))) ?Q (\<lambda>_. crashed)"
    using triple_andThen [OF completion_triple answer, of env] by (simp add: reads_andThen andThen_assoc)
  have guide: "triple (\<lambda>e. idle e \<and> (\<exists>evs. ee_guidance env evs = Inr gs)) (for_each take_guidance gs) (\<lambda>_. idle) (\<lambda>_. crashed)" for gs
  proof (cases "\<exists>evs. ee_guidance env evs = Inr gs")
    case True
    then have "guidance_id_ok (gd_id g)" if "g \<in> set gs" for g using assms that by (auto simp: env_ok_def list_all_iff)
    then show ?thesis by (intro triple_conseq [OF triple_for_each]) (auto intro: guidance_triple)
  qed (simp add: triple_def)
  have ack: "triple idle (if gs \<noteq> [] then ask (Acknowledged (map gd_id gs)) BrokerFault (ee_ack env) else ok ()) (\<lambda>_. idle) (\<lambda>_. crashed)" for gs
    using triple_conseq [OF ask_idle [of "Acknowledged (map gd_id gs)" BrokerFault "ee_ack env"], of idle "\<lambda>_. idle"]
    by (auto simp: triple_basic allowed_def)
  have pull: "triple idle (ask PulledGuidance BrokerFault (ee_guidance env)) (\<lambda>gs e. idle e \<and> (\<exists>evs. ee_guidance env evs = Inr gs)) (\<lambda>_. crashed)"
    by (rule ask_idle) (simp_all add: allowed_def)
  have start: "triple idle (require c Aborted) (\<lambda>_. idle) (\<lambda>_. crashed)" for c
    by (rule triple_basic) (auto intro: crashedI)
  show ?thesis unfolding one_turn_def
    by (intro triple_reads_any triple_andThen [OF start] triple_andThen [OF pull] triple_andThen [OF guide] triple_andThen [OF ack] complete)
qed

section \<open>The episode\<close>

lemma loop_triple:
  assumes "env_ok env"
  shows "triple idle (turn_loop sha env resumed turns n) (\<lambda>_. crashed) (\<lambda>_. crashed)"
proof (induction n arbitrary: turns)
  case 0
  then show ?case by (auto simp: triple_def action_simps intro: crashedI)
next
  case (Suc n)
  have "triple (\<lambda>e. case r of None \<Rightarrow> idle e | Some _ \<Rightarrow> crashed e)
      (case r of Some res \<Rightarrow> ok res | None \<Rightarrow> turn_loop sha env resumed (Suc turns) n) (\<lambda>_. crashed) (\<lambda>_. crashed)" for r
    using Suc.IH by (cases r) (simp_all add: triple_def [of crashed] action_simps)
  then show ?case unfolding turn_loop.simps by (intro triple_andThen [OF one_turn_triple [OF assms]])
qed

lemma begin_triple: "triple (\<lambda>e. idle e \<and> js_messages (memory e) = []) (begin_episode env) (\<lambda>_. idle) (\<lambda>_. crashed)"
proof -
  let ?P = "\<lambda>e. idle e \<and> js_messages (memory e) = []"
  have a: "triple ?P (require c Aborted) (\<lambda>_. ?P) (\<lambda>_. crashed)" for c by (rule triple_basic) (auto intro: crashedI)
  have b: "triple ?P (ask AskedMandate BrokerFault (ee_mandate env)) (\<lambda>_. ?P) (\<lambda>_. crashed)"
    by (rule triple_conseq [OF ask_triple [where P = ?P and Q = ?P]]) (auto simp: idle_def allowed_def)
  have c: "triple ?P (on_journal (initialize (first_messages m))) (\<lambda>_ e. idle (e\<lparr>ep_messages := ep_messages e @ first_messages m\<rparr>)) (\<lambda>_. crashed)" for m
  proof -
    have "triple ?P (on_journal (append_record (Initialized (first_messages m)) (push_messages (first_messages m))))
        (\<lambda>_ e. idle (e\<lparr>ep_messages := ep_messages e @ first_messages m\<rparr>)) (\<lambda>_. crashed)"
      by (rule record_triple) (auto simp: idle_def record_allowed_def first_messages_def)
    then show ?thesis by (auto simp: triple_def initialize_def on_journal_reads first_messages_def)
  qed
  show ?thesis unfolding begin_episode_def
    by (intro triple_reads_any triple_andThen [OF a] triple_andThen [OF b] triple_andThen [OF c]) (auto intro: triple_basic)
qed

lemma episode_triple:
  assumes "env_ok env"
  shows "triple mirrors (episode_run sha env) (\<lambda>_. crashed) (\<lambda>_. crashed)"
  unfolding episode_run_def Let_def
proof (rule triple_reads)
  fix e0 assume e0: "mirrors e0"
  let ?st = "memory e0"
  show "triple (\<lambda>e. e = e0)
    (if js_tools ?st \<noteq> [] then throw (AmbiguousTool (map fst (js_tools ?st)))
     else case js_finished ?st of Some (k, b) \<Rightarrow> ok \<lparr>er_body = b, er_key = k, er_turns = 0, er_resumed = True\<rparr>
      | None \<Rightarrow> (case js_pending ?st of
          Some (k, b) \<Rightarrow> andThen (finish_with env k b) (\<lambda>_. ok \<lparr>er_body = b, er_key = k, er_turns = 0, er_resumed = True\<rparr>)
        | None \<Rightarrow> andThen (modify (\<lambda>e. e\<lparr>ep_messages := js_messages ?st\<rparr>)) (\<lambda>_.
            andThen (if js_messages ?st = [] then begin_episode env else ok ()) (\<lambda>_.
            turn_loop sha env (js_messages ?st \<noteq> []) 1 (ee_max_turns env))))) (\<lambda>_. crashed) (\<lambda>_. crashed)"
  proof -
    consider "js_tools ?st \<noteq> []" | f where "js_tools ?st = []" "js_finished ?st = Some f"
      | k b where "js_tools ?st = []" "js_finished ?st = None" "js_pending ?st = Some (k, b)"
      | "js_tools ?st = []" "js_finished ?st = None" "js_pending ?st = None" by (cases "js_finished ?st"; cases "js_pending ?st") auto
    then show ?thesis
    proof cases
      case 1
      then show ?thesis using e0 by (auto simp: triple_def action_simps intro: crashedI)
    next
      case (2 f)
      then show ?thesis using e0 by (cases f) (auto simp: triple_def action_simps intro: crashedI)
    next
      case (3 k b)
      have "triple (\<lambda>e. e = e0) (andThen (finish_with env k b) (\<lambda>_. ok \<lparr>er_body = b, er_key = k, er_turns = 0, er_resumed = True\<rparr>)) (\<lambda>_. crashed) (\<lambda>_. crashed)"
        by (rule triple_andThen [OF triple_conseq [OF finish_triple, where Q' = "\<lambda>_. crashed"]]) (use 3 e0 in \<open>auto simp: finishing_def triple_def action_simps\<close>)
      then show ?thesis using 3 by simp
    next
      case 4
      let ?P = "\<lambda>e. idle e \<and> js_messages (memory e) = js_messages ?st"
      have m: "triple (\<lambda>e. e = e0) (modify (\<lambda>e. e\<lparr>ep_messages := js_messages ?st\<rparr>)) (\<lambda>_. ?P) (\<lambda>_. crashed)"
        by (rule triple_basic) (use 4 e0 in \<open>auto simp: idle_def\<close>)
      have b: "triple ?P (if js_messages ?st = [] then begin_episode env else ok ()) (\<lambda>_. idle) (\<lambda>_. crashed)"
        using begin_triple [of env] by (auto intro: triple_basic)
      have "triple (\<lambda>e. e = e0) (andThen (modify (\<lambda>e. e\<lparr>ep_messages := js_messages ?st\<rparr>)) (\<lambda>_.
          andThen (if js_messages ?st = [] then begin_episode env else ok ()) (\<lambda>_. turn_loop sha env (js_messages ?st \<noteq> []) 1 (ee_max_turns env))))
          (\<lambda>_. crashed) (\<lambda>_. crashed)"
        by (intro triple_andThen [OF m] triple_andThen [OF b] loop_triple assms)
      then show ?thesis using 4 by simp
    qed
  qed
qed

section \<open>Lifetimes\<close>

definition restarted :: "journal \<Rightarrow> episode_event list \<Rightarrow> episode" where
  "restarted j evs = \<lparr>ep_journal = j, ep_events = evs, ep_messages = [], ep_prepared = []\<rparr>"

text \<open>
  The events of an episode that was started over and over from its journal: each run may be cut
  short anywhere, and each may meet a different world.
\<close>

inductive lifetime :: "(string \<Rightarrow> string) \<Rightarrow> episode_event list \<Rightarrow> bool" for sha where
  born: "lifetime sha []"
| lives: "lifetime sha evs \<Longrightarrow> open_journal (file_of evs) = Inr j \<Longrightarrow> env_ok env \<Longrightarrow> episode_run sha env (restarted j evs) = (r, e) \<Longrightarrow>
    prefix evs evs' \<Longrightarrow> prefix evs' (ep_events e) \<Longrightarrow> lifetime sha evs'"

lemma lifetime_ok: "lifetime sha evs \<Longrightarrow> trace_ok evs"
proof (induction rule: lifetime.induct)
  case born
  then show ?case by (rule trace_ok_Nil)
next
  case (lives evs j env r e evs')
  then have "mirrors (restarted j evs)" by (simp add: mirrors_def restarted_def)
  from tripleD [OF episode_triple [OF lives.hyps(3)] this lives.hyps(4)] have "trace_ok (ep_events e)"
    by (simp add: crashed_def split: sum.splits)
  then show ?case using lives.hyps(6) by (rule trace_ok_prefix)
qed

lemma state_at_snoc:
  assumes "trace_ok (evs @ [ev])" and "state_at evs = Some st"
  shows "state_at (evs @ [ev]) = Some st \<and> (\<forall>r. ev \<noteq> Logged (Entry r)) \<or>
    (\<exists>r st'. ev = Logged (Entry r) \<and> record_allowed st r \<and> apply_record r st = Inr st' \<and> state_at (evs @ [ev]) = Some st')"
proof (cases "\<exists>l. ev = Logged l")
  case True
  with assms obtain r where r: "ev = Logged (Entry r)" "record_allowed st r" by (auto simp: trace_ok_snoc allowed_def)
  then obtain st' where st': "apply_record r st = Inr st'" by (auto simp: record_allowed_def)
  from assms(2) obtain j where j: "open_journal (file_of evs) = Inr j" "jn_state j = st" by (auto simp: state_at_def split: sum.splits)
  have "file_of (evs @ [ev]) = (file_of evs)\<lparr>jf_lines := jf_lines (file_of evs) @ [Entry r]\<rparr>" by (simp add: file_of_def r(1))
  then have "state_at (evs @ [ev]) = Some st'" using open_append [OF j(1), of r st'] j(2) st' by (simp add: state_at_def)
  then show ?thesis using r st' by blast
next
  case False
  then have "logged (evs @ [ev]) = logged evs" by (cases ev) auto
  then show ?thesis using assms(2) False by (simp add: state_at_def file_of_def)
qed

text \<open>A finish that was sent is the prepared or the completed one.\<close>

lemma sent_finish:
  assumes "trace_ok evs"
  shows "\<exists>st. state_at evs = Some st \<and> one_finish st \<and>
    (\<forall>k b. SentFinish k b \<in> set evs \<longrightarrow> js_pending st = Some (k, b) \<or> js_finished st = Some (k, b))"
  using assms
proof (induction evs rule: rev_induct)
  case Nil
  then show ?case
    by (simp add: state_at_def file_of_def open_journal_def reduce_def one_finish_def empty_state_def)
next
  case (snoc ev evs)
  from snoc.prems have ok: "trace_ok evs" "allowed evs ev" by (simp_all add: trace_ok_snoc)
  from snoc.IH [OF ok(1)] obtain st where st: "state_at evs = Some st" "one_finish st"
    "\<forall>k b. SentFinish k b \<in> set evs \<longrightarrow> js_pending st = Some (k, b) \<or> js_finished st = Some (k, b)" by blast
  from state_at_snoc [OF snoc.prems st(1)] show ?case
  proof (elim disjE conjE exE)
    assume same: "state_at (evs @ [ev]) = Some st"
    have "js_pending st = Some (k, b)" if "ev = SentFinish k b" for k b using ok(2) st(1) that by (auto simp: allowed_def)
    then show ?thesis using same st(2,3) by (intro exI [of _ st]) auto
  next
    fix r st' assume r: "ev = Logged (Entry r)" "record_allowed st r" "apply_record r st = Inr st'" "state_at (evs @ [ev]) = Some st'"
    have "one_finish st' \<and> (\<forall>k b. js_pending st = Some (k, b) \<or> js_finished st = Some (k, b) \<longrightarrow> js_pending st' = Some (k, b) \<or> js_finished st' = Some (k, b))"
      using r(2,3) st(2)
      by (cases r) (auto simp: one_finish_def record_allowed_def set_finished_def split: if_splits)
    then show ?thesis using r(1,4) st(3) by (intro exI [of _ st']) auto
  qed
qed


text \<open>
  C11. Code is not run twice: over all restarts, every piece of code the sandbox runs comes directly
  after a journal record that prepares this very call, so one prepared call runs at most once; and a
  model is only asked when no call is open, with exactly the transcript that is in the journal.
\<close>

theorem tools_run_once:
  assumes "lifetime sha evs"
  shows "(evs = past @ RanCode i code # rest \<longrightarrow> (\<exists>before c t. past = before @ [Logged (Entry (ToolPrepared c t))] \<and> tc_id c = i)) \<and>
    (evs = past @ AskedCompletion ms # rest \<longrightarrow>
      (\<exists>j. open_journal (file_of past) = Inr j \<and> js_messages (jn_state j) = ms \<and> js_tools (jn_state j) = []))"
proof -
  have ok: "trace_ok evs" by (rule lifetime_ok [OF assms])
  then have "evs = past @ RanCode i code # rest \<Longrightarrow> allowed past (RanCode i code)"
    "evs = past @ AskedCompletion ms # rest \<Longrightarrow> allowed past (AskedCompletion ms)"
    unfolding trace_ok_def by blast+
  then show ?thesis by (auto simp: allowed_def state_at_def split: sum.splits)
qed

section \<open>Sample episodes\<close>

text \<open>A model that answers with a call of \<open>run\<close>, and one that answers with a result.\<close>

definition demo_arguments :: string where
  "demo_arguments = ''{'' @ json_quote ''code'' @ '':'' @ json_quote ''1+1'' @ '','' @ json_quote ''detail'' @ '':'' @ json_quote ''add'' @ ''}''"

definition demo_run :: tool_call where
  "demo_run = \<lparr>tc_id = ''c1'', tc_name = ''run'', tc_arguments = demo_arguments\<rparr>"

definition calling :: chat_message where
  "calling = \<lparr>ch_role = AssistantRole, ch_content = [], ch_calls = Some [demo_run], ch_call_id = None, ch_extra = []\<rparr>"

definition answering :: chat_message where
  "answering = plain_message AssistantRole ''two''"

definition demo_mandate :: mandate where
  "demo_mandate = \<lparr>md_id = ''elm-00000005'', md_title = ''add'', md_body = ''one and one'', md_status = ''open'',
     md_dependencies = ''[]'', md_comments = ''[]''\<rparr>"

definition demo_env :: "chat_message \<Rightarrow> episode_env" where
  "demo_env m = \<lparr>ee_mandate = (\<lambda>_. Inr demo_mandate), ee_guidance = (\<lambda>_. Inr []), ee_ack = (\<lambda>_. Inr ()), ee_complete = (\<lambda>_. Inr m),
     ee_sandbox = (\<lambda>_. Inr \<lparr>rr_text = ''2'', rr_detached = False\<rparr>), ee_export = (\<lambda>_. Inr ()), ee_finish = (\<lambda>_. Inr ()),
     ee_aborted = (\<lambda>_. False), ee_now = (\<lambda>_. 0), ee_syntax_error = (\<lambda>_. ''bad''), ee_max_turns = Suc 0, ee_max_messages = 9\<rparr>"

definition demo_events :: "chat_message \<Rightarrow> episode_event list" where
  "demo_events m = ep_events (snd (episode_run (\<lambda>_. ''ab'') (demo_env m) (restarted empty_journal [])))"

lemma demo_parse: "runArguments (\<lambda>_. ''bad'') demo_arguments = Inr (''1+1'', ''add'')"
  by code_simp

lemma demo_lifetime: "lifetime (\<lambda>_. ''ab'') (demo_events m)"
proof (rule lifetime.lives [OF lifetime.born])
  show "open_journal (file_of []) = Inr empty_journal"
    by (simp add: open_journal_def file_of_def empty_journal_def reduce_def)
  show "env_ok (demo_env m)" by (simp add: env_ok_def demo_env_def)
  show "episode_run (\<lambda>_. ''ab'') (demo_env m) (restarted empty_journal []) =
    (fst (episode_run (\<lambda>_. ''ab'') (demo_env m) (restarted empty_journal [])), snd (episode_run (\<lambda>_. ''ab'') (demo_env m) (restarted empty_journal [])))"
    by simp
qed (simp_all add: demo_events_def)

lemmas episode_eval = episode_run_def begin_episode_def one_turn_def take_guidance_def finish_with_def ask_def on_journal_def Let_def
  action_simps applyKernelTurn_def dispatchKernelTools_def append_assistant_def append_tool_def handle_call_def run_prepared_def
  calls_of_def tool_message_def push_message_def restarted_def empty_journal_def empty_state_def journal_ops

lemma first_ne [simp]: "first_messages m \<noteq> []" "length (first_messages m) = 2"
  by (simp_all add: first_messages_def)

lemma demo_calling: "demo_events calling =
   [AskedMandate, Logged (Entry (Initialized (first_messages demo_mandate))), PulledGuidance, AskedCompletion (first_messages demo_mandate),
    Logged (Entry (MessageRecord calling))] @ [Logged (Entry (ToolPrepared demo_run 0))] @ RanCode ''c1'' ''1+1'' # drop 7 (demo_events calling)"
  unfolding demo_events_def
  by (simp add: episode_eval demo_env_def calling_def demo_run_def demo_parse tool_pending_def push_messages_def add_tool_def)

lemma demo_answering: "SentFinish ''worker-finish-ab'' ''two'' \<in> set (demo_events answering)"
proof -
  have "trim ''two'' = ''two''" by code_simp
  then show ?thesis unfolding demo_events_def
    by (simp add: episode_eval demo_env_def answering_def plain_message_def push_messages_def finishKey_def)
qed


theorem tools_run_once_witness:
  "\<exists>evs past rest. lifetime (\<lambda>_. ''ab'') evs \<and> evs = past @ RanCode ''c1'' ''1+1'' # rest \<and>
     (\<exists>before c t. past = before @ [Logged (Entry (ToolPrepared c t))] \<and> tc_id c = ''c1'')"
proof -
  obtain past rest where ev: "demo_events calling = past @ RanCode ''c1'' ''1+1'' # rest" 
    using demo_calling unfolding append_assoc [symmetric] by (rule that)
  have "\<exists>before c t. past = before @ [Logged (Entry (ToolPrepared c t))] \<and> tc_id c = ''c1''"
    using tools_run_once [OF demo_lifetime [of calling], of past "''c1''" "''1+1''" rest, THEN conjunct1] ev by (rule mp)
  with ev demo_lifetime [of calling] show ?thesis by blast
qed

end
