(* ===== verification/Worker_Mind.thy ===== *)
theory Worker_Mind
  imports Worker_Correct Mind_Service_Correct Json "HOL-Library.Multiset"
begin

text \<open>
  What a worker may do to the Mind graph: the broker that confines it to the subtree of its own item
  (\<open>src/src/worker/mind.ts\<close>) and the requests it arrives with (\<open>src/src/worker/mind-request.ts\<close>).

  The sessions are only read, so they are an argument; the state is that of the Mind service. The
  scope query is a recursive \<open>UNION ALL\<close> without duplicate elimination: it takes a row off its queue,
  stops at the row it looks for, and puts the children of any other row at the end. On a cyclic graph
  it may run forever, which is the value \<open>None\<close> of the search and the error \<open>ScopeDiverges\<close>.
\<close>

section \<open>Scope\<close>

datatype worker_mind_error =
    MindUnauthorized
  | OutsideScope
  | MindMissing
  | ScopeDiverges
  | BadMindRequest string
  | MindRefused mind_error

type_synonym 'a worker_mind = "(worker_mind_error, mind_world, 'a) action"

definition children_of :: "mind_db \<Rightarrow> string \<Rightarrow> string list" where
  "children_of db x = map it_id (filter (\<lambda>r. it_parent r = Some x) (db_items db))"

partial_function (option) scope_search :: "mind_db \<Rightarrow> string \<Rightarrow> string list \<Rightarrow> bool option" where
  "scope_search db i queue =
     (case queue of
        [] \<Rightarrow> Some False
      | x # rest \<Rightarrow> if x = i then Some True else scope_search db i (rest @ children_of db x))"

definition scoped :: "mind_db \<Rightarrow> session_binding \<Rightarrow> string \<Rightarrow> worker_mind_error + unit" where
  "scoped db b i = (case scope_search db i [sb_mind_id b] of
     None \<Rightarrow> Inl ScopeDiverges | Some False \<Rightarrow> Inl OutsideScope | Some True \<Rightarrow> Inr ())"

definition mind_binding :: "(string \<Rightarrow> string) \<Rightarrow> worker_db \<Rightarrow> string \<Rightarrow> worker_mind_error + session_binding" where
  "mind_binding sha wdb tok = (case resolveWorkerSession sha wdb tok of None \<Rightarrow> Inl MindUnauthorized | Some b \<Rightarrow> Inr b)"

definition on_mind :: "'a service \<Rightarrow> 'a worker_mind" where
  "on_mind m = (\<lambda>w. map_prod (map_sum MindRefused id) id (m w))"

section \<open>The broker\<close>

definition worker_get :: "time \<Rightarrow> (string \<Rightarrow> string) \<Rightarrow> worker_db \<Rightarrow> string \<Rightarrow> string option \<Rightarrow> (session_binding \<times> mind_detail) worker_mind" where
  "worker_get now sha wdb tok i = reads (\<lambda>w.
     andThen (lift (mind_binding sha wdb tok)) (\<lambda>b.
     let target = (case i of None \<Rightarrow> sb_mind_id b | Some j \<Rightarrow> j) in
     andThen (lift (scoped (mw_db w) b target)) (\<lambda>_.
     case mind_get now (mw_db w) target of None \<Rightarrow> throw MindMissing | Some d \<Rightarrow> ok (b, d))))"

definition createChild ::
  "time \<Rightarrow> nat list \<Rightarrow> string \<Rightarrow> (string \<Rightarrow> string) \<Rightarrow> worker_db \<Rightarrow> string \<Rightarrow> create_opts \<Rightarrow> mind_detail option worker_mind" where
  "createChild now vs rnd sha wdb tok inp = reads (\<lambda>w.
     andThen (lift (mind_binding sha wdb tok)) (\<lambda>b.
     let parent = (case co_parent inp of None \<Rightarrow> sb_mind_id b | Some p \<Rightarrow> p) in
     andThen (lift (scoped (mw_db w) b parent)) (\<lambda>_.
     on_mind (svc_create now vs rnd (inp\<lparr>co_parent := Some parent, co_actor := Some (sb_worker b)\<rparr>) None None))))"

definition worker_addComment :: "time \<Rightarrow> (string \<Rightarrow> string) \<Rightarrow> worker_db \<Rightarrow> string \<Rightarrow> string \<Rightarrow> string \<Rightarrow> mind_comment worker_mind" where
  "worker_addComment now sha wdb tok i body = reads (\<lambda>w.
     andThen (lift (mind_binding sha wdb tok)) (\<lambda>b.
     andThen (lift (scoped (mw_db w) b i)) (\<lambda>_.
     on_mind (svc_addComment now i body (sb_worker b)))))"

definition worker_setStatus :: "time \<Rightarrow> (string \<Rightarrow> string) \<Rightarrow> worker_db \<Rightarrow> string \<Rightarrow> string \<Rightarrow> string \<Rightarrow> mind_detail option worker_mind" where
  "worker_setStatus now sha wdb tok i st = reads (\<lambda>w.
     andThen (lift (mind_binding sha wdb tok)) (\<lambda>b.
     andThen (lift (scoped (mw_db w) b i)) (\<lambda>_.
     on_mind (svc_setStatus now i st (sb_worker b)))))"

section \<open>Requests\<close>

definition request_record :: "string \<Rightarrow> json option \<Rightarrow> worker_mind_error + (string \<times> json) list" where
  "request_record label v = (case v of Some (JObj fs) \<Rightarrow> Inr fs | _ \<Rightarrow> Inl (BadMindRequest (label @ '' must be an object'')))"

definition request_exact :: "(string \<times> json) list \<Rightarrow> string list \<Rightarrow> worker_mind_error + unit" where
  "request_exact fs known = (case filter (\<lambda>f. fst f \<notin> set known) fs of
     [] \<Rightarrow> Inr () | f # _ \<Rightarrow> Inl (BadMindRequest (''unknown request field '' @ json_quote (fst f))))"

definition request_text :: "json option \<Rightarrow> string \<Rightarrow> nat \<Rightarrow> bool \<Rightarrow> worker_mind_error + string" where
  "request_text v label mx allowEmpty = (case v of
     Some (JStr s) \<Rightarrow>
       if \<not> allowEmpty \<and> trim s = [] then Inl (BadMindRequest (label @ '' must not be empty''))
       else if length s > mx then Inl (BadMindRequest (label @ '' exceeds '' @ decimal mx @ '' characters''))
       else Inr s
   | _ \<Rightarrow> Inl (BadMindRequest (label @ '' must be a string'')))"

definition optionalId :: "json option \<Rightarrow> string \<Rightarrow> worker_mind_error + string option" where
  "optionalId v label = (case v of
     None \<Rightarrow> Inr None
   | Some (JStr s) \<Rightarrow> if isMindId s then Inr (Some s) else Inl (BadMindRequest (label @ '' must be a canonical elm-* id''))
   | Some _ \<Rightarrow> Inl (BadMindRequest (label @ '' must be a canonical elm-* id'')))"

definition requiredId :: "json option \<Rightarrow> string \<Rightarrow> worker_mind_error + string" where
  "requiredId v label = bindR (optionalId v label) (\<lambda>i. case i of
     None \<Rightarrow> Inl (BadMindRequest (label @ '' is required'')) | Some j \<Rightarrow> Inr j)"

definition request_tag :: "json \<Rightarrow> bool" where
  "request_tag t = (case t of
     JStr s \<Rightarrow> length s \<le> 48 \<and> valid_tag (collapse_spaces (strip_hash (toLowerCase (trim s)))) | _ \<Rightarrow> False)"

definition json_strings :: "json list \<Rightarrow> string list" where
  "json_strings vs = concat (map (\<lambda>v. case v of JStr s \<Rightarrow> [s] | _ \<Rightarrow> []) vs)"

text \<open>The checks of the fields that may be left out.\<close>

definition request_member :: "json option \<Rightarrow> string list \<Rightarrow> string \<Rightarrow> worker_mind_error + string option" where
  "request_member v names msg = (case v of
     None \<Rightarrow> Inr None
   | Some (JStr s) \<Rightarrow> if s \<in> set names then Inr (Some s) else Inl (BadMindRequest msg)
   | Some _ \<Rightarrow> Inl (BadMindRequest msg))"

definition request_priority :: "json option \<Rightarrow> worker_mind_error + jsnum option" where
  "request_priority v = (case v of
     None \<Rightarrow> Inr None
   | Some (JNum n) \<Rightarrow> if integral n \<and> 0 \<le> n \<and> n \<le> 4 then Inr (Some (Num n))
       else Inl (BadMindRequest ''item.priority must be an integer from 0 to 4'')
   | Some _ \<Rightarrow> Inl (BadMindRequest ''item.priority must be an integer from 0 to 4''))"

definition request_due :: "json option \<Rightarrow> worker_mind_error + jsnum option" where
  "request_due v = (case v of
     None \<Rightarrow> Inr None
   | Some JNull \<Rightarrow> Inr None
   | Some (JNum n) \<Rightarrow> if n > 0 then Inr (Some (Num n)) else Inl (BadMindRequest ''item.dueAt must be finite epoch-ms or null'')
   | Some _ \<Rightarrow> Inl (BadMindRequest ''item.dueAt must be finite epoch-ms or null''))"

definition request_tags :: "json option \<Rightarrow> worker_mind_error + string list" where
  "request_tags v = (case v of
     None \<Rightarrow> Inr []
   | Some (JArr ts) \<Rightarrow> if length ts > 64 \<or> \<not> list_all request_tag ts
       then Inl (BadMindRequest ''item.tags must be at most 64 valid bounded strings'') else Inr (json_strings ts)
   | Some _ \<Rightarrow> Inl (BadMindRequest ''item.tags must be at most 64 valid bounded strings''))"

definition createInput :: "json option \<Rightarrow> string option \<Rightarrow> worker_mind_error + create_opts" where
  "createInput v parent =
     bindR (request_record ''item'' v) (\<lambda>fs.
     bindR (request_exact fs [''title'', ''body'', ''kind'', ''status'', ''priority'', ''dueAt'', ''tags'']) (\<lambda>_.
     bindR (request_text (map_of fs ''title'') ''item.title'' 240 False) (\<lambda>title.
     bindR (case map_of fs ''body'' of None \<Rightarrow> Inr None | Some b \<Rightarrow> map_sum id Some (request_text (Some b) ''item.body'' 100000 True)) (\<lambda>body.
     bindR (request_member (map_of fs ''kind'') (map fst MIND_KINDS) ''item.kind is invalid'') (\<lambda>kind.
     bindR (request_member (map_of fs ''status'') (map fst MIND_STATUSES) ''item.status is invalid'') (\<lambda>st.
     bindR (request_priority (map_of fs ''priority'')) (\<lambda>prio.
     bindR (request_due (map_of fs ''dueAt'')) (\<lambda>due.
     bindR (request_tags (map_of fs ''tags'')) (\<lambda>tags.
       Inr \<lparr>co_title = title, co_body = body, co_kind = kind, co_status = st, co_priority = prio, co_parent = parent, co_due = due,
         co_tags = tags, co_depends = [], co_actor = None, co_intake = None\<rparr>)))))))))"

datatype mind_reply =
    ItemRead session_binding mind_detail
  | ItemWritten "mind_detail option"
  | CommentWritten mind_comment

definition dispatchWorkerMindRequest ::
  "time \<Rightarrow> nat list \<Rightarrow> string \<Rightarrow> (string \<Rightarrow> string) \<Rightarrow> worker_db \<Rightarrow> string \<Rightarrow> json option \<Rightarrow> mind_reply worker_mind" where
  "dispatchWorkerMindRequest now vs rnd sha wdb tok v =
     andThen (lift (request_record ''request'' v)) (\<lambda>fs.
     if map_of fs ''protocol'' \<noteq> Some (JNum 1) then throw (BadMindRequest ''protocol must equal 1'')
     else if map_of fs ''operation'' = Some (JStr ''get'') then
       andThen (lift (request_exact fs [''protocol'', ''operation'', ''id''])) (\<lambda>_.
       andThen (lift (optionalId (map_of fs ''id'') ''id'')) (\<lambda>i.
       andThen (worker_get now sha wdb tok i) (\<lambda>(b, d). ok (ItemRead b d))))
     else if map_of fs ''operation'' = Some (JStr ''create'') then
       andThen (lift (request_exact fs [''protocol'', ''operation'', ''parentId'', ''item''])) (\<lambda>_.
       andThen (lift (optionalId (map_of fs ''parentId'') ''parentId'')) (\<lambda>p.
       andThen (lift (createInput (map_of fs ''item'') p)) (\<lambda>inp.
       andThen (createChild now vs rnd sha wdb tok inp) (\<lambda>d. ok (ItemWritten d)))))
     else if map_of fs ''operation'' = Some (JStr ''comment'') then
       andThen (lift (request_exact fs [''protocol'', ''operation'', ''id'', ''body''])) (\<lambda>_.
       andThen (lift (requiredId (map_of fs ''id'') ''id'')) (\<lambda>i.
       andThen (lift (request_text (map_of fs ''body'') ''body'' 100000 False)) (\<lambda>body.
       andThen (worker_addComment now sha wdb tok i body) (\<lambda>c. ok (CommentWritten c)))))
     else if map_of fs ''operation'' = Some (JStr ''status'') then
       andThen (lift (request_exact fs [''protocol'', ''operation'', ''id'', ''status''])) (\<lambda>_.
       andThen (lift (request_member (Some (case map_of fs ''status'' of None \<Rightarrow> JNull | Some s \<Rightarrow> s)) (map fst MIND_STATUSES) ''status is invalid'')) (\<lambda>st.
       andThen (lift (requiredId (map_of fs ''id'') ''id'')) (\<lambda>i.
       andThen (worker_setStatus now sha wdb tok i (case st of None \<Rightarrow> [] | Some s \<Rightarrow> s)) (\<lambda>d. ok (ItemWritten d)))))
     else throw (BadMindRequest ''operation must be get, create, comment, or status''))"

section \<open>The scope query decides the subtree\<close>

definition subtree :: "mind_db \<Rightarrow> string \<Rightarrow> string set" where
  "subtree db root' = {i. (i, root') \<in> (set (parent_edges db))\<^sup>*}"

lemma set_children_of: "set (children_of db x) = {y. (y, x) \<in> set (parent_edges db)}"
  by (force simp: children_of_def parent_edges_def List.map_filter_def)

lemma scope_search_decides:
  assumes "wf (set (parent_edges db))"
  shows "scope_search db i q = Some (\<exists>x \<in> set q. i \<in> subtree db x)"
proof -
  let ?E = "set (parent_edges db)"
  have "wf (inv_image (mult1 ?E) mset)" using assms by (intro wf_inv_image wf_mult1)
  then show ?thesis
  proof (induction q rule: wf_induct_rule)
    case (less q)
    show ?case
    proof (cases q)
      case Nil
      then show ?thesis by (simp add: scope_search.simps)
    next
      case (Cons x rest)
      show ?thesis
      proof (cases "x = i")
        case True
        then show ?thesis using Cons by (simp add: scope_search.simps [of db i "i # rest"] subtree_def)
      next
        case False
        have "(mset (rest @ children_of db x), mset q) \<in> mult1 ?E"
          by (rule mult1I [of _ x "mset rest" _ "mset (children_of db x)"]) (simp_all add: Cons set_children_of)
        then have IH: "scope_search db i (rest @ children_of db x) = Some (\<exists>y \<in> set (rest @ children_of db x). i \<in> subtree db y)"
          by (intro less.IH) simp
        have "i \<in> subtree db x \<longleftrightarrow> (\<exists>y \<in> set (children_of db x). i \<in> subtree db y)"
          using False by (auto simp: subtree_def set_children_of elim: rtranclE intro: rtrancl_into_rtrancl)
        then show ?thesis using IH Cons False by (auto simp: scope_search.simps [of db i "x # rest"])
      qed
    qed
  qed
qed

lemma scoped_iff:
  assumes "mind_inv_x X db"
  shows "scoped db b i = (if i \<in> subtree db (sb_mind_id b) then Inr () else Inl OutsideScope)"
proof -
  have "wf (set (parent_edges db))"
    using assms by (intro finite_acyclic_wf) (simp_all add: mind_inv_x_def items_inv_def)
  then show ?thesis by (simp add: scoped_def scope_search_decides)
qed

section \<open>Rows of other items\<close>

definition rows_of :: "string set \<Rightarrow> mind_db \<Rightarrow> item_row list \<times> dep_row list \<times> tag_row list \<times> comment_row list \<times>
    event_row list \<times> reminder_row list \<times> claim_row list" where
  "rows_of X db = (filter (\<lambda>r. it_id r \<in> X) (db_items db), filter (\<lambda>r. dp_item r \<in> X) (db_deps db),
     filter (\<lambda>r. tg_item r \<in> X) (db_tags db), filter (\<lambda>r. cm_item r \<in> X) (db_comments db),
     filter (\<lambda>r. ev_item r \<in> X) (db_events db), filter (\<lambda>r. rm_item r \<in> X) (db_reminders db),
     filter (\<lambda>r. cl_item r \<in> X) (db_claims db))"

lemma filter_other_key:
  assumes "i \<notin> X"
  shows "(\<And>r. key (f r) = key r) \<Longrightarrow>
      filter (\<lambda>r. key r \<in> X) (update_where (\<lambda>r. key r = i) f rows) = filter (\<lambda>r. key r \<in> X) rows"
    and "filter (\<lambda>r. key r \<in> X) (delete_where (\<lambda>r. key r = i) rows) = filter (\<lambda>r. key r \<in> X) rows"
  using assms by (induction rows) (auto simp: update_where_def delete_where_def)

named_theorems rows_frame \<open>statements that do not touch the rows of other items\<close>

lemma rows_statements [rows_frame]:
  assumes "i \<notin> X"
  shows "(\<And>r. it_id (f r) = it_id r) \<Longrightarrow> rows_of X (update_item i f db) = rows_of X db"
    and "rows_of X (add_event i ty actor dat tm db) = rows_of X db"
    and "rows_of X (delete_claim i db) = rows_of X db"
    and "it_id row = i \<Longrightarrow> rows_of X (insert_item row tags db) = rows_of X db"
  using assms
  by (simp_all add: rows_of_def update_item_def add_event_def delete_claim_def insert_item_def
      filter_other_key filter_empty_conv)

lemma rows_touch [rows_frame]: "i \<notin> X \<Longrightarrow> rows_of X (touch i tm db) = rows_of X db"
  by (simp add: touch_def rows_frame)

lemma rows_writes [rows_frame]:
  assumes "i \<notin> X"
  shows "rows_of X (write_columns tm i p db) = rows_of X db"
    and "rows_of X (write_tags tm i p db) = rows_of X db"
    and "rows_of X (revoke_claim tm i cur p actor db) = rows_of X db"
    and "rows_of X (update_event tm i cur tags p actor db) = rows_of X db"
    and "rows_of X (snd (addCommentInternal i body author tm reply db)) = rows_of X db"
proof -
  have tags: "rows_of X (db\<lparr>db_tags := delete_where (\<lambda>t. tg_item t = i) (db_tags db) @ map (\<lambda>t. \<lparr>tg_item = i, tg_tag = t\<rparr>) ts\<rparr>) = rows_of X db" for ts
    using assms by (simp add: rows_of_def filter_other_key filter_empty_conv)
  have com: "rows_of X (db\<lparr>db_comments := db_comments db @ [row], db_next_comment := n\<rparr>) = rows_of X db" if "cm_item row = i" for row n
    using assms that by (simp add: rows_of_def)
  show "rows_of X (write_columns tm i p db) = rows_of X db"
    using assms by (simp add: write_columns_def rows_frame apply_patch_def)
  show "rows_of X (write_tags tm i p db) = rows_of X db"
    using assms by (simp add: write_tags_def rows_frame tags split: option.split)
  show "rows_of X (revoke_claim tm i cur p actor db) = rows_of X db" "rows_of X (update_event tm i cur tags p actor db) = rows_of X db"
    using assms by (simp_all add: revoke_claim_def update_event_def rows_frame split: option.split)
  show "rows_of X (snd (addCommentInternal i body author tm reply db)) = rows_of X db"
    using assms by (simp add: addCommentInternal_def Let_def rows_frame com)
qed

definition rows_kept :: "string set \<Rightarrow> mind_db \<Rightarrow> mind_db \<Rightarrow> bool" where
  "rows_kept X db0 db \<longleftrightarrow> rows_of X db = rows_of X db0 \<and>
     map (\<lambda>r. (rm_id r, rm_item r)) (db_reminders db) = map (\<lambda>r. (rm_id r, rm_item r)) (db_reminders db0)"

abbreviation store_kept :: "string set \<Rightarrow> mind_db \<Rightarrow> mind_world \<Rightarrow> bool" where
  "store_kept X db0 \<equiv> \<lambda>w. rows_kept X db0 (mw_db w)"

lemma rows_kept_refl [simp]: "rows_kept X db db"
  by (simp add: rows_kept_def)

lemma kept_callbacks:
  assumes "store_kept X db0 w"
  shows "safe_at (store_kept X db0) (changed v) w" "safe_at (store_kept X db0) (read_store f) w"
    "safe_at (store_kept X db0) (case x of None \<Rightarrow> ok () | Some d \<Rightarrow> when_do b (itemStateChanged d)) w"
  using assms by (auto simp: safe_at_def changed_def read_store_def itemStateChanged_def notifyChanged_def action_simps split: option.split)

lemma kept_batch: "(\<And>n. safe_at (store_kept X db0) m (w\<lparr>mw_depth := n\<rparr>)) \<Longrightarrow> safe_at (store_kept X db0) (batch m) w"
proof -
  assume m: "\<And>n. safe_at (store_kept X db0) m (w\<lparr>mw_depth := n\<rparr>)"
  obtain r w1 where 1: "m (w\<lparr>mw_depth := mw_depth w + 1\<rparr>) = (r, w1)" by fastforce
  then have "store_kept X db0 w1" using m [of "mw_depth w + 1"] by (simp add: safe_at_def)
  then show ?thesis using 1 by (simp add: safe_at_def batch_def Let_def notifyChanged_def)
qed

lemma kept_on_store:
  "safe_at (rows_kept X db0) m (mw_db w) \<Longrightarrow> safe_at (store_kept X db0) (on_store m) w"
  by (auto simp: safe_at_def on_store_def split: prod.split)

lemma kept_update:
  assumes "i \<notin> X" and "rows_kept X db0 db"
  shows "safe_at (rows_kept X db0) (mind_update now i patch actor) db"
proof -
  have "safe_at (\<lambda>d. rows_of X d = rows_of X db0) (mind_update now i patch actor) db"
    unfolding mind_update_def and_get_def using assms
    by (auto simp: rows_kept_def rows_frame intro!: safe_intro safe_andThen split: option.split)
  moreover have "safe_at (same_rem (db_reminders db)) (mind_update now i patch actor) db" by (rule same_rem_ops) simp
  ultimately show ?thesis using assms(2) by (simp add: safe_at_def rows_kept_def)
qed

lemma kept_addComment:
  assumes "i \<notin> X" and "rows_kept X db0 db"
  shows "safe_at (rows_kept X db0) (addComment now i body author) db"
proof -
  have "rows_kept X db0 (snd (addCommentInternal i body author now None db))"
    using assms by (simp add: rows_kept_def rows_frame reminders_frame)
  then show ?thesis
    unfolding addComment_def using assms(2) by (intro safe_intro) (auto simp: safe_at_def)
qed

lemma kept_create:
  assumes "X \<subseteq> item_ids db" and "co_depends opts = []"
  shows "safe_at (rows_kept X db) (mind_create now vs opts) db"
proof -
  have "rows_of X (snd (create_tx now vs opts a db)) = rows_of X db" if "check_create db opts = Inr a" for a
  proof (cases "fresh_id db vs")
    case (Some ir)
    obtain i rest where [simp]: "ir = (i, rest)" by (cases ir)
    have i: "i \<notin> X" using fresh_id_new Some assms(1) by auto
    have "ca_depends a = []" using that assms(2) by (auto simp: check_create_def bindR_def uniq_def split: sum.splits if_splits)
    moreover have "it_id (created_row now opts a i) = i" by (simp add: created_row_def)
    ultimately show ?thesis using i Some by (simp add: create_tx_def action_simps rows_frame)
  qed (simp add: create_tx_def action_simps)
  then have "safe_at (\<lambda>d. rows_of X d = rows_of X db) (mind_create now vs opts) db"
    unfolding mind_create_def
    by (intro safe_intro safe_andThen) (auto simp: safe_at_def)
  moreover have "safe_at (same_rem (db_reminders db)) (mind_create now vs opts) db" by (rule same_rem_create) simp
  ultimately show ?thesis by (simp add: safe_at_def rows_kept_def)
qed

lemma kept_cancelRecord:
  assumes other: "i \<notin> X" and kept: "rows_kept X db0 db"
    and own: "\<And>r. r \<in> set (db_reminders db) \<Longrightarrow> rm_id r = rid \<Longrightarrow> rm_item r = i"
  shows "rows_kept X db0 (snd (cancelReminderRecord now rid actor db))"
proof (cases "reminderById db rid")
  case (Some r)
  let ?up = "update_reminder rid (\<lambda>x. x\<lparr>rm_cancelled := Some now\<rparr>) db"
  have item: "rm_item r = i" using Some own by (auto simp: reminderById_def find_Some_iff)
  have "filter (\<lambda>r. rm_item r \<in> X) (update_where (\<lambda>r. rm_id r = rid) (\<lambda>x. x\<lparr>rm_cancelled := Some now\<rparr>) rs) =
      filter (\<lambda>r. rm_item r \<in> X) rs" if "set rs \<subseteq> set (db_reminders db)" for rs
    using that own other by (induction rs) (auto simp: update_where_def)
  then have "rows_kept X db0 ?up"
    using kept by (simp add: rows_kept_def rows_of_def update_reminder_def map_update_where)
  then have "rows_kept X db0 (add_event i ty actor dat now ?up)" for ty dat
    using other by (simp add: rows_kept_def rows_frame reminders_frame)
  then show ?thesis using Some item kept by (simp add: cancelReminderRecord_def Let_def)
qed (use kept in \<open>simp add: cancelReminderRecord_def\<close>)

lemma kept_owner:
  assumes "distinct (map rm_id (db_reminders db0))" and "rows_kept X db0 db" and "rows_kept X db0 db'"
    and "r \<in> set (db_reminders db)" and "r' \<in> set (db_reminders db')" and "rm_id r = rm_id r'"
  shows "rm_item r = rm_item r'"
proof -
  let ?m = "map (\<lambda>r. (rm_id r, rm_item r)) (db_reminders db0)"
  have "(rm_id r, rm_item r) \<in> set ?m" "(rm_id r', rm_item r') \<in> set ?m"
    using assms(2-5) unfolding rows_kept_def by (metis (mono_tags) image_eqI list.set_map)+
  moreover have "distinct (map fst ?m)" using assms(1) by (simp add: comp_def)
  ultimately show ?thesis using assms(6) by (metis eq_key_imp_eq_value)
qed

lemma kept_cancelReminder:
  assumes dist: "distinct (map rm_id (db_reminders db0))" and other: "i \<notin> X" and kept: "store_kept X db0 w" "store_kept X db0 w0"
    and r: "r \<in> set (db_reminders (mw_db w0))" "rm_item r = i"
  shows "safe_at (store_kept X db0) (andThen (cancelReminder now (rm_id r) actor) (\<lambda>_. ok ())) w"
proof -
  have "rows_kept X db0 (snd (cancelReminderRecord now (rm_id r) actor (mw_db w)))"
    using kept_owner [OF dist kept(1,2) _ r(1)] r(2) by (intro kept_cancelRecord [OF other kept(1)]) auto
  then have "safe_at (store_kept X db0) (store_then_changed (\<lambda>db. map_prod Inr id (cancelReminderRecord now (rm_id r) actor db)))
      (delete_task now k w)" for k
    unfolding store_then_changed_def
    by (intro safe_andThen kept_callbacks kept_on_store) (simp_all add: safe_at_def delete_task_def)
  then have "safe_at (store_kept X db0) (cancelReminder now (rm_id r) actor) w"
    unfolding cancelReminder_def using kept(1) by (intro safe_intro) (auto intro!: safe_intro split: option.split)
  then show ?thesis by (intro safe_andThen safe_intro)
qed

lemma kept_cancelPending:
  assumes dist: "distinct (map rm_id (db_reminders db0))" and other: "i \<notin> X" and kept: "store_kept X db0 w"
  shows "safe_at (store_kept X db0) (cancelPendingReminders now i actor) w"
proof -
  have "safe_at (store_kept X db0) (for_each (\<lambda>r. andThen (cancelReminder now (rm_id r) actor) (\<lambda>_. ok ())) rs) w'"
    if "store_kept X db0 w'" "set rs \<subseteq> set (pendingReminders (mw_db w) i)" for rs w'
    using that
  proof (induction rs arbitrary: w')
    case (Cons r rs)
    have "r \<in> set (db_reminders (mw_db w))" "rm_item r = i" using Cons.prems(2) by (auto simp: pendingReminders_def)
    then have "safe_at (store_kept X db0) (andThen (cancelReminder now (rm_id r) actor) (\<lambda>_. ok ())) w'"
      using kept_cancelReminder [OF dist other Cons.prems(1) kept] by simp
    then show ?case unfolding for_each.simps by (rule safe_andThen) (use Cons in auto)
  qed (simp add: safe_intro)
  then show ?thesis unfolding cancelPendingReminders_def using kept by (intro safe_intro) auto
qed

lemma kept_svc_update:
  assumes "distinct (map rm_id (db_reminders (mw_db w)))" and "i \<notin> X"
  shows "safe_at (store_kept X (mw_db w)) (svc_update now i patch actor) w"
  unfolding svc_update_def
proof (rule kept_batch)
  fix n
  have "safe_at (store_kept X (mw_db w)) (when_do b (cancelPendingReminders now i actor)) w'" if "store_kept X (mw_db w) w'" for b w'
    using that kept_cancelPending [OF assms] by (simp add: when_do_def safe_intro)
  moreover have "safe_at (store_kept X (mw_db w)) (on_store (mind_update now i patch actor)) (w\<lparr>mw_depth := n\<rparr>)"
    using assms(2) by (intro kept_on_store kept_update) simp_all
  ultimately show "safe_at (store_kept X (mw_db w)) (andThen (on_store (mind_update now i patch actor)) (\<lambda>item.
      andThen (when_do (case item of None \<Rightarrow> False | Some d \<Rightarrow> closes (it_status d)) (cancelPendingReminders now i actor)) (\<lambda>_.
      andThen (read_store (\<lambda>db. mind_get now db i)) (\<lambda>current.
      andThen (case current of None \<Rightarrow> ok () | Some d \<Rightarrow> when_do (up_status patch \<noteq> None) (itemStateChanged d)) (\<lambda>_.
      changed current))))) (w\<lparr>mw_depth := n\<rparr>)"
    by (intro safe_andThen kept_callbacks)
qed

lemma kept_svc_addComment:
  "i \<notin> X \<Longrightarrow> safe_at (store_kept X (mw_db w)) (svc_addComment now i body author) w"
  unfolding svc_addComment_def store_then_changed_def
  by (intro safe_andThen kept_on_store kept_addComment kept_callbacks) simp_all

lemma kept_svc_create:
  assumes "X \<subseteq> item_ids (mw_db w)" and "co_depends opts = []"
  shows "safe_at (store_kept X (mw_db w)) (svc_create now vs rnd opts None None) w"
  unfolding svc_create_def
proof (intro kept_batch safe_andThen)
  fix n
  show "safe_at (store_kept X (mw_db w)) (on_store (mind_create now vs opts)) (w\<lparr>mw_depth := n\<rparr>)"
    using kept_create [OF assms] by (intro kept_on_store) simp
qed (auto intro!: safe_andThen kept_callbacks safe_intro split: option.split)

section \<open>A worker stays in its subtree\<close>

lemma triple_lift: "(\<And>a s. r = Inr a \<Longrightarrow> P s \<Longrightarrow> Q a s) \<Longrightarrow> (\<And>e s. r = Inl e \<Longrightarrow> P s \<Longrightarrow> E e s) \<Longrightarrow> triple P (lift r) Q E"
  by (cases r) (auto simp: triple_def action_simps)

lemma triple_lift_then:
  "(\<And>e s. r = Inl e \<Longrightarrow> P s \<Longrightarrow> E e s) \<Longrightarrow> (\<And>a. r = Inr a \<Longrightarrow> triple P (k a) Q E) \<Longrightarrow> triple P (andThen (lift r) k) Q E"
  by (cases r) (auto simp: triple_def action_simps)

lemma triple_on_mind:
  assumes "safe_at K m w" and "\<And>e. E (MindRefused e) = K" and "\<And>a. Q a = K"
  shows "triple (\<lambda>s. s = w) (on_mind m) Q E"
  using assms by (cases "m w" rule: prod.exhaust; cases "fst (m w)") (auto simp: triple_def on_mind_def safe_at_def)

text \<open>The errors of the checks are neither of the two errors that need care.\<close>

definition request_error :: "worker_mind_error \<Rightarrow> bool" where
  "request_error e \<longleftrightarrow> (case e of BadMindRequest _ \<Rightarrow> True | _ \<Rightarrow> False)"

lemma request_error_bad [simp]: "request_error (BadMindRequest m)"
  by (simp add: request_error_def)

lemma bindR_request:
  "(\<And>e. m = Inl e \<Longrightarrow> request_error e) \<Longrightarrow> (\<And>a e. m = Inr a \<Longrightarrow> k a = Inl e \<Longrightarrow> request_error e) \<Longrightarrow>
    bindR m k = Inl e \<Longrightarrow> request_error e"
  by (cases m) (auto simp: bindR_def)

lemma request_checks:
  "request_record l v = Inl e \<Longrightarrow> request_error e" "request_exact fs known = Inl e \<Longrightarrow> request_error e"
  "request_text v l mx em = Inl e \<Longrightarrow> request_error e" "optionalId v l = Inl e \<Longrightarrow> request_error e"
  "request_member v names l = Inl e \<Longrightarrow> request_error e" "request_priority v = Inl e \<Longrightarrow> request_error e"
  "request_due v = Inl e \<Longrightarrow> request_error e" "request_tags v = Inl e \<Longrightarrow> request_error e"
  by (auto simp: request_record_def request_exact_def request_text_def optionalId_def request_member_def request_priority_def
      request_due_def request_tags_def request_error_def split: option.splits json.splits if_splits list.splits)

lemma requiredId_error: "requiredId v l = Inl e \<Longrightarrow> request_error e"
  unfolding requiredId_def by (erule bindR_request [rotated 2]) (auto simp: request_checks split: option.splits)

lemma createInput_error: "createInput v p = Inl e \<Longrightarrow> request_error e"
  unfolding createInput_def
  by (elim bindR_request [rotated 2]; (erule request_checks)?)
    (auto simp: map_sum_def request_checks split: option.splits sum.splits)

lemma createInput_depends: "createInput v p = Inr inp \<Longrightarrow> co_depends inp = [] \<and> co_parent inp = p"
  by (auto simp: createInput_def bindR_def split: sum.splits)

text \<open>What a request may have done when it is answered: nothing outside the subtree, and nothing read from there.\<close>

definition outside :: "mind_db \<Rightarrow> session_binding \<Rightarrow> string set" where
  "outside db b = item_ids db - subtree db (sb_mind_id b)"

definition confined_reply :: "mind_db \<Rightarrow> session_binding \<Rightarrow> mind_reply \<Rightarrow> mind_world \<Rightarrow> bool" where
  "confined_reply db b rep w \<longleftrightarrow> store_kept (outside db b) db w \<and>
     (\<forall>b' d. rep = ItemRead b' d \<longrightarrow> b' = b \<and> it_id d \<in> subtree db (sb_mind_id b))"

definition confined_error :: "mind_db \<Rightarrow> session_binding \<Rightarrow> worker_mind_error \<Rightarrow> mind_world \<Rightarrow> bool" where
  "confined_error db b e w \<longleftrightarrow> store_kept (outside db b) db w \<and> e \<noteq> ScopeDiverges \<and> e \<noteq> MindUnauthorized"

lemma confined_bad: "request_error e \<Longrightarrow> confined_error (mw_db w) b e w"
  by (auto simp: confined_error_def request_error_def)

lemma mind_binding_Some: "resolveWorkerSession sha wdb tok = Some b \<Longrightarrow> mind_binding sha wdb tok = Inr b"
  by (simp add: mind_binding_def)

lemma triple_scoped:
  assumes "mind_inv_x {} (mw_db w)"
    and "i \<notin> outside (mw_db w) b \<Longrightarrow> i \<in> subtree (mw_db w) (sb_mind_id b) \<Longrightarrow> triple (\<lambda>s. s = w) k Q (confined_error (mw_db w) b)"
  shows "triple (\<lambda>s. s = w) (andThen (lift (scoped (mw_db w) b i)) (\<lambda>_. k)) Q (confined_error (mw_db w) b)"
  using assms
  by (intro triple_lift_then) (auto simp: scoped_iff outside_def confined_error_def split: if_splits)

lemma worker_ops_confined:
  assumes inv: "svc_inv w" and res: "resolveWorkerSession sha wdb tok = Some b"
  shows "triple (\<lambda>s. s = w) (worker_get now sha wdb tok i)
      (\<lambda>(b', d) w'. w' = w \<and> b' = b \<and> it_id d \<in> subtree (mw_db w) (sb_mind_id b)) (confined_error (mw_db w) b)"
    and "co_depends inp = [] \<Longrightarrow> triple (\<lambda>s. s = w) (createChild now vs rnd sha wdb tok inp)
      (\<lambda>_. store_kept (outside (mw_db w) b) (mw_db w)) (confined_error (mw_db w) b)"
    and "triple (\<lambda>s. s = w) (worker_addComment now sha wdb tok j body)
      (\<lambda>_. store_kept (outside (mw_db w) b) (mw_db w)) (confined_error (mw_db w) b)"
    and "triple (\<lambda>s. s = w) (worker_setStatus now sha wdb tok j st)
      (\<lambda>_. store_kept (outside (mw_db w) b) (mw_db w)) (confined_error (mw_db w) b)"
proof -
  note db = svc_inv_db [OF inv]
  have dist: "distinct (map rm_id (db_reminders (mw_db w)))"
    using db by (simp add: mind_inv_x_def refs_inv_def rowids_def)
  have refused: "confined_error (mw_db w) b (MindRefused e) = store_kept (outside (mw_db w) b) (mw_db w)" for e
    by (simp add: confined_error_def fun_eq_iff)
  let ?goal = "\<lambda>m Q. triple (\<lambda>s. s = w) m Q (confined_error (mw_db w) b)"
  show "?goal (worker_get now sha wdb tok i) (\<lambda>(b', d) w'. w' = w \<and> b' = b \<and> it_id d \<in> subtree (mw_db w) (sb_mind_id b))"
    unfolding worker_get_def Let_def
    by (rule triple_reads, hypsubst, rule triple_lift_then)
      (auto simp: mind_binding_Some [OF res] confined_error_def dest!: mind_get_id
        intro!: triple_scoped [OF db] split: option.split,
        simp_all add: triple_def action_simps confined_error_def)
  show "?goal (createChild now vs rnd sha wdb tok inp) (\<lambda>_. store_kept (outside (mw_db w) b) (mw_db w))" if "co_depends inp = []"
    unfolding createChild_def Let_def
    by (rule triple_reads, hypsubst, rule triple_lift_then)
      (auto simp: mind_binding_Some [OF res] refused that outside_def
        intro!: triple_scoped [OF db] triple_on_mind [of "store_kept (outside (mw_db w) b) (mw_db w)"] kept_svc_create)
  show "?goal (worker_addComment now sha wdb tok j body) (\<lambda>_. store_kept (outside (mw_db w) b) (mw_db w))"
    unfolding worker_addComment_def Let_def
    by (rule triple_reads, hypsubst, rule triple_lift_then)
      (auto simp: mind_binding_Some [OF res] refused
        intro!: triple_scoped [OF db] triple_on_mind [of "store_kept (outside (mw_db w) b) (mw_db w)"] kept_svc_addComment)
  show "?goal (worker_setStatus now sha wdb tok j st) (\<lambda>_. store_kept (outside (mw_db w) b) (mw_db w))"
    unfolding worker_setStatus_def svc_setStatus_def Let_def
    by (rule triple_reads, hypsubst, rule triple_lift_then)
      (auto simp: mind_binding_Some [OF res] refused
        intro!: triple_scoped [OF db] triple_on_mind [of "store_kept (outside (mw_db w) b) (mw_db w)"] kept_svc_update [OF dist])
qed

text \<open>
  The dispatcher passes on what the operation did; \<open>confined_reply\<close> and \<open>confined_error\<close> are its contract.
\<close>

lemma triple_reply:
  assumes "triple P m (\<lambda>_. store_kept (outside db b) db) E"
    and "\<And>a b' d. f a \<noteq> ItemRead b' d"
  shows "triple P (andThen m (\<lambda>a. ok (f a))) (confined_reply db b) E"
  by (rule triple_andThen [OF assms(1)]) (auto simp: triple_def action_simps confined_reply_def assms(2))

lemma dispatch_confined:
  assumes inv: "svc_inv w" and res: "resolveWorkerSession sha wdb tok = Some b"
  shows "triple (\<lambda>s. s = w) (dispatchWorkerMindRequest now vs rnd sha wdb tok v)
    (confined_reply (mw_db w) b) (confined_error (mw_db w) b)"
proof -
  let ?goal = "\<lambda>m. triple (\<lambda>s. s = w) m (confined_reply (mw_db w) b) (confined_error (mw_db w) b)"
  note ops = worker_ops_confined [OF inv res]
  have bad: "confined_error (mw_db w) b e s" if "request_error e" "s = w" for e s
    using that confined_bad by simp
  have throw_bad: "?goal (throw (BadMindRequest m))" for m by (simp add: triple_def action_simps bad)
  have read: "?goal (andThen (worker_get now sha wdb tok i) (\<lambda>(b, d). ok (ItemRead b d)))" for i
    by (rule triple_andThen [OF ops(1)]) (auto simp: triple_def action_simps confined_reply_def split: prod.split)
  have create: "?goal (andThen (createChild now vs rnd sha wdb tok inp) (\<lambda>d. ok (ItemWritten d)))"
    if "createInput x p = Inr inp" for inp x p
    using createInput_depends [OF that] by (intro triple_reply ops(2)) simp_all
  have writes: "?goal (andThen (worker_addComment now sha wdb tok i body) (\<lambda>c. ok (CommentWritten c)))"
    "?goal (andThen (worker_setStatus now sha wdb tok i st) (\<lambda>d. ok (ItemWritten d)))" for i body st
    by (intro triple_reply ops(3,4); simp)+
  show ?thesis
    unfolding dispatchWorkerMindRequest_def
    by (intro triple_lift_then bad read writes; (erule request_checks requiredId_error createInput_error create | simp)?)
      (auto intro!: triple_lift_then bad read writes throw_bad
        elim: request_checks requiredId_error createInput_error create split: if_split)
qed

lemma dispatch_unauthorized:
  assumes "resolveWorkerSession sha wdb tok = None"
  shows "triple (\<lambda>s. s = w) (dispatchWorkerMindRequest now vs rnd sha wdb tok v) (\<lambda>_ _. False) (\<lambda>_ w'. w' = w)"
proof -
  have "mind_binding sha wdb tok = Inl MindUnauthorized" using assms by (simp add: mind_binding_def)
  then show ?thesis
    by (simp add: dispatchWorkerMindRequest_def worker_get_def createChild_def worker_addComment_def worker_setStatus_def
        triple_def action_simps split: sum.splits)
qed


definition outside_request :: json where
  "outside_request = JObj [(''protocol'', JNum 1), (''operation'', JStr ''comment''), (''id'', JStr ''elm-00000007''), (''body'', JStr ''hi'')]"


end
