(* ===== verification/Worker_Supervisor.thy ===== *)
theory Worker_Supervisor
  imports Worker_Custody Worker_Mind
begin

text \<open>
  The worker supervisor (\<open>src/src/worker/supervisor.ts\<close>): it tells the host when a worker has finished or
  failed, keeps the brokers reconciled with the pods, and offers the worker operations to the host.

  The closures of \<open>startWorkerSupervisor\<close> are functions of one state record. An asynchronous pass is
  cut at its await: \<open>su_reconcile\<close> and \<open>su_cleanup\<close> hold the generation of the pass under way. What the
  host does inside the delivery callback (which of \<open>delivered\<close> and \<open>dropped\<close> it calls, and whether it
  throws) is the argument \<open>host\<close>. The log records what happened to the notices; it models no variable.
  Timers, abort signals and log output are left out; a timer that fires is a request to reconcile.
\<close>

section \<open>State\<close>

record terminal_notice =
  nt_id :: string
  nt_worker :: string
  nt_mind_id :: string
  nt_status :: worker_status
  nt_updated_at :: time
  nt_finish :: "int option"

datatype notice_event = Handed terminal_notice | Confirmed string | Returned string | Stopped

record supervisor =
  su_spawn :: spawner
  su_mind :: mind_world
  su_disposed :: bool
  su_generation :: nat
  su_active :: bool
  su_listening :: bool
  su_polling :: bool
  su_reconcile :: "nat option"
  su_reconcile_dirty :: bool
  su_cleanup :: "nat option"
  su_cleanup_dirty :: bool
  su_claimed :: "string list"
  su_log :: "notice_event list"

datatype supervisor_error =
    SupervisorDisposed
  | SupervisorActive
  | SpawnRefused spawn_error
  | MailRefused mailbox_error
  | CommentRefused mind_error
  | CustodyRefused workspace_error
  | MandateUnavailable
  | StillActive
  | FollowupTooLong
  | CustodyUnavailable

type_synonym 'a supervising = "(supervisor_error, supervisor, 'a) action"

definition su_db :: "supervisor \<Rightarrow> worker_db" where
  "su_db s = sp_db (su_spawn s)"

definition on_spawn :: "(spawner \<Rightarrow> spawner) \<Rightarrow> supervisor \<Rightarrow> supervisor" where
  "on_spawn f s = s\<lparr>su_spawn := f (su_spawn s)\<rparr>"

definition note_event :: "notice_event \<Rightarrow> supervisor \<Rightarrow> supervisor" where
  "note_event e s = s\<lparr>su_log := su_log s @ [e]\<rparr>"

text \<open>A query of the mailbox broker, which leaves the tables alone.\<close>

definition mail_query :: "'a mailbox \<Rightarrow> supervisor \<Rightarrow> supervisor_error + 'a" where
  "mail_query m s = map_sum MailRefused id (fst (m (su_db s)))"

section \<open>Notices\<close>

definition notifiable :: "worker_session \<Rightarrow> bool" where
  "notifiable x \<longleftrightarrow> ws_status x \<in> {Finished, Failed}"

definition pending_sessions :: "worker_db \<Rightarrow> worker_session list" where
  "pending_sessions db = sort_by
     (\<lambda>a b. ws_updated_at a < ws_updated_at b \<or> (ws_updated_at a = ws_updated_at b \<and> ws_id a \<le> ws_id b))
     (filter (\<lambda>x. notifiable x \<and> ws_notified_at x = None) (wd_sessions db))"

definition notice_of :: "worker_session \<Rightarrow> mailbox_message option \<Rightarrow> terminal_notice" where
  "notice_of x m = \<lparr>nt_id = ws_id x, nt_worker = ''worker:'' @ ws_slug x, nt_mind_id = ws_mind_id x,
     nt_status = ws_status x, nt_updated_at = ws_updated_at x, nt_finish = map_option mm_id m\<rparr>"

definition mark_notified :: "time \<Rightarrow> worker_session \<Rightarrow> worker_session" where
  "mark_notified now x = x\<lparr>ws_notified_at := Some (case ws_notified_at x of
     Some t \<Rightarrow> t | None \<Rightarrow> max (ws_created_at x) (max (ws_updated_at x) now))\<rparr>"

definition unclaim :: "string \<Rightarrow> supervisor \<Rightarrow> supervisor" where
  "unclaim i s = s\<lparr>su_claimed := filter (\<lambda>x. x \<noteq> i) (su_claimed s)\<rparr>"

definition notice_delivered :: "time \<Rightarrow> string \<Rightarrow> supervisor \<Rightarrow> supervisor" where
  "notice_delivered now i s =
     (if i \<notin> set (su_claimed s) then s
      else note_event (Confirmed i) (on_spawn (on_db (\<lambda>db. db\<lparr>wd_sessions :=
        update_where (\<lambda>x. ws_id x = i \<and> notifiable x) (mark_notified now) (wd_sessions db)\<rparr>)) (unclaim i s)))"

definition notice_dropped :: "string \<Rightarrow> supervisor \<Rightarrow> supervisor" where
  "notice_dropped i s = (if i \<notin> set (su_claimed s) then s else note_event (Returned i) (unclaim i s))"

datatype notice_call = CallDelivered | CallDropped

primrec run_call :: "time \<Rightarrow> string \<Rightarrow> notice_call \<Rightarrow> supervisor \<Rightarrow> supervisor" where
  "run_call now i CallDelivered s = notice_delivered now i s"
| "run_call now i CallDropped s = notice_dropped i s"

text \<open>The calls the host makes on the notice, and whether it throws.\<close>

type_synonym delivery = "terminal_notice \<Rightarrow> notice_call list \<times> bool"

definition hand_over :: "time \<Rightarrow> delivery \<Rightarrow> terminal_notice \<Rightarrow> supervisor \<Rightarrow> supervisor" where
  "hand_over now host n s =
     (let s1 = note_event (Handed n) (s\<lparr>su_claimed := su_claimed s @ [nt_id n]\<rparr>);
          s2 = fold (run_call now (nt_id n)) (fst (host n)) s1
      in if snd (host n) then notice_dropped (nt_id n) s2 else s2)"

definition deliver_one :: "time \<Rightarrow> delivery \<Rightarrow> worker_session \<Rightarrow> unit supervising" where
  "deliver_one now host row = reads (\<lambda>s.
     if ws_id row \<in> set (su_claimed s) then ok ()
     else andThen (lift (map_sum SpawnRefused id (resolve_worker (ws_id row) (su_db s)))) (\<lambda>x.
          andThen (lift (mail_query (finishFromWorker (ws_id x)) s)) (\<lambda>m.
          modify (hand_over now host (notice_of x m)))))"

definition deliverPending :: "time \<Rightarrow> delivery \<Rightarrow> unit supervising" where
  "deliverPending now host = reads (\<lambda>s.
     if su_disposed s \<or> \<not> su_active s then ok ()
     else for_each (deliver_one now host) (pending_sessions (su_db s)))"

section \<open>Reconciliation and cleanup\<close>

definition is_current :: "nat \<Rightarrow> supervisor \<Rightarrow> bool" where
  "is_current g s \<longleftrightarrow> \<not> su_disposed s \<and> su_generation s = g"

text \<open>
  \<open>cleanup_loop\<close> and \<open>reconcile_loop\<close> are the head of the loop: the flag is cleared, a pass that is no
  longer current ends, any other waits for the broker.
\<close>

definition cleanup_loop :: "nat \<Rightarrow> supervisor \<Rightarrow> supervisor" where
  "cleanup_loop g s = (let s1 = s\<lparr>su_cleanup_dirty := False\<rparr>
     in s1\<lparr>su_cleanup := (if is_current g s1 then Some g else None)\<rparr>)"

definition kickCleanup :: "supervisor \<Rightarrow> supervisor" where
  "kickCleanup s =
     (if su_disposed s then s
      else let s1 = s\<lparr>su_cleanup_dirty := True\<rparr>
           in if su_cleanup s1 \<noteq> None then s1 else cleanup_loop (su_generation s1) s1)"

definition cleanup_resolved :: "supervisor \<Rightarrow> supervisor" where
  "cleanup_resolved s = (case su_cleanup s of
     None \<Rightarrow> s
   | Some g \<Rightarrow> if su_cleanup_dirty s then cleanup_loop g s else s\<lparr>su_cleanup := None\<rparr>)"

definition cleanup_rejected :: "supervisor \<Rightarrow> supervisor" where
  "cleanup_rejected s = s\<lparr>su_cleanup := None\<rparr>"

definition reconcile_loop :: "nat \<Rightarrow> supervisor \<Rightarrow> supervisor" where
  "reconcile_loop g s = (let s1 = s\<lparr>su_reconcile_dirty := False\<rparr>
     in s1\<lparr>su_reconcile := (if is_current g s1 then Some g else None)\<rparr>)"

definition reconcile :: "supervisor \<Rightarrow> supervisor" where
  "reconcile s =
     (if su_disposed s then s
      else let s1 = s\<lparr>su_reconcile_dirty := True\<rparr>
           in if su_reconcile s1 \<noteq> None then s1 else reconcile_loop (su_generation s1) s1)"

definition reconcile_rejected :: "supervisor \<Rightarrow> supervisor" where
  "reconcile_rejected s = s\<lparr>su_reconcile := None\<rparr>"

definition reconcile_resolved :: "time \<Rightarrow> delivery \<Rightarrow> supervisor \<Rightarrow> supervisor" where
  "reconcile_resolved now host s = (case su_reconcile s of
     None \<Rightarrow> s
   | Some g \<Rightarrow>
       if \<not> is_current g s then s\<lparr>su_reconcile := None\<rparr>
       else (case deliverPending now host s of
           (Inl e, s1) \<Rightarrow> reconcile_rejected s1
         | (Inr _, s1) \<Rightarrow> let s2 = kickCleanup s1
             in if su_reconcile_dirty s2 then reconcile_loop g s2 else s2\<lparr>su_reconcile := None\<rparr>))"

section \<open>Life cycle\<close>

definition start_supervisor :: "spawner \<Rightarrow> mind_world \<Rightarrow> notice_event list \<Rightarrow> supervisor" where
  "start_supervisor sp m evs = \<lparr>su_spawn = sp, su_mind = m, su_disposed = False, su_generation = 0, su_active = False,
     su_listening = False, su_polling = False, su_reconcile = None, su_reconcile_dirty = False, su_cleanup = None,
     su_cleanup_dirty = False, su_claimed = [], su_log = evs\<rparr>"

definition activate :: "time \<Rightarrow> delivery \<Rightarrow> bool \<Rightarrow> unit supervising" where
  "activate now host polls = reads (\<lambda>s.
     if su_disposed s then throw SupervisorDisposed
     else if su_active s then throw SupervisorActive
     else (\<lambda>s0. case deliverPending now host (s0\<lparr>su_active := True, su_listening := True\<rparr>) of
         (Inl e, s1) \<Rightarrow> (Inl e, s1\<lparr>su_active := False, su_listening := False\<rparr>)
       | (Inr _, s1) \<Rightarrow> (Inr (), (reconcile s1)\<lparr>su_polling := polls\<rparr>)))"

text \<open>The listeners of the mailbox and of the spawn broker, run by \<open>setImmediate\<close>.\<close>

definition on_finish :: "time \<Rightarrow> delivery \<Rightarrow> supervisor \<Rightarrow> supervisor" where
  "on_finish now host s = (if su_disposed s then s else reconcile (snd (deliverPending now host s)))"

definition dispose :: "time \<Rightarrow> supervisor \<Rightarrow> supervisor" where
  "dispose now s =
     (if su_disposed s then s
      else note_event Stopped ((on_spawn (revokeProvisioning now) s)\<lparr>su_disposed := True, su_generation := su_generation s + 1,
        su_reconcile_dirty := False, su_cleanup_dirty := False, su_polling := False, su_listening := False, su_active := False,
        su_claimed := []\<rparr>))"

section \<open>The operations offered to the host\<close>

text \<open>\<open>on_spawner\<close>, \<open>on_mailbox\<close> and \<open>on_mind_service\<close> run an operation of a broker or of the Mind on its part of the state.\<close>

definition on_spawner :: "'a spawning \<Rightarrow> 'a supervising" where
  "on_spawner m = (\<lambda>s. case m (su_spawn s) of (r, sp) \<Rightarrow> (map_sum SpawnRefused id r, s\<lparr>su_spawn := sp\<rparr>))"

definition on_mailbox :: "'a mailbox \<Rightarrow> 'a supervising" where
  "on_mailbox m = (\<lambda>s. case m (su_db s) of (r, db) \<Rightarrow> (map_sum MailRefused id r, on_spawn (\<lambda>sp. sp\<lparr>sp_db := db\<rparr>) s))"

definition on_mind_service :: "'a service \<Rightarrow> 'a supervising" where
  "on_mind_service m = (\<lambda>s. case m (su_mind s) of (r, w) \<Rightarrow> (map_sum CommentRefused id r, s\<lparr>su_mind := w\<rparr>))"

definition assertActive :: "unit supervising" where
  "assertActive = reads (\<lambda>s. require (\<not> su_disposed s) SupervisorDisposed)"

definition spawn_status :: "string \<Rightarrow> worker_session supervising" where
  "spawn_status ref = reads (\<lambda>s. lift (map_sum SpawnRefused id (resolve_worker ref (su_db s))))"

text \<open>Every operation but \<open>dismiss\<close> begins with a pass of reconciliation; \<open>api_begin\<close> is the part before that wait.\<close>

definition api_begin :: "unit supervising" where
  "api_begin = andThen assertActive (\<lambda>_. modify reconcile)"

definition api_start ::
  "spawn_config \<Rightarrow> time \<Rightarrow> string list \<Rightarrow> (nat \<Rightarrow> nat \<times> nat) \<Rightarrow> string \<Rightarrow> string \<Rightarrow> json option \<Rightarrow> string supervising" where
  "api_start cf now candidates draw d mindId opts = andThen assertActive (\<lambda>_.
     reads (\<lambda>s. on_spawner (start_begin cf now (mw_db (su_mind s)) True candidates draw d mindId opts)))"

definition api_send :: "time \<Rightarrow> string \<Rightarrow> string \<Rightarrow> string \<Rightarrow> mailbox_message supervising" where
  "api_send now uuid ref text' = andThen assertActive (\<lambda>_. andThen (spawn_status ref) (\<lambda>x.
     on_mailbox (sendToWorker now (ws_id x) (''dispatcher:'' @ uuid) text' ''dispatcher'')))"

definition api_list :: "worker_session list supervising" where
  "api_list = andThen assertActive (\<lambda>_. reads (\<lambda>s. ok (list_sessions (su_db s))))"

definition publicMessages :: "string \<Rightarrow> mailbox_message list supervising" where
  "publicMessages sid =
     andThen (on_mailbox (pullFromWorker sid (Num 100))) (\<lambda>messages.
     andThen (on_mailbox (finishFromWorker sid)) (\<lambda>finish. ok (case finish of
       None \<Rightarrow> messages
     | Some f \<Rightarrow> if list_ex (\<lambda>m. mm_id m = mm_id f) messages then messages
                 else (if length messages \<ge> 100 then butlast messages else messages) @ [f])))"

definition publicArtifacts :: "bool \<Rightarrow> string \<Rightarrow> artifact_row list supervising" where
  "publicArtifacts has_workspace sid = reads (\<lambda>s.
     if has_workspace then lift (map_sum CustodyRefused (map (\<lambda>a. a\<lparr>ar_path := []\<rparr>)) (fst (listArtifacts sid \<lparr>wk_db = su_db s, wk_files = []\<rparr>)))
     else ok [])"

text \<open>
  The UTF-8 text cut to 8192 bytes at a character: the receipt is given by its bytes, since the
  ellipsis of the marker is no code unit of the model.
\<close>

definition receipt_marker :: "nat list" where
  "receipt_marker = [10, 226, 128, 166] @ utf8 '' [mandate truncated for receipt]''"

text \<open>A continuation byte is \<open>10xxxxxx\<close>.\<close>

primrec back_up :: "nat list \<Rightarrow> nat \<Rightarrow> nat" where
  "back_up bytes 0 = 0"
| "back_up bytes (Suc e) = (if Suc e < length bytes \<and> bytes ! Suc e div 64 = 2 then back_up bytes e else Suc e)"

definition mandate_receipt :: "string \<Rightarrow> nat list" where
  "mandate_receipt body =
     (let bytes = utf8 body;
          truncated = length bytes > 8192;
          limit = (if truncated then 8192 - length receipt_marker else 8192);
          kept = take (back_up bytes (min (length bytes) limit)) bytes
      in if truncated then kept @ receipt_marker else kept)"

definition mandateFor :: "time \<Rightarrow> string \<Rightarrow> (string \<times> nat list) supervising" where
  "mandateFor now mindId = reads (\<lambda>s. case mind_get now (mw_db (su_mind s)) mindId of
     None \<Rightarrow> throw MandateUnavailable
   | Some d \<Rightarrow> ok (it_title d, mandate_receipt (it_body d)))"

record worker_report =
  rp_session :: worker_session
  rp_title :: string
  rp_mandate :: "nat list"
  rp_messages :: "mailbox_message list"
  rp_artifacts :: "artifact_row list"

definition api_status :: "time \<Rightarrow> bool \<Rightarrow> string \<Rightarrow> worker_report supervising" where
  "api_status now has_workspace ref = andThen assertActive (\<lambda>_.
     andThen (spawn_status ref) (\<lambda>x.
     andThen (mandateFor now (ws_mind_id x)) (\<lambda>(title, receipt).
     andThen (publicMessages (ws_id x)) (\<lambda>ms.
     andThen (publicArtifacts has_workspace (ws_id x)) (\<lambda>as.
     ok \<lparr>rp_session = x, rp_title = title, rp_mandate = receipt, rp_messages = ms, rp_artifacts = as\<rparr>)))))"

definition followup_parts :: "worker_session \<Rightarrow> mailbox_message option \<Rightarrow> string option \<Rightarrow> string list" where
  "followup_parts prior finish text' =
     [''Fresh worker follow-up requested after worker:'' @ ws_slug prior @ '' ('' @ ws_id prior @
        ''). This does not resume hidden model context; continue from this Mind item and its durable record.''] @
     (case finish of None \<Rightarrow> []
      | Some m \<Rightarrow> if mm_body m = [] then [] else [''Prior worker finish:'' @ [CHR 0x0A] @ take 8000 (mm_body m)]) @
     (case text' of None \<Rightarrow> []
      | Some t \<Rightarrow> if trim t = [] then [] else [''Follow-up instruction:'' @ [CHR 0x0A] @ trim t])"

definition followup_text :: "json option \<Rightarrow> supervisor_error + string option" where
  "followup_text v = (case v of
     None \<Rightarrow> Inr None
   | Some (JStr t) \<Rightarrow> if length t > 16000 then Inl FollowupTooLong else Inr (Some t)
   | Some _ \<Rightarrow> Inl FollowupTooLong)"

definition api_followup ::
  "spawn_config \<Rightarrow> time \<Rightarrow> string list \<Rightarrow> (nat \<Rightarrow> nat \<times> nat) \<Rightarrow> string \<Rightarrow> string \<Rightarrow> json option \<Rightarrow> (int \<times> string) supervising" where
  "api_followup cf now candidates draw d ref v = andThen assertActive (\<lambda>_.
     andThen (spawn_status ref) (\<lambda>prior.
     andThen (require (\<not> is_active (ws_status prior)) StillActive) (\<lambda>_.
     andThen (lift (followup_text v)) (\<lambda>text'.
     andThen (on_mailbox (finishFromWorker (ws_id prior))) (\<lambda>finish.
     andThen (on_mind_service (svc_addComment now (ws_mind_id prior)
       (take 20000 (join [CHR 0x0A, CHR 0x0A] (followup_parts prior finish text'))) ''dispatcher:worker-followup'')) (\<lambda>c.
     andThen assertActive (\<lambda>_.
     reads (\<lambda>s. andThen (on_spawner (start_begin cf now (mw_db (su_mind s)) True candidates draw d (ws_mind_id prior)
         (Some (JObj [(''modelRef'', JStr (ws_model_ref prior))])))) (\<lambda>i. ok (cm_id c, i))))))))))"

definition api_artifact :: "(nat list \<Rightarrow> string) \<Rightarrow> (string \<times> nat list) list option \<Rightarrow> string \<Rightarrow> string option \<Rightarrow> artifact_row supervising" where
  "api_artifact shab files ref key = andThen assertActive (\<lambda>_. andThen (spawn_status ref) (\<lambda>x.
     case files of
       None \<Rightarrow> throw CustodyUnavailable
     | Some fs \<Rightarrow> reads (\<lambda>s. lift (map_sum CustodyRefused id (fst (artifactFile shab (ws_id x)
         (case key of None \<Rightarrow> ''workspace.patch.gz'' | Some k \<Rightarrow> k) \<lparr>wk_db = su_db s, wk_files = fs\<rparr>))))))"

definition api_dismiss :: "time \<Rightarrow> string \<Rightarrow> (string \<times> bool) supervising" where
  "api_dismiss now ref = andThen assertActive (\<lambda>_. on_spawner (dismiss_begin now True ref))"

end
