(* ===== verification/Worker_Supervisor_Correct.thy ===== *)
theory Worker_Supervisor_Correct
  imports Worker_Supervisor
begin

text \<open>
  Notices of the supervisor: a session is announced until the host confirms it, one notice at a time, and
  never again afterwards, across restarts; no finished or failed session is forgotten. And the bounds of
  what a status report shows.
\<close>

section \<open>The system\<close>

text \<open>
  Session ids are drawn by \<open>newWorkerId\<close>. The operations of the api act through the brokers, the Mind and
  \<open>reconcile\<close>, each of which may step at any time.
\<close>

definition well_named :: "worker_db \<Rightarrow> bool" where
  "well_named db \<longleftrightarrow> (\<forall>x \<in> set (wd_sessions db). prefix ''wrk-'' (ws_id x))"

inductive sup_step :: "spawn_config \<Rightarrow> (string \<Rightarrow> string) \<Rightarrow> (nat list \<Rightarrow> string) \<Rightarrow> supervisor \<Rightarrow> supervisor \<Rightarrow> bool"
  for cf sha shab where
  broker: "spawn_step cf sha shab (su_spawn s) sp \<Longrightarrow> well_named (sp_db sp) \<Longrightarrow> sup_step cf sha shab s (s\<lparr>su_spawn := sp\<rparr>)"
| mind: "sup_step cf sha shab s (s\<lparr>su_mind := w\<rparr>)"
| activate: "sup_step cf sha shab s (snd (activate now host polls s))"
| finish: "sup_step cf sha shab s (on_finish now host s)"
| reconcile: "sup_step cf sha shab s (reconcile s)"
| reconciled: "sup_step cf sha shab s (reconcile_resolved now host s)"
| reconcile_fails: "sup_step cf sha shab s (reconcile_rejected s)"
| cleaned: "sup_step cf sha shab s (cleanup_resolved s)"
| cleanup_fails: "sup_step cf sha shab s (cleanup_rejected s)"
| confirm: "sup_step cf sha shab s (notice_delivered now i s)"
| drop: "sup_step cf sha shab s (notice_dropped i s)"
| dispose: "sup_step cf sha shab s (dispose now s)"
| restart: "sup_step cf sha shab s (start_supervisor
    ((su_spawn s)\<lparr>sp_starting := [], sp_cleaning := [], sp_observed := []\<rparr>) w (su_log s @ [Stopped]))"

inductive_cases sup_stepE: "sup_step cf sha shab s s'"

definition first_supervisor :: "mind_world \<Rightarrow> supervisor" where
  "first_supervisor w = start_supervisor fresh_spawner w []"

section \<open>What the log says\<close>

fun open_step :: "notice_event \<Rightarrow> string set \<Rightarrow> string set" where
  "open_step (Handed n) S = insert (nt_id n) S"
| "open_step (Confirmed i) S = S - {i}"
| "open_step (Returned i) S = S - {i}"
| "open_step Stopped S = {}"

definition outstanding :: "notice_event list \<Rightarrow> string set" where
  "outstanding evs = fold open_step evs {}"

lemma outstanding_snoc [simp]: "outstanding [] = {}" "outstanding (evs @ [e]) = open_step e (outstanding evs)"
  by (simp_all add: outstanding_def)

definition each_once :: "notice_event list \<Rightarrow> bool" where
  "each_once evs \<longleftrightarrow> (\<forall>xs n ys. evs = xs @ Handed n # ys \<longrightarrow>
     nt_id n \<notin> outstanding xs \<and> Confirmed (nt_id n) \<notin> set xs)"

lemma each_once_snoc:
  "each_once (evs @ [e]) \<longleftrightarrow> each_once evs \<and>
     (\<forall>n. e = Handed n \<longrightarrow> nt_id n \<notin> outstanding evs \<and> Confirmed (nt_id n) \<notin> set evs)"
proof -
  have "evs @ [e] = xs @ Handed n # ys \<longleftrightarrow> (xs = evs \<and> e = Handed n \<and> ys = []) \<or> (\<exists>zs. ys = zs @ [e] \<and> evs = xs @ Handed n # zs)"
    for xs n ys
    by (cases ys rule: rev_cases) auto
  then show ?thesis unfolding each_once_def by (metis (no_types, lifting))
qed

section \<open>Invariant\<close>

definition confirmed_row :: "worker_db \<Rightarrow> string \<Rightarrow> bool" where
  "confirmed_row db i \<longleftrightarrow> (\<exists>x \<in> set (wd_sessions db). ws_id x = i \<and> notifiable x \<and> ws_notified_at x \<noteq> None)"

definition announced_row :: "worker_db \<Rightarrow> string \<Rightarrow> bool" where
  "announced_row db i \<longleftrightarrow> (\<exists>x \<in> set (wd_sessions db). ws_id x = i \<and> notifiable x)"

definition sup_inv :: "nat \<Rightarrow> supervisor \<Rightarrow> bool" where
  "sup_inv N s \<longleftrightarrow> spawn_inv N (su_spawn s) \<and> well_named (su_db s) \<and> each_once (su_log s) \<and>
     set (su_claimed s) = outstanding (su_log s) \<and>
     (\<forall>i. Confirmed i \<in> set (su_log s) \<longrightarrow> confirmed_row (su_db s) i) \<and>
     (\<forall>i \<in> set (su_claimed s). announced_row (su_db s) i)"

lemma sup_inv_frame:
  assumes "sup_inv N s" and "su_log s' = su_log s" and "su_claimed s' = su_claimed s" and "su_spawn s' = su_spawn s"
  shows "sup_inv N s'"
  using assms by (simp add: sup_inv_def su_db_def)

lemma notifiable_terminal: "notifiable x \<Longrightarrow> is_terminal (ws_status x)"
  by (auto simp: notifiable_def is_terminal_def)

lemma rows_kept_terminal:
  assumes "keeps_terminal (wd_sessions db) (wd_sessions db')"
  shows "confirmed_row db i \<Longrightarrow> confirmed_row db' i" "announced_row db i \<Longrightarrow> announced_row db' i"
  using assms notifiable_terminal unfolding keeps_terminal_def confirmed_row_def announced_row_def notifiable_def by metis+

lemma sup_inv_spawn:
  assumes inv: "sup_inv N s" and "su_log s' = su_log s" "su_claimed s' = su_claimed s"
    and "spawn_inv N (su_spawn s')" "well_named (su_db s')" "keeps_terminal (wd_sessions (su_db s)) (wd_sessions (su_db s'))"
  shows "sup_inv N s'"
  using assms rows_kept_terminal [OF assms(6)] unfolding sup_inv_def by simp

lemma su_frames [simp]:
  "su_log (note_event e s) = su_log s @ [e]" "su_claimed (note_event e s) = su_claimed s" "su_spawn (note_event e s) = su_spawn s"
  "su_log (unclaim i s) = su_log s" "su_spawn (unclaim i s) = su_spawn s" "set (su_claimed (unclaim i s)) = set (su_claimed s) - {i}"
  "su_log (on_spawn f s) = su_log s" "su_claimed (on_spawn f s) = su_claimed s" "su_spawn (on_spawn f s) = f (su_spawn s)"
  "su_db (note_event e s) = su_db s" "su_db (unclaim i s) = su_db s"
  by (auto simp: note_event_def unclaim_def on_spawn_def su_db_def)

lemma su_flags [simp]:
  "su_disposed (note_event e s) = su_disposed s" "su_disposed (unclaim i s) = su_disposed s" "su_disposed (on_spawn f s) = su_disposed s"
  "su_active (note_event e s) = su_active s" "su_active (unclaim i s) = su_active s" "su_active (on_spawn f s) = su_active s"
  by (simp_all add: note_event_def unclaim_def on_spawn_def)

lemma sup_inv_dropped: "sup_inv N s \<Longrightarrow> sup_inv N (notice_dropped i s)"
  by (auto simp: sup_inv_def notice_dropped_def each_once_snoc)

abbreviation mark_row :: "time \<Rightarrow> string \<Rightarrow> worker_db \<Rightarrow> worker_db" where
  "mark_row now i db \<equiv> db\<lparr>wd_sessions := update_where (\<lambda>x. ws_id x = i \<and> notifiable x) (mark_notified now) (wd_sessions db)\<rparr>"

lemma mark_notified_frame [simp]:
  "ws_id (mark_notified now x) = ws_id x" "ws_status (mark_notified now x) = ws_status x" "ws_slug (mark_notified now x) = ws_slug x"
  "ws_digest (mark_notified now x) = ws_digest x" "ws_mind_id (mark_notified now x) = ws_mind_id x"
  "ws_source_sha256 (mark_notified now x) = ws_source_sha256 x" "notifiable (mark_notified now x) = notifiable x"
  "ws_notified_at (mark_notified now x) \<noteq> None" "\<exists>t. ws_notified_at (mark_notified now x) = Some t"
  by (simp_all add: mark_notified_def notifiable_def)

lemma mark_row_row:
  assumes "x \<in> set (wd_sessions db)"
  obtains y where "y \<in> set (wd_sessions (mark_row now i db))" "ws_id y = ws_id x" "notifiable y = notifiable x"
    "ws_notified_at x \<noteq> None \<or> (ws_id x = i \<and> notifiable x) \<Longrightarrow> ws_notified_at y \<noteq> None"
  using assms
  by (intro that [of "if ws_id x = i \<and> notifiable x then mark_notified now x else x"]) (auto simp: update_where_def)

lemma mark_row_rows:
  "confirmed_row db j \<Longrightarrow> confirmed_row (mark_row now i db) j"
  "announced_row db j \<Longrightarrow> announced_row (mark_row now i db) j"
  "announced_row db i \<Longrightarrow> confirmed_row (mark_row now i db) i"
  "well_named db \<Longrightarrow> well_named (mark_row now i db)"
proof -
  show "confirmed_row db j \<Longrightarrow> confirmed_row (mark_row now i db) j"
    "announced_row db j \<Longrightarrow> announced_row (mark_row now i db) j"
    "announced_row db i \<Longrightarrow> confirmed_row (mark_row now i db) i"
    unfolding confirmed_row_def announced_row_def by (blast elim: mark_row_row)+
  show "well_named db \<Longrightarrow> well_named (mark_row now i db)"
    by (auto simp: well_named_def set_update_where)
qed

lemma sup_inv_delivered:
  assumes inv: "sup_inv N s"
  shows "sup_inv N (notice_delivered now i s)"
proof (cases "i \<in> set (su_claimed s)")
  case True
  have w: "worker_inv N (sp_db (su_spawn s))" using inv by (simp add: sup_inv_def spawn_inv_def)
  have "spawn_inv N (on_db (mark_row now i) (su_spawn s))"
    using inv by (intro spawn_inv_db worker_inv_update [OF w])
      (use w in \<open>auto simp: sup_inv_def retires_def finishes_rightly_def worker_inv_def finish_inv_def\<close>)
  moreover have "su_db (notice_delivered now i s) = mark_row now i (su_db s)"
    using True by (simp add: notice_delivered_def su_db_def on_db_def)
  ultimately show ?thesis
    using inv True mark_row_rows
    by (auto simp: sup_inv_def notice_delivered_def each_once_snoc)
qed (simp add: notice_delivered_def inv)

section \<open>Delivery\<close>

text \<open>A row of another session is not touched by what the host does with a notice.\<close>

lemma call_other_row:
  assumes "x \<in> set (wd_sessions (su_db s))" and "ws_id x \<noteq> i"
  shows "x \<in> set (wd_sessions (su_db (run_call now i c s)))"
  using assms by (cases c) (auto simp: notice_delivered_def notice_dropped_def su_db_def on_db_def set_update_where)

lemma calls_other_row:
  assumes "x \<in> set (wd_sessions (su_db s))" and "ws_id x \<noteq> i"
  shows "x \<in> set (wd_sessions (su_db (fold (run_call now i) cs s)))"
  using assms by (induction cs arbitrary: s) (simp_all add: call_other_row)

lemma sup_inv_call: "sup_inv N s \<Longrightarrow> sup_inv N (run_call now i c s)"
  by (cases c) (simp_all add: sup_inv_delivered sup_inv_dropped)

lemma sup_inv_calls: "sup_inv N s \<Longrightarrow> sup_inv N (fold (run_call now i) cs s)"
  by (induction cs arbitrary: s) (simp_all add: sup_inv_call)

lemma session_ids_distinct: "sup_inv N s \<Longrightarrow> distinct (map ws_id (wd_sessions (su_db s)))"
  by (simp add: sup_inv_def spawn_inv_def worker_inv_def sessions_inv_def su_db_def)

lemma same_row:
  "sup_inv N s \<Longrightarrow> x \<in> set (wd_sessions (su_db s)) \<Longrightarrow> y \<in> set (wd_sessions (su_db s)) \<Longrightarrow> ws_id x = ws_id y \<Longrightarrow> x = y"
  using session_ids_distinct [of N s] by (auto simp: distinct_map inj_on_def)

definition waiting :: "worker_session \<Rightarrow> bool" where
  "waiting x \<longleftrightarrow> notifiable x \<and> ws_notified_at x = None"

lemma sup_inv_hand_over:
  assumes inv: "sup_inv N s" and x: "x \<in> set (wd_sessions (su_db s))" "waiting x" "ws_id x \<notin> set (su_claimed s)"
  shows "sup_inv N (hand_over now host (notice_of x m) s)"
proof -
  let ?s1 = "note_event (Handed (notice_of x m)) (s\<lparr>su_claimed := su_claimed s @ [ws_id x]\<rparr>)"
  have id: "nt_id (notice_of x m) = ws_id x" by (simp add: notice_of_def)
  have "Confirmed (ws_id x) \<notin> set (su_log s)"
    using inv x same_row [OF inv x(1)] unfolding sup_inv_def confirmed_row_def waiting_def by metis
  then have "sup_inv N ?s1"
    using inv x by (auto simp: sup_inv_def each_once_snoc id announced_row_def waiting_def su_db_def)
  then have "sup_inv N (fold (run_call now (ws_id x)) cs ?s1)" for cs by (rule sup_inv_calls)
  then show ?thesis by (simp add: hand_over_def Let_def id sup_inv_dropped)
qed

lemma hand_over_other:
  "x \<in> set (wd_sessions (su_db s)) \<Longrightarrow> ws_id x \<noteq> nt_id n \<Longrightarrow> x \<in> set (wd_sessions (su_db (hand_over now host n s)))"
  by (auto simp: hand_over_def Let_def su_db_def [of "s\<lparr>su_claimed := c\<rparr>" for c] notice_dropped_def intro!: calls_other_row)
    (auto simp: su_db_def)

lemma resolve_own:
  assumes "well_named db" and "x \<in> set (wd_sessions db)" and "resolve_worker (ws_id x) db = Inr y"
  shows "y = x"
proof -
  have p: "prefix ''wrk-'' (ws_id x)" using assms(1,2) by (simp add: well_named_def)
  then have "\<not> prefix ''worker:'' (ws_id x)" by (auto simp: prefix_def)
  then have "worker_matches (ws_id x) db = [y]" using assms(3) by (auto simp: resolve_worker_def Let_def split: if_splits list.splits)
  moreover have "x \<in> set (worker_matches (ws_id x) db)" using assms(2) by (simp add: worker_matches_def)
  ultimately show ?thesis by simp
qed

text \<open>The contract of one round of the loop, for the sessions still to come.\<close>

definition round_ok :: "nat \<Rightarrow> worker_session list \<Rightarrow> supervisor \<Rightarrow> bool" where
  "round_ok N xs s \<longleftrightarrow> sup_inv N s \<and> distinct (map ws_id xs) \<and> (\<forall>x \<in> set xs. x \<in> set (wd_sessions (su_db s)) \<and> waiting x)"

lemma round_deliver:
  assumes "round_ok N (x # xs) s"
  shows "round_ok N xs (snd (deliver_one now host x s))"
proof -
  have inv: "sup_inv N s" and x: "x \<in> set (wd_sessions (su_db s))" "waiting x" using assms by (auto simp: round_ok_def)
  have "y = x" if "resolve_worker (ws_id x) (su_db s) = Inr y" for y
    using resolve_own [OF _ x(1) that] inv by (simp add: sup_inv_def)
  moreover have "round_ok N xs (hand_over now host (notice_of x m) s)" if "ws_id x \<notin> set (su_claimed s)" for m
    unfolding round_ok_def
  proof (intro conjI ballI)
    show "sup_inv N (hand_over now host (notice_of x m) s)" by (rule sup_inv_hand_over [OF inv x that])
    show "distinct (map ws_id xs)" using assms by (simp add: round_ok_def)
    fix y assume y: "y \<in> set xs"
    have "ws_id y \<noteq> ws_id x" using assms imageI [OF y, of ws_id] by (auto simp: round_ok_def)
    then show "y \<in> set (wd_sessions (su_db (hand_over now host (notice_of x m) s)))"
      using assms y by (intro hand_over_other) (simp_all add: round_ok_def notice_of_def)
    show "waiting y" using assms y by (simp add: round_ok_def)
  qed
  moreover have "round_ok N xs s" using assms by (auto simp: round_ok_def)
  ultimately show ?thesis
    by (cases "resolve_worker (ws_id x) (su_db s)") (auto simp: deliver_one_def action_simps mail_query_def split: sum.split)
qed

lemma round_loop: "round_ok N xs s \<Longrightarrow> sup_inv N (snd (for_each (deliver_one now host) xs s))"
proof (induction xs arbitrary: s)
  case (Cons x xs)
  obtain r s1 where 1: "deliver_one now host x s = (r, s1)" by fastforce
  then have "round_ok N xs s1" using round_deliver [OF Cons.prems, of now host] by simp
  then show ?case using Cons.IH [of s1] 1 by (cases r) (auto simp: action_simps round_ok_def)
qed (simp add: action_simps round_ok_def)

lemma pending_round: "sup_inv N s \<Longrightarrow> round_ok N (pending_sessions (su_db s)) s"
  using session_ids_distinct [of N s] by (simp add: round_ok_def pending_sessions_def waiting_def distinct_map_filter)

lemma sup_inv_deliver: "sup_inv N s \<Longrightarrow> sup_inv N (snd (deliverPending now host s))"
  using round_loop [OF pending_round] by (simp add: deliverPending_def action_simps)

section \<open>Every step keeps the invariant\<close>

lemma pass_frames [simp]:
  "su_log (kickCleanup s) = su_log s" "su_claimed (kickCleanup s) = su_claimed s" "su_spawn (kickCleanup s) = su_spawn s"
  "su_log (cleanup_loop g s) = su_log s" "su_claimed (cleanup_loop g s) = su_claimed s" "su_spawn (cleanup_loop g s) = su_spawn s"
  "su_log (reconcile_loop g s) = su_log s" "su_claimed (reconcile_loop g s) = su_claimed s" "su_spawn (reconcile_loop g s) = su_spawn s"
  "su_log (reconcile s) = su_log s" "su_claimed (reconcile s) = su_claimed s" "su_spawn (reconcile s) = su_spawn s"
  "su_log (reconcile_rejected s) = su_log s" "su_claimed (reconcile_rejected s) = su_claimed s" "su_spawn (reconcile_rejected s) = su_spawn s"
  "su_log (cleanup_rejected s) = su_log s" "su_claimed (cleanup_rejected s) = su_claimed s" "su_spawn (cleanup_rejected s) = su_spawn s"
  "su_log (cleanup_resolved s) = su_log s" "su_claimed (cleanup_resolved s) = su_claimed s" "su_spawn (cleanup_resolved s) = su_spawn s"
  by (simp_all add: kickCleanup_def cleanup_loop_def reconcile_loop_def reconcile_def reconcile_rejected_def cleanup_rejected_def
      cleanup_resolved_def Let_def split: option.split)

lemma sup_inv_reconciled:
  assumes inv: "sup_inv N s"
  shows "sup_inv N (reconcile_resolved now host s)"
proof -
  obtain r s1 where 1: "deliverPending now host s = (r, s1)" by fastforce
  then have s1: "sup_inv N s1" using sup_inv_deliver [OF inv, of now host] by simp
  have "sup_inv N (reconcile_rejected s1)" "sup_inv N (reconcile_loop g (kickCleanup s1))" "sup_inv N ((kickCleanup s1)\<lparr>su_reconcile := None\<rparr>)"
    "sup_inv N (s\<lparr>su_reconcile := None\<rparr>)" for g
    by (rule sup_inv_frame [OF s1] sup_inv_frame [OF inv]; simp)+
  then show ?thesis using 1 inv by (auto simp: reconcile_resolved_def Let_def split: option.split sum.split)
qed

lemma sup_inv_activate:
  assumes inv: "sup_inv N s"
  shows "sup_inv N (snd (activate now host polls s))"
proof -
  obtain r s1 where 1: "deliverPending now host (s\<lparr>su_active := True, su_listening := True\<rparr>) = (r, s1)" by fastforce
  have "sup_inv N (s\<lparr>su_active := True, su_listening := True\<rparr>)" by (rule sup_inv_frame [OF inv]) simp_all
  then have s1: "sup_inv N s1" using sup_inv_deliver 1 by (metis snd_conv)
  have "sup_inv N (s1\<lparr>su_active := False, su_listening := False\<rparr>)" "sup_inv N ((reconcile s1)\<lparr>su_polling := polls\<rparr>)"
    by (rule sup_inv_frame [OF s1]; simp)+
  then show ?thesis using 1 inv by (auto simp: activate_def action_simps split: sum.split)
qed

lemma sup_inv_stopped:
  assumes inv: "sup_inv N s" and sp: "spawn_step cf sha shab (su_spawn s) sp" "cf_max cf = N"
    and named: "map ws_id (wd_sessions (sp_db sp)) = map ws_id (wd_sessions (su_db s))"
    and s': "su_spawn s' = sp" "su_claimed s' = []" "su_log s' = su_log s @ [Stopped]"
  shows "sup_inv N s'"
proof -
  have sinv: "spawn_inv N (su_spawn s)" using inv by (simp add: sup_inv_def)
  have "prefix ''wrk-'' i" if "i \<in> set (map ws_id (wd_sessions (su_db s)))" for i
    using inv that by (auto simp: sup_inv_def well_named_def)
  then have "well_named (sp_db sp)" unfolding named [symmetric] by (auto simp: well_named_def)
  moreover have "spawn_inv N sp" using spawn_inv_step [OF sp(1)] sinv sp(2) by simp
  moreover have "keeps_terminal (wd_sessions (su_db s)) (wd_sessions (sp_db sp))"
    using keeps_terminal_step [OF sp(1) sinv] by (simp add: su_db_def)
  ultimately show ?thesis
    using inv s' rows_kept_terminal by (auto simp: sup_inv_def each_once_snoc su_db_def)
qed

lemma sup_inv_step:
  assumes "sup_step cf sha shab s s'" and inv: "sup_inv (cf_max cf) s"
  shows "sup_inv (cf_max cf) s'"
  using assms(1)
proof cases
  case (broker sp)
  have sinv: "spawn_inv (cf_max cf) (su_spawn s)" using inv by (simp add: sup_inv_def)
  show ?thesis
    using broker spawn_inv_step [OF broker(2) sinv] keeps_terminal_step [OF broker(2) sinv]
    by (intro sup_inv_spawn [OF inv]) (simp_all add: su_db_def)
next
  case (finish now host)
  then show ?thesis using inv sup_inv_deliver [OF inv, of now host] sup_inv_frame by (auto simp: on_finish_def)
next
  case (dispose now)
  have "map ws_id (wd_sessions (sp_db (revokeProvisioning now (su_spawn s)))) = map ws_id (wd_sessions (su_db s))"
    by (simp add: revokeProvisioning_def on_db_def su_db_def map_update_where revoke_start_def)
  then show ?thesis
    using dispose inv
    by (cases "su_disposed s") (auto simp: dispose_def intro!: sup_inv_stopped [OF inv spawn_step.dispose refl])
next
  case (restart w)
  show ?thesis
    unfolding restart by (rule sup_inv_stopped [OF inv spawn_step.restart refl]) (simp_all add: start_supervisor_def su_db_def)
qed (use inv in \<open>auto intro: sup_inv_reconciled sup_inv_activate sup_inv_delivered sup_inv_dropped sup_inv_frame [OF inv]\<close>)

interpretation supervision: step_system "\<lambda>s. \<exists>w. s = first_supervisor w" "sup_step cf sha shab" "sup_inv (cf_max cf)" for cf sha shab
proof
  show "sup_inv (cf_max cf) s" if "\<exists>w. s = first_supervisor w" for s
  proof -
    have "spawn_inv (cf_max cf) fresh_spawner" using worker.inv_init [of fresh_spawner] by simp
    then show ?thesis using that
      by (auto simp: sup_inv_def first_supervisor_def start_supervisor_def su_db_def well_named_def each_once_def fresh_spawner_def empty_worker_db_def)
  qed
  show "sup_inv (cf_max cf) s \<Longrightarrow> sup_step cf sha shab s s' \<Longrightarrow> sup_inv (cf_max cf) s'" for s s'
    by (rule sup_inv_step)
qed

section \<open>Notices are handed out until they are confirmed\<close>

lemma still_outstanding:
  "i \<in> outstanding xs \<Longrightarrow> Returned i \<notin> set zs \<Longrightarrow> Confirmed i \<notin> set zs \<Longrightarrow> Stopped \<notin> set zs \<Longrightarrow> i \<in> outstanding (xs @ zs)"
proof (induction zs rule: rev_induct)
  case (snoc z zs)
  then have "i \<in> outstanding (xs @ zs)" by simp
  then have "i \<in> open_step z (outstanding (xs @ zs))" using snoc.prems by (cases z) auto
  then show ?case by (simp flip: append_assoc)
qed simp

text \<open>
  C14. The host hears of the end of a worker until it confirms it, and not after. In every history of a
  supervisor, over any number of restarts and whatever the host does with its notices: a notice is never
  handed out for a session whose end the host has confirmed before, and between two notices of one session
  the first was given back (dropped, or its delivery threw) or the supervisor stopped.
\<close>

theorem notice_until_confirmed:
  assumes "(sup_step cf sha shab)\<^sup>*\<^sup>* (first_supervisor w) s" and log: "su_log s = before @ Handed n # after"
  shows "Confirmed (nt_id n) \<notin> set before \<and>
    (\<forall>ys m zs. before = ys @ Handed m # zs \<and> nt_id m = nt_id n \<longrightarrow> Returned (nt_id n) \<in> set zs \<or> Stopped \<in> set zs)"
proof -
  have "sup_inv (cf_max cf) s" using supervision.inv_reachable [OF _ assms(1)] by blast
  then have once: "nt_id n \<notin> outstanding before" "Confirmed (nt_id n) \<notin> set before"
    using log by (auto simp: sup_inv_def each_once_def)
  have "Returned (nt_id n) \<in> set zs \<or> Stopped \<in> set zs" if "before = ys @ Handed m # zs" "nt_id m = nt_id n" for ys m zs
    using still_outstanding [of "nt_id n" "ys @ [Handed m]" zs] once that by auto
  then show ?thesis using once(2) by blast
qed

text \<open>A throw of the host is one more call of \<open>dropped\<close>, and calls only add to the log.\<close>

lemma hand_over_calls:
  "hand_over now host n s = fold (run_call now (nt_id n)) (fst (host n) @ (if snd (host n) then [CallDropped] else []))
     (note_event (Handed n) (s\<lparr>su_claimed := su_claimed s @ [nt_id n]\<rparr>))"
  by (simp add: hand_over_def Let_def)

lemma calls_log: "\<exists>rest. su_log (fold (run_call now i) cs s) = su_log s @ rest"
proof (induction cs arbitrary: s)
  case (Cons c cs)
  have "\<exists>rest. su_log (run_call now i c s) = su_log s @ rest" by (cases c) (auto simp: notice_delivered_def notice_dropped_def)
  then show ?case using Cons [of "run_call now i c s"] by auto
qed simp

lemma hand_over_log: "\<exists>rest. su_log (hand_over now host n s) = su_log s @ Handed n # rest"
  using calls_log [of now "nt_id n" "fst (host n) @ (if snd (host n) then [CallDropped] else [])"
      "note_event (Handed n) (s\<lparr>su_claimed := su_claimed s @ [nt_id n]\<rparr>)"]
  unfolding hand_over_calls by auto

lemma deliver_one_claims:
  assumes ok: "round_ok N (x # xs) s"
  shows "set (su_claimed (snd (deliver_one now host x s))) \<subseteq> insert (ws_id x) (set (su_claimed s))"
proof -
  have "set (su_claimed (fold (run_call now i) cs t)) \<subseteq> set (su_claimed t)" for i cs t
  proof (induction cs arbitrary: t)
    case (Cons c cs)
    have "set (su_claimed (run_call now i c t)) \<subseteq> set (su_claimed t)" by (cases c) (auto simp: notice_delivered_def notice_dropped_def)
    then show ?case using Cons [of "run_call now i c t"] by simp
  qed simp
  then have "set (su_claimed (hand_over now host n s)) \<subseteq> insert (nt_id n) (set (su_claimed s))" for n
    unfolding hand_over_calls by (rule order_trans) (auto simp: note_event_def)
  from this [of "notice_of x m" for m] have "set (su_claimed (hand_over now host (notice_of x m) s)) \<subseteq> insert (ws_id x) (set (su_claimed s))" for m
    by (simp add: notice_of_def)
  moreover have "y = x" if "resolve_worker (ws_id x) (su_db s) = Inr y" for y
    using resolve_own [OF _ _ that] ok by (simp add: round_ok_def sup_inv_def)
  ultimately show ?thesis
    by (cases "resolve_worker (ws_id x) (su_db s)") (auto simp: deliver_one_def action_simps mail_query_def split: sum.split)
qed

text \<open>What one round has done for the session it looks at.\<close>

definition announced_in :: "worker_session \<Rightarrow> mailbox_message list \<Rightarrow> notice_event list \<Rightarrow> bool" where
  "announced_in x ms evs \<longleftrightarrow> (\<exists>n. Handed n \<in> set evs \<and> nt_id n = ws_id x \<and> nt_status n = ws_status x \<and>
     nt_finish n = map_option mm_id (find (is_finish (ws_id x)) ms))"

lemma finishFromWorker_result:
  "finishFromWorker i db = (Inr m, db') \<Longrightarrow> m = find (is_finish i) (wd_messages db)"
  by (auto simp: finishFromWorker_def dispatcherSession_def action_simps finish_message_def binding_of_def session_by_id_def
      split: option.splits if_splits dest: find_SomeD)

lemma deliver_one_announces:
  assumes ok: "round_ok N (x # xs) s" and run: "deliver_one now host x s = (r, s')"
  shows "(case r of Inl e \<Rightarrow> (\<exists>f. e = SpawnRefused f) \<or> (\<exists>f. e = MailRefused f)
      | Inr _ \<Rightarrow> ws_id x \<in> set (su_claimed s) \<or> announced_in x (wd_messages (su_db s)) (drop (length (su_log s)) (su_log s'))) \<and>
    (\<exists>rest. su_log s' = su_log s @ rest) \<and> wd_messages (su_db s') = wd_messages (su_db s)"
proof (cases "ws_id x \<in> set (su_claimed s)")
  case True
  then show ?thesis using run by (auto simp: deliver_one_def action_simps)
next
  case False
  have row: "y = x" if "resolve_worker (ws_id x) (su_db s) = Inr y" for y
    using resolve_own [OF _ _ that] ok by (simp add: round_ok_def sup_inv_def)
  have msgs: "wd_messages (su_db (fold (run_call now i) cs t)) = wd_messages (su_db t)" for i cs t
  proof (induction cs arbitrary: t)
    case (Cons c cs)
    then show ?case by (cases c) (simp_all add: notice_delivered_def notice_dropped_def su_db_def on_db_def)
  qed simp
  show ?thesis
  proof (cases "resolve_worker (ws_id x) (su_db s)")
    case (Inl e)
    then show ?thesis using run False by (auto simp: deliver_one_def action_simps)
  next
    case (Inr y)
    obtain q db' where q: "finishFromWorker (ws_id x) (su_db s) = (q, db')" by fastforce
    show ?thesis
    proof (cases q)
      case (Inl e)
      then show ?thesis using run False Inr row [OF Inr] q by (auto simp: deliver_one_def action_simps mail_query_def)
    next
      case m: (Inr m)
      let ?n = "notice_of x m"
      have s': "r = Inr ()" "s' = hand_over now host ?n s"
        using run False Inr row [OF Inr] q m by (auto simp: deliver_one_def action_simps mail_query_def)
      obtain rest where "su_log s' = su_log s @ Handed ?n # rest" using hand_over_log s'(2) by blast
      moreover have "wd_messages (su_db s') = wd_messages (su_db s)"
        unfolding s'(2) hand_over_calls msgs by (simp add: su_db_def)
      moreover have "announced_in x (wd_messages (su_db s)) (Handed ?n # rest')" for rest'
        unfolding announced_in_def
        using finishFromWorker_result q m by (intro exI [of _ ?n]) (simp add: notice_of_def)
      ultimately show ?thesis using s'(1) by simp
    qed
  qed
qed

lemma announced_in_mono: "announced_in x ms evs \<Longrightarrow> set evs \<subseteq> set evs' \<Longrightarrow> announced_in x ms evs'"
  unfolding announced_in_def by blast

lemma loop_announces:
  assumes "round_ok N xs s" and "for_each (deliver_one now host) xs s = (r, s')"
  shows "case r of Inl e \<Rightarrow> (\<exists>f. e = SpawnRefused f) \<or> (\<exists>f. e = MailRefused f)
      | Inr _ \<Rightarrow> (\<exists>rest. su_log s' = su_log s @ rest \<and>
          (\<forall>x \<in> set xs. ws_id x \<in> set (su_claimed s) \<or> announced_in x (wd_messages (su_db s)) rest))"
  using assms
proof (induction xs arbitrary: s)
  case (Cons x xs)
  obtain q s1 where 1: "deliver_one now host x s = (q, s1)" by fastforce
  note one = deliver_one_announces [OF Cons.prems(1) 1] and claims = deliver_one_claims [OF Cons.prems(1), of now host]
  show ?case
  proof (cases q)
    case (Inl e)
    then show ?thesis using one 1 Cons.prems(2) by (auto simp: action_simps)
  next
    case (Inr u)
    have ok1: "round_ok N xs s1" using round_deliver [OF Cons.prems(1), of now host] 1 by simp
    have run1: "for_each (deliver_one now host) xs s1 = (r, s')" using Cons.prems(2) 1 Inr by (simp add: action_simps)
    obtain r1 where r1: "su_log s1 = su_log s @ r1" "ws_id x \<in> set (su_claimed s) \<or> announced_in x (wd_messages (su_db s)) r1"
      "wd_messages (su_db s1) = wd_messages (su_db s)" using one Inr by auto
    have sub: "set (su_claimed s1) \<subseteq> insert (ws_id x) (set (su_claimed s))" using claims 1 by simp
    have fresh: "ws_id y \<noteq> ws_id x" if "y \<in> set xs" for y
      using Cons.prems(1) imageI [OF that, of ws_id] by (auto simp: round_ok_def)
    show ?thesis
    proof (cases r)
      case (Inl e)
      then show ?thesis using Cons.IH [OF ok1 run1] by simp
    next
      case (Inr v)
      then obtain r2 where r2: "su_log s' = su_log s1 @ r2"
        "\<forall>y \<in> set xs. ws_id y \<in> set (su_claimed s1) \<or> announced_in y (wd_messages (su_db s1)) r2"
        using Cons.IH [OF ok1 run1] by auto
      have "ws_id y \<in> set (su_claimed s) \<or> announced_in y (wd_messages (su_db s)) (r1 @ r2)" if "y \<in> set (x # xs)" for y
        using that r1 r2(2) sub fresh announced_in_mono [of y "wd_messages (su_db s)" r2 "r1 @ r2"]
          announced_in_mono [of x "wd_messages (su_db s)" r1 "r1 @ r2"] by auto
      then show ?thesis using r1(1) r2(1) Inr by auto
    qed
  qed
qed (auto simp: action_simps)

text \<open>
  C15. No end of a worker is forgotten. Whenever an active supervisor looks for sessions to announce, every
  finished or failed session whose notice is not confirmed either has its notice outstanding already or is
  handed to the host in this very call, with its status and the id of its finish message; the call can only
  be cut short by a session that cannot be looked up.
\<close>

theorem no_completion_forgotten:
  assumes "(sup_step cf sha shab)\<^sup>*\<^sup>* (first_supervisor w) s" and "su_active s" and "\<not> su_disposed s"
    and "deliverPending now host s = (r, s')"
  shows "case r of Inl e \<Rightarrow> (\<exists>f. e = SpawnRefused f) \<or> (\<exists>f. e = MailRefused f)
      | Inr _ \<Rightarrow> (\<exists>handed. su_log s' = su_log s @ handed \<and>
          (\<forall>x \<in> set (wd_sessions (su_db s)). ws_status x \<in> {Finished, Failed} \<and> ws_notified_at x = None \<longrightarrow>
             ws_id x \<in> set (su_claimed s) \<or>
             (\<exists>n. Handed n \<in> set handed \<and> nt_id n = ws_id x \<and> nt_status n = ws_status x \<and>
                nt_finish n = map_option mm_id (find (is_finish (ws_id x)) (wd_messages (su_db s))))))"
proof -
  have inv: "sup_inv (cf_max cf) s" using supervision.inv_reachable [OF _ assms(1)] by blast
  have "for_each (deliver_one now host) (pending_sessions (su_db s)) s = (r, s')"
    using assms(2-4) by (simp add: deliverPending_def action_simps)
  from loop_announces [OF pending_round [OF inv] this] show ?thesis
    by (cases r) (auto simp: pending_sessions_def notifiable_def announced_in_def)
qed

section \<open>A sample history\<close>

definition failed_spawner :: spawner where
  "failed_spawner = on_db (recover_after 4000 ''wrk-aaaaaaaa'' (Some PodMissing)) started"

definition failed_row :: worker_session where
  "failed_row = set_failed 4000 ''worker Pod is missing'' demo_session"

definition failed_supervisor :: supervisor where
  "failed_supervisor = (first_supervisor (quiet_world plan_db))\<lparr>su_spawn := failed_spawner\<rparr>"

definition quiet_host :: delivery where
  "quiet_host = (\<lambda>_. ([], False))"

definition told_supervisor :: supervisor where
  "told_supervisor = snd (activate 5000 quiet_host False failed_supervisor)"

lemma failed_rows: "sp_db failed_spawner = empty_worker_db\<lparr>wd_sessions := [failed_row]\<rparr>"
proof -
  have "ws_id demo_session = ''wrk-aaaaaaaa''" "is_active (ws_status demo_session)"
    by (simp_all add: demo_session_def new_session_def is_active_def)
  then show ?thesis
    by (simp add: failed_spawner_def started_eq on_db_def recover_after_def hasDurableFinish_def finish_message_def empty_worker_db_def
        update_session_def update_where_def failed_row_def pod_error_def)
qed

lemma failed_row_fields: "ws_id failed_row = ''wrk-aaaaaaaa''" "ws_status failed_row = Failed" "ws_notified_at failed_row = None"
  "known_runtime (ws_runtime failed_row)"
  by (simp_all add: failed_row_def set_failed_def demo_session_def new_session_def known_runtime_def)

lemma failed_reachable: "(sup_step demo_config zero_sha (\<lambda>_. []))\<^sup>*\<^sup>* (first_supervisor (quiet_world plan_db)) failed_supervisor"
proof -
  let ?S = "sup_step demo_config zero_sha (\<lambda>_. [])" and ?s0 = "first_supervisor (quiet_world plan_db)"
  have named: "well_named (sp_db started)" "well_named (sp_db failed_spawner)"
    by (simp_all add: well_named_def started_eq failed_rows failed_row_fields demo_session_def new_session_def)
  have "spawn_step demo_config zero_sha (\<lambda>_. []) fresh_spawner started"
    unfolding started_def by (rule spawn_step.start)
  then have 1: "?S ?s0 (?s0\<lparr>su_spawn := started\<rparr>)"
    using named(1) by (intro sup_step.broker) (simp_all add: first_supervisor_def start_supervisor_def)
  have "spawn_step demo_config zero_sha (\<lambda>_. []) started failed_spawner"
    unfolding failed_spawner_def by (rule spawn_step.recover_inspected)
  then have "?S (?s0\<lparr>su_spawn := started\<rparr>) ((?s0\<lparr>su_spawn := started\<rparr>)\<lparr>su_spawn := failed_spawner\<rparr>)"
    using named(2) by (intro sup_step.broker) simp_all
  then show ?thesis using 1 by (simp add: failed_supervisor_def)
qed

lemma failed_resolves: "resolve_worker ''wrk-aaaaaaaa'' (sp_db failed_spawner) = Inr failed_row"
  by (simp add: resolve_worker_def worker_matches_def failed_rows failed_row_fields trim_eq_Nil)
    (simp add: is_space_def code_unit_def)

lemma failed_delivers:
  "deliverPending 5000 quiet_host (failed_supervisor\<lparr>su_active := True, su_listening := l\<rparr>) =
    (Inr (), hand_over 5000 quiet_host (notice_of failed_row None) (failed_supervisor\<lparr>su_active := True, su_listening := l\<rparr>))"
proof -
  have "finishFromWorker ''wrk-aaaaaaaa'' (sp_db failed_spawner) = (Inr None, sp_db failed_spawner)"
    by (simp add: finishFromWorker_def dispatcherSession_def action_simps session_by_id_def failed_rows failed_row_fields finish_message_def
        empty_worker_db_def)
  then show ?thesis
    by (simp add: deliverPending_def action_simps failed_supervisor_def first_supervisor_def start_supervisor_def pending_sessions_def
        su_db_def failed_rows notifiable_def failed_row_fields deliver_one_def mail_query_def)
      (simp add: failed_resolves [unfolded failed_rows] action_simps failed_row_fields)
qed

lemma told_log: "su_log told_supervisor = [] @ Handed (notice_of failed_row None) # []"
proof -
  have "activate 5000 quiet_host False failed_supervisor = (Inr (),
      (reconcile (hand_over 5000 quiet_host (notice_of failed_row None) (failed_supervisor\<lparr>su_active := True, su_listening := True\<rparr>)))\<lparr>su_polling := False\<rparr>)"
    using failed_delivers [of True]
    by (simp add: activate_def action_simps failed_supervisor_def first_supervisor_def start_supervisor_def)
  then show ?thesis
    by (simp add: told_supervisor_def hand_over_def quiet_host_def)
      (simp add: failed_supervisor_def first_supervisor_def start_supervisor_def)
qed

theorem notice_until_confirmed_witness:
  "su_log told_supervisor = [Handed (notice_of failed_row None)] \<and>
   (sup_step demo_config zero_sha (\<lambda>_. []))\<^sup>*\<^sup>* (first_supervisor (quiet_world plan_db)) told_supervisor \<and>
   Confirmed ''wrk-aaaaaaaa'' \<notin> set []"
proof -
  have "sup_step demo_config zero_sha (\<lambda>_. []) failed_supervisor told_supervisor"
    unfolding told_supervisor_def by (rule sup_step.activate)
  with failed_reachable have reach: "(sup_step demo_config zero_sha (\<lambda>_. []))\<^sup>*\<^sup>* (first_supervisor (quiet_world plan_db)) told_supervisor"
    by (rule rtranclp.rtrancl_into_rtrancl)
  show ?thesis using notice_until_confirmed [OF reach told_log] told_log reach by (simp add: notice_of_def failed_row_fields)
qed

theorem no_completion_forgotten_witness:
  "\<exists>s r s'. (sup_step demo_config zero_sha (\<lambda>_. []))\<^sup>*\<^sup>* (first_supervisor (quiet_world plan_db)) s \<and> su_active s \<and> \<not> su_disposed s \<and>
     deliverPending 6000 quiet_host s = (r, s') \<and> (\<forall>e. r = Inl e \<longrightarrow> (\<exists>f. e = SpawnRefused f) \<or> (\<exists>f. e = MailRefused f))"
proof -
  have "sup_step demo_config zero_sha (\<lambda>_. []) failed_supervisor told_supervisor"
    unfolding told_supervisor_def by (rule sup_step.activate)
  with failed_reachable have reach: "(sup_step demo_config zero_sha (\<lambda>_. []))\<^sup>*\<^sup>* (first_supervisor (quiet_world plan_db)) told_supervisor"
    by (rule rtranclp.rtrancl_into_rtrancl)
  have flags: "su_active told_supervisor" "\<not> su_disposed told_supervisor"
    using failed_delivers [of True]
    by (simp_all add: told_supervisor_def activate_def action_simps failed_supervisor_def first_supervisor_def start_supervisor_def
        hand_over_def quiet_host_def reconcile_def reconcile_loop_def Let_def)
  obtain r s' where run: "deliverPending 6000 quiet_host told_supervisor = (r, s')" by fastforce
  show ?thesis
    using no_completion_forgotten [OF reach flags run] reach flags run by (cases r) auto
qed

section \<open>Reports\<close>

lemma utf8_char_cases:
  obtains (one) n where "utf8_char c = [n]" "n < 128"
    | (two) n where "utf8_char c = [192 + n div 64, 128 + n mod 64]" "n < 256"
proof (cases "code_unit c < 128")
  case False
  have "code_unit c < 256" by (simp add: code_unit_def)
  with False show ?thesis by (intro two [of "code_unit c"]) (simp_all add: utf8_char_def Let_def)
qed (use one in \<open>simp add: utf8_char_def\<close>)

lemma first_byte: "utf8_char c \<noteq> []" "utf8_char c ! 0 div 64 \<noteq> 2"
  by (cases c rule: utf8_char_cases; simp add: div_add1_eq)+

lemma byte_position:
  "e < length (utf8 s) \<Longrightarrow> \<exists>k < length s. length (utf8 (take k s)) \<le> e \<and> e < length (utf8 (take k s)) + length (utf8_char (s ! k))"
proof (induction s arbitrary: e)
  case (Cons c s)
  show ?case
  proof (cases "e < length (utf8_char c)")
    case True
    then show ?thesis by (intro exI [of _ 0]) simp
  next
    case False
    then have "e - length (utf8_char c) < length (utf8 s)" using Cons.prems by simp
    from Cons.IH [OF this] obtain k where "k < length s" "length (utf8 (take k s)) \<le> e - length (utf8_char c)"
      "e - length (utf8_char c) < length (utf8 (take k s)) + length (utf8_char (s ! k))" by blast
    then show ?thesis using False by (intro exI [of _ "Suc k"] conjI; simp; linarith)
  qed
qed simp

lemma byte_at:
  assumes "k < length s" and "j < length (utf8_char (s ! k))"
  shows "utf8 s ! (length (utf8 (take k s)) + j) = utf8_char (s ! k) ! j"
proof -
  have "utf8 s = utf8 (take k s) @ utf8_char (s ! k) @ utf8 (drop (Suc k) s)"
    using id_take_nth_drop [OF assms(1)] by (metis utf8_simps(2,3))
  then show ?thesis using assms(2) by (simp add: nth_append)
qed

text \<open>Going back from any position ends at the start of the character the position lies in.\<close>

lemma back_up_boundary:
  assumes "e < length (utf8 s)"
  shows "\<exists>k. take (back_up (utf8 s) e) (utf8 s) = utf8 (take k s) \<and> back_up (utf8 s) e \<le> e \<and> e \<le> back_up (utf8 s) e + 1"
proof -
  obtain k where k: "k < length s" "length (utf8 (take k s)) \<le> e" "e < length (utf8 (take k s)) + length (utf8_char (s ! k))"
    using byte_position [OF assms] by blast
  let ?p = "length (utf8 (take k s))"
  have start: "utf8 s ! ?p div 64 \<noteq> 2" using byte_at [OF k(1), of 0] first_byte [of "s ! k"] by simp
  have p: "back_up (utf8 s) ?p = ?p" using start by (cases ?p) auto
  have cut: "take ?p (utf8 s) = utf8 (take k s)"
    using utf8_simps(3) [of "take k s" "drop k s"] by simp
  show ?thesis
  proof (cases "s ! k" rule: utf8_char_cases)
    case (one n)
    then have "e = ?p" using k by simp
    then show ?thesis using p cut by (auto intro!: exI [of _ k])
  next
    case (two n)
    then consider "e = ?p" | "e = Suc ?p" using k by fastforce
    then show ?thesis
    proof cases
      case 2
      have "utf8 s ! Suc ?p div 64 = 2" using byte_at [OF k(1), of 1] two by simp
      then show ?thesis using 2 p cut assms by (intro exI [of _ k]) simp
    qed (use p cut in \<open>auto intro!: exI [of _ k]\<close>)
  qed
qed

lemma receipt_marker_length: "length receipt_marker = 36"
  by (simp add: receipt_marker_def utf8_char_def code_unit_def)



text \<open>The messages of a report: at most a hundred, and the finish among them if there is one.\<close>

lemma mail_reads:
  "pullFromWorker sid l db = (r, db') \<Longrightarrow> db' = db" "finishFromWorker sid db = (q, db') \<Longrightarrow> db' = db"
  by (auto simp: pullFromWorker_def finishFromWorker_def dispatcherSession_def pending_def action_simps split: option.splits if_splits sum.splits)

lemma report_shows_finish:
  assumes "publicMessages sid s = (Inr ms, s')"
  shows "length ms \<le> 100 \<and> (\<forall>f. find (is_finish sid) (wd_messages (su_db s)) = Some f \<longrightarrow> mm_id f \<in> mm_id ` set ms)"
proof -
  obtain r db where r: "pullFromWorker sid (Num 100) (su_db s) = (r, db)" by fastforce
  obtain q db' where q: "finishFromWorker sid (su_db s) = (q, db')" by fastforce
  obtain xs where xs: "r = Inr xs" using assms r by (cases r) (auto simp: publicMessages_def action_simps on_mailbox_def)
  have [simp]: "on_spawn (\<lambda>sp. sp\<lparr>sp_db := su_db s\<rparr>) s = s" by (simp add: on_spawn_def su_db_def)
  obtain f where f: "q = Inr f" using assms r q xs mail_reads(1) [OF r]
    by (cases q) (auto simp: publicMessages_def action_simps on_mailbox_def)
  have len: "length xs \<le> 100"
    using r xs by (auto simp: pullFromWorker_def dispatcherSession_def pending_def action_simps boundedLimit_def
        split: option.splits if_splits)
  have "f = find (is_finish sid) (wd_messages (su_db s))" using finishFromWorker_result q f by simp
  moreover have "ms = (case f of None \<Rightarrow> xs | Some f \<Rightarrow> if list_ex (\<lambda>m. mm_id m = mm_id f) xs then xs
      else (if length xs \<ge> 100 then butlast xs else xs) @ [f])"
    using assms r q xs f mail_reads(1) [OF r] by (auto simp: publicMessages_def action_simps on_mailbox_def)
  ultimately show ?thesis using len by (auto simp: list_ex_iff split: option.splits) (metis imageI)
qed

end
