(* ===== verification/Worker_Requests.thy ===== *)
theory Worker_Requests
  imports Worker_Custody Worker_Mind Worker_Journal
begin

text \<open>
  The rest of what a worker can ask of its broker: mailbox requests (\<open>src/src/worker/mailbox-request.ts\<close>),
  workspace requests (\<open>src/src/worker/workspace-request.ts\<close>) and completions
  (\<open>src/src/worker/completion.ts\<close>).

  A request is a parsed JSON value, \<open>None\<close> when it is undefined. \<open>JSON.stringify\<close> of a number is the
  argument \<open>num\<close>; only the length of the text matters. A completion is cut at the wait for the model;
  whether a client can be created for a model ref is \<open>cf_ref_error\<close> of the configuration.
\<close>

section \<open>Mailbox requests\<close>

datatype mail_request_error = BadMailRequest string | MailFailed mailbox_error

datatype mail_reply =
    Pulled session_binding "mailbox_message list"
  | AckCount nat
  | Posted mailbox_message

definition plain_object :: "json option \<Rightarrow> string + (string \<times> json) list" where
  "plain_object v = (case v of Some (JObj fs) \<Rightarrow> Inr fs | _ \<Rightarrow> Inl ''request must be an object'')"

definition known_fields :: "(string \<times> json) list \<Rightarrow> string list \<Rightarrow> string + unit" where
  "known_fields fs known = (case filter (\<lambda>f. fst f \<notin> set known) fs of
     [] \<Rightarrow> Inr () | f # _ \<Rightarrow> Inl (''unknown request field '' @ json_quote (fst f)))"

definition pull_limit :: "json option \<Rightarrow> string + jsnum option" where
  "pull_limit v = (case v of
     None \<Rightarrow> Inr None
   | Some (JNum n) \<Rightarrow> if integral n \<and> 1 \<le> n \<and> n \<le> 100 then Inr (Some (Num n)) else Inl ''limit must be an integer from 1 to 100''
   | Some _ \<Rightarrow> Inl ''limit must be an integer from 1 to 100'')"

definition ack_ids :: "json option \<Rightarrow> string + jsnum list" where
  "ack_ids v = (case v of
     Some (JArr vs) \<Rightarrow>
       if length vs < 1 \<or> length vs > 100 \<or> \<not> list_all (\<lambda>x. case x of JNum n \<Rightarrow> isSafeInteger (Num n) \<and> 0 < n | _ \<Rightarrow> False) vs
       then Inl ''ids must contain 1 to 100 positive safe integers''
       else Inr (map (\<lambda>x. case x of JNum n \<Rightarrow> Num n | _ \<Rightarrow> Num 0) vs)
   | _ \<Rightarrow> Inl ''ids must contain 1 to 100 positive safe integers'')"

definition on_mail_request :: "'a mailbox \<Rightarrow> (mail_request_error, worker_db, 'a) action" where
  "on_mail_request m = (\<lambda>db. map_prod (map_sum MailFailed id) id (m db))"

definition bad_mail :: "(string + 'a) \<Rightarrow> mail_request_error + 'a" where
  "bad_mail r = map_sum BadMailRequest id r"

definition dispatchWorkerMailboxRequest ::
  "(string \<Rightarrow> string) \<Rightarrow> time \<Rightarrow> string \<Rightarrow> json option \<Rightarrow> (mail_request_error, worker_db, mail_reply) action" where
  "dispatchWorkerMailboxRequest sha now tok v =
     andThen (lift (bad_mail (plain_object v))) (\<lambda>fs.
     if map_of fs ''protocol'' \<noteq> Some (JNum 1) then throw (BadMailRequest ''protocol must equal 1'')
     else if map_of fs ''operation'' = Some (JStr ''pull'') then
       andThen (lift (bad_mail (known_fields fs [''protocol'', ''operation'', ''limit'']))) (\<lambda>_.
       andThen (lift (bad_mail (pull_limit (map_of fs ''limit'')))) (\<lambda>l.
       andThen (on_mail_request (pullForWorker sha tok (case l of None \<Rightarrow> Num 32 | Some n \<Rightarrow> n))) (\<lambda>(b, ms). ok (Pulled b ms))))
     else if map_of fs ''operation'' = Some (JStr ''ack'') then
       andThen (lift (bad_mail (known_fields fs [''protocol'', ''operation'', ''ids'']))) (\<lambda>_.
       andThen (lift (bad_mail (ack_ids (map_of fs ''ids'')))) (\<lambda>ids.
       andThen (on_mail_request (acknowledgeForWorker sha now tok ids)) (\<lambda>n. ok (AckCount n))))
     else if map_of fs ''operation'' = Some (JStr ''post'') then
       andThen (lift (bad_mail (known_fields fs [''protocol'', ''operation'', ''messageKey'', ''kind'', ''body'']))) (\<lambda>_.
       case map_of fs ''kind'' of
         Some (JStr kind) \<Rightarrow>
           if kind \<noteq> ''message'' \<and> kind \<noteq> ''finish'' then throw (BadMailRequest ''kind must be message or finish'')
           else (case (map_of fs ''messageKey'', map_of fs ''body'') of
               (Some (JStr key), Some (JStr body)) \<Rightarrow>
                 andThen (on_mail_request (postFromWorker sha now tok key kind body)) (\<lambda>m. ok (Posted m))
             | _ \<Rightarrow> throw (BadMailRequest ''messageKey and body must be strings''))
       | _ \<Rightarrow> throw (BadMailRequest ''kind must be message or finish''))
     else throw (BadMailRequest ''operation must be pull, ack, or post''))"

section \<open>Workspace requests\<close>

text \<open>\<open>Buffer.toString('base64')\<close>, with padding.\<close>

definition base64_char :: "nat \<Rightarrow> char" where
  "base64_char n = (if n = 62 then CHR ''+'' else if n = 63 then CHR ''/'' else base64url_char n)"

fun base64 :: "nat list \<Rightarrow> string" where
  "base64 [] = []"
| "base64 [a] = [base64_char (a div 4), base64_char (a mod 4 * 16), CHR ''='', CHR ''='']"
| "base64 [a, b] = [base64_char (a div 4), base64_char (a mod 4 * 16 + b div 16), base64_char (b mod 16 * 4), CHR ''='']"
| "base64 (a # b # c # rest) =
     base64_char (a div 4) # base64_char (a mod 4 * 16 + b div 16) #
     base64_char (b mod 16 * 4 + c div 64) # base64_char (c mod 64) # base64 rest"

definition base64_val :: "char \<Rightarrow> nat" where
  "base64_val c = (if c = CHR ''+'' then 62 else if c = CHR ''/'' then 63 else base64url_val c)"

text \<open>
  \<open>Buffer.from(s, 'base64')\<close> on canonical text. On any other text Node's decoder gives some bytes whose
  encoding is not the text, and so does this one: the comparison that follows refuses it either way.
\<close>

fun base64_decode :: "string \<Rightarrow> nat list" where
  "base64_decode (p # q # r # s # rest) =
     (let a = base64_val p * 4 + base64_val q div 16; b = base64_val q mod 16 * 16 + base64_val r div 4;
          c = base64_val r mod 4 * 64 + base64_val s
      in if r = CHR ''='' then [a] else if s = CHR ''='' then [a, b] else a # b # c # base64_decode rest)"
| "base64_decode _ = []"

datatype workspace_request_error = BadWorkspaceRequest string | WorkspaceRefused workspace_error

definition canonical_base64 :: "json option \<Rightarrow> workspace_request_error + nat list" where
  "canonical_base64 v = (case v of
     Some (JStr s) \<Rightarrow>
       if s = [] then Inl (BadWorkspaceRequest ''data must be non-empty base64'')
       else if base64 (base64_decode s) \<noteq> s then Inl (BadWorkspaceRequest ''data must be canonical base64'')
       else Inr (base64_decode s)
   | _ \<Rightarrow> Inl (BadWorkspaceRequest ''data must be non-empty base64''))"

datatype workspace_reply =
    NoSource
  | SourceData session_binding source_receipt string
  | ArtifactStored string string string string string nat time

definition artifact_reply :: "artifact_row \<Rightarrow> workspace_reply" where
  "artifact_reply a = ArtifactStored (ar_session a) (ar_key a) (ar_kind a) (ar_source_sha256 a) (ar_sha256 a) (ar_size a) (ar_created a)"

definition on_custody :: "'a custody \<Rightarrow> (workspace_request_error, workspace, 'a) action" where
  "on_custody m = (\<lambda>w. map_prod (map_sum WorkspaceRefused id) id (m w))"

definition bad_workspace :: "(string + 'a) \<Rightarrow> workspace_request_error + 'a" where
  "bad_workspace r = map_sum BadWorkspaceRequest id r"

definition dispatchWorkerWorkspaceRequest ::
  "(string \<Rightarrow> string) \<Rightarrow> (nat list \<Rightarrow> string) \<Rightarrow> workspace_options \<Rightarrow> time \<Rightarrow> string \<Rightarrow> json option \<Rightarrow>
    (workspace_request_error, workspace, workspace_reply) action" where
  "dispatchWorkerWorkspaceRequest sha shab wo now tok v =
     andThen (lift (bad_workspace (plain_object v))) (\<lambda>fs.
     if map_of fs ''protocol'' \<noteq> Some (JNum 1) then throw (BadWorkspaceRequest ''protocol must equal 1'')
     else if map_of fs ''operation'' = Some (JStr ''source'') then
       andThen (lift (bad_workspace (known_fields fs [''protocol'', ''operation'']))) (\<lambda>_.
       andThen (on_custody (sourceForWorker sha shab tok)) (\<lambda>src. ok (case src of
         None \<Rightarrow> NoSource
       | Some (b, r, data) \<Rightarrow> SourceData b r (base64 data))))
     else if map_of fs ''operation'' = Some (JStr ''put_artifact'') then
       andThen (lift (bad_workspace (known_fields fs
         [''protocol'', ''operation'', ''key'', ''kind'', ''sourceSha256'', ''sha256'', ''data'']))) (\<lambda>_.
       case (map_of fs ''key'', map_of fs ''kind'', map_of fs ''sourceSha256'', map_of fs ''sha256'') of
         (Some (JStr key), Some (JStr kind), Some (JStr src), Some (JStr digest)) \<Rightarrow>
           if kind \<noteq> ''unified_patch_gzip''
           then throw (BadWorkspaceRequest ''artifact key, kind, sourceSha256, and sha256 are invalid'')
           else andThen (lift (canonical_base64 (map_of fs ''data''))) (\<lambda>data.
             andThen (on_custody (putArtifactForWorker sha shab wo now tok
               \<lparr>ai_key = key, ai_kind = kind, ai_source_sha256 = src, ai_data = data, ai_sha256 = Some digest\<rparr>)) (\<lambda>a. ok (artifact_reply a)))
       | _ \<Rightarrow> throw (BadWorkspaceRequest ''artifact key, kind, sourceSha256, and sha256 are invalid''))
     else throw (BadWorkspaceRequest ''operation must be source or put_artifact''))"

section \<open>Completions\<close>

definition MAX_MESSAGES :: nat where "MAX_MESSAGES = 512"
definition MAX_REQUEST_CHARS :: nat where "MAX_REQUEST_CHARS = 8 * 1024 * 1024"
definition MAX_FIELD_CHARS :: nat where "MAX_FIELD_CHARS = 1024 * 1024"
definition MAX_TOOL_CALLS :: nat where "MAX_TOOL_CALLS = 16"

datatype completion_error =
    CompletionUnauthorized
  | InvalidCompletion string
  | CompletionBusy
  | CompletionCapacity
  | BindingChanged
  | UnsupportedInput string
  | ClientRefused string

text \<open>\<open>JSON.stringify\<close> of a value.\<close>

fun json_text :: "(rat \<Rightarrow> string) \<Rightarrow> json \<Rightarrow> string" where
  "json_text num JNull = ''null''"
| "json_text num (JBool b) = (if b then ''true'' else ''false'')"
| "json_text num (JNum n) = num n"
| "json_text num (JStr s) = json_quote s"
| "json_text num (JArr vs) = ''['' @ join '','' (map (json_text num) vs) @ '']''"
| "json_text num (JObj fs) = CHR 0x7B # join '','' (map (\<lambda>(k, v). json_quote k @ '':'' @ json_text num v) fs) @ [CHR 0x7D]"

definition boundedString :: "json option \<Rightarrow> string \<Rightarrow> bool \<Rightarrow> completion_error + string option" where
  "boundedString v label required = (case v of
     None \<Rightarrow> if required then Inl (InvalidCompletion (label @ '' must be a string'')) else Inr None
   | Some (JStr s) \<Rightarrow> if length s > MAX_FIELD_CHARS
       then Inl (InvalidCompletion (label @ '' exceeds '' @ decimal MAX_FIELD_CHARS @ '' characters'')) else Inr (Some s)
   | Some _ \<Rightarrow> Inl (InvalidCompletion (label @ '' must be a string'')))"

text \<open>A field that must be there.\<close>

definition required_text :: "json option \<Rightarrow> string \<Rightarrow> completion_error + string" where
  "required_text v label = bindR (boundedString v label True) (\<lambda>s. Inr (case s of None \<Rightarrow> [] | Some t \<Rightarrow> t))"

text \<open>The clone of a JSON value through its text is that value.\<close>

definition cloneOpaque :: "(rat \<Rightarrow> string) \<Rightarrow> json \<Rightarrow> string \<Rightarrow> completion_error + json" where
  "cloneOpaque num v label = (if length (json_text num v) > MAX_FIELD_CHARS
     then Inl (InvalidCompletion (label @ '' is not bounded JSON'')) else Inr v)"

primrec map_indexed :: "(nat \<Rightarrow> 'a \<Rightarrow> 'e + 'b) \<Rightarrow> nat \<Rightarrow> 'a list \<Rightarrow> 'e + 'b list" where
  "map_indexed f n [] = Inr []"
| "map_indexed f n (x # xs) = bindR (f n x) (\<lambda>y. bindR (map_indexed f (Suc n) xs) (\<lambda>ys. Inr (y # ys)))"

definition at_index :: "string \<Rightarrow> nat \<Rightarrow> string" where
  "at_index name n = name @ ''['' @ decimal n @ '']''"

definition parse_function :: "string set \<Rightarrow> string \<Rightarrow> (string \<times> json) list \<Rightarrow> (string \<times> json) list \<Rightarrow> completion_error + tool_call" where
  "parse_function tools here call fn =
     bindR (required_text (map_of fn ''name'') (here @ ''.function.name'')) (\<lambda>name.
     if name \<notin> tools then Inl (UnsupportedInput (''worker tool '' @ json_quote name @ '' is not supported''))
     else bindR (required_text (map_of call ''id'') (here @ ''.id'')) (\<lambda>i.
       bindR (required_text (map_of fn ''arguments'') (here @ ''.function.arguments'')) (\<lambda>args.
       Inr \<lparr>tc_id = i, tc_name = name, tc_arguments = args\<rparr>)))"

definition parse_call :: "string set \<Rightarrow> string \<Rightarrow> nat \<Rightarrow> json \<Rightarrow> completion_error + tool_call" where
  "parse_call tools label j raw = (let here = at_index (label @ ''.tool_calls'') j in
     case raw of
       JObj call \<Rightarrow>
         if map_of call ''type'' \<noteq> Some (JStr ''function'') then Inl (InvalidCompletion (here @ '' must be a function call''))
         else (case map_of call ''function'' of
            Some (JObj fn) \<Rightarrow> parse_function tools here call fn
          | _ \<Rightarrow> Inl (InvalidCompletion (here @ '' must be a function call'')))
     | _ \<Rightarrow> Inl (InvalidCompletion (here @ '' must be an object'')))"

definition parse_calls :: "string set \<Rightarrow> string \<Rightarrow> json option \<Rightarrow> completion_error + tool_call list option" where
  "parse_calls tools label v = (case v of
     None \<Rightarrow> Inr None
   | Some (JArr calls) \<Rightarrow>
       if calls = [] \<or> length calls > MAX_TOOL_CALLS
       then Inl (InvalidCompletion (label @ ''.tool_calls must contain 1-'' @ decimal MAX_TOOL_CALLS @ '' entries''))
       else map_sum id Some (map_indexed (parse_call tools label) 0 calls)
   | Some _ \<Rightarrow> Inl (InvalidCompletion (label @ ''.tool_calls must contain 1-'' @ decimal MAX_TOOL_CALLS @ '' entries'')))"

definition opaque_field :: "(rat \<Rightarrow> string) \<Rightarrow> (string \<times> json) list \<Rightarrow> string \<Rightarrow> string \<Rightarrow> completion_error + (string \<times> json) list" where
  "opaque_field num fs name label = (case map_of fs name of
     None \<Rightarrow> Inr []
   | Some v \<Rightarrow> bindR (cloneOpaque num v (label @ ''.'' @ name)) (\<lambda>w. Inr [(name, w)]))"

definition parse_role :: "json option \<Rightarrow> chat_role option" where
  "parse_role v = (case v of
     Some (JStr r) \<Rightarrow>
       if r = ''system'' then Some SystemRole else if r = ''user'' then Some UserRole
       else if r = ''assistant'' then Some AssistantRole else if r = ''tool'' then Some ToolRole else None
   | _ \<Rightarrow> None)"

definition role_name :: "chat_role \<Rightarrow> string" where
  "role_name r = (case r of SystemRole \<Rightarrow> ''system'' | UserRole \<Rightarrow> ''user'' | AssistantRole \<Rightarrow> ''assistant'' | ToolRole \<Rightarrow> ''tool'')"

definition parse_fields ::
  "(rat \<Rightarrow> string) \<Rightarrow> string set \<Rightarrow> string \<Rightarrow> (string \<times> json) list \<Rightarrow> chat_role \<Rightarrow> string \<Rightarrow> completion_error + chat_message" where
  "parse_fields num tools label fs role content =
     (case role of
        AssistantRole \<Rightarrow>
          bindR (boundedString (map_of fs ''reasoning_content'') (label @ ''.reasoning_content'') False) (\<lambda>reasoning.
          bindR (opaque_field num fs ''reasoning_items'' label) (\<lambda>items.
          bindR (opaque_field num fs ''thinking_blocks'' label) (\<lambda>blocks.
          bindR (parse_calls tools label (map_of fs ''tool_calls'')) (\<lambda>calls.
          Inr \<lparr>ch_role = role, ch_content = content, ch_calls = calls, ch_call_id = None,
            ch_extra = (case reasoning of None \<Rightarrow> [] | Some t \<Rightarrow> [(''reasoning_content'', JStr t)]) @ items @ blocks\<rparr>))))
      | ToolRole \<Rightarrow>
          bindR (required_text (map_of fs ''tool_call_id'') (label @ ''.tool_call_id'')) (\<lambda>i.
          Inr \<lparr>ch_role = role, ch_content = content, ch_calls = None, ch_call_id = Some i, ch_extra = []\<rparr>)
      | _ \<Rightarrow>
          if map_of fs ''tool_calls'' \<noteq> None \<or> map_of fs ''tool_call_id'' \<noteq> None
          then Inl (InvalidCompletion (label @ '' has tool fields for role '' @ role_name role))
          else Inr \<lparr>ch_role = role, ch_content = content, ch_calls = None, ch_call_id = None, ch_extra = []\<rparr>)"

definition parse_message :: "(rat \<Rightarrow> string) \<Rightarrow> string set \<Rightarrow> nat \<Rightarrow> json \<Rightarrow> completion_error + chat_message" where
  "parse_message num tools n raw = (let label = at_index ''messages'' n in
     case raw of
       JObj fs \<Rightarrow>
         (case parse_role (map_of fs ''role'') of
            None \<Rightarrow> Inl (InvalidCompletion (label @ ''.role is invalid''))
          | Some role \<Rightarrow>
              if map_of fs ''contentParts'' \<noteq> None then Inl (UnsupportedInput ''worker image inputs are not supported yet'')
              else bindR (required_text (map_of fs ''content'') (label @ ''.content'')) (parse_fields num tools label fs role))
     | _ \<Rightarrow> Inl (InvalidCompletion (label @ '' must be an object'')))"

definition parseWorkerMessages :: "(rat \<Rightarrow> string) \<Rightarrow> string set \<Rightarrow> json option \<Rightarrow> completion_error + chat_message list" where
  "parseWorkerMessages num tools v = (case v of
     None \<Rightarrow> Inl (InvalidCompletion ''messages must be JSON'')
   | Some x \<Rightarrow>
       if length (json_text num x) > MAX_REQUEST_CHARS
       then Inl (InvalidCompletion (''messages exceed '' @ decimal MAX_REQUEST_CHARS @ '' characters''))
       else (case x of
           JArr ms \<Rightarrow> if ms = [] \<or> length ms > MAX_MESSAGES
             then Inl (InvalidCompletion (''messages must contain 1-'' @ decimal MAX_MESSAGES @ '' entries''))
             else map_indexed (parse_message num tools) 0 ms
         | _ \<Rightarrow> Inl (InvalidCompletion (''messages must contain 1-'' @ decimal MAX_MESSAGES @ '' entries''))))"

definition worker_tools :: "string set" where
  "worker_tools = {''run'', ''think''}"

record completions =
  cp_clients :: "(string \<times> string) list"
  cp_active :: "string list"

definition client_for :: "spawn_config \<Rightarrow> session_binding \<Rightarrow> (completion_error, completions, unit) action" where
  "client_for cf b = reads (\<lambda>c. case map_of (cp_clients c) (sb_session b) of
     Some ref \<Rightarrow> require (ref = sb_model_ref b) BindingChanged
   | None \<Rightarrow>
       (case cf_ref_error cf (sb_model_ref b) of
          Some e \<Rightarrow> throw (ClientRefused e)
        | None \<Rightarrow> modify (\<lambda>c. c\<lparr>cp_clients := cp_clients c @ [(sb_session b, sb_model_ref b)]\<rparr>)))"

text \<open>\<open>complete\<close> up to the wait for the model, with the binding and the messages sent, and its \<open>finally\<close> block.\<close>

definition complete_begin ::
  "spawn_config \<Rightarrow> (rat \<Rightarrow> string) \<Rightarrow> (string \<Rightarrow> string) \<Rightarrow> worker_db \<Rightarrow> string \<Rightarrow> json option \<Rightarrow>
    (completion_error, completions, session_binding \<times> chat_message list) action" where
  "complete_begin cf num sha db tok input =
     (case resolveWorkerSession sha db tok of
        None \<Rightarrow> throw CompletionUnauthorized
      | Some b \<Rightarrow>
          andThen (lift (parseWorkerMessages num worker_tools input)) (\<lambda>ms.
          reads (\<lambda>c.
            if sb_session b \<in> set (cp_active c) then throw CompletionBusy
            else if length (cp_active c) \<ge> cf_max cf then throw CompletionCapacity
            else andThen (client_for cf b) (\<lambda>_.
              andThen (modify (\<lambda>c. c\<lparr>cp_active := cp_active c @ [sb_session b]\<rparr>)) (\<lambda>_. ok (b, ms))))))"

definition complete_end :: "string \<Rightarrow> completions \<Rightarrow> completions" where
  "complete_end sid c = c\<lparr>cp_active := filter (\<lambda>x. x \<noteq> sid) (cp_active c)\<rparr>"

section \<open>Posts arrive as they were sent\<close>

definition post_request :: "string \<Rightarrow> string \<Rightarrow> string \<Rightarrow> json" where
  "post_request key kind body = JObj [(''protocol'', JNum 1), (''operation'', JStr ''post''), (''messageKey'', JStr key),
     (''kind'', JStr kind), (''body'', JStr body)]"

lemma post_request_exact:
  "dispatchWorkerMailboxRequest sha now tok (Some (post_request key kind body)) db =
    (if kind = ''message'' \<or> kind = ''finish''
     then (case postFromWorker sha now tok key kind body db of
         (Inl e, db') \<Rightarrow> (Inl (MailFailed e), db') | (Inr m, db') \<Rightarrow> (Inr (Posted m), db'))
     else (Inl (BadMailRequest ''kind must be message or finish''), db))"
  by (simp add: dispatchWorkerMailboxRequest_def post_request_def plain_object_def bad_mail_def known_fields_def on_mail_request_def
      action_simps split: prod.split sum.split)

section \<open>Bytes survive the transport\<close>

lemma char_65: "code_unit CHR ''+'' = 43" "code_unit CHR ''/'' = 47" "code_unit CHR ''='' = 61"
  by (simp_all add: code_unit_def)

lemma base64url_unit: "n < 62 \<Longrightarrow> code_unit (base64url_char n) \<notin> {43, 47, 61}"
  by (auto simp: base64url_char_def code_unit_char_of)

lemma base64url_plain: "n < 62 \<Longrightarrow> base64url_char n \<noteq> CHR ''+''" "n < 62 \<Longrightarrow> base64url_char n \<noteq> CHR ''/''" "n < 62 \<Longrightarrow> base64url_char n \<noteq> CHR ''=''"
  using base64url_unit [of n] char_65 by auto

lemma base64_digit: "n < 64 \<Longrightarrow> base64_val (base64_char n) = n" "n < 64 \<Longrightarrow> base64_char n \<noteq> CHR ''=''"
proof -
  assume n: "n < 64"
  consider "n < 62" | "n = 62" | "n = 63" using n by linarith
  then show "base64_val (base64_char n) = n" "base64_char n \<noteq> CHR ''=''"
    using base64url_plain [of n] base64url_val_char [OF n] by (cases; simp add: base64_char_def base64_val_def)+
qed

lemma sextets:
  fixes a b c :: nat
  assumes "a < 256" "b < 256" "c < 256"
  shows "a div 4 < 64" "a mod 4 * 16 < 64" "a mod 4 * 16 + b div 16 < 64" "b mod 16 * 4 < 64" "b mod 16 * 4 + c div 64 < 64" "c mod 64 < 64"
    and "a div 4 * 4 + a mod 4 * 16 div 16 = a" "a div 4 * 4 + (a mod 4 * 16 + b div 16) div 16 = a"
    and "(a mod 4 * 16 + b div 16) mod 16 * 16 + b mod 16 * 4 div 4 = b" "(a mod 4 * 16 + b div 16) mod 16 * 16 + (b mod 16 * 4 + c div 64) div 4 = b"
    and "(b mod 16 * 4 + c div 64) mod 4 * 64 + c mod 64 = c"
proof -
  have bd: "b div 16 < 16" "c div 64 < 4" using assms by (simp_all add: less_mult_imp_div_less)
  have am: "a mod 4 < 4" "b mod 16 < 16" by simp_all
  show "a div 4 < 64" using assms by (simp add: less_mult_imp_div_less)
  show "a mod 4 * 16 < 64" "a mod 4 * 16 + b div 16 < 64" "b mod 16 * 4 < 64" "b mod 16 * 4 + c div 64 < 64" using bd am by linarith+
  show "c mod 64 < 64" by simp
  show "a div 4 * 4 + a mod 4 * 16 div 16 = a" "a div 4 * 4 + (a mod 4 * 16 + b div 16) div 16 = a" using bd by simp_all
  show "(a mod 4 * 16 + b div 16) mod 16 * 16 + b mod 16 * 4 div 4 = b"
    "(a mod 4 * 16 + b div 16) mod 16 * 16 + (b mod 16 * 4 + c div 64) div 4 = b" using bd by simp_all
  show "(b mod 16 * 4 + c div 64) mod 4 * 64 + c mod 64 = c" using bd by simp
qed

lemma base64_decode_base64: "\<forall>b \<in> set d. b < 256 \<Longrightarrow> base64_decode (base64 d) = d"
proof (induction d rule: base64.induct)
  case (2 a)
  then show ?case using sextets(1,2,7) [of a 0 0] by (simp add: base64_digit Let_def)
next
  case (3 a b)
  then show ?case using sextets [of a b 0] by (simp add: base64_digit Let_def del: div_mult_self1 div_mult_self2)
next
  case (4 a b c rest)
  have "b div 16 < 16" "c div 64 < 4" using 4 by (simp_all add: less_mult_imp_div_less)
  then show ?case using 4 sextets [of a b c] by (simp add: base64_digit Let_def)
qed simp

lemma base64_ne: "d \<noteq> [] \<Longrightarrow> base64 d \<noteq> []"
  by (cases d rule: base64.cases) auto

lemma canonical_base64_iff:
  "canonical_base64 (Some (JStr (base64 d))) = Inr d" if "d \<noteq> []" "\<forall>b \<in> set d. b < 256" for d
  using that by (simp add: canonical_base64_def base64_decode_base64 base64_ne)

definition put_request :: "string \<Rightarrow> string \<Rightarrow> string \<Rightarrow> string \<Rightarrow> json" where
  "put_request key src digest data = JObj [(''protocol'', JNum 1), (''operation'', JStr ''put_artifact''), (''key'', JStr key),
     (''kind'', JStr ''unified_patch_gzip''), (''sourceSha256'', JStr src), (''sha256'', JStr digest), (''data'', JStr data)]"


definition bare_workspace :: workspace where
  "bare_workspace = \<lparr>wk_db = empty_worker_db, wk_files = []\<rparr>"

definition upload_options :: workspace_options where
  "upload_options = \<lparr>wo_source_enabled = True, wo_max_source = 1000, wo_max_artifact = 1000\<rparr>"


section \<open>What reaches the model is well formed\<close>

definition field_ok :: "string \<Rightarrow> bool" where
  "field_ok s \<longleftrightarrow> length s \<le> MAX_FIELD_CHARS"

definition call_ok :: "string set \<Rightarrow> tool_call \<Rightarrow> bool" where
  "call_ok tools c \<longleftrightarrow> tc_name c \<in> tools \<and> field_ok (tc_id c) \<and> field_ok (tc_name c) \<and> field_ok (tc_arguments c)"

definition chat_ok :: "(rat \<Rightarrow> string) \<Rightarrow> string set \<Rightarrow> chat_message \<Rightarrow> bool" where
  "chat_ok num tools m \<longleftrightarrow> field_ok (ch_content m) \<and>
     (ch_calls m \<noteq> None \<longrightarrow> ch_role m = AssistantRole) \<and>
     (\<forall>cs. ch_calls m = Some cs \<longrightarrow> cs \<noteq> [] \<and> length cs \<le> MAX_TOOL_CALLS \<and> list_all (call_ok tools) cs) \<and>
     (ch_call_id m \<noteq> None \<longleftrightarrow> ch_role m = ToolRole) \<and> (\<forall>i. ch_call_id m = Some i \<longrightarrow> field_ok i) \<and>
     (ch_extra m \<noteq> [] \<longrightarrow> ch_role m = AssistantRole) \<and>
     list_all (\<lambda>(k, v). k \<in> {''reasoning_content'', ''reasoning_items'', ''thinking_blocks''} \<and>
       (case v of JStr s \<Rightarrow> field_ok s \<or> length (json_text num v) \<le> MAX_FIELD_CHARS | _ \<Rightarrow> length (json_text num v) \<le> MAX_FIELD_CHARS)) (ch_extra m)"

lemma bindR_Inr: "bindR m k = Inr b \<longleftrightarrow> (\<exists>a. m = Inr a \<and> k a = Inr b)"
  by (cases m) (auto simp: bindR_def)

lemma map_indexed_Inr:
  assumes "map_indexed f n xs = Inr ys" and "\<And>n x y. f n x = Inr y \<Longrightarrow> P y"
  shows "length ys = length xs \<and> list_all P ys"
  using assms(1)
proof (induction xs arbitrary: n ys)
  case (Cons x xs)
  then show ?case using assms(2) by (fastforce simp: bindR_Inr)
qed simp

lemma boundedString_Inr: "boundedString v l req = Inr (Some s) \<Longrightarrow> field_ok s"
  by (auto simp: boundedString_def field_ok_def split: option.splits json.splits if_splits)

lemma required_text_Inr: "required_text v l = Inr s \<Longrightarrow> field_ok s"
proof -
  assume "required_text v l = Inr s"
  then obtain t where t: "boundedString v l True = Inr t" "s = (case t of None \<Rightarrow> [] | Some u \<Rightarrow> u)"
    by (auto simp: required_text_def bindR_Inr)
  then show "field_ok s" using boundedString_Inr by (cases t) (auto simp: field_ok_def)
qed

lemma parse_function_Inr: "parse_function tools here call fn = Inr c \<Longrightarrow> call_ok tools c"
  by (auto simp: parse_function_def bindR_Inr call_ok_def dest: required_text_Inr split: if_splits)

lemma parse_call_Inr: "parse_call tools l j raw = Inr c \<Longrightarrow> call_ok tools c"
  unfolding parse_call_def Let_def
  by (cases raw) (auto intro: parse_function_Inr split: option.splits json.splits if_splits)

lemma parse_calls_Inr: "parse_calls tools l v = Inr (Some cs) \<Longrightarrow> cs \<noteq> [] \<and> length cs \<le> MAX_TOOL_CALLS \<and> list_all (call_ok tools) cs"
proof -
  assume "parse_calls tools l v = Inr (Some cs)"
  then obtain calls where calls: "v = Some (JArr calls)" "calls \<noteq> []" "length calls \<le> MAX_TOOL_CALLS"
      "map_indexed (parse_call tools l) 0 calls = Inr cs"
    by (auto simp: parse_calls_def map_sum_def split: option.splits json.splits if_splits sum.splits)
  then show ?thesis using map_indexed_Inr [OF calls(4) parse_call_Inr] by auto
qed

lemma opaque_field_Inr:
  "opaque_field num fs name l = Inr xs \<Longrightarrow> list_all (\<lambda>(k, v). k = name \<and> length (json_text num v) \<le> MAX_FIELD_CHARS) xs"
  by (auto simp: opaque_field_def cloneOpaque_def bindR_Inr split: option.splits if_splits)

lemma parse_fields_Inr:
  assumes "parse_fields num tools l fs role content = Inr m" and "field_ok content"
  shows "chat_ok num tools m"
proof (cases role)
  case AssistantRole
  then obtain reasoning items blocks calls where
    r: "boundedString (map_of fs ''reasoning_content'') (l @ ''.reasoning_content'') False = Inr reasoning"
      "opaque_field num fs ''reasoning_items'' l = Inr items" "opaque_field num fs ''thinking_blocks'' l = Inr blocks"
      "parse_calls tools l (map_of fs ''tool_calls'') = Inr calls"
    and m: "m = \<lparr>ch_role = AssistantRole, ch_content = content, ch_calls = calls, ch_call_id = None,
        ch_extra = (case reasoning of None \<Rightarrow> [] | Some t \<Rightarrow> [(''reasoning_content'', JStr t)]) @ items @ blocks\<rparr>"
    using assms(1) by (auto simp: parse_fields_def bindR_Inr)
  let ?fine = "\<lambda>(k, v). k \<in> {''reasoning_content'', ''reasoning_items'', ''thinking_blocks''} \<and>
       (case v of JStr s \<Rightarrow> field_ok s \<or> length (json_text num v) \<le> MAX_FIELD_CHARS | _ \<Rightarrow> length (json_text num v) \<le> MAX_FIELD_CHARS)"
  have "list_all ?fine items" using opaque_field_Inr [OF r(2)] by (auto simp: list_all_iff split: json.split)
  moreover have "list_all ?fine blocks" using opaque_field_Inr [OF r(3)] by (auto simp: list_all_iff split: json.split)
  moreover have "list_all ?fine (case reasoning of None \<Rightarrow> [] | Some t \<Rightarrow> [(''reasoning_content'', JStr t)])"
    using r(1) boundedString_Inr by (auto split: option.split)
  ultimately show ?thesis
    using m assms(2) parse_calls_Inr r(4) by (auto simp: chat_ok_def)
qed (use assms required_text_Inr in \<open>auto simp: parse_fields_def chat_ok_def bindR_Inr split: if_splits\<close>)

lemma parse_message_Inr: "parse_message num tools n raw = Inr m \<Longrightarrow> chat_ok num tools m"
  by (auto simp: parse_message_def Let_def bindR_Inr split: json.splits option.splits if_splits intro: parse_fields_Inr required_text_Inr)


definition hello_request :: json where
  "hello_request = JArr [JObj [(''role'', JStr ''user''), (''content'', JStr ''hi'')]]"

definition hello_message :: chat_message where
  "hello_message = \<lparr>ch_role = UserRole, ch_content = ''hi'', ch_calls = None, ch_call_id = None, ch_extra = []\<rparr>"

lemma hello_parses: "parseWorkerMessages (\<lambda>_. []) worker_tools (Some hello_request) = Inr [hello_message]"
proof -
  have "length (json_text (\<lambda>_. []) hello_request) \<le> 8388608"
    by (simp add: hello_request_def json_quote_def json_escape_def code_unit_def Let_def)
  then show ?thesis
    by (simp add: parseWorkerMessages_def MAX_REQUEST_CHARS_def MAX_MESSAGES_def MAX_FIELD_CHARS_def hello_message_def bindR_def del: json_text.simps)
      (simp add: hello_request_def parse_message_def parse_role_def required_text_def boundedString_def MAX_FIELD_CHARS_def parse_fields_def
        MAX_MESSAGES_def bindR_def Let_def)
qed


section \<open>Completions in flight\<close>

inductive completion_step :: "spawn_config \<Rightarrow> (rat \<Rightarrow> string) \<Rightarrow> (string \<Rightarrow> string) \<Rightarrow> completions \<Rightarrow> completions \<Rightarrow> bool"
  for cf num sha where
  begins: "completion_step cf num sha c (snd (complete_begin cf num sha db tok input c))"
| ends: "completion_step cf num sha c (complete_end sid c)"

inductive_cases completion_stepE: "completion_step cf num sha c c'"

definition no_completions :: completions where
  "no_completions = \<lparr>cp_clients = [], cp_active = []\<rparr>"

definition flight_inv :: "nat \<Rightarrow> completions \<Rightarrow> bool" where
  "flight_inv N c \<longleftrightarrow> distinct (cp_active c) \<and> length (cp_active c) \<le> N \<and> distinct (map fst (cp_clients c)) \<and>
     set (cp_active c) \<subseteq> fst ` set (cp_clients c)"

text \<open>A completion that begins has a client bound to the model of its session, and is the only one of its session.\<close>

lemma client_for_cases:
  obtains (refused) e where "client_for cf b c = (Inl e, c)"
    | (cached) "map_of (cp_clients c) (sb_session b) = Some (sb_model_ref b)" "client_for cf b c = (Inr (), c)"
    | (created) "map_of (cp_clients c) (sb_session b) = None" "cf_ref_error cf (sb_model_ref b) = None"
        "client_for cf b c = (Inr (), c\<lparr>cp_clients := cp_clients c @ [(sb_session b, sb_model_ref b)]\<rparr>)"
proof (cases "map_of (cp_clients c) (sb_session b)")
  case None
  then show ?thesis using that by (cases "cf_ref_error cf (sb_model_ref b)") (simp_all add: client_for_def action_simps)
next
  case (Some ref)
  then show ?thesis using that by (cases "ref = sb_model_ref b") (simp_all add: client_for_def action_simps)
qed

lemma complete_begin_cases:
  obtains (refused) e where "complete_begin cf num sha db tok input c = (Inl e, c)"
    | (begun) b ms c1 where "resolveWorkerSession sha db tok = Some b" "parseWorkerMessages num worker_tools input = Inr ms"
        "sb_session b \<notin> set (cp_active c)" "length (cp_active c) < cf_max cf" "client_for cf b c = (Inr (), c1)"
        "complete_begin cf num sha db tok input c = (Inr (b, ms), c1\<lparr>cp_active := cp_active c1 @ [sb_session b]\<rparr>)"
proof (cases "resolveWorkerSession sha db tok")
  case None
  then show ?thesis using refused by (simp add: complete_begin_def action_simps)
next
  case (Some b)
  show ?thesis
  proof (cases "parseWorkerMessages num worker_tools input")
    case (Inl e)
    then show ?thesis using refused Some by (simp add: complete_begin_def action_simps)
  next
    case (Inr ms)
    show ?thesis
    proof (cases "sb_session b \<in> set (cp_active c) \<or> length (cp_active c) \<ge> cf_max cf")
      case True
      then have "\<exists>e. complete_begin cf num sha db tok input c = (Inl e, c)"
        using Some Inr by (cases "sb_session b \<in> set (cp_active c)") (simp_all add: complete_begin_def action_simps)
      then show ?thesis using refused by blast
    next
      case False
      have run: "complete_begin cf num sha db tok input c = (case client_for cf b c of (Inl e, c') \<Rightarrow> (Inl e, c')
          | (Inr _, c') \<Rightarrow> (Inr (b, ms), c'\<lparr>cp_active := cp_active c' @ [sb_session b]\<rparr>))"
        using Some Inr False by (auto simp: complete_begin_def action_simps split: prod.split sum.split)
      have begins: thesis if "client_for cf b c = (Inr (), c1)" for c1
        by (rule begun [OF Some Inr _ _ that]) (use run that False in auto)
      show ?thesis
        by (cases cf b c rule: client_for_cases) (use run refused begins in auto)
    qed
  qed
qed

lemma flight_inv_step:
  assumes "completion_step cf num sha c c'" and inv: "flight_inv (cf_max cf) c"
  shows "flight_inv (cf_max cf) c'"
  using assms(1)
proof cases
  case (begins db tok input)
  show ?thesis
  proof (cases cf num sha db tok input c rule: complete_begin_cases)
    case (refused e)
    then show ?thesis using begins inv by simp
  next
    case (begun b ms c1)
    show ?thesis
    proof (cases cf b c rule: client_for_cases)
      case (refused e)
      then show ?thesis using begun(5) by simp
    next
      case cached
      then have "sb_session b \<in> fst ` set (cp_clients c)" by (metis map_of_eq_None_iff option.distinct(1))
      then show ?thesis using begins begun cached inv by (auto simp: flight_inv_def)
    next
      case created
      then have "sb_session b \<notin> fst ` set (cp_clients c)" by (simp add: map_of_eq_None_iff)
      then show ?thesis using begins begun created inv by (auto simp: flight_inv_def)
    qed
  qed
next
  case (ends sid)
  have "length (filter (\<lambda>x. x \<noteq> sid) (cp_active c)) \<le> cf_max cf"
    using inv by (intro order_trans [OF length_filter_le]) (simp add: flight_inv_def)
  then show ?thesis using ends inv by (auto simp: flight_inv_def complete_end_def)
qed

interpretation completing: step_system "\<lambda>c. c = no_completions" "completion_step cf num sha" "flight_inv (cf_max cf)" for cf num sha
  by unfold_locales (simp add: flight_inv_def no_completions_def, rule flight_inv_step)

text \<open>
  C16. The model is asked only on behalf of a live session, once at a time and within the capacity. In
  every reachable state of the completion broker at most \<open>maxConcurrent\<close> completions are in flight, of
  different sessions. When a request is let through, its token belongs to an active session that had no
  completion in flight, and the client used is the one bound to that session's model; a request that is
  refused changes nothing.
\<close>

theorem completions_stay_bounded:
  assumes "(completion_step cf num sha)\<^sup>*\<^sup>* no_completions c" and "complete_begin cf num sha db tok input c = (r, c')"
  shows "distinct (cp_active c) \<and> length (cp_active c) \<le> cf_max cf \<and>
    (case r of Inl e \<Rightarrow> c' = c
     | Inr (b, ms) \<Rightarrow> (\<exists>s \<in> set (wd_sessions db). b = binding_of s \<and> is_active (ws_status s)) \<and>
         sb_session b \<notin> set (cp_active c) \<and> cp_active c' = cp_active c @ [sb_session b] \<and> length (cp_active c') \<le> cf_max cf \<and>
         map_of (cp_clients c') (sb_session b) = Some (sb_model_ref b))"
proof -
  have inv: "flight_inv (cf_max cf) c" using completing.inv_reachable [OF refl assms(1)] .
  show ?thesis
  proof (cases cf num sha db tok input c rule: complete_begin_cases)
    case (refused e)
    then show ?thesis using assms(2) inv by (auto simp: flight_inv_def)
  next
    case (begun b ms c1)
    obtain s where s: "find (\<lambda>s. ws_digest s = sha tok) (wd_sessions db) = Some s" "is_active (ws_status s)" "b = binding_of s"
      using resolve_SomeD [OF begun(1)] by metis
    then have "s \<in> set (wd_sessions db)" by (simp add: find_SomeD)
    moreover have "cp_active c1 = cp_active c \<and> map_of (cp_clients c1) (sb_session b) = Some (sb_model_ref b)"
      using begun(5) by (cases cf b c rule: client_for_cases) (auto simp: map_add_def)
    ultimately show ?thesis using assms(2) begun inv s(2,3) by (auto simp: flight_inv_def)
  qed
qed

theorem completions_stay_bounded_witness:
  "\<exists>b ms c'. complete_begin demo_config (\<lambda>_. []) zero_sha demo_db demo_token (Some hello_request) no_completions = (Inr (b, ms), c') \<and>
     cp_active c' = [''wrk-aaaaaaaa''] \<and> length (cp_active c') \<le> cf_max demo_config"
proof -
  have run: "complete_begin demo_config (\<lambda>_. []) zero_sha demo_db demo_token (Some hello_request) no_completions =
      (Inr (binding_of demo_session, [hello_message]),
       \<lparr>cp_clients = [(''wrk-aaaaaaaa'', ''main/model'')], cp_active = [''wrk-aaaaaaaa'']\<rparr>)"
    by (simp add: complete_begin_def demo_resolves hello_parses action_simps client_for_def no_completions_def demo_config_def
        binding_of_def demo_session_def new_session_def)
  show ?thesis
    using completions_stay_bounded [OF rtranclp.rtrancl_refl run] run by (auto simp: no_completions_def binding_of_def demo_session_def new_session_def)
qed

end
