(* ===== verification/Secretary_Session.thy ===== *)
theory Secretary_Session
  imports Worker_Mailbox Mind_Id Json
begin

text \<open>
  Secretary sessions (\<open>src/src/secretary/session.ts\<close>): identities, control tokens, the binding of a
  token to a live session, and the store that creates, readies, closes and fails sessions. The table
  \<open>secretary_turns\<close> is part of the state, since a trigger of the schema (\<open>src/src/store/db.ts\<close>) settles
  the open turns of a session that ends.

  A row extends what \<open>rowSession\<close> returns by the digest of the token. The \<open>CHECK\<close> constraints restrict the
  text columns to the constructors and shapes used here, so the tests of the type of a column always
  pass. The text of an SQLite error is not modelled: it is \<open>constraint failed\<close>.
\<close>

text \<open>Evaluation of a test on a column that may be \<open>NULL\<close>.\<close>

lemma pred_option_code [code]: "pred_option P None \<longleftrightarrow> True" "pred_option P (Some x) \<longleftrightarrow> P x"
  by simp_all

section \<open>Tables\<close>

datatype secretary_status = SecStarting | SecReady | SecClosed | SecFailed

record secretary_session =
  se_id :: string
  se_hint :: "string option"
  se_status :: secretary_status
  se_model_ref :: string
  se_runtime :: string
  se_pod_name :: "string option"
  se_pod_uid :: "string option"
  se_created :: time
  se_updated :: time
  se_last_error :: "string option"

record secretary_row = secretary_session +
  se_digest :: string

datatype turn_status = Queued | Claimed | Completed | Ambiguous | TurnCancelled

record turn_row =
  tu_id :: string
  tu_session :: string
  tu_sequence :: nat
  tu_status :: turn_status
  tu_request :: string
  tu_response :: "string option"
  tu_created :: time
  tu_updated :: time
  tu_claimed :: "time option"
  tu_completed :: "time option"
  tu_last_error :: "string option"

record secretary_db =
  sd_sessions :: "secretary_row list"
  sd_turns :: "turn_row list"

definition sec_active :: "secretary_status \<Rightarrow> bool" where
  "sec_active st \<longleftrightarrow> st = SecStarting \<or> st = SecReady"

definition turn_active :: "turn_status \<Rightarrow> bool" where
  "turn_active st \<longleftrightarrow> st = Queued \<or> st = Claimed"

section \<open>Identities and tokens\<close>

definition isSecretarySessionId :: "string \<Rightarrow> bool" where
  "isSecretarySessionId v \<longleftrightarrow> length v = 26 \<and> prefix ''sec-'' v \<and> list_all is_base64url (drop 4 v)"

text \<open>\<open>bytes\<close> is what the random source returns for 16 bytes; \<open>None\<close> is the throw.\<close>

definition newSecretarySessionId :: "nat list \<Rightarrow> string option" where
  "newSecretarySessionId bytes = (let i = ''sec-'' @ base64url bytes in if isSecretarySessionId i then Some i else None)"

definition secretaryControlTokenDigest :: "(string \<Rightarrow> string) \<Rightarrow> string \<Rightarrow> string + string" where
  "secretaryControlTokenDigest sha tok =
     (if length tok = 43 \<and> list_all is_base64url tok then Inr (sha tok) else Inl ''secretary control token is malformed'')"

definition createSecretaryControlCredential :: "(string \<Rightarrow> string) \<Rightarrow> nat list \<Rightarrow> string + (string \<times> string)" where
  "createSecretaryControlCredential sha bytes =
     (let tok = base64url bytes in bindR (secretaryControlTokenDigest sha tok) (\<lambda>d. Inr (tok, d)))"

definition digest_re :: "string \<Rightarrow> bool" where
  "digest_re d \<longleftrightarrow> length d = 64 \<and> list_all (\<lambda>c. is_digit c \<or> (97 \<le> code_unit c \<and> code_unit c \<le> 102)) d"

definition verifySecretaryControlToken :: "(string \<Rightarrow> string) \<Rightarrow> string \<Rightarrow> string \<Rightarrow> bool" where
  "verifySecretaryControlToken sha tok expected =
     (if \<not> digest_re expected then False
      else case secretaryControlTokenDigest sha tok of
        Inl _ \<Rightarrow> False
      | Inr d \<Rightarrow> from_hex d = from_hex expected)"

section \<open>Model references\<close>

text \<open>\<open>value.split('/')\<close>; \<open>requireModelId\<close> and \<open>parseLlmModelRef\<close> of \<open>src/src/llm/model-registry.ts\<close>.\<close>

fun split_at :: "char \<Rightarrow> string \<Rightarrow> string list" where
  "split_at sep [] = [[]]"
| "split_at sep (c # cs) = (if c = sep then [] # split_at sep cs
     else case split_at sep cs of p # ps \<Rightarrow> (c # p) # ps | [] \<Rightarrow> [[c]])"

definition id_start :: "char \<Rightarrow> bool" where
  "id_start c \<longleftrightarrow> is_lower_az c \<or> is_digit c"

definition id_char :: "char \<Rightarrow> bool" where
  "id_char c \<longleftrightarrow> id_start c \<or> c = CHR ''.'' \<or> c = CHR ''_'' \<or> c = CHR ''-''"

definition id_re :: "string \<Rightarrow> bool" where
  "id_re v = (case v of [] \<Rightarrow> False | c # cs \<Rightarrow> id_start c \<and> list_all id_char cs)"

definition requireModelId :: "string \<Rightarrow> string \<Rightarrow> string + unit" where
  "requireModelId v label =
     (if id_re v then Inr ()
      else Inl (label @ '' must match ^[a-z0-9][a-z0-9._-]*$ (got '' @ json_quote v @ '')''))"

definition parseLlmModelRef :: "string \<Rightarrow> string \<Rightarrow> string + (string \<times> string)" where
  "parseLlmModelRef v label =
     (case split_at CHR ''/'' v of
        [p, m] \<Rightarrow> bindR (requireModelId p (label @ '' provider id'')) (\<lambda>_. bindR (requireModelId m (label @ '' model id'')) (\<lambda>_. Inr (p, m)))
      | _ \<Rightarrow> Inl (label @ '' must be in provider/model-id form (got '' @ json_quote v @ '')''))"

section \<open>Constraints of the tables\<close>

text \<open>
  The columns of \<open>secretary_sessions\<close>. A Boolean \<open>instr(m, '/') > 1\<close> says that a slash follows at least
  one character.
\<close>

definition model_ref_check :: "string \<Rightarrow> bool" where
  "model_ref_check m \<longleftrightarrow> 3 \<le> sql_length m \<and> m = sql_lower m \<and> list_all (\<lambda>c. id_char c \<or> c = CHR ''/'') m \<and>
     (case split_at CHR ''/'' m of [p, q] \<Rightarrow> p \<noteq> [] \<and> id_start (hd p) \<and> q \<noteq> [] \<and> id_start (hd q) | _ \<Rightarrow> False)"

definition text_check :: "nat \<Rightarrow> string option \<Rightarrow> bool" where
  "text_check mx v = (case v of None \<Rightarrow> True | Some s \<Rightarrow> sql_within mx s)"

definition session_check :: "secretary_row \<Rightarrow> bool" where
  "session_check r \<longleftrightarrow> isSecretarySessionId (se_id r) \<and> model_ref_check (se_model_ref r) \<and> se_runtime r = ''kubernetes'' \<and>
     digest_re (se_digest r) \<and> text_check 253 (se_pod_name r) \<and> text_check 128 (se_pod_uid r) \<and> se_created r \<le> se_updated r"

definition session_transition :: "secretary_status \<Rightarrow> secretary_status \<Rightarrow> bool" where
  "session_transition old new \<longleftrightarrow> old = new \<or> (old = SecStarting \<and> new \<in> {SecReady, SecClosed, SecFailed}) \<or>
     (old = SecReady \<and> new \<in> {SecClosed, SecFailed})"

text \<open>The columns of \<open>secretary_turns\<close> and its triggers on updates.\<close>

definition json_object_text :: "string \<Rightarrow> bool" where
  "json_object_text s \<longleftrightarrow> 2 \<le> sql_length s \<and> sql_length s \<le> 262144 \<and> (case json_parse s of Some (JObj _) \<Rightarrow> True | _ \<Rightarrow> False)"

definition isSecretaryTurnId :: "string \<Rightarrow> bool" where
  "isSecretaryTurnId v \<longleftrightarrow> length v = 26 \<and> prefix ''stn-'' v \<and> list_all is_base64url (drop 4 v)"

definition turn_check :: "turn_row \<Rightarrow> bool" where
  "turn_check t \<longleftrightarrow> isSecretaryTurnId (tu_id t) \<and> 1 \<le> tu_sequence t \<and> json_object_text (tu_request t) \<and>
     pred_option json_object_text (tu_response t) \<and> tu_created t \<le> tu_updated t \<and>
     pred_option (\<lambda>c. tu_created t \<le> c) (tu_claimed t) \<and> pred_option (\<lambda>c. tu_created t \<le> c) (tu_completed t) \<and>
     pred_option (\<lambda>e. sql_length e \<le> 1000) (tu_last_error t)"

definition turn_lifecycle :: "turn_row \<Rightarrow> bool" where
  "turn_lifecycle t \<longleftrightarrow> (case tu_status t of
     Queued \<Rightarrow> tu_claimed t = None \<and> tu_response t = None \<and> tu_completed t = None \<and> tu_last_error t = None
   | Claimed \<Rightarrow> (case tu_claimed t of None \<Rightarrow> False | Some c \<Rightarrow> c \<le> tu_updated t) \<and>
       tu_response t = None \<and> tu_completed t = None \<and> tu_last_error t = None
   | Completed \<Rightarrow> (case (tu_claimed t, tu_completed t) of (Some c, Some d) \<Rightarrow> c \<le> d \<and> d \<le> tu_updated t | _ \<Rightarrow> False) \<and>
       tu_response t \<noteq> None \<and> tu_last_error t = None
   | Ambiguous \<Rightarrow> (case tu_claimed t of None \<Rightarrow> False | Some c \<Rightarrow> c \<le> tu_updated t) \<and>
       tu_response t = None \<and> tu_completed t = None \<and> tu_last_error t \<noteq> None
   | TurnCancelled \<Rightarrow> tu_response t = None \<and> tu_completed t = None \<and> tu_last_error t \<noteq> None)"

definition turn_transition :: "turn_status \<Rightarrow> turn_status \<Rightarrow> bool" where
  "turn_transition old new \<longleftrightarrow> old = new \<or> (old = Queued \<and> new \<in> {Claimed, TurnCancelled}) \<or>
     (old = Claimed \<and> new \<in> {Completed, Ambiguous, TurnCancelled})"

section \<open>Updates\<close>

text \<open>
  \<open>UPDATE secretary_turns SET \<dots> WHERE p\<close>: it throws \<open>e\<close> when a constraint or trigger stops it, and returns
  the number of rows. The trigger on updates keeps identity, request and creation time, and no update
  makes an ended turn active, so the unique indexes hold.
\<close>

definition update_turns :: "'e \<Rightarrow> (turn_row \<Rightarrow> bool) \<Rightarrow> (turn_row \<Rightarrow> turn_row) \<Rightarrow> ('e, secretary_db, nat) action" where
  "update_turns e p f = reads (\<lambda>db.
     let rows = filter p (sd_turns db) in
     if list_all (\<lambda>t. turn_check (f t) \<and> turn_lifecycle (f t) \<and> turn_transition (tu_status t) (tu_status (f t))) rows
     then andThen (modify (\<lambda>db. db\<lparr>sd_turns := update_where p f (sd_turns db)\<rparr>)) (\<lambda>_. ok (length rows))
     else throw e)"

definition end_turn :: "turn_status \<Rightarrow> time \<Rightarrow> string \<Rightarrow> turn_row \<Rightarrow> turn_row" where
  "end_turn st now reason t = t\<lparr>tu_status := st, tu_updated := now, tu_last_error := Some reason\<rparr>"

definition turn_of :: "string \<Rightarrow> turn_status \<Rightarrow> turn_row \<Rightarrow> bool" where
  "turn_of sid st t \<longleftrightarrow> tu_session t = sid \<and> tu_status t = st"

text \<open>The trigger \<open>secretary_sessions_settle_turns_before_terminal\<close>, for the new row \<open>n\<close>.\<close>

definition settle_trigger :: "'e \<Rightarrow> secretary_row \<Rightarrow> secretary_row \<Rightarrow> ('e, secretary_db, unit) action" where
  "settle_trigger e old n =
     (let reason = (case se_last_error n of None \<Rightarrow> ''secretary session closed'' | Some m \<Rightarrow> m) in
      when_do (sec_active (se_status old) \<and> \<not> sec_active (se_status n))
       (andThen (update_turns e (turn_of (se_id old) Queued) (\<lambda>t. end_turn TurnCancelled (max (tu_updated t) (se_updated n)) reason t)) (\<lambda>_.
        andThen (update_turns e (turn_of (se_id old) Claimed) (\<lambda>t. end_turn Ambiguous (max (tu_updated t) (se_updated n)) reason t)) (\<lambda>_.
        ok ()))))"

text \<open>\<open>UPDATE secretary_sessions SET \<dots> WHERE id = sid AND status IN \<dots>\<close>: one atomic statement.\<close>

definition session_where :: "string \<Rightarrow> (secretary_status \<Rightarrow> bool) \<Rightarrow> secretary_row \<Rightarrow> bool" where
  "session_where sid sts r \<longleftrightarrow> se_id r = sid \<and> sts (se_status r)"

definition update_secretary ::
  "'e \<Rightarrow> string \<Rightarrow> (secretary_status \<Rightarrow> bool) \<Rightarrow> (secretary_row \<Rightarrow> secretary_row) \<Rightarrow> ('e, secretary_db, nat) action" where
  "update_secretary e sid sts f = transaction (reads (\<lambda>db.
     let rows = filter (session_where sid sts) (sd_sessions db) in
     andThen (for_each (\<lambda>r. settle_trigger e r (f r)) rows) (\<lambda>_.
     if list_all (\<lambda>r. session_check (f r) \<and> session_transition (se_status r) (se_status (f r))) rows
     then andThen (modify (\<lambda>db. db\<lparr>sd_sessions := update_where (session_where sid sts) f (sd_sessions db)\<rparr>)) (\<lambda>_. ok (length rows))
     else throw e)))"

section \<open>Reading rows\<close>

datatype session_error = SessInvalid string | SessNotFound string | SessConflict string | SessBroken string

type_synonym 'a session_store = "(session_error, secretary_db, 'a) action"

definition rowSession :: "secretary_row \<Rightarrow> string + secretary_session" where
  "rowSession r =
     (if \<not> isSecretarySessionId (se_id r) then Inl ''secretary session has invalid identity''
      else if \<not> pred_option isMindId (se_hint r) then Inl ''secretary session has invalid hint Mind identity''
      else bindR (parseLlmModelRef (se_model_ref r) ''secretary session model ref'') (\<lambda>_.
        if se_runtime r \<noteq> ''kubernetes'' then Inl ''secretary session has invalid runtime''
        else if \<not> isSafeInteger (Num (se_created r)) \<or> \<not> isSafeInteger (Num (se_updated r))
          then Inl ''secretary session has invalid timestamps''
        else Inr (secretary_session.truncate r)))"

record secretary_binding =
  bi_session :: string
  bi_hint :: "string option"
  bi_model_ref :: string
  bi_runtime :: string

definition resolveSecretarySession :: "(string \<Rightarrow> string) \<Rightarrow> secretary_db \<Rightarrow> string \<Rightarrow> secretary_binding option" where
  "resolveSecretarySession sha db tok =
     (case secretaryControlTokenDigest sha tok of
        Inl _ \<Rightarrow> None
      | Inr d \<Rightarrow>
          (case find (\<lambda>r. se_digest r = d) (sd_sessions db) of
             None \<Rightarrow> None
           | Some r \<Rightarrow>
               if \<not> verifySecretaryControlToken sha tok (se_digest r) then None
               else case rowSession r of
                 Inl _ \<Rightarrow> None
               | Inr s \<Rightarrow> if \<not> sec_active (se_status s) then None
                   else Some \<lparr>bi_session = se_id s, bi_hint = se_hint s, bi_model_ref = se_model_ref s, bi_runtime = se_runtime s\<rparr>))"

section \<open>The session store\<close>

definition session_boundedError :: "string \<Rightarrow> string" where
  "session_boundedError msg = (let m = take 1000 msg in if m = [] then ''secretary session failed'' else m)"

definition validateModelRef :: "string \<Rightarrow> session_error + unit" where
  "validateModelRef ref = (case parseLlmModelRef ref ''secretary model ref'' of
     Inl m \<Rightarrow> Inl (SessInvalid (session_boundedError m)) | Inr _ \<Rightarrow> Inr ())"

text \<open>A pod identity is a parsed object: the fields that are present, \<open>undefined\<close> and \<open>null\<close> being absent alike.\<close>

definition pod_field :: "nat \<Rightarrow> json option \<Rightarrow> string option option" where
  "pod_field mx v = (case v of
     None \<Rightarrow> Some None
   | Some JNull \<Rightarrow> Some None
   | Some (JStr s) \<Rightarrow> if 1 \<le> length s \<and> length s \<le> mx then Some (Some s) else None
   | Some _ \<Rightarrow> None)"

definition validatePodIdentity :: "json \<Rightarrow> session_error + (string option \<times> string option)" where
  "validatePodIdentity v = (case v of
     JObj fs \<Rightarrow>
       (case filter (\<lambda>f. fst f \<noteq> ''podName'' \<and> fst f \<noteq> ''podUid'') fs of
          f # _ \<Rightarrow> Inl (SessInvalid (''unknown pod identity field '' @ json_quote (fst f)))
        | [] \<Rightarrow>
            (case (pod_field 253 (map_of fs ''podName''), pod_field 128 (map_of fs ''podUid'')) of
               (Some n, Some u) \<Rightarrow> Inr (n, u)
             | _ \<Rightarrow> Inl (SessInvalid ''pod identity is invalid'')))
   | _ \<Rightarrow> Inl (SessInvalid ''pod identity must be an object''))"

definition broken :: "string + 'a \<Rightarrow> session_error + 'a" where
  "broken r = map_sum SessBroken id r"

definition session_get :: "string \<Rightarrow> secretary_db \<Rightarrow> session_error + secretary_session option" where
  "session_get sid db =
     (if \<not> isSecretarySessionId sid then Inr None
      else case find (\<lambda>r. se_id r = sid) (sd_sessions db) of
        None \<Rightarrow> Inr None
      | Some r \<Rightarrow> map_sum id Some (broken (rowSession r)))"

primrec collect :: "('e + 'a) list \<Rightarrow> 'e + 'a list" where
  "collect [] = Inr []"
| "collect (r # rs) = bindR r (\<lambda>a. bindR (collect rs) (\<lambda>as. Inr (a # as)))"

definition newest_first :: "secretary_row \<Rightarrow> secretary_row \<Rightarrow> bool" where
  "newest_first a b \<longleftrightarrow> se_created a > se_created b \<or> (se_created a = se_created b \<and> se_id a \<ge> se_id b)"

definition session_list :: "secretary_db \<Rightarrow> session_error + secretary_session list" where
  "session_list db = broken (collect (map rowSession (sort_by newest_first (sd_sessions db))))"

definition requireSession :: "string \<Rightarrow> secretary_session session_store" where
  "requireSession sid = reads (\<lambda>db. andThen (lift (session_get sid db)) (\<lambda>s. case s of
     None \<Rightarrow> throw (SessNotFound ''secretary session is unavailable'') | Some x \<Rightarrow> ok x))"

text \<open>The first of at most 32 candidate ids that is not taken, from a source that may be faulty.\<close>

fun draw_id :: "(string \<Rightarrow> bool) \<Rightarrow> string list \<Rightarrow> 'e \<Rightarrow> 'e \<Rightarrow> string list \<Rightarrow> 'e + string" where
  "draw_id valid taken bad none [] = Inl none"
| "draw_id valid taken bad none (c # cs) =
     (if \<not> valid c then Inl bad else if c \<notin> set taken then Inr c else draw_id valid taken bad none cs)"

definition new_secretary :: "string \<Rightarrow> string option \<Rightarrow> string \<Rightarrow> string \<Rightarrow> time \<Rightarrow> secretary_row" where
  "new_secretary sid hint ref d now =
     \<lparr>se_id = sid, se_hint = hint, se_status = SecStarting, se_model_ref = ref, se_runtime = ''kubernetes'', se_pod_name = None,
      se_pod_uid = None, se_created = now, se_updated = now, se_last_error = None, se_digest = d\<rparr>"

text \<open>\<open>items\<close> are the ids of \<open>mind_items\<close>, for the foreign key and for the test before it.\<close>

definition insert_secretary :: "string list \<Rightarrow> secretary_row \<Rightarrow> unit session_store" where
  "insert_secretary items r = reads (\<lambda>db.
     if session_check r \<and> se_id r \<notin> se_id ` set (sd_sessions db) \<and> se_digest r \<notin> se_digest ` set (sd_sessions db) \<and>
        pred_option (\<lambda>h. h \<in> set items) (se_hint r)
     then modify (\<lambda>db. db\<lparr>sd_sessions := sd_sessions db @ [r]\<rparr>) else throw (SessConflict ''constraint failed''))"

definition session_create ::
  "(string \<Rightarrow> string) \<Rightarrow> string list \<Rightarrow> time \<Rightarrow> string list \<Rightarrow> string \<times> string \<Rightarrow> string option \<Rightarrow> string \<Rightarrow>
    (secretary_session \<times> string) session_store" where
  "session_create sha items now candidates credential hint ref =
     andThen (require (pred_option isMindId hint) (SessInvalid ''hintMindId must be null or an exact canonical elm- identity'')) (\<lambda>_.
     andThen (lift (validateModelRef ref)) (\<lambda>_.
     andThen (lift (map_sum (\<lambda>m. SessInvalid (session_boundedError m)) id (secretaryControlTokenDigest sha (fst credential)))) (\<lambda>computed.
     andThen (require (digest_re (snd credential) \<and> verifySecretaryControlToken sha (fst credential) (snd credential) \<and>
         snd credential = computed) (SessInvalid ''secretary credential is inconsistent'')) (\<lambda>_.
     andThen (require (isSafeInteger (Num now)) (SessInvalid ''session time is invalid'')) (\<lambda>_.
     andThen (transaction (reads (\<lambda>db.
         andThen (require (pred_option (\<lambda>h. h \<in> set items) hint) (SessNotFound ''hint Mind item is unavailable'')) (\<lambda>_.
         andThen (lift (draw_id isSecretarySessionId (map se_id (sd_sessions db))
             (SessInvalid ''secretary session id source returned a non-canonical identity'')
             (SessConflict ''secretary session id space is exhausted'') (take 32 candidates))) (\<lambda>sid.
         andThen (insert_secretary items (new_secretary sid hint ref (snd credential) now)) (\<lambda>_. ok sid)))))) (\<lambda>sid.
     reads (\<lambda>db. andThen (lift (session_get sid db)) (\<lambda>s. case s of
         None \<Rightarrow> throw (SessBroken ''created secretary session is unavailable'')
       | Some x \<Rightarrow> ok (x, fst credential)))))))))"

definition changed_once :: "nat \<Rightarrow> unit session_store" where
  "changed_once n = require (n = 1) (SessConflict ''secretary session changed during transition'')"

definition session_ready :: "time \<Rightarrow> string \<Rightarrow> json \<Rightarrow> secretary_session session_store" where
  "session_ready now sid pod =
     andThen (requireSession sid) (\<lambda>current.
     andThen (require (se_status current = SecStarting) (SessConflict ''secretary session is not starting'')) (\<lambda>_.
     andThen (lift (validatePodIdentity pod)) (\<lambda>(n, u).
     andThen (update_secretary (SessBroken ''constraint failed'') sid (\<lambda>st. st = SecStarting)
         (\<lambda>r. r\<lparr>se_status := SecReady, se_pod_name := n, se_pod_uid := u, se_updated := max now (se_updated current)\<rparr>)) (\<lambda>k.
     andThen (changed_once k) (\<lambda>_. requireSession sid)))))"

definition session_finish :: "time \<Rightarrow> string \<Rightarrow> secretary_status \<Rightarrow> string option \<Rightarrow> time \<Rightarrow> secretary_session session_store" where
  "session_finish now sid st lastError previous =
     andThen (update_secretary (SessBroken ''constraint failed'') sid sec_active
         (\<lambda>r. r\<lparr>se_status := st, se_last_error := lastError, se_updated := max now previous\<rparr>)) (\<lambda>k.
     andThen (changed_once k) (\<lambda>_. requireSession sid))"

definition session_close :: "time \<Rightarrow> string \<Rightarrow> secretary_session session_store" where
  "session_close now sid = andThen (requireSession sid) (\<lambda>current.
     if se_status current = SecClosed then ok current
     else if se_status current = SecFailed then throw (SessConflict ''secretary session has failed'')
     else session_finish now sid SecClosed None (se_updated current))"

definition session_fail :: "time \<Rightarrow> string \<Rightarrow> string \<Rightarrow> secretary_session session_store" where
  "session_fail now sid msg = andThen (requireSession sid) (\<lambda>current.
     if se_status current = SecFailed then ok current
     else if se_status current = SecClosed then throw (SessConflict ''secretary session is closed'')
     else session_finish now sid SecFailed (Some (session_boundedError msg)) (se_updated current))"

end
