(* ===== verification/Secretary_Conversation.thy ===== *)
theory Secretary_Conversation
  imports Secretary_Session
begin

text \<open>
  The turns of a secretary conversation (\<open>src/src/secretary/conversation.ts\<close>) and the requests of the
  secretary process (\<open>src/src/secretary/conversation-request.ts\<close>). A turn is one question of the user: it
  is queued, claimed by the process, and completed with an answer; it ends as ambiguous when the claim
  is lost and as cancelled when it was never claimed. Messages are stored as JSON text; a decoded turn
  is its row with the contents of the messages in place of their text.
\<close>

datatype conversation_error =
    ConvUnauthorized string
  | ConvInvalid string
  | ConvNotFound string
  | ConvUnavailable string
  | ConvConflict string
  | ConvBroken string

type_synonym 'a conversation = "(conversation_error, secretary_db, 'a) action"

type_synonym sec_message = "string \<times> string"

definition MAX_CONTENT_CHARS :: nat where
  "MAX_CONTENT_CHARS = 32768"

definition MAX_CONVERSATION_TURNS :: nat where
  "MAX_CONVERSATION_TURNS = 16"

definition newSecretaryTurnId :: "nat list \<Rightarrow> string option" where
  "newSecretaryTurnId bytes = (let i = ''stn-'' @ base64url bytes in if isSecretaryTurnId i then Some i else None)"

section \<open>Messages\<close>

text \<open>\<open>message(value, role)\<close>: the content of a message of that role.\<close>

definition conv_message :: "json option \<Rightarrow> string \<Rightarrow> conversation_error + string" where
  "conv_message v role = (case v of
     Some (JObj fs) \<Rightarrow>
       (case (map_of fs ''role'', map_of fs ''content'') of
          (Some (JStr r), Some (JStr c)) \<Rightarrow>
            if sort (map fst fs) \<noteq> [''content'', ''role''] \<or> r \<noteq> role \<or> trim c = []
            then Inl (ConvInvalid (''secretary '' @ role @ '' message must contain exactly role='' @ role @ '' and non-empty content''))
            else if length (utf8 c) > MAX_CONTENT_CHARS
            then Inl (ConvInvalid (''secretary '' @ role @ '' message exceeds '' @ decimal MAX_CONTENT_CHARS @ '' UTF-8 bytes''))
            else Inr c
        | _ \<Rightarrow> Inl (ConvInvalid (''secretary '' @ role @ '' message must contain exactly role='' @ role @ '' and non-empty content'')))
   | _ \<Rightarrow> Inl (ConvInvalid (''secretary '' @ role @ '' message must be an object'')))"

text \<open>\<open>JSON.stringify({ role, content })\<close>.\<close>

definition message_json :: "string \<Rightarrow> string \<Rightarrow> string" where
  "message_json role c =
     ''{'' @ json_quote ''role'' @ '':'' @ json_quote role @ '','' @ json_quote ''content'' @ '':'' @ json_quote c @ ''}''"

definition parseMessage :: "string \<Rightarrow> string \<Rightarrow> conversation_error + string" where
  "parseMessage raw role = (case json_parse raw of
     None \<Rightarrow> Inl (ConvBroken ''invalid JSON'') | Some v \<Rightarrow> conv_message (Some v) role)"

definition safe_time :: "time option \<Rightarrow> bool" where
  "safe_time t = pred_option (\<lambda>x. isSafeInteger (Num x)) t"

definition rowTurn :: "turn_row \<Rightarrow> conversation_error + turn_row" where
  "rowTurn t =
     (if \<not> isSecretaryTurnId (tu_id t) then Inl (ConvBroken ''secretary turn has invalid identity'')
      else if \<not> isSecretarySessionId (tu_session t) then Inl (ConvBroken ''secretary turn has invalid session identity'')
      else if tu_sequence t < 1 \<or> tu_sequence t > 9007199254740991 \<or> \<not> safe_time (Some (tu_created t)) \<or>
              \<not> safe_time (Some (tu_updated t)) \<or> \<not> safe_time (tu_claimed t) \<or> \<not> safe_time (tu_completed t)
        then Inl (ConvBroken ''secretary turn has invalid lifecycle numbers'')
      else bindR (parseMessage (tu_request t) ''user'') (\<lambda>q.
        case tu_response t of
          None \<Rightarrow> Inr (t\<lparr>tu_request := q\<rparr>)
        | Some raw \<Rightarrow> bindR (parseMessage raw ''assistant'') (\<lambda>a. Inr (t\<lparr>tu_request := q, tu_response := Some a\<rparr>))))"

section \<open>The conversation store\<close>

text \<open>
  The \<open>catch\<close> of a transaction: an error that is not a \<open>SecretaryConversationError\<close> becomes a conflict.
\<close>

definition conv_caught :: "conversation_error \<Rightarrow> conversation_error" where
  "conv_caught e = (case e of ConvBroken m \<Rightarrow> ConvConflict (take 1000 m) | _ \<Rightarrow> e)"

definition conv_transaction :: "'a conversation \<Rightarrow> 'a conversation" where
  "conv_transaction m = (\<lambda>s. case transaction m s of (Inl e, s') \<Rightarrow> (Inl (conv_caught e), s') | (Inr a, s') \<Rightarrow> (Inr a, s'))"

definition sql_failed :: conversation_error where
  "sql_failed = ConvBroken ''constraint failed''"

definition validateSessionId :: "string \<Rightarrow> 'a conversation \<Rightarrow> 'a conversation" where
  "validateSessionId sid m =
     (if isSecretarySessionId sid then m else throw (ConvInvalid ''sessionId must be an exact canonical sec- identity''))"

definition with_time :: "time \<Rightarrow> 'a conversation \<Rightarrow> 'a conversation" where
  "with_time now m = (if isSafeInteger (Num now) then m else throw (ConvInvalid ''secretary conversation time is invalid''))"

definition with_turn_id :: "string \<Rightarrow> 'a conversation \<Rightarrow> 'a conversation" where
  "with_turn_id tid m = (if isSecretaryTurnId tid then m else throw (ConvInvalid ''turnId must be an exact canonical stn- identity''))"

definition requireReadySession :: "string \<Rightarrow> unit conversation" where
  "requireReadySession sid = reads (\<lambda>db. case find (\<lambda>r. se_id r = sid) (sd_sessions db) of
     None \<Rightarrow> throw (ConvNotFound ''secretary session is unavailable'')
   | Some r \<Rightarrow> require (se_status r = SecReady) (ConvUnavailable ''secretary session is not ready''))"

definition turns_of :: "string \<Rightarrow> secretary_db \<Rightarrow> turn_row list" where
  "turns_of sid db = filter (\<lambda>t. tu_session t = sid) (sd_turns db)"

definition by_sequence :: "turn_row \<Rightarrow> turn_row \<Rightarrow> bool" where
  "by_sequence a b \<longleftrightarrow> tu_sequence a \<le> tu_sequence b"

definition turn_status_of :: "string \<Rightarrow> turn_row conversation" where
  "turn_status_of tid = with_turn_id tid (reads (\<lambda>db. case find (\<lambda>t. tu_id t = tid) (sd_turns db) of
     None \<Rightarrow> throw (ConvNotFound ''secretary turn is unavailable'') | Some t \<Rightarrow> lift (rowTurn t)))"

definition turn_list :: "string \<Rightarrow> turn_row list conversation" where
  "turn_list sid = validateSessionId sid (reads (\<lambda>db. lift (collect (map rowTurn (sort_by by_sequence (turns_of sid db))))))"

definition last_sequence :: "turn_row list \<Rightarrow> nat" where
  "last_sequence ts = foldr (\<lambda>t m. max (tu_sequence t) m) ts 0"

definition new_turn :: "string \<Rightarrow> string \<Rightarrow> nat \<Rightarrow> string \<Rightarrow> time \<Rightarrow> turn_row" where
  "new_turn tid sid n request now =
     \<lparr>tu_id = tid, tu_session = sid, tu_sequence = n, tu_status = Queued, tu_request = request, tu_response = None,
      tu_created = now, tu_updated = now, tu_claimed = None, tu_completed = None, tu_last_error = None\<rparr>"

text \<open>
  The \<open>INSERT\<close>, with the primary key, the foreign key, the two unique indexes and the checks of the
  table. The row is pristine by construction.
\<close>

definition insert_turn :: "turn_row \<Rightarrow> unit conversation" where
  "insert_turn t = reads (\<lambda>db.
     if turn_check t \<and> tu_id t \<notin> tu_id ` set (sd_turns db) \<and> tu_session t \<in> se_id ` set (sd_sessions db) \<and>
        tu_sequence t \<notin> tu_sequence ` set (turns_of (tu_session t) db) \<and>
        \<not> list_ex (\<lambda>x. turn_active (tu_status x)) (turns_of (tu_session t) db)
     then modify (\<lambda>db. db\<lparr>sd_turns := sd_turns db @ [t]\<rparr>) else throw sql_failed)"

definition turn_enqueue :: "time \<Rightarrow> string list \<Rightarrow> string \<Rightarrow> json option \<Rightarrow> turn_row conversation" where
  "turn_enqueue now candidates sid request = validateSessionId sid (
     andThen (lift (conv_message request ''user'')) (\<lambda>c. with_time now (
     andThen (conv_transaction (
       andThen (requireReadySession sid) (\<lambda>_. reads (\<lambda>db.
         let ts = turns_of sid db in
         if length ts \<ge> MAX_CONVERSATION_TURNS
         then throw (ConvUnavailable (''secretary conversation reached '' @ decimal MAX_CONVERSATION_TURNS @ '' turn limit''))
         else if list_ex (\<lambda>t. turn_active (tu_status t)) ts
         then throw (ConvConflict ''secretary session already has an active turn'')
         else andThen (lift (draw_id isSecretaryTurnId (map tu_id (sd_turns db))
                (ConvInvalid ''secretary turn id source returned a non-canonical identity'')
                (ConvConflict ''secretary turn id space is exhausted'') (take 32 candidates))) (\<lambda>tid.
              andThen (insert_turn (new_turn tid sid (last_sequence ts + 1) (message_json ''user'' c) now)) (\<lambda>_. ok tid)))))) (\<lambda>tid.
     turn_status_of tid))))"

text \<open>The transcript that \<open>claim\<close> hands out: completed exchanges and the claimed request.\<close>

fun messages_of :: "turn_row list \<Rightarrow> conversation_error + sec_message list" where
  "messages_of [] = Inr []"
| "messages_of (t # ts) =
     (if tu_status t = Completed
      then (case tu_response t of
              None \<Rightarrow> Inl (ConvBroken ''completed secretary turn has no response'')
            | Some a \<Rightarrow> bindR (messages_of ts) (\<lambda>ms. Inr ((''user'', tu_request t) # (''assistant'', a) # ms)))
      else bindR (messages_of ts) (\<lambda>ms. Inr ((''user'', tu_request t) # ms)))"

definition in_transcript :: "string \<Rightarrow> turn_row \<Rightarrow> turn_row \<Rightarrow> bool" where
  "in_transcript sid q t \<longleftrightarrow> tu_session t = sid \<and> tu_sequence t \<le> tu_sequence q \<and> (tu_status t = Completed \<or> tu_id t = tu_id q)"

definition set_claimed :: "time \<Rightarrow> turn_row \<Rightarrow> turn_row" where
  "set_claimed now t = t\<lparr>tu_status := Claimed, tu_claimed := Some now, tu_updated := now\<rparr>"

definition open_turn :: "string \<Rightarrow> string \<Rightarrow> turn_status \<Rightarrow> turn_row \<Rightarrow> bool" where
  "open_turn tid sid st t \<longleftrightarrow> tu_id t = tid \<and> tu_session t = sid \<and> tu_status t = st"

definition reread_turn :: "string \<Rightarrow> turn_row conversation" where
  "reread_turn tid = reads (\<lambda>db. case find (\<lambda>t. tu_id t = tid) (sd_turns db) of
     None \<Rightarrow> throw (ConvBroken ''secretary turn has invalid identity'') | Some t \<Rightarrow> lift (rowTurn t))"

definition claim_queued :: "time \<Rightarrow> string \<Rightarrow> turn_row \<Rightarrow> (turn_row \<times> sec_message list) conversation" where
  "claim_queued now sid row =
     andThen (lift (rowTurn row)) (\<lambda>q.
     andThen (update_turns sql_failed (open_turn (tu_id q) sid Queued) (set_claimed now)) (\<lambda>k.
     andThen (require (k = 1) (ConvConflict ''secretary turn changed while being claimed'')) (\<lambda>_.
     andThen (reads (\<lambda>db. lift (bindR (collect (map rowTurn (sort_by by_sequence (filter (in_transcript sid q) (sd_turns db)))))
         messages_of))) (\<lambda>ms.
     andThen (reread_turn (tu_id q)) (\<lambda>t. ok (t, ms))))))"

definition turn_claim :: "time \<Rightarrow> string \<Rightarrow> (turn_row \<times> sec_message list) option conversation" where
  "turn_claim now sid = validateSessionId sid (with_time now (conv_transaction (
     andThen (requireReadySession sid) (\<lambda>_. reads (\<lambda>db.
     case sort_by by_sequence (filter (turn_of sid Queued) (sd_turns db)) of
       [] \<Rightarrow> ok None
     | row # _ \<Rightarrow> andThen (claim_queued now sid row) (\<lambda>r. ok (Some r)))))))"

definition set_completed :: "time \<Rightarrow> string \<Rightarrow> turn_row \<Rightarrow> turn_row" where
  "set_completed now response t =
     t\<lparr>tu_status := Completed, tu_response := Some response, tu_completed := Some now, tu_updated := now\<rparr>"

definition complete_current :: "time \<Rightarrow> string \<Rightarrow> string \<Rightarrow> string \<Rightarrow> turn_row \<Rightarrow> turn_row conversation" where
  "complete_current now sid tid c current =
     (if tu_status current = Completed
      then (if map_option (message_json ''assistant'') (tu_response current) \<noteq> Some (message_json ''assistant'' c)
            then throw (ConvConflict ''secretary turn was completed with a different response'')
            else ok current)
      else if tu_status current \<noteq> Claimed then throw (ConvConflict ''secretary turn is not claimed'')
      else andThen (update_turns sql_failed (open_turn tid sid Claimed) (set_completed now (message_json ''assistant'' c))) (\<lambda>k.
        andThen (require (k = 1) (ConvConflict ''secretary turn changed while completing'')) (\<lambda>_. reread_turn tid)))"

definition turn_complete :: "time \<Rightarrow> string \<Rightarrow> string \<Rightarrow> json option \<Rightarrow> turn_row conversation" where
  "turn_complete now sid tid response = validateSessionId sid (with_turn_id tid (
     andThen (lift (conv_message response ''assistant'')) (\<lambda>c. with_time now (conv_transaction (
     andThen (requireReadySession sid) (\<lambda>_. reads (\<lambda>db.
     case find (\<lambda>t. tu_id t = tid \<and> tu_session t = sid) (sd_turns db) of
       None \<Rightarrow> throw (ConvNotFound ''secretary turn is unavailable'')
     | Some row \<Rightarrow> andThen (lift (rowTurn row)) (complete_current now sid tid c))))))))"

definition recoverClaimed :: "time \<Rightarrow> nat conversation" where
  "recoverClaimed now = with_time now (update_turns sql_failed (\<lambda>t. tu_status t = Claimed)
     (end_turn Ambiguous now ''secretary host restarted with a claimed turn''))"

definition settleSession :: "time \<Rightarrow> string \<Rightarrow> string \<Rightarrow> nat conversation" where
  "settleSession now sid reason = validateSessionId sid (
     if length reason < 1 \<or> length reason > 1000
     then throw (ConvInvalid ''session settlement reason must contain 1 to 1000 characters'')
     else with_time now (conv_transaction (
       andThen (update_turns sql_failed (turn_of sid Queued) (end_turn TurnCancelled now reason)) (\<lambda>q.
       andThen (update_turns sql_failed (turn_of sid Claimed) (end_turn Ambiguous now reason)) (\<lambda>c. ok (q + c))))))"

section \<open>The broker and its requests\<close>

definition conv_binding :: "(string \<Rightarrow> string) \<Rightarrow> string \<Rightarrow> secretary_binding conversation" where
  "conv_binding sha tok = reads (\<lambda>db. case resolveSecretarySession sha db tok of
     None \<Rightarrow> throw (ConvUnauthorized ''secretary session is unavailable'') | Some b \<Rightarrow> ok b)"

definition conv_pull :: "(string \<Rightarrow> string) \<Rightarrow> time \<Rightarrow> string \<Rightarrow> (secretary_binding \<times> (string \<times> nat \<times> sec_message list) option) conversation" where
  "conv_pull sha now tok =
     andThen (conv_binding sha tok) (\<lambda>b. reads (\<lambda>db.
     if map_option se_status (find (\<lambda>r. se_id r = bi_session b) (sd_sessions db)) = Some SecStarting then ok (b, None)
     else andThen (turn_claim now (bi_session b)) (\<lambda>c.
       ok (b, map_option (\<lambda>(t, ms). (tu_id t, tu_sequence t, ms)) c))))"

definition conv_complete :: "(string \<Rightarrow> string) \<Rightarrow> time \<Rightarrow> string \<Rightarrow> string \<Rightarrow> json option \<Rightarrow> (secretary_binding \<times> string \<times> nat \<times> time) conversation" where
  "conv_complete sha now tok tid response =
     andThen (conv_binding sha tok) (\<lambda>b.
     andThen (turn_complete now (bi_session b) tid response) (\<lambda>t.
     case tu_completed t of
       Some d \<Rightarrow> if tu_status t = Completed then ok (b, tu_id t, tu_sequence t, d)
         else throw (ConvBroken ''completed secretary turn has no completion receipt'')
     | None \<Rightarrow> throw (ConvBroken ''completed secretary turn has no completion receipt'')))"

datatype conversation_reply =
    TurnPulled secretary_binding "(string \<times> nat \<times> sec_message list) option"
  | TurnCompleted secretary_binding string nat time

datatype conversation_request_error = BadConversationRequest string | ConversationRefused conversation_error

definition conv_exact :: "(string \<times> json) list \<Rightarrow> string list \<Rightarrow> conversation_request_error + unit" where
  "conv_exact fs keys = (if sort (map fst fs) \<noteq> sort keys
     then Inl (BadConversationRequest (''request fields must be exactly '' @ join '', '' (sort keys))) else Inr ())"

definition on_conversation :: "'a conversation \<Rightarrow> (conversation_request_error, secretary_db, 'a) action" where
  "on_conversation m = (\<lambda>s. map_prod (map_sum ConversationRefused id) id (m s))"

definition dispatchSecretaryConversationRequest ::
  "(string \<Rightarrow> string) \<Rightarrow> time \<Rightarrow> string \<Rightarrow> (string \<times> json) list \<Rightarrow> (conversation_request_error, secretary_db, conversation_reply) action" where
  "dispatchSecretaryConversationRequest sha now tok fs =
     (if map_of fs ''protocol'' \<noteq> Some (JNum 1) then throw (BadConversationRequest ''protocol must equal 1'')
      else if map_of fs ''operation'' = Some (JStr ''pull'') then
        andThen (lift (conv_exact fs [''operation'', ''protocol''])) (\<lambda>_.
        andThen (on_conversation (conv_pull sha now tok)) (\<lambda>(b, t). ok (TurnPulled b t)))
      else if map_of fs ''operation'' = Some (JStr ''complete'') then
        andThen (lift (conv_exact fs [''operation'', ''protocol'', ''response'', ''turnId''])) (\<lambda>_.
        case map_of fs ''turnId'' of
          Some (JStr tid) \<Rightarrow> andThen (on_conversation (conv_complete sha now tok tid (map_of fs ''response'')))
            (\<lambda>(b, i, n, d). ok (TurnCompleted b i n d))
        | _ \<Rightarrow> throw (BadConversationRequest ''turnId must be a string''))
      else throw (BadConversationRequest ''operation must be pull or complete''))"

end
