(* ===== verification/Secretary_Spawn.thy ===== *)
theory Secretary_Spawn
  imports Secretary_Conversation
begin

text \<open>
  Starting, closing, recovering and reconciling secretary sessions (\<open>src/src/secretary/spawn.ts\<close>), and the
  supervisor that runs recovery when the host starts and reconciliation afterwards
  (\<open>src/src/secretary/supervisor.ts\<close>).

  The asynchronous methods are cut at the calls of the pod runtime; the state records those calls in
  order. A start is under way between its reservation and the outcome of \<open>provision\<close>; starts run one at
  a time (\<open>startTail\<close>), so \<open>se_start\<close> holds at most one. A pass over the sessions inspects one pod after
  another; what is done with one answer is \<open>inspected\<close>. A cleanup whose error is swallowed has no effect
  beyond its call. Timers and logging are left out.
\<close>

section \<open>State\<close>

datatype runtime_call = Provision string | CleanUp string

record secretary_broker =
  sk_db :: secretary_db
  sk_start :: "string option"
  sk_calls :: "runtime_call list"

record secretary_config =
  sg_enabled :: bool
  sg_model_ref :: "string option"
  sg_max :: nat

datatype pod_state = PodStarting | PodUp string string | PodBroken "string option" | PodGone

datatype secretary_spawn_error =
    SecSpawnUnavailable string
  | SecSpawnConflict string
  | SecSpawnNotFound string
  | SecProvisionFailed string
  | SecCleanupFailed string
  | SecSession session_error
  | StartPending

type_synonym 'a secretary_spawning = "(secretary_spawn_error, secretary_broker, 'a) action"

definition on_sessions :: "'a session_store \<Rightarrow> 'a secretary_spawning" where
  "on_sessions m = (\<lambda>s. case m (sk_db s) of (r, db) \<Rightarrow> (map_sum SecSession id r, s\<lparr>sk_db := db\<rparr>))"

definition session_message :: "session_error \<Rightarrow> string" where
  "session_message e = (case e of SessInvalid m \<Rightarrow> m | SessNotFound m \<Rightarrow> m | SessConflict m \<Rightarrow> m | SessBroken m \<Rightarrow> m)"

definition call_runtime :: "runtime_call \<Rightarrow> unit secretary_spawning" where
  "call_runtime c = modify (\<lambda>s. s\<lparr>sk_calls := sk_calls s @ [c]\<rparr>)"

definition spawn_boundedError :: "string \<Rightarrow> string" where
  "spawn_boundedError m = take 1000 m"

definition valid_receipt :: "string \<Rightarrow> string \<Rightarrow> bool" where
  "valid_receipt n u \<longleftrightarrow> 1 \<le> length n \<and> length n \<le> 253 \<and> 1 \<le> length u \<and> length u \<le> 128"

definition invalid_receipt :: string where
  "invalid_receipt = ''secretary runtime returned an invalid Pod identity''"

definition receipt_json :: "string \<Rightarrow> string \<Rightarrow> json" where
  "receipt_json n u = JObj [(''podName'', JStr n), (''podUid'', JStr u)]"

section \<open>Reads\<close>

definition sec_list :: "secretary_session list secretary_spawning" where
  "sec_list = reads (\<lambda>s. lift (map_sum SecSession id (session_list (sk_db s))))"

definition sec_status :: "string \<Rightarrow> secretary_session secretary_spawning" where
  "sec_status sid = reads (\<lambda>s. andThen (lift (map_sum SecSession id (session_get sid (sk_db s)))) (\<lambda>x. case x of
     None \<Rightarrow> throw (SecSpawnNotFound ''secretary session is unavailable'') | Some y \<Rightarrow> ok y))"

section \<open>Start\<close>

text \<open>\<open>startInside\<close> up to the call of \<open>provision\<close>; a start that is under way makes the next one wait.\<close>

definition sec_start_begin ::
  "secretary_config \<Rightarrow> (string \<Rightarrow> string) \<Rightarrow> string list \<Rightarrow> time \<Rightarrow> string list \<Rightarrow> string \<times> string \<Rightarrow> string option \<Rightarrow>
    (secretary_session \<times> string) secretary_spawning" where
  "sec_start_begin cf sha items now candidates credential hint = reads (\<lambda>s.
     andThen (require (sk_start s = None) StartPending) (\<lambda>_.
     andThen (require (sg_enabled cf) (SecSpawnUnavailable ''secretary runtime is disabled'')) (\<lambda>_.
     case sg_model_ref cf of
       None \<Rightarrow> throw (SecSpawnUnavailable ''llm.roles.secretary is not configured'')
     | Some ref \<Rightarrow>
         andThen sec_list (\<lambda>ss.
         andThen (require (length (filter (\<lambda>x. sec_active (se_status x)) ss) < sg_max cf)
             (SecSpawnConflict ''secretary session capacity is exhausted'')) (\<lambda>_.
         andThen (on_sessions (session_create sha items now candidates credential hint ref)) (\<lambda>(x, tok).
         andThen (call_runtime (Provision (se_id x))) (\<lambda>_.
         andThen (modify (\<lambda>s. s\<lparr>sk_start := Some (se_id x)\<rparr>)) (\<lambda>_. ok (x, tok)))))))))"

text \<open>
  The rest, from the outcome of \<open>provision\<close> on: a receipt, or the message of an error. When the session
  cannot be readied it is failed and its pod cleaned up; when failing it throws, that error leaves the
  method and nothing is cleaned up.
\<close>

definition start_failed :: "time \<Rightarrow> string \<Rightarrow> secretary_spawn_error \<Rightarrow> string \<Rightarrow> 'a secretary_spawning" where
  "start_failed now sid e msg =
     andThen (on_sessions (session_fail now sid msg)) (\<lambda>_.
     andThen (call_runtime (CleanUp sid)) (\<lambda>_. throw e))"

definition start_outcome :: "time \<Rightarrow> string \<Rightarrow> string + string \<times> string \<Rightarrow> secretary_session secretary_spawning" where
  "start_outcome now sid r = (case r of
     Inl msg \<Rightarrow> start_failed now sid (SecProvisionFailed (spawn_boundedError msg)) msg
   | Inr (n, u) \<Rightarrow>
       if \<not> valid_receipt n u then start_failed now sid (SecProvisionFailed (spawn_boundedError invalid_receipt)) invalid_receipt
       else (\<lambda>s. case on_sessions (session_ready now sid (receipt_json n u)) s of
           (Inr x, s') \<Rightarrow> (Inr x, s')
         | (Inl (SecSession (SessBroken m)), s') \<Rightarrow> start_failed now sid (SecProvisionFailed (spawn_boundedError m)) m s'
         | (Inl (SecSession e), s') \<Rightarrow> start_failed now sid (SecSession e) (session_message e) s'
         | (Inl e, s') \<Rightarrow> (Inl e, s')))"

definition sec_start_end :: "time \<Rightarrow> string + string \<times> string \<Rightarrow> secretary_session secretary_spawning" where
  "sec_start_end now r = (\<lambda>s. case sk_start s of
     None \<Rightarrow> (Inl StartPending, s)
   | Some sid \<Rightarrow> start_outcome now sid r (s\<lparr>sk_start := None\<rparr>))"

section \<open>Close\<close>

text \<open>\<open>cleaned\<close> is the outcome of the cleanup: \<open>None\<close>, or the message of its error.\<close>

definition sec_close :: "time \<Rightarrow> string \<Rightarrow> string option \<Rightarrow> secretary_session secretary_spawning" where
  "sec_close now sid cleaned =
     andThen (sec_status sid) (\<lambda>current.
     andThen (if se_status current = SecFailed \<or> se_status current = SecClosed then ok current
        else on_sessions (session_close now sid)) (\<lambda>x.
     andThen (call_runtime (CleanUp (se_id x))) (\<lambda>_. case cleaned of
        Some m \<Rightarrow> throw (SecCleanupFailed (spawn_boundedError m)) | None \<Rightarrow> ok x)))"

section \<open>Recovery and reconciliation\<close>

definition inspectable :: "bool \<Rightarrow> secretary_status \<Rightarrow> bool" where
  "inspectable includeStarting st \<longleftrightarrow> st = SecReady \<or> (includeStarting \<and> st = SecStarting)"

definition sec_active_session :: "bool \<Rightarrow> string \<Rightarrow> secretary_session option secretary_spawning" where
  "sec_active_session starting sid = reads (\<lambda>s. andThen (lift (map_sum SecSession id (session_get sid (sk_db s)))) (\<lambda>x.
     ok (case x of None \<Rightarrow> None | Some y \<Rightarrow> if inspectable starting (se_status y) then Some y else None)))"

definition fail_and_clean :: "time \<Rightarrow> string \<Rightarrow> string \<Rightarrow> unit secretary_spawning" where
  "fail_and_clean now sid msg =
     andThen (on_sessions (session_fail now sid msg)) (\<lambda>x. call_runtime (CleanUp (se_id x)))"

definition fail_if_active :: "time \<Rightarrow> bool \<Rightarrow> string \<Rightarrow> string \<Rightarrow> unit secretary_spawning" where
  "fail_if_active now starting sid msg = andThen (sec_active_session starting sid) (\<lambda>c. case c of
     None \<Rightarrow> ok () | Some x \<Rightarrow> fail_and_clean now (se_id x) msg)"

text \<open>The body of the \<open>try\<close> for a pod that is up, without its \<open>catch\<close>.\<close>

definition pod_is_up :: "time \<Rightarrow> bool \<Rightarrow> string \<Rightarrow> string \<Rightarrow> string \<Rightarrow> unit secretary_spawning" where
  "pod_is_up now starting sid n u = andThen (sec_active_session starting sid) (\<lambda>c. case c of
     None \<Rightarrow> ok ()
   | Some x \<Rightarrow>
       if se_status x = SecStarting then andThen (on_sessions (session_ready now (se_id x) (receipt_json n u))) (\<lambda>_. ok ())
       else if se_pod_name x = Some n \<and> se_pod_uid x = Some u then ok ()
       else fail_and_clean now (se_id x) ''secretary Pod identity changed'')"

definition spawn_message :: "secretary_spawn_error \<Rightarrow> string" where
  "spawn_message e = (case e of SecSession x \<Rightarrow> session_message x | SecSpawnUnavailable m \<Rightarrow> m | SecSpawnConflict m \<Rightarrow> m |
     SecSpawnNotFound m \<Rightarrow> m | SecProvisionFailed m \<Rightarrow> m | SecCleanupFailed m \<Rightarrow> m | StartPending \<Rightarrow> [])"

text \<open>What a pass does with one answer of \<open>inspect\<close>; \<open>Inl\<close> is its error.\<close>

definition inspected :: "time \<Rightarrow> bool \<Rightarrow> string \<Rightarrow> string + pod_state \<Rightarrow> unit secretary_spawning" where
  "inspected now starting sid r = (case r of
     Inl msg \<Rightarrow> fail_if_active now starting sid msg
   | Inr PodStarting \<Rightarrow> ok ()
   | Inr (PodUp n u) \<Rightarrow>
       if \<not> valid_receipt n u then fail_if_active now starting sid invalid_receipt
       else (\<lambda>s. case pod_is_up now starting sid n u s of
           (Inr _, s') \<Rightarrow> (Inr (), s')
         | (Inl e, s') \<Rightarrow> fail_if_active now starting sid (spawn_message e) s')
   | Inr (PodBroken m) \<Rightarrow> fail_if_active now starting sid (case m of None \<Rightarrow> ''secretary Pod failed'' | Some x \<Rightarrow> x)
   | Inr PodGone \<Rightarrow> fail_if_active now starting sid ''secretary Pod is missing'')"

text \<open>
  A pass that no other call interrupts: the answer for a session is a function of its id. Sessions that
  have ended since the list was read are skipped.
\<close>

definition inspect_one :: "time \<Rightarrow> bool \<Rightarrow> (string \<Rightarrow> string + pod_state) \<Rightarrow> string \<Rightarrow> unit secretary_spawning" where
  "inspect_one now starting answer sid = andThen (sec_active_session starting sid) (\<lambda>c. case c of
     None \<Rightarrow> ok () | Some _ \<Rightarrow> inspected now starting sid (answer sid))"

definition inspectActive :: "time \<Rightarrow> bool \<Rightarrow> (string \<Rightarrow> string + pod_state) \<Rightarrow> secretary_session list secretary_spawning" where
  "inspectActive now starting answer = andThen sec_list (\<lambda>ss.
     andThen (for_each (inspect_one now starting answer) (map se_id ss)) (\<lambda>_. sec_list))"

definition sec_recover :: "time \<Rightarrow> (string \<Rightarrow> string + pod_state) \<Rightarrow> secretary_session list secretary_spawning" where
  "sec_recover now answer = inspectActive now True answer"

definition sec_reconcile :: "time \<Rightarrow> (string \<Rightarrow> string + pod_state) \<Rightarrow> secretary_session list secretary_spawning" where
  "sec_reconcile now answer = inspectActive now False answer"

section \<open>The supervisor\<close>

definition on_conv :: "'a conversation \<Rightarrow> secretary_broker \<Rightarrow> secretary_broker" where
  "on_conv m s = s\<lparr>sk_db := snd (m (sk_db s))\<rparr>"

datatype secretary_supervisor_error = RecoverTurnsFailed conversation_error | RecoverFailed secretary_spawn_error

text \<open>
  \<open>startSecretarySupervisor\<close>: nothing when the runtime is disabled; otherwise claimed turns become
  ambiguous, then the sessions are recovered. A process that starts has no start under way.
\<close>

definition startSecretarySupervisor ::
  "secretary_config \<Rightarrow> time \<Rightarrow> (string \<Rightarrow> string + pod_state) \<Rightarrow> secretary_broker \<Rightarrow> (secretary_supervisor_error + (nat \<times> nat) option) \<times> secretary_broker" where
  "startSecretarySupervisor cf now answer s0 =
     (let s = s0\<lparr>sk_start := None\<rparr> in
      if \<not> sg_enabled cf then (Inr None, s)
      else case recoverClaimed now (sk_db s) of
        (Inl e, db) \<Rightarrow> (Inl (RecoverTurnsFailed e), s\<lparr>sk_db := db\<rparr>)
      | (Inr ambiguous, db) \<Rightarrow>
          (case sec_recover now answer (s\<lparr>sk_db := db\<rparr>) of
             (Inl e, s') \<Rightarrow> (Inl (RecoverFailed e), s')
           | (Inr ss, s') \<Rightarrow> (Inr (Some (length (filter (\<lambda>x. sec_active (se_status x)) ss), ambiguous)), s')))"

text \<open>The supervisor's \<open>reconcile\<close>: skipped when no session is ready, errors are logged and dropped.\<close>

definition supervisor_reconcile :: "time \<Rightarrow> (string \<Rightarrow> string + pod_state) \<Rightarrow> secretary_broker \<Rightarrow> secretary_broker" where
  "supervisor_reconcile now answer s = (case session_list (sk_db s) of
     Inl _ \<Rightarrow> s
   | Inr ss \<Rightarrow> if list_ex (\<lambda>x. se_status x = SecReady) ss then snd (sec_reconcile now answer s) else s)"

end
