(* ===== verification/Secretary_Invariant.thy ===== *)
theory Secretary_Invariant
  imports Secretary_Spawn
begin

text \<open>
  The integrity of the secretary tables: sessions and turns are readable, the turns of a session are
  numbered without gaps, only the last may be open, and only while its session is ready.
\<close>

section \<open>Stored messages\<close>

lemma length_json_escape: "length (json_escape c) \<le> 6"
  by (simp add: json_escape_def Let_def)

lemma length_json_quote: "length (json_quote s) \<le> 6 * length s + 2"
proof -
  have "length (concat (map json_escape s)) \<le> 6 * length s"
    using length_json_escape by (induction s) (auto intro: order_trans [OF add_mono])
  then show ?thesis by (simp add: json_quote_def)
qed

lemma length_utf8: "length s \<le> length (utf8 s)"
proof (induction s)
  case (Cons c s)
  have "1 \<le> length (utf8_char c)" by (simp add: utf8_char_def Let_def)
  with Cons show ?case by simp
qed simp

lemma hex_nth_nonzero: "k < 16 \<Longrightarrow> code_unit (''0123456789abcdef'' ! k) \<noteq> 0"
proof -
  have "list_all (\<lambda>k. code_unit (''0123456789abcdef'' ! k) \<noteq> 0) [0..<16]" by code_simp
  then show "k < 16 \<Longrightarrow> ?thesis" by (simp add: list_all_iff)
qed

lemma json_escape_nonzero: "x \<in> set (json_escape c) \<Longrightarrow> code_unit x \<noteq> 0"
proof (cases "code_unit c < 32")
  case True
  then have d: "code_unit c div 16 < 16" "code_unit c mod 16 < 16" by simp_all
  have "\<forall>x \<in> set (json_escape c). code_unit x \<noteq> 0"
    using hex_nth_nonzero [OF d(1)] hex_nth_nonzero [OF d(2)] True
    by (auto simp: json_escape_def Let_def code_unit_def simp del: nth_Cons_numeral)
  then show "x \<in> set (json_escape c) \<Longrightarrow> ?thesis" by blast
next
  case False
  then show "x \<in> set (json_escape c) \<Longrightarrow> ?thesis"
    by (auto simp: json_escape_def Let_def code_unit_def split: if_splits)
qed

lemma sql_length_plain: "(\<And>c. c \<in> set s \<Longrightarrow> code_unit c \<noteq> 0) \<Longrightarrow> sql_length s = length s"
  by (simp add: sql_length_def takeWhile_eq_all_conv [THEN iffD2])

lemma sql_length_le: "sql_length s \<le> length s"
  by (simp add: sql_length_def length_takeWhile_le)

lemma sql_length_quote: "sql_length (json_quote s) = length (json_quote s)"
  by (rule sql_length_plain) (auto simp: json_quote_def code_unit_def dest: json_escape_nonzero [unfolded code_unit_def])

lemma json_value_string: "json_value (json_quote s @ rest) = Some (JStr s, rest)"
proof -
  have "\<not> json_space CHR 0x22" by code_simp
  then show ?thesis by (simp add: json_quote_def json_value.simps json_chars_quoted)
qed

lemma json_quote_Cons: "json_quote k @ r = CHR 0x22 # concat (map json_escape k) @ CHR 0x22 # r"
  by (simp add: json_quote_def)

lemma json_quote_ne [simp]: "json_quote s \<noteq> []"
  by (simp add: json_quote_def)

lemma json_marks: "\<not> json_space CHR 0x22" "\<not> json_space CHR '':''" "\<not> json_space CHR ''}''" "\<not> json_space CHR '',''" "\<not> json_space CHR ''{''"
  by code_simp+

lemma json_fields_string:
  "json_fields acc (json_quote k @ CHR '':'' # json_quote s @ CHR ''}'' # r) = Some (JObj (AList.update k (JStr s) acc), r)"
  "json_fields acc (json_quote k @ CHR '':'' # json_quote s @ CHR '','' # r) = json_fields (AList.update k (JStr s) acc) r"
  by (subst json_fields.simps, simp add: json_quote_Cons [of k] json_chars_quoted json_value_string json_marks)+

lemma json_parse_message:
  "json_parse (message_json role c) = Some (JObj [(''role'', JStr role), (''content'', JStr c)])"
proof -
  have "json_value (message_json role c) = json_fields [] (json_quote ''role'' @ CHR '':'' # json_quote role @ CHR '','' #
      json_quote ''content'' @ CHR '':'' # json_quote c @ CHR ''}'' # [])"
    by (subst json_value.simps) (simp add: message_json_def json_marks json_quote_Cons [of "''role''"])
  then show ?thesis by (simp add: json_parse_def json_fields_string)
qed

text \<open>A valid message is read back as it was stored, and its text satisfies the checks of the column.\<close>

definition valid_content :: "string \<Rightarrow> bool" where
  "valid_content c \<longleftrightarrow> trim c \<noteq> [] \<and> length (utf8 c) \<le> MAX_CONTENT_CHARS"

lemma conv_message_valid: "conv_message v role = Inr c \<Longrightarrow> valid_content c"
  by (auto simp: conv_message_def valid_content_def split: option.splits json.splits if_splits)

lemma parse_stored: "valid_content c \<Longrightarrow> parseMessage (message_json role c) role = Inr c"
proof -
  have "sort [''role'', ''content''] = [''content'', ''role'']" by code_simp
  then show "valid_content c \<Longrightarrow> ?thesis"
    by (simp add: parseMessage_def json_parse_message conv_message_def valid_content_def)
qed

lemma stored_fits: "length role \<le> 9 \<Longrightarrow> valid_content c \<Longrightarrow> json_object_text (message_json role c)"
proof -
  assume role: "length role \<le> 9" and c: "valid_content c"
  have len: "length (message_json role c) \<le> 6 * length c + 400" "2 \<le> length (message_json role c)"
    using length_json_quote [of role] length_json_quote [of c] length_json_quote [of "''role''"] length_json_quote [of "''content''"] role
    by (simp_all add: message_json_def)
  have "sql_length (message_json role c) = length (message_json role c)"
    by (rule sql_length_plain)
      (auto simp: message_json_def json_quote_def code_unit_def dest: json_escape_nonzero [unfolded code_unit_def])
  moreover have "length c \<le> 32768" using c length_utf8 [of c] by (simp add: valid_content_def MAX_CONTENT_CHARS_def)
  ultimately show ?thesis using len by (simp add: json_object_text_def json_parse_message)
qed

section \<open>The invariant\<close>

definition readable_turn :: "turn_row \<Rightarrow> bool" where
  "readable_turn t \<longleftrightarrow> (\<exists>v. rowTurn t = Inr v)"

definition good_turn :: "turn_row \<Rightarrow> bool" where
  "good_turn t \<longleftrightarrow> turn_check t \<and> turn_lifecycle t \<and> readable_turn t"

definition good_session :: "secretary_row \<Rightarrow> bool" where
  "good_session r \<longleftrightarrow> session_check r \<and> rowSession r = Inr (secretary_session.truncate r)"

text \<open>The turns of one session: numbered from one without gaps, at most sixteen, only the last one open.\<close>

definition in_order :: "turn_row list \<Rightarrow> bool" where
  "in_order ts \<longleftrightarrow> map tu_sequence ts = [1..<Suc (length ts)] \<and> length ts \<le> MAX_CONVERSATION_TURNS \<and>
     (\<forall>t \<in> set (butlast ts). \<not> turn_active (tu_status t))"

definition open_turns_ready :: "secretary_db \<Rightarrow> bool" where
  "open_turns_ready db \<longleftrightarrow> (\<forall>t \<in> set (sd_turns db). turn_active (tu_status t) \<longrightarrow>
     (\<exists>r \<in> set (sd_sessions db). se_id r = tu_session t \<and> se_status r = SecReady))"

definition live_sessions :: "secretary_db \<Rightarrow> secretary_row list" where
  "live_sessions db = filter (\<lambda>r. sec_active (se_status r)) (sd_sessions db)"

definition sec_inv :: "nat \<Rightarrow> secretary_db \<Rightarrow> bool" where
  "sec_inv mx db \<longleftrightarrow> distinct (map se_id (sd_sessions db)) \<and> distinct (map se_digest (sd_sessions db)) \<and>
     (\<forall>r \<in> set (sd_sessions db). good_session r) \<and> distinct (map tu_id (sd_turns db)) \<and>
     (\<forall>t \<in> set (sd_turns db). good_turn t \<and> tu_session t \<in> se_id ` set (sd_sessions db)) \<and>
     (\<forall>sid. in_order (turns_of sid db)) \<and> open_turns_ready db \<and> length (live_sessions db) \<le> mx"

lemma sec_invD:
  assumes "sec_inv mx db"
  shows "distinct (map se_id (sd_sessions db))" "distinct (map tu_id (sd_turns db))"
    "r \<in> set (sd_sessions db) \<Longrightarrow> good_session r" "t \<in> set (sd_turns db) \<Longrightarrow> good_turn t"
    "in_order (turns_of sid db)" "open_turns_ready db" "length (live_sessions db) \<le> mx"
  using assms by (simp_all add: sec_inv_def)

lemma readable_turn_iff:
  "readable_turn t \<longleftrightarrow> isSecretaryTurnId (tu_id t) \<and> isSecretarySessionId (tu_session t) \<and>
     1 \<le> tu_sequence t \<and> tu_sequence t \<le> 9007199254740991 \<and> safe_time (Some (tu_created t)) \<and> safe_time (Some (tu_updated t)) \<and>
     safe_time (tu_claimed t) \<and> safe_time (tu_completed t) \<and> (\<exists>q. parseMessage (tu_request t) ''user'' = Inr q) \<and>
     pred_option (\<lambda>raw. \<exists>a. parseMessage raw ''assistant'' = Inr a) (tu_response t)"
  by (auto simp: readable_turn_def rowTurn_def bindR_def not_less Suc_le_eq split: option.splits sum.splits)

text \<open>An update keeps who a turn is.\<close>

definition same_turn :: "turn_row \<Rightarrow> turn_row \<Rightarrow> bool" where
  "same_turn t u \<longleftrightarrow> tu_id u = tu_id t \<and> tu_session u = tu_session t \<and> tu_sequence u = tu_sequence t \<and>
     tu_request u = tu_request t \<and> tu_created u = tu_created t"

lemma same_turn_updates [simp]:
  "same_turn t (end_turn st now reason t)" "same_turn t (set_claimed now t)" "same_turn t (set_completed now a t)" "same_turn t t"
  by (simp_all add: same_turn_def end_turn_def set_claimed_def set_completed_def)

lemma readable_updates:
  "readable_turn t \<Longrightarrow> safe_time (Some now) \<Longrightarrow> readable_turn (end_turn st now reason t)"
  "readable_turn t \<Longrightarrow> safe_time (Some now) \<Longrightarrow> readable_turn (set_claimed now t)"
  "readable_turn t \<Longrightarrow> safe_time (Some now) \<Longrightarrow> valid_content c \<Longrightarrow> readable_turn (set_completed now (message_json ''assistant'' c) t)"
  by (simp_all add: readable_turn_iff end_turn_def set_claimed_def set_completed_def parse_stored)

lemma transition_active: "turn_transition old new \<Longrightarrow> turn_active new \<Longrightarrow> turn_active old"
  by (auto simp: turn_transition_def turn_active_def)

lemma filter_update_where:
  "(\<And>r. P (f r) = P r) \<Longrightarrow> filter P (update_where p f rows) = update_where p f (filter P rows)"
  by (induction rows) (auto simp: update_where_def)

lemma live_update:
  assumes "\<And>r. r \<in> set rows \<Longrightarrow> p r \<Longrightarrow> sec_active (se_status (f r)) \<Longrightarrow> sec_active (se_status r)"
  shows "length (filter (\<lambda>r. sec_active (se_status r)) (update_where p f rows)) \<le> length (filter (\<lambda>r. sec_active (se_status r)) rows)"
  using assms
proof (induction rows)
  case (Cons r rows)
  then have "length (filter (\<lambda>r. sec_active (se_status r)) (update_where p f rows)) \<le> length (filter (\<lambda>r. sec_active (se_status r)) rows)"
    by simp
  then show ?case using Cons.prems [of r] by (auto simp: update_where_def)
qed (simp add: update_where_def)

section \<open>Updates of turns\<close>

definition passes :: "(turn_row \<Rightarrow> turn_row) \<Rightarrow> turn_row \<Rightarrow> bool" where
  "passes f t \<longleftrightarrow> turn_check (f t) \<and> turn_lifecycle (f t) \<and> turn_transition (tu_status t) (tu_status (f t))"

lemma passes_active: "passes f t \<Longrightarrow> turn_active (tu_status (f t)) \<Longrightarrow> turn_active (tu_status t)"
  using transition_active by (auto simp: passes_def)

lemma update_turns_eval:
  "update_turns e p f s =
     (if \<forall>t \<in> set (sd_turns s). p t \<longrightarrow> passes f t
      then (Inr (length (filter p (sd_turns s))), s\<lparr>sd_turns := update_where p f (sd_turns s)\<rparr>) else (Inl e, s))"
  by (auto simp: update_turns_def action_simps Let_def list_all_iff passes_def)

lemma in_order_update:
  assumes "in_order ts" and "\<And>t. same_turn t (f t)" and "\<And>t. t \<in> set ts \<Longrightarrow> p t \<Longrightarrow> passes f t"
  shows "in_order (update_where p f ts)"
proof -
  have b: "\<not> turn_active (tu_status (if p t then f t else t))" if "t \<in> set (butlast ts)" for t
    using that assms(1) passes_active [OF assms(3) [OF in_set_butlastD [OF that]]] by (auto simp: in_order_def)
  have "map tu_sequence (update_where p f ts) = map tu_sequence ts"
    by (rule map_update_where) (use assms(2) in \<open>simp add: same_turn_def\<close>)
  moreover have "\<forall>t \<in> set (butlast (update_where p f ts)). \<not> turn_active (tu_status t)"
  proof
    fix t assume "t \<in> set (butlast (update_where p f ts))"
    then have "t \<in> (\<lambda>r. if p r then f r else r) ` set (butlast ts)" by (simp only: update_where_def map_butlast [symmetric] set_map)
    then show "\<not> turn_active (tu_status t)" using b by blast
  qed
  ultimately show ?thesis using assms(1) by (simp only: in_order_def length_update_where)
qed

lemma update_turns_inv:
  assumes inv: "sec_inv mx s" and same: "\<And>t. same_turn t (f t)" and ok: "\<And>t. t \<in> set (sd_turns s) \<Longrightarrow> p t \<Longrightarrow> passes f t"
    and rd: "\<And>t. t \<in> set (sd_turns s) \<Longrightarrow> p t \<Longrightarrow> readable_turn t \<Longrightarrow> readable_turn (f t)"
  shows "sec_inv mx (s\<lparr>sd_turns := update_where p f (sd_turns s)\<rparr>)"
proof -
  have ids: "map tu_id (update_where p f (sd_turns s)) = map tu_id (sd_turns s)"
    by (rule map_update_where) (use same in \<open>simp add: same_turn_def\<close>)
  have "turns_of sid (s\<lparr>sd_turns := update_where p f (sd_turns s)\<rparr>) = update_where p f (turns_of sid s)" for sid
    unfolding turns_of_def by (simp, rule filter_update_where) (use same in \<open>simp add: same_turn_def\<close>)
  moreover have "in_order (update_where p f (turns_of sid s))" for sid
    by (rule in_order_update [OF sec_invD(5) [OF inv] same]) (simp add: ok turns_of_def)
  moreover have "good_turn (f t) \<and> tu_session (f t) \<in> se_id ` set (sd_sessions s)" if "t \<in> set (sd_turns s)" "p t" for t
    using that ok [OF that] rd [OF that] inv same [of t] by (simp add: good_turn_def passes_def sec_inv_def same_turn_def)
  moreover have "open_turns_ready (s\<lparr>sd_turns := update_where p f (sd_turns s)\<rparr>)"
    unfolding open_turns_ready_def
  proof (intro ballI impI)
    fix u assume u: "u \<in> set (sd_turns (s\<lparr>sd_turns := update_where p f (sd_turns s)\<rparr>))" "turn_active (tu_status u)"
    then obtain t where t: "t \<in> set (sd_turns s)" "u = (if p t then f t else t)" by (auto simp: update_where_def)
    then have "turn_active (tu_status t)" "tu_session u = tu_session t"
      using u(2) passes_active [OF ok [OF t(1)]] same [of t] by (auto simp: same_turn_def split: if_splits)
    then show "\<exists>r \<in> set (sd_sessions (s\<lparr>sd_turns := update_where p f (sd_turns s)\<rparr>)). se_id r = tu_session u \<and> se_status r = SecReady"
      using sec_invD(6) [OF inv] t(1) by (simp add: open_turns_ready_def)
  qed
  ultimately show ?thesis using inv ids by (auto simp: sec_inv_def set_update_where live_sessions_def)
qed

lemma safe_update_turns:
  assumes "sec_inv mx s" and "\<And>t. same_turn t (f t)"
    and "\<And>t. t \<in> set (sd_turns s) \<Longrightarrow> readable_turn t \<Longrightarrow> readable_turn (f t)"
  shows "safe_at (sec_inv mx) (update_turns e p f) s"
  using assms update_turns_inv [of mx s f p] by (simp add: safe_at_def update_turns_eval)

section \<open>Updates of sessions\<close>

text \<open>Ending the open turns of a session never violates a constraint.\<close>

lemma end_turn_passes:
  assumes "good_turn t" and "length reason \<le> 1000" and "tu_updated t \<le> now" and "tu_status t = Claimed \<or> st = TurnCancelled"
    and "turn_active (tu_status t)" and "st = Ambiguous \<or> st = TurnCancelled"
  shows "passes (\<lambda>t. end_turn st now reason t) t"
  using assms order_trans [OF sql_length_le [of reason] assms(2)]
  by (auto simp: passes_def good_turn_def turn_check_def turn_lifecycle_def end_turn_def turn_transition_def turn_active_def
      split: option.splits)

definition session_reason :: "secretary_row \<Rightarrow> string" where
  "session_reason n = (case se_last_error n of None \<Rightarrow> ''secretary session closed'' | Some m \<Rightarrow> m)"

definition settled :: "string \<Rightarrow> secretary_row \<Rightarrow> turn_row \<Rightarrow> turn_row" where
  "settled sid n t =
     (if turn_of sid Queued t then end_turn TurnCancelled (max (tu_updated t) (se_updated n)) (session_reason n) t
      else if turn_of sid Claimed t then end_turn Ambiguous (max (tu_updated t) (se_updated n)) (session_reason n) t else t)"

lemma settle_trigger_eval:
  assumes inv: "sec_inv mx s" and r: "\<not> sec_active (se_status n) \<Longrightarrow> length (session_reason n) \<le> 1000"
  shows "settle_trigger e old n s = (Inr (), if sec_active (se_status old) \<and> \<not> sec_active (se_status n)
    then s\<lparr>sd_turns := map (settled (se_id old) n) (sd_turns s)\<rparr> else s)"
proof -
  let ?q = "\<lambda>t. end_turn TurnCancelled (max (tu_updated t) (se_updated n)) (session_reason n) t"
  let ?c = "\<lambda>t. end_turn Ambiguous (max (tu_updated t) (se_updated n)) (session_reason n) t"
  let ?s = "s\<lparr>sd_turns := update_where (turn_of (se_id old) Queued) ?q (sd_turns s)\<rparr>"
  have q: "passes ?q t" if "t \<in> set (sd_turns s)" "turn_of (se_id old) Queued t" "\<not> sec_active (se_status n)" for t
    using that sec_invD(4) [OF inv that(1)] end_turn_passes [of t "session_reason n" "max (tu_updated t) (se_updated n)" TurnCancelled] r
    by (simp add: turn_of_def turn_active_def passes_def)
  have c: "passes ?c t" if "t \<in> set (sd_turns ?s)" "turn_of (se_id old) Claimed t" "\<not> sec_active (se_status n)" for t
  proof -
    have "t \<in> set (sd_turns s)" using that by (auto simp: update_where_def turn_of_def end_turn_def split: if_splits)
    then show ?thesis
      using that sec_invD(4) [OF inv] end_turn_passes [of t "session_reason n" "max (tu_updated t) (se_updated n)" Ambiguous] r
      by (simp add: turn_of_def turn_active_def passes_def)
  qed
  have "update_where (turn_of (se_id old) Claimed) ?c (update_where (turn_of (se_id old) Queued) ?q (sd_turns s)) =
      map (settled (se_id old) n) (sd_turns s)"
    by (auto simp: update_where_def settled_def turn_of_def end_turn_def)
  then show ?thesis using q c
    by (simp add: settle_trigger_def when_do_def action_simps Let_def update_turns_eval session_reason_def [symmetric])
qed

lemma settled_inactive: "tu_session t = sid \<Longrightarrow> \<not> turn_active (tu_status (settled sid n t))"
  by (cases "tu_status t") (auto simp: settled_def turn_of_def turn_active_def end_turn_def)

lemma settled_other: "tu_session t \<noteq> sid \<Longrightarrow> settled sid n t = t"
  by (simp add: settled_def turn_of_def)

lemma settled_session [simp]: "tu_session (settled sid n t) = tu_session t"
  by (simp add: settled_def end_turn_def)

lemma settle_inv:
  assumes inv: "sec_inv mx s" and r: "length (session_reason n) \<le> 1000" and t: "safe_time (Some (se_updated n))"
  shows "sec_inv mx (s\<lparr>sd_turns := map (settled sid n) (sd_turns s)\<rparr>)"
proof -
  have "map (settled sid n) (sd_turns s) = update_where (\<lambda>t. tu_session t = sid \<and> turn_active (tu_status t)) (settled sid n) (sd_turns s)"
    by (auto simp: update_where_def settled_def turn_of_def turn_active_def)
  moreover have "sec_inv mx (s\<lparr>sd_turns := update_where (\<lambda>t. tu_session t = sid \<and> turn_active (tu_status t)) (settled sid n) (sd_turns s)\<rparr>)"
  proof (rule update_turns_inv [OF inv])
    fix t assume t': "t \<in> set (sd_turns s)" "tu_session t = sid \<and> turn_active (tu_status t)"
    note g = sec_invD(4) [OF inv t'(1)]
    show "passes (settled sid n) t"
      using end_turn_passes [OF g r, of "max (tu_updated t) (se_updated n)" TurnCancelled]
        end_turn_passes [OF g r, of "max (tu_updated t) (se_updated n)" Ambiguous] t'(2)
      by (auto simp: passes_def settled_def turn_of_def turn_active_def)
    show "readable_turn t \<Longrightarrow> readable_turn (settled sid n t)"
      using t readable_updates(1) [of t "max (tu_updated t) (se_updated n)"]
      by (auto simp: settled_def max_def readable_turn_iff)
  qed (simp add: settled_def)
  ultimately show ?thesis by simp
qed

text \<open>What a statement may change of a session: its status, its pod, its last error and the time of the change.\<close>

definition same_session :: "secretary_row \<Rightarrow> secretary_row \<Rightarrow> bool" where
  "same_session r n \<longleftrightarrow> se_id n = se_id r \<and> se_digest n = se_digest r \<and> se_hint n = se_hint r \<and> se_model_ref n = se_model_ref r \<and>
     se_runtime n = se_runtime r \<and> se_created n = se_created r"

definition good_change :: "secretary_row \<Rightarrow> secretary_row \<Rightarrow> bool" where
  "good_change r n \<longleftrightarrow> same_session r n \<and> safe_time (Some (se_updated n)) \<and>
     (\<not> sec_active (se_status n) \<longrightarrow> length (session_reason n) \<le> 1000)"

lemma good_session_change: "good_session r \<Longrightarrow> good_change r n \<Longrightarrow> session_check n \<Longrightarrow> good_session n"
  by (auto simp: good_session_def good_change_def same_session_def rowSession_def bindR_def safe_time_def split: sum.splits if_splits)

lemma matching_sessions:
  assumes "distinct (map se_id rows)"
  shows "filter (session_where sid sts) rows = (case find (\<lambda>r. se_id r = sid) rows of
    None \<Rightarrow> [] | Some r \<Rightarrow> if sts (se_status r) then [r] else [])"
  using assms by (induction rows) (auto simp: session_where_def filter_empty_conv image_iff split: option.splits dest!: find_SomeD)

lemma update_secretary_eval:
  assumes inv: "sec_inv mx s" and ch: "\<And>r. good_change r (f r)"
  shows "update_secretary e sid sts f s =
    (case find (\<lambda>r. se_id r = sid) (sd_sessions s) of
       None \<Rightarrow> (Inr 0, s)
     | Some r \<Rightarrow>
         if \<not> sts (se_status r) then (Inr 0, s)
         else if session_check (f r) \<and> session_transition (se_status r) (se_status (f r))
         then (Inr 1, \<lparr>sd_sessions = update_where (session_where sid sts) f (sd_sessions s),
            sd_turns = (if sec_active (se_status r) \<and> \<not> sec_active (se_status (f r)) then map (settled sid (f r)) (sd_turns s) else sd_turns s)\<rparr>)
         else (Inl e, s))"
proof -
  have none: "update_where (session_where sid sts) f rows = rows" if "filter (session_where sid sts) rows = []" for rows
    using that by (auto simp: update_where_def filter_empty_conv intro: map_idI)
  note m = matching_sessions [OF sec_invD(1) [OF inv], of sid sts]
  show ?thesis
  proof (cases "find (\<lambda>r. se_id r = sid) (sd_sessions s)")
    case None
    then show ?thesis using m none by (simp add: update_secretary_def action_simps Let_def)
  next
    case (Some r)
    have r: "\<not> sec_active (se_status (f r)) \<Longrightarrow> length (session_reason (f r)) \<le> 1000" "se_id r = sid"
      using ch [of r] find_SomeD [OF Some] by (simp_all add: good_change_def)
    show ?thesis
    proof (cases "sts (se_status r)")
      case False
      then show ?thesis using Some m none by (simp add: update_secretary_def action_simps Let_def)
    next
      case True
      then have "filter (session_where sid sts) (sd_sessions s) = [r]" using m Some by simp
      then show ?thesis using Some True settle_trigger_eval [OF inv r(1), of e r] r(2)
        by (simp add: update_secretary_def action_simps Let_def)
    qed
  qed
qed

lemma update_session_inv:
  assumes inv: "sec_inv mx s" and ch: "\<And>r. good_change r (f r)" and r: "find (\<lambda>r. se_id r = sid) (sd_sessions s) = Some r"
    and ok: "sts (se_status r)" "session_check (f r)" "session_transition (se_status r) (se_status (f r))"
  shows "sec_inv mx \<lparr>sd_sessions = update_where (session_where sid sts) f (sd_sessions s),
    sd_turns = (if sec_active (se_status r) \<and> \<not> sec_active (se_status (f r)) then map (settled sid (f r)) (sd_turns s) else sd_turns s)\<rparr>"
    (is "sec_inv mx \<lparr>sd_sessions = ?ss, sd_turns = ?ts\<rparr>")
proof -
  let ?s = "s\<lparr>sd_turns := ?ts\<rparr>"
  have inv': "sec_inv mx ?s" using settle_inv [OF inv, of "f r" sid] ch [of r] inv by (simp add: good_change_def)
  have same: "se_id (f r) = se_id r" "se_digest (f r) = se_digest r" for r using ch [of r] by (simp_all add: good_change_def same_session_def)
  have keys: "map se_id ?ss = map se_id (sd_sessions s)" "map se_digest ?ss = map se_digest (sd_sessions s)"
    by (rule map_update_where, rule same)+
  then have ids: "se_id ` set ?ss = se_id ` set (sd_sessions s)" by (metis set_map)
  have only: "x = r" if "x \<in> set (sd_sessions s)" "session_where sid sts x" for x
    using that find_key_in_set [OF sec_invD(1) [OF inv], of x] r by (auto simp: session_where_def)
  have rows: "\<forall>x \<in> set ?ss. good_session x"
    using only good_session_change [OF _ ch ok(2)] sec_invD(3) [OF inv] by (auto simp: set_update_where)
  have "open_turns_ready \<lparr>sd_sessions = ?ss, sd_turns = ?ts\<rparr>"
    unfolding open_turns_ready_def
  proof (intro ballI impI)
    fix t assume t: "t \<in> set (sd_turns \<lparr>sd_sessions = ?ss, sd_turns = ?ts\<rparr>)" "turn_active (tu_status t)"
    with sec_invD(6) [OF inv'] obtain x where x: "x \<in> set (sd_sessions s)" "se_id x = tu_session t" "se_status x = SecReady"
      by (auto simp: open_turns_ready_def)
    have "se_status (f x) = SecReady" if w: "session_where sid sts x"
    proof -
      have "tu_session t = sid" "x = r" using w only [OF x(1) w] x(2) by (simp_all add: session_where_def)
      have "sec_active (se_status (f r))"
      proof (rule ccontr)
        assume "\<not> sec_active (se_status (f r))"
        then obtain u where "t = settled sid (f r) u" using t(1) x(3) \<open>x = r\<close> by (auto simp: sec_active_def)
        then show False using t(2) settled_inactive [of u sid "f r"] \<open>tu_session t = sid\<close> by simp
      qed
      then show ?thesis using ok(3) x(3) \<open>x = r\<close> by (auto simp: sec_active_def session_transition_def)
    qed
    then show "\<exists>r \<in> set (sd_sessions \<lparr>sd_sessions = ?ss, sd_turns = ?ts\<rparr>). se_id r = tu_session t \<and> se_status r = SecReady"
      using x same(1) [of x] by (auto simp: set_update_where)
  qed
  moreover have "turns_of i \<lparr>sd_sessions = ?ss, sd_turns = ?ts\<rparr> = turns_of i ?s" for i by (simp add: turns_of_def)
  moreover have "length (live_sessions \<lparr>sd_sessions = ?ss, sd_turns = ?ts\<rparr>) \<le> mx"
  proof -
    have "length (filter (\<lambda>x. sec_active (se_status x)) ?ss) \<le> length (filter (\<lambda>x. sec_active (se_status x)) (sd_sessions s))"
    proof (rule live_update)
      fix x assume "x \<in> set (sd_sessions s)" "session_where sid sts x" "sec_active (se_status (f x))"
      then show "sec_active (se_status x)" using only ok(3) by (auto simp: sec_active_def session_transition_def)
    qed
    then show ?thesis using sec_invD(7) [OF inv] by (simp add: live_sessions_def)
  qed
  ultimately show ?thesis using inv' keys ids rows by (simp add: sec_inv_def)
qed

lemma safe_update_secretary:
  assumes "sec_inv mx s" and "\<And>r. good_change r (f r)"
  shows "safe_at (sec_inv mx) (update_secretary e sid sts f) s"
  using assms(1) update_session_inv [OF assms]
  by (simp add: safe_at_def update_secretary_eval [OF assms] split: option.split)

end
