(* ===== verification/Secretary_Preserve.thy ===== *)
theory Secretary_Preserve
  imports Secretary_Invariant
begin

text \<open>
  Every operation of the secretary keeps the integrity of its tables, and what each operation does to a
  table in order.
\<close>

section \<open>Rules for actions\<close>

lemma safe_pure_then:
  assumes "pure_action m" and "I s" and "\<And>a. m s = (Inr a, s) \<Longrightarrow> safe_at I (k a) s"
  shows "safe_at I (andThen m k) s"
proof -
  obtain r where "m s = (r, s)" using assms(1) by (metis pure_action_def prod.collapse)
  then show ?thesis using assms(2,3) by (cases r) (simp_all add: safe_at_def action_simps)
qed

lemma safe_conv_transaction [safe_intro]: "I s \<Longrightarrow> safe_at I m s \<Longrightarrow> safe_at I (conv_transaction m) s"
  by (auto simp: safe_at_def conv_transaction_def action_simps split: prod.splits sum.splits)

lemma safe_if [safe_intro]: "(b \<Longrightarrow> safe_at I m s) \<Longrightarrow> (\<not> b \<Longrightarrow> safe_at I m' s) \<Longrightarrow> safe_at I (if b then m else m') s"
  by simp

lemma safe_option [safe_intro]:
  "(v = None \<Longrightarrow> safe_at I m s) \<Longrightarrow> (\<And>x. v = Some x \<Longrightarrow> safe_at I (k x) s) \<Longrightarrow>
    safe_at I (case v of None \<Rightarrow> m | Some x \<Rightarrow> k x) s"
  by (cases v) simp_all

lemma safe_guards [safe_intro]:
  "I s \<Longrightarrow> (isSecretarySessionId sid \<Longrightarrow> safe_at I m s) \<Longrightarrow> safe_at I (validateSessionId sid m) s"
  "I s \<Longrightarrow> (safe_time (Some now) \<Longrightarrow> safe_at I m s) \<Longrightarrow> safe_at I (with_time now m) s"
  "I s \<Longrightarrow> (isSecretaryTurnId tid \<Longrightarrow> safe_at I m s) \<Longrightarrow> safe_at I (with_turn_id tid m) s"
  by (simp_all add: validateSessionId_def with_time_def with_turn_id_def safe_at_def action_simps safe_time_def)

lemma pure_requireSession [simp]: "pure_action (requireSession sid)"
  by (auto simp: requireSession_def pure_action_def action_simps split: sum.splits option.splits)

lemma pure_requireReady [simp]: "pure_action (requireReadySession sid)"
  by (auto simp: requireReadySession_def pure_action_def action_simps split: option.splits)

lemma pure_reread [simp]: "pure_action (reread_turn tid)" "pure_action (turn_status_of tid)" "pure_action (conv_binding sha tok)"
  by (auto simp: reread_turn_def turn_status_of_def with_turn_id_def conv_binding_def pure_action_def action_simps split: option.splits)

lemma pure_changed_once [simp]: "pure_action (changed_once k)"
  by (simp add: changed_once_def)

lemma safe_pure: "pure_action m \<Longrightarrow> I s \<Longrightarrow> safe_at I m s"
  by (simp add: safe_at_def pure_action_def)

section \<open>Sessions\<close>

lemma parse_any_label: "parseLlmModelRef ref l = Inr v \<Longrightarrow> parseLlmModelRef ref l' = Inr v"
  by (auto simp: parseLlmModelRef_def requireModelId_def bindR_def split: list.splits if_splits)

lemma valid_ref_parses: "validateModelRef ref = Inr () \<Longrightarrow> \<exists>v. parseLlmModelRef ref l = Inr v"
proof (cases "parseLlmModelRef ref ''secretary model ref''")
  case (Inr v)
  from parse_any_label [OF this] show ?thesis by blast
qed (simp add: validateModelRef_def)

lemma insert_session_inv:
  assumes inv: "sec_inv mx s" and g: "good_session r" and f: "se_id r \<notin> se_id ` set (sd_sessions s)" "se_digest r \<notin> se_digest ` set (sd_sessions s)"
    and c: "length (live_sessions s) < mx"
  shows "sec_inv mx (s\<lparr>sd_sessions := sd_sessions s @ [r]\<rparr>)"
proof -
  have "turns_of sid (s\<lparr>sd_sessions := sd_sessions s @ [r]\<rparr>) = turns_of sid s" for sid by (simp add: turns_of_def)
  then show ?thesis using inv g f c by (auto simp: sec_inv_def open_turns_ready_def live_sessions_def)
qed

lemma sec_safe_create: "sec_inv mx s \<Longrightarrow> length (live_sessions s) < mx \<Longrightarrow> safe_at (sec_inv mx) (session_create sha items now candidates credential hint ref) s"
proof -
  assume inv: "sec_inv mx s" and c: "length (live_sessions s) < mx"
  have ins: "safe_at (sec_inv mx) (andThen (insert_secretary items (new_secretary sid hint ref (snd credential) now)) (\<lambda>_. ok sid)) s"
    if "pred_option isMindId hint" "validateModelRef ref = Inr ()" "isSafeInteger (Num now)" for sid
  proof -
    obtain v where "parseLlmModelRef ref ''secretary session model ref'' = Inr v"
      using valid_ref_parses [OF \<open>validateModelRef ref = Inr ()\<close>] by blast
    then have "rowSession r = Inr (secretary_session.truncate r)" if "session_check r" "r = new_secretary sid hint ref (snd credential) now" for r
      using that \<open>pred_option isMindId hint\<close> \<open>isSafeInteger (Num now)\<close> by (simp add: rowSession_def session_check_def new_secretary_def)
    then have "good_session r" if "session_check r" "r = new_secretary sid hint ref (snd credential) now" for r
      using that unfolding good_session_def by blast
    then show ?thesis using inv insert_session_inv [OF inv _ _ _ c]
      by (simp add: insert_secretary_def safe_at_def action_simps)
  qed
  show ?thesis unfolding session_create_def
    by (intro safe_lift_then safe_require_then inv safe_andThen [OF safe_transaction] safe_basic safe_option ins | assumption | simp)+
qed

lemma requireSession_safe: "requireSession sid s = (Inr x, s') \<Longrightarrow> safe_time (Some (se_updated x))"
  by (auto simp: requireSession_def action_simps session_get_def broken_def rowSession_def bindR_def safe_time_def secretary_session.truncate_def
      split: if_splits option.splits sum.splits)

lemma safe_finish:
  assumes inv: "sec_inv mx s" and t: "safe_time (Some now)" "safe_time (Some previous)"
    and e: "length (case err of None \<Rightarrow> ''secretary session closed'' | Some m \<Rightarrow> m) \<le> 1000"
  shows "safe_at (sec_inv mx) (session_finish now sid st err previous) s"
proof -
  have "good_change r (r\<lparr>se_status := st, se_last_error := err, se_updated := max now previous\<rparr>)" for r
    using t e by (cases err) (auto simp: good_change_def same_session_def session_reason_def safe_time_def max_def)
  then show ?thesis unfolding session_finish_def
    by (intro safe_andThen [OF safe_update_secretary [OF inv]] safe_pure_then safe_pure) simp_all
qed

lemma bounded_length: "length (session_boundedError m) \<le> 1000"
  by (simp add: session_boundedError_def Let_def)

lemma safe_close: "sec_inv mx s \<Longrightarrow> safe_time (Some now) \<Longrightarrow> safe_at (sec_inv mx) (session_close now sid) s"
  unfolding session_close_def by (intro safe_pure_then safe_intro safe_finish) (auto dest: requireSession_safe)

lemma safe_fail: "sec_inv mx s \<Longrightarrow> safe_time (Some now) \<Longrightarrow> safe_at (sec_inv mx) (session_fail now sid msg) s"
  unfolding session_fail_def by (intro safe_pure_then safe_intro safe_finish) (auto dest: requireSession_safe simp: bounded_length)

lemma safe_ready_row:
  assumes "sec_inv mx s" and "safe_time (Some now)" and "safe_time (Some x)"
  shows "safe_at (sec_inv mx) (andThen (update_secretary e sid sts
      (\<lambda>r. r\<lparr>se_status := SecReady, se_pod_name := n, se_pod_uid := u, se_updated := max now x\<rparr>)) (\<lambda>k.
    andThen (changed_once k) (\<lambda>_. requireSession sid))) s"
proof -
  have "good_change r (r\<lparr>se_status := SecReady, se_pod_name := n, se_pod_uid := u, se_updated := max now x\<rparr>)" for r
    using assms by (auto simp: good_change_def same_session_def sec_active_def safe_time_def max_def)
  then show ?thesis by (intro safe_andThen [OF safe_update_secretary [OF assms(1)]] safe_pure_then safe_pure) simp_all
qed

lemma safe_ready:
  assumes inv: "sec_inv mx s" and t: "safe_time (Some now)"
  shows "safe_at (sec_inv mx) (session_ready now sid pod) s"
  unfolding session_ready_def
proof (intro safe_pure_then [OF pure_requireSession] inv safe_require_then safe_lift_then)
  fix current pod'
  assume "requireSession sid s = (Inr current, s)"
  from requireSession_safe [OF this]
  show "safe_at (sec_inv mx) (case pod' of (n, u) \<Rightarrow> andThen (update_secretary (SessBroken ''constraint failed'') sid (\<lambda>st. st = SecStarting)
      (\<lambda>r. r\<lparr>se_status := SecReady, se_pod_name := n, se_pod_uid := u, se_updated := max now (se_updated current)\<rparr>)) (\<lambda>k.
    andThen (changed_once k) (\<lambda>_. requireSession sid))) s"
    by (cases pod') (simp add: safe_ready_row inv t)
qed

section \<open>Turns\<close>

lemma foldr_max: "foldr max xs a = max (foldr max xs 0) (a :: nat)"
  by (induction xs) simp_all

lemma foldr_max_upt: "foldr max [Suc 0..<Suc n] 0 = n"
proof (induction n)
  case (Suc n)
  then show ?case using foldr_max [of "[Suc 0..<Suc n]" "Suc n"] by simp
qed simp

lemma last_sequence_in_order: "in_order ts \<Longrightarrow> last_sequence ts = length ts"
proof -
  have "last_sequence ts = foldr max (map tu_sequence ts) 0" by (simp add: last_sequence_def foldr_map comp_def)
  then show "in_order ts \<Longrightarrow> ?thesis" by (simp add: in_order_def foldr_max_upt del: upt_Suc)
qed

lemma turns_of_append:
  "turns_of sid (s\<lparr>sd_turns := sd_turns s @ [t]\<rparr>) = turns_of sid s @ (if tu_session t = sid then [t] else [])"
  by (simp add: turns_of_def)

lemma in_order_append:
  assumes "in_order ts" and "\<forall>x \<in> set ts. \<not> turn_active (tu_status x)" and "length ts < MAX_CONVERSATION_TURNS" and "tu_sequence t = Suc (length ts)"
  shows "in_order (ts @ [t])"
  using assms by (simp add: in_order_def)

lemma insert_turn_inv:
  assumes inv: "sec_inv mx s" and g: "good_turn t" and new: "tu_id t \<notin> tu_id ` set (sd_turns s)"
    and r: "r \<in> set (sd_sessions s)" "se_id r = tu_session t" "se_status r = SecReady"
    and q: "\<forall>x \<in> set (turns_of (tu_session t) s). \<not> turn_active (tu_status x)"
    and l: "length (turns_of (tu_session t) s) < MAX_CONVERSATION_TURNS" "tu_sequence t = Suc (length (turns_of (tu_session t) s))"
  shows "sec_inv mx (s\<lparr>sd_turns := sd_turns s @ [t]\<rparr>)"
proof -
  have "in_order (turns_of sid (s\<lparr>sd_turns := sd_turns s @ [t]\<rparr>))" for sid
    using sec_invD(5) [OF inv, of sid] in_order_append [OF sec_invD(5) [OF inv] q l] by (auto simp: turns_of_append)
  moreover have "open_turns_ready (s\<lparr>sd_turns := sd_turns s @ [t]\<rparr>)"
    using sec_invD(6) [OF inv] r by (auto simp: open_turns_ready_def)
  ultimately show ?thesis using inv g new imageI [OF r(1), of se_id] r(2) by (auto simp: sec_inv_def live_sessions_def)
qed

lemma requireReady_row:
  "requireReadySession sid s = (Inr a, s') \<Longrightarrow> \<exists>r \<in> set (sd_sessions s). se_id r = sid \<and> se_status r = SecReady"
  by (auto simp: requireReadySession_def action_simps split: option.splits if_splits dest!: find_SomeD)

lemma good_new_turn:
  assumes "turn_check (new_turn tid sid n (message_json ''user'' c) now)" and "isSecretarySessionId sid" and "n \<le> MAX_CONVERSATION_TURNS"
    and "valid_content c" and "safe_time (Some now)"
  shows "good_turn (new_turn tid sid n (message_json ''user'' c) now)"
  using assms by (simp add: good_turn_def turn_lifecycle_def readable_turn_iff new_turn_def parse_stored turn_check_def safe_time_def MAX_CONVERSATION_TURNS_def)

lemma safe_enqueue: "sec_inv mx s \<Longrightarrow> safe_at (sec_inv mx) (turn_enqueue now candidates sid request) s"
proof -
  assume inv: "sec_inv mx s"
  have ins: "safe_at (sec_inv mx) (andThen (insert_turn (new_turn tid sid (last_sequence (turns_of sid s) + 1) (message_json ''user'' c) now)) (\<lambda>_. ok tid)) s"
    if "isSecretarySessionId sid" "valid_content c" "safe_time (Some now)" "length (turns_of sid s) < MAX_CONVERSATION_TURNS"
      "\<not> list_ex (\<lambda>t. turn_active (tu_status t)) (turns_of sid s)" "requireReadySession sid s = (Inr u, s)" for tid c u
  proof -
    let ?t = "new_turn tid sid (Suc (length (turns_of sid s))) (message_json ''user'' c) now"
    have f: "tu_session ?t = sid" "tu_id ?t = tid" "tu_sequence ?t = Suc (length (turns_of sid s))" by (simp_all add: new_turn_def)
    have "sec_inv mx (s\<lparr>sd_turns := sd_turns s @ [?t]\<rparr>)" if "turn_check ?t" "tid \<notin> tu_id ` set (sd_turns s)"
      using requireReady_row [OF \<open>requireReadySession sid s = (Inr u, s)\<close>] insert_turn_inv [OF inv, of ?t] that f
        good_new_turn [OF \<open>turn_check ?t\<close> \<open>isSecretarySessionId sid\<close> _ \<open>valid_content c\<close> \<open>safe_time (Some now)\<close>]
        \<open>length (turns_of sid s) < MAX_CONVERSATION_TURNS\<close> \<open>\<not> list_ex (\<lambda>t. turn_active (tu_status t)) (turns_of sid s)\<close>
      by (auto simp: list_ex_iff)
    then show ?thesis using inv f
      by (simp add: insert_turn_def safe_at_def action_simps last_sequence_in_order [OF sec_invD(5) [OF inv]])
  qed
  show ?thesis unfolding turn_enqueue_def Let_def
    by (intro safe_guards safe_lift_then safe_andThen [OF safe_conv_transaction] inv safe_basic safe_if safe_pure safe_pure_then [OF pure_requireReady] ins
        | simp add: conv_message_valid not_le | assumption)+
qed

lemma safe_claim_queued:
  assumes "sec_inv mx s" and "safe_time (Some now)"
  shows "safe_at (sec_inv mx) (claim_queued now sid row) s"
  unfolding claim_queued_def
  by (intro safe_lift_then assms(1) safe_andThen [OF safe_update_turns] safe_require_then safe_andThen [OF safe_pure] safe_pure_then [OF pure_reread(1)] safe_basic)
    (simp_all add: readable_updates assms pure_action_def action_simps)

lemma sec_safe_claim: "sec_inv mx s \<Longrightarrow> safe_at (sec_inv mx) (turn_claim now sid) s"
  unfolding turn_claim_def
  by (intro safe_guards safe_conv_transaction safe_pure_then [OF pure_requireReady] safe_basic | assumption)+
    (auto split: list.split intro!: safe_basic safe_andThen [OF safe_claim_queued])

lemma safe_complete_current:
  assumes "sec_inv mx s" and "safe_time (Some now)" and "valid_content c"
  shows "safe_at (sec_inv mx) (complete_current now sid tid c current) s"
  unfolding complete_current_def
  by (intro safe_if safe_basic safe_andThen [OF safe_update_turns] safe_require_then safe_pure)
    (simp_all add: readable_updates assms)

lemma safe_complete: "sec_inv mx s \<Longrightarrow> safe_at (sec_inv mx) (turn_complete now sid tid response) s"
  unfolding turn_complete_def
  by (intro safe_guards safe_lift_then safe_conv_transaction safe_pure_then [OF pure_requireReady] safe_basic safe_option
      safe_complete_current conv_message_valid | assumption)+

lemma safe_recover: "sec_inv mx s \<Longrightarrow> safe_at (sec_inv mx) (recoverClaimed now) s"
  unfolding recoverClaimed_def by (intro safe_guards safe_update_turns) (auto intro: readable_updates)

lemma safe_settle: "sec_inv mx s \<Longrightarrow> safe_at (sec_inv mx) (settleSession now sid reason) s"
  unfolding settleSession_def
  by (intro safe_guards safe_if safe_basic safe_conv_transaction safe_andThen [OF safe_update_turns]) (auto intro: readable_updates)

lemma safe_pull: "sec_inv mx s \<Longrightarrow> safe_at (sec_inv mx) (conv_pull sha now tok) s"
  unfolding conv_pull_def
  by (intro safe_pure_then [OF pure_reread(3)] safe_basic safe_if safe_andThen [OF sec_safe_claim])

lemma safe_conv_complete: "sec_inv mx s \<Longrightarrow> safe_at (sec_inv mx) (conv_complete sha now tok tid response) s"
  unfolding conv_complete_def
  by (intro safe_pure_then [OF pure_reread(3)] safe_andThen [OF safe_complete] safe_option safe_if safe_basic)

lemma safe_on_conversation [safe_intro]: "safe_at I m s \<Longrightarrow> safe_at I (on_conversation m) s"
  by (cases "m s") (simp add: safe_at_def on_conversation_def)

lemma safe_dispatch: "sec_inv mx s \<Longrightarrow> safe_at (sec_inv mx) (dispatchSecretaryConversationRequest sha now tok fs) s"
  unfolding dispatchSecretaryConversationRequest_def
  by (intro safe_if safe_basic safe_lift_then safe_andThen [OF safe_on_conversation] safe_pull | assumption)+
    (auto split: option.split json.split intro!: safe_basic safe_andThen [OF safe_on_conversation] safe_conv_complete)

end
