(* ===== verification/Secretary_History.thy ===== *)
theory Secretary_History
  imports Secretary_Preserve
begin

text \<open>
  What every operation of the secretary leaves alone: a session that has ended and a turn that has ended
  never change, a turn that was claimed is never queued again, and nothing is deleted.
\<close>

section \<open>Evolution of rows\<close>

definition turn_evolves :: "turn_row \<Rightarrow> turn_row \<Rightarrow> bool" where
  "turn_evolves t u \<longleftrightarrow> u = t \<or> (same_turn t u \<and> turn_active (tu_status t) \<and> tu_status u \<noteq> Queued)"

definition session_evolves :: "secretary_row \<Rightarrow> secretary_row \<Rightarrow> bool" where
  "session_evolves r n \<longleftrightarrow> n = r \<or> (same_session r n \<and> sec_active (se_status r))"

definition evolves :: "secretary_db \<Rightarrow> secretary_db \<Rightarrow> bool" where
  "evolves s s' \<longleftrightarrow> (\<forall>t \<in> set (sd_turns s). \<exists>u \<in> set (sd_turns s'). turn_evolves t u) \<and>
     (\<forall>r \<in> set (sd_sessions s). \<exists>n \<in> set (sd_sessions s'). session_evolves r n)"

lemma turn_evolves_trans: "turn_evolves t u \<Longrightarrow> turn_evolves u v \<Longrightarrow> turn_evolves t v"
  by (auto simp: turn_evolves_def same_turn_def)

lemma session_evolves_trans: "session_evolves r n \<Longrightarrow> session_evolves n m \<Longrightarrow> session_evolves r m"
  by (auto simp: session_evolves_def same_session_def)

lemma evolves_refl [simp]: "evolves s s"
  by (auto simp: evolves_def turn_evolves_def session_evolves_def)

lemma evolves_trans: "evolves s s' \<Longrightarrow> evolves s' s'' \<Longrightarrow> evolves s s''"
  unfolding evolves_def by (meson turn_evolves_trans session_evolves_trans)

lemma evolves_update_turns:
  assumes "\<And>t. p t \<Longrightarrow> turn_evolves t (f t)"
  shows "evolves s (s\<lparr>sd_turns := update_where p f (sd_turns s)\<rparr>)"
  using assms by (auto simp: evolves_def session_evolves_def update_where_def turn_evolves_def)

lemma evolves_update_sessions:
  assumes "\<And>r. p r \<Longrightarrow> session_evolves r (f r)"
  shows "evolves s (s\<lparr>sd_sessions := update_where p f (sd_sessions s)\<rparr>)"
  using assms by (auto simp: evolves_def session_evolves_def update_where_def turn_evolves_def)

section \<open>Operations\<close>

abbreviation grows :: "secretary_db \<Rightarrow> ('e, secretary_db, 'a) action \<Rightarrow> bool" where
  "grows s0 \<equiv> keeps (evolves s0)"

lemma grows_update_turns [keeps_intro]:
  "(\<And>t. p t \<Longrightarrow> turn_evolves t (f t)) \<Longrightarrow> grows s0 (update_turns e p f)"
  using evolves_trans evolves_update_turns by (auto simp: keeps_def update_turns_eval)

lemma open_evolves [simp]:
  "turn_of sid st t \<Longrightarrow> turn_active st \<Longrightarrow> st' \<noteq> Queued \<Longrightarrow> turn_evolves t (end_turn st' now reason t)"
  "tu_status t = Claimed \<Longrightarrow> turn_evolves t (end_turn Ambiguous now reason t)"
  "open_turn tid sid Queued t \<Longrightarrow> turn_evolves t (set_claimed now t)"
  "open_turn tid sid Claimed t \<Longrightarrow> turn_evolves t (set_completed now a t)"
  by (auto simp: turn_evolves_def turn_of_def open_turn_def turn_active_def end_turn_def set_claimed_def set_completed_def same_turn_def)

lemma keeps_if [keeps_intro]: "keeps I m \<Longrightarrow> keeps I m' \<Longrightarrow> keeps I (if b then m else m')"
  by simp

lemma keeps_option [keeps_intro]: "keeps I m \<Longrightarrow> (\<And>x. keeps I (k x)) \<Longrightarrow> keeps I (case v of None \<Rightarrow> m | Some x \<Rightarrow> k x)"
  by (cases v) simp_all

lemma keeps_pair [keeps_intro]: "(\<And>x y. keeps I (k x y)) \<Longrightarrow> keeps I (case p of (x, y) \<Rightarrow> k x y)"
  by (cases p) simp

lemma keeps_conv [keeps_intro]:
  "keeps I m \<Longrightarrow> keeps I (conv_transaction m)" "keeps I m \<Longrightarrow> keeps I (validateSessionId sid m)"
  "keeps I m \<Longrightarrow> keeps I (with_time now m)" "keeps I m \<Longrightarrow> keeps I (with_turn_id tid m)"
  "keeps I m \<Longrightarrow> keeps I (on_conversation m)"
  by (auto simp: keeps_def conv_transaction_def action_simps validateSessionId_def with_time_def with_turn_id_def on_conversation_def
      split: prod.split sum.split)

lemma keeps_pure: "pure_action m \<Longrightarrow> keeps I m"
  by (simp add: keeps_def pure_action_def)

lemmas secretary_pure [keeps_intro] =
  pure_requireSession [THEN keeps_pure] pure_requireReady [THEN keeps_pure] pure_reread [THEN keeps_pure] pure_changed_once [THEN keeps_pure]

lemma turn_active_simps [simp]: "turn_active Queued" "turn_active Claimed"
  by (simp_all add: turn_active_def)

lemma grows_settle_trigger [keeps_intro]: "grows s0 (settle_trigger e old n)"
  unfolding settle_trigger_def Let_def by (intro keeps_intro) simp_all

lemma grows_update_secretary [keeps_intro]:
  assumes "\<And>st. sts st \<Longrightarrow> sec_active st" and "\<And>r. same_session r (f r)"
  shows "grows s0 (update_secretary e sid sts f)"
proof -
  have "evolves s0 s \<Longrightarrow> evolves s0 (s\<lparr>sd_sessions := update_where (session_where sid sts) f (sd_sessions s)\<rparr>)" for s
    using assms by (auto intro!: evolves_trans [OF _ evolves_update_sessions] simp: session_evolves_def session_where_def)
  then show ?thesis unfolding update_secretary_def Let_def by (intro keeps_intro keeps_reads)
qed

lemma grows_insert [keeps_intro]: "grows s0 (insert_secretary items r)" "grows s0 (insert_turn t)"
  by (auto simp: keeps_def insert_secretary_def insert_turn_def action_simps evolves_def split: if_splits)

lemma grows_sessions [keeps_intro]:
  "grows s0 (session_create sha items now candidates credential hint ref)" "grows s0 (session_ready now sid pod)"
  "grows s0 (session_close now sid)" "grows s0 (session_fail now sid msg)"
  unfolding session_create_def session_ready_def session_close_def session_fail_def session_finish_def
  by (intro keeps_intro keeps_reads; simp add: sec_active_def same_session_def)+

lemma grows_claim_queued [keeps_intro]: "grows s0 (claim_queued now sid row)"
  unfolding claim_queued_def by (intro keeps_intro keeps_reads) simp_all

lemma grows_turns [keeps_intro]:
  "grows s0 (turn_enqueue now candidates sid request)" "grows s0 (turn_complete now sid tid response)"
  "grows s0 (recoverClaimed now)" "grows s0 (settleSession now sid reason)"
  unfolding turn_enqueue_def turn_complete_def complete_current_def recoverClaimed_def settleSession_def Let_def
  by (intro keeps_intro keeps_reads; simp)+

lemma grows_turn_claim [keeps_intro]: "grows s0 (turn_claim now sid)"
  unfolding turn_claim_def
  by (intro keeps_intro keeps_reads) (auto split: list.split intro!: keeps_intro)

lemma grows_broker [keeps_intro]: "grows s0 (conv_pull sha now tok)" "grows s0 (conv_complete sha now tok tid response)"
  unfolding conv_pull_def conv_complete_def by (intro keeps_intro keeps_reads)+

lemma grows_dispatch [keeps_intro]: "grows s0 (dispatchSecretaryConversationRequest sha now tok fs)"
  unfolding dispatchSecretaryConversationRequest_def
  by (intro keeps_intro keeps_reads) (auto split: option.split json.split intro!: keeps_intro)

section \<open>The broker\<close>

abbreviation broker_grows :: "secretary_db \<Rightarrow> ('e, secretary_broker, 'a) action \<Rightarrow> bool" where
  "broker_grows s0 \<equiv> keeps (\<lambda>s. evolves s0 (sk_db s))"

lemma broker_grows_sessions [keeps_intro]: "grows s0 m \<Longrightarrow> broker_grows s0 (on_sessions m)"
  by (auto simp: keeps_def on_sessions_def split: prod.split)

lemma broker_grows_call [keeps_intro]: "broker_grows s0 (call_runtime c)"
  by (simp add: keeps_def call_runtime_def action_simps)

lemma broker_reads [simp]: "pure_action sec_list" "pure_action (sec_status sid)" "pure_action (sec_active_session b sid)"
  by (auto simp: sec_list_def sec_status_def sec_active_session_def pure_action_def action_simps split: sum.splits option.splits)

lemmas broker_pure [keeps_intro] = broker_reads [THEN keeps_pure]

lemma keeps_catch:
  assumes "keeps I m" and "\<And>e. keeps I (h e)"
  shows "keeps I (\<lambda>s. case m s of (Inr x, s') \<Rightarrow> (Inr (g x), s') | (Inl e, s') \<Rightarrow> h e s')"
  unfolding keeps_def
proof (intro allI impI)
  fix s assume "I s"
  then show "I (snd (case m s of (Inr x, s') \<Rightarrow> (Inr (g x), s') | (Inl e, s') \<Rightarrow> h e s'))"
    using assms by (cases "m s"; cases "fst (m s)") (auto simp: keeps_def dest: spec [of _ s])
qed

lemma broker_grows_fail [keeps_intro]: "broker_grows s0 (fail_if_active now starting sid msg)"
  "broker_grows s0 (pod_is_up now starting sid n u)" "broker_grows s0 (start_failed now sid e msg)"
  unfolding fail_if_active_def pod_is_up_def fail_and_clean_def start_failed_def by (intro keeps_intro)+

lemma broker_grows_inspected [keeps_intro]: "broker_grows s0 (inspected now starting sid r)"
proof -
  have "broker_grows s0 (\<lambda>s. case pod_is_up now starting sid n u s of
      (Inr _, s') \<Rightarrow> (Inr (), s') | (Inl e, s') \<Rightarrow> fail_if_active now starting sid (spawn_message e) s')" for n u
    by (rule keeps_catch) (intro keeps_intro)+
  then show ?thesis by (auto simp: inspected_def split: sum.split pod_state.split intro!: keeps_intro)
qed

lemma broker_grows_inspectActive [keeps_intro]: "broker_grows s0 (inspectActive now starting answer)"
  unfolding inspectActive_def inspect_one_def by (intro keeps_intro)

lemma broker_grows_close [keeps_intro]: "broker_grows s0 (sec_close now sid cleaned)"
  unfolding sec_close_def by (intro keeps_intro)

lemma broker_grows_start [keeps_intro]: "broker_grows s0 (sec_start_begin cf sha items now candidates credential hint)"
  unfolding sec_start_begin_def by (intro keeps_intro keeps_reads) (simp add: keeps_intro keeps_def action_simps)

lemma broker_grows_start_outcome: "broker_grows s0 (start_outcome now sid r)"
proof (cases r)
  case (Inr p)
  obtain n u where p: "p = (n, u)" by fastforce
  let ?h = "\<lambda>e. case e of SecSession (SessBroken m) \<Rightarrow> start_failed now sid (SecProvisionFailed (spawn_boundedError m)) m
      | SecSession e \<Rightarrow> start_failed now sid (SecSession e) (session_message e) | _ \<Rightarrow> throw e"
  have "broker_grows s0 (\<lambda>s. case on_sessions (session_ready now sid (receipt_json n u)) s of (Inr x, s') \<Rightarrow> (Inr x, s') | (Inl e, s') \<Rightarrow> ?h e s')"
    by (rule keeps_catch) (auto split: secretary_spawn_error.split session_error.split intro!: keeps_intro)
  moreover have "(case on_sessions (session_ready now sid (receipt_json n u)) s of (Inr x, s') \<Rightarrow> (Inr x, s') | (Inl e, s') \<Rightarrow> ?h e s') =
      (case on_sessions (session_ready now sid (receipt_json n u)) s of
           (Inr x, s') \<Rightarrow> (Inr x, s')
         | (Inl (SecSession (SessBroken m)), s') \<Rightarrow> start_failed now sid (SecProvisionFailed (spawn_boundedError m)) m s'
         | (Inl (SecSession e), s') \<Rightarrow> start_failed now sid (SecSession e) (session_message e) s'
         | (Inl e, s') \<Rightarrow> (Inl e, s'))" for s
    by (simp add: throw_def split: prod.split sum.split secretary_spawn_error.split session_error.split)
  ultimately show ?thesis using Inr p by (simp add: start_outcome_def keeps_intro)
qed (simp add: start_outcome_def keeps_intro)

lemma evolves_start_end: "evolves (sk_db s) (sk_db (snd (sec_start_end now r s)))"
  using broker_grows_start_outcome [of "sk_db s" now _ r]
  by (auto simp: sec_start_end_def keeps_def dest: spec [of _ "s\<lparr>sk_start := None\<rparr>"] split: option.split)

lemma evolves_supervisor: "evolves (sk_db s) (sk_db (snd (startSecretarySupervisor cf now answer s)))"
proof -
  obtain r db where run: "recoverClaimed now (sk_db s) = (r, db)" by fastforce
  then have "evolves (sk_db s) db" using grows_turns(3) [of "sk_db s" now] keepsD by fastforce
  then have "evolves (sk_db s) (sk_db (snd (inspectActive now True answer (s\<lparr>sk_start := None, sk_db := db\<rparr>))))"
    using broker_grows_inspectActive [of "sk_db s" now True answer] by (auto simp: keeps_def)
  then show ?thesis using run \<open>evolves (sk_db s) db\<close>
    by (auto simp: startSecretarySupervisor_def Let_def sec_recover_def split: sum.split prod.split)
qed

end
