(* ===== verification/Secretary_Correct.thy ===== *)
theory Secretary_Correct
  imports Secretary_History
begin

text \<open>
  The secretary as one system: starts, closes, pod inspections, host restarts and the requests of the
  secretary processes in any order. Its tables stay consistent, a question is asked once and answered
  once, a session that ends leaves no open question and its token opens nothing, and the process is
  handed exactly the conversation so far.
\<close>

section \<open>The broker keeps the invariant\<close>

definition broker_inv :: "nat \<Rightarrow> secretary_broker \<Rightarrow> bool" where
  "broker_inv mx s \<longleftrightarrow> sec_inv mx (sk_db s)"

lemma safe_on_sessions: "safe_at (sec_inv mx) m (sk_db s) \<Longrightarrow> safe_at (broker_inv mx) (on_sessions m) s"
  by (cases "m (sk_db s)") (simp add: safe_at_def on_sessions_def broker_inv_def)

lemma safe_call [safe_intro]: "broker_inv mx s \<Longrightarrow> safe_at (broker_inv mx) (call_runtime c) s"
  by (simp add: safe_at_def call_runtime_def action_simps broker_inv_def)

lemma safe_catch:
  assumes "safe_at I m s" and "\<And>e s'. m s = (Inl e, s') \<Longrightarrow> I s' \<Longrightarrow> safe_at I (h e) s'"
  shows "I (snd (case m s of (Inr x, s') \<Rightarrow> (Inr (g x), s') | (Inl e, s') \<Rightarrow> h e s'))"
  using assms by (cases "m s"; cases "fst (m s)") (auto simp: safe_at_def)

lemma collect_all: "(\<And>x. x \<in> set xs \<Longrightarrow> f x = Inr (g x)) \<Longrightarrow> collect (map f xs) = Inr (map g xs)"
  by (induction xs) simp_all

lemma length_filter_insert_by: "length (filter P (insert_by le x ys)) = length (filter P (x # ys))"
  by (induction ys) auto

lemma length_filter_sort_by: "length (filter P (sort_by le xs)) = length (filter P xs)"
  by (induction xs) (simp_all add: length_filter_insert_by)

lemma truncate_simps [simp]:
  "se_id (secretary_session.truncate r) = se_id r" "se_status (secretary_session.truncate r) = se_status r"
  "se_hint (secretary_session.truncate r) = se_hint r" "se_updated (secretary_session.truncate r) = se_updated r"
  "se_model_ref (secretary_session.truncate r) = se_model_ref r" "se_runtime (secretary_session.truncate r) = se_runtime r"
  by (simp_all add: secretary_session.truncate_def)

lemma session_list_eval:
  "sec_inv mx db \<Longrightarrow> session_list db = Inr (map secretary_session.truncate (sort_by newest_first (sd_sessions db)))"
proof -
  assume inv: "sec_inv mx db"
  have "collect (map rowSession (sort_by newest_first (sd_sessions db))) =
      Inr (map secretary_session.truncate (sort_by newest_first (sd_sessions db)))"
    by (rule collect_all) (use sec_invD(3) [OF inv] in \<open>simp add: good_session_def\<close>)
  then show ?thesis by (simp add: session_list_def broken_def)
qed

lemma live_of_list: "length (filter (\<lambda>x. sec_active (se_status x)) (map secretary_session.truncate (sort_by newest_first (sd_sessions db)))) =
    length (live_sessions db)"
  by (simp add: filter_map comp_def length_filter_sort_by live_sessions_def)

lemma session_get_eval:
  assumes "sec_inv mx db"
  shows "session_get sid db = Inr (map_option secretary_session.truncate (find (\<lambda>r. se_id r = sid) (sd_sessions db)))"
proof (cases "find (\<lambda>r. se_id r = sid) (sd_sessions db)")
  case (Some r)
  then have "good_session r" "se_id r = sid" using find_SomeD [OF Some] sec_invD(3) [OF assms] by auto
  then show ?thesis using Some by (auto simp: session_get_def broken_def good_session_def session_check_def)
qed (simp add: session_get_def)

lemma safe_start_begin:
  assumes inv: "broker_inv (sg_max cf) s"
  shows "safe_at (broker_inv (sg_max cf)) (sec_start_begin cf sha items now candidates credential hint) s"
proof -
  have create: "safe_at (broker_inv (sg_max cf)) (on_sessions (session_create sha items now candidates credential hint ref)) s"
    if "sec_list s = (Inr ss, s)" "length (filter (\<lambda>x. sec_active (se_status x)) ss) < sg_max cf" for ref ss
  proof -
    have "ss = map secretary_session.truncate (sort_by newest_first (sd_sessions (sk_db s)))"
      using that(1) session_list_eval [of "sg_max cf" "sk_db s"] inv by (simp add: sec_list_def action_simps broker_inv_def)
    then show ?thesis using that(2) inv live_of_list [of "sk_db s"] by (intro safe_on_sessions sec_safe_create) (simp_all add: broker_inv_def)
  qed
  have "safe_at (broker_inv (sg_max cf)) (case p of (x, tok) \<Rightarrow> andThen (call_runtime (Provision (se_id x))) (\<lambda>_.
      andThen (modify (\<lambda>s. s\<lparr>sk_start := Some (se_id x)\<rparr>)) (\<lambda>_. ok (x, tok)))) s'" if "broker_inv (sg_max cf) s'" for p s'
    using that by (simp add: safe_at_def call_runtime_def action_simps broker_inv_def split: prod.split)
  then show ?thesis unfolding sec_start_begin_def
    by (intro safe_basic safe_require_then inv safe_option safe_pure_then [OF broker_reads(1)] safe_andThen [OF create] | assumption)+
qed

lemma safe_start_failed:
  "broker_inv mx s \<Longrightarrow> safe_time (Some now) \<Longrightarrow> safe_at (broker_inv mx) (start_failed now sid e msg) s"
  unfolding start_failed_def
  by (intro safe_andThen [OF safe_on_sessions [OF safe_fail]] safe_andThen [OF safe_call] safe_basic) (simp_all add: broker_inv_def)

lemma safe_start_outcome:
  assumes inv: "broker_inv mx s" and t: "safe_time (Some now)"
  shows "safe_at (broker_inv mx) (start_outcome now sid r) s"
proof (cases r)
  case (Inl m)
  then show ?thesis using safe_start_failed [OF assms] by (simp add: start_outcome_def)
next
  case (Inr p)
  obtain n u where p: "p = (n, u)" by fastforce
  let ?m = "on_sessions (session_ready now sid (receipt_json n u))"
  have m: "safe_at (broker_inv mx) ?m s" using inv t by (intro safe_on_sessions safe_ready) (simp_all add: broker_inv_def)
  obtain x s' where run: "?m s = (x, s')" by fastforce
  with m have "broker_inv mx s'" by (simp add: safe_at_def)
  from safe_start_failed [OF this t] this have "safe_at (broker_inv mx) (start_outcome now sid (Inr (n, u))) s"
    if "valid_receipt n u"
    using that run by (auto simp: start_outcome_def safe_at_def split: sum.split secretary_spawn_error.split session_error.split)
  then show ?thesis using Inr p safe_start_failed [OF assms] by (cases "valid_receipt n u") (simp_all add: start_outcome_def)
qed

lemma safe_start_end:
  assumes "broker_inv mx s" and "safe_time (Some now)"
  shows "safe_at (broker_inv mx) (sec_start_end now r) s"
proof (cases "sk_start s")
  case (Some sid)
  have "broker_inv mx (s\<lparr>sk_start := None\<rparr>)" using assms(1) by (simp add: broker_inv_def)
  from safe_start_outcome [OF this assms(2)] show ?thesis using Some by (simp add: sec_start_end_def safe_at_def)
qed (use assms in \<open>simp add: sec_start_end_def safe_at_def\<close>)

lemma safe_sec_close:
  assumes "broker_inv mx s" and "safe_time (Some now)"
  shows "safe_at (broker_inv mx) (sec_close now sid cleaned) s"
  unfolding sec_close_def
  by (rule safe_pure_then [where I = "broker_inv mx", OF broker_reads(2) assms(1)], rule safe_andThen, rule safe_if)
    (auto intro!: safe_basic safe_on_sessions safe_close safe_andThen [OF safe_call] safe_option simp: assms assms(1) [unfolded broker_inv_def])

lemma safe_fail_if_active:
  assumes "broker_inv mx s" and "safe_time (Some now)"
  shows "safe_at (broker_inv mx) (fail_if_active now starting sid msg) s"
  unfolding fail_if_active_def fail_and_clean_def
  by (rule safe_pure_then [where I = "broker_inv mx", OF broker_reads(3) assms(1)], intro safe_option safe_basic assms(1))
    (auto intro!: safe_andThen [OF safe_on_sessions [OF safe_fail]] safe_call simp: assms assms(1) [unfolded broker_inv_def])

lemma safe_pod_is_up:
  assumes "broker_inv mx s" and "safe_time (Some now)"
  shows "safe_at (broker_inv mx) (pod_is_up now starting sid n u) s"
  unfolding pod_is_up_def fail_and_clean_def
  by (rule safe_pure_then [where I = "broker_inv mx", OF broker_reads(3) assms(1)], intro safe_option safe_if safe_basic assms(1))
    (auto intro!: safe_andThen [OF safe_on_sessions [OF safe_fail]] safe_andThen [OF safe_on_sessions [OF safe_ready]] safe_call safe_basic
      simp: assms assms(1) [unfolded broker_inv_def])

lemma safe_inspected:
  assumes "broker_inv mx s" and "safe_time (Some now)"
  shows "safe_at (broker_inv mx) (inspected now starting sid r) s"
proof -
  have "broker_inv mx (snd (case pod_is_up now starting sid n u s of
      (Inr _, s') \<Rightarrow> (Inr (), s') | (Inl e, s') \<Rightarrow> fail_if_active now starting sid (spawn_message e) s'))" for n u
    by (rule safe_catch [OF safe_pod_is_up [OF assms]]) (rule safe_fail_if_active [OF _ assms(2)])
  then show ?thesis using safe_fail_if_active [OF assms] assms(1)
    by (auto simp: inspected_def safe_at_def action_simps split: sum.split pod_state.split)
qed

lemma safe_inspect_one:
  "broker_inv mx s \<Longrightarrow> safe_time (Some now) \<Longrightarrow> safe_at (broker_inv mx) (inspect_one now starting answer sid) s"
  unfolding inspect_one_def by (intro safe_pure_then [OF broker_reads(3)] safe_option safe_basic safe_inspected)

lemma sec_safe_for_each:
  "(\<And>x s. I s \<Longrightarrow> safe_at I (f x) s) \<Longrightarrow> I s \<Longrightarrow> safe_at I (for_each f xs) s"
  by (induction xs arbitrary: s) (auto intro: safe_basic safe_andThen)

lemma safe_inspectActive:
  "broker_inv mx s \<Longrightarrow> safe_time (Some now) \<Longrightarrow> safe_at (broker_inv mx) (inspectActive now starting answer) s"
  unfolding inspectActive_def
  by (intro safe_pure_then [OF broker_reads(1)] safe_andThen [OF sec_safe_for_each] safe_pure safe_inspect_one) simp_all

lemma safe_supervisor:
  assumes inv: "broker_inv mx s" and t: "safe_time (Some now)"
  shows "broker_inv mx (snd (startSecretarySupervisor cf now answer s))"
proof -
  have i0: "broker_inv mx (s\<lparr>sk_start := None\<rparr>)" using inv by (simp add: broker_inv_def)
  obtain r db where run: "recoverClaimed now (sk_db s) = (r, db)" by fastforce
  have "sec_inv mx db" using safe_recover [of mx "sk_db s" now] inv run by (simp add: safe_at_def broker_inv_def)
  then have i1: "broker_inv mx (s\<lparr>sk_start := None, sk_db := db\<rparr>)" by (simp add: broker_inv_def)
  show ?thesis
    using safe_inspectActive [OF i1 t, of True answer] i0 i1 run
    by (auto simp: startSecretarySupervisor_def Let_def safe_at_def sec_recover_def split: sum.split prod.split)
qed

section \<open>The system\<close>

text \<open>
  One step per operation. \<open>Date.now()\<close> is a safe integer; the operations that do not check it themselves
  take that as a premise. A pass of reconciliation is its single inspections, so that other operations
  may run between them.
\<close>

inductive sec_step :: "secretary_config \<Rightarrow> (string \<Rightarrow> string) \<Rightarrow> secretary_broker \<Rightarrow> secretary_broker \<Rightarrow> bool" for cf sha where
  start_begin: "sec_step cf sha s (snd (sec_start_begin cf sha items now candidates credential hint s))"
| start_end: "safe_time (Some now) \<Longrightarrow> sec_step cf sha s (snd (sec_start_end now r s))"
| close: "safe_time (Some now) \<Longrightarrow> sec_step cf sha s (snd (sec_close now sid cleaned s))"
| inspect: "safe_time (Some now) \<Longrightarrow> sec_step cf sha s (snd (inspected now False sid r s))"
| reconcile: "safe_time (Some now) \<Longrightarrow> sec_step cf sha s (supervisor_reconcile now answer s)"
| restart: "safe_time (Some now) \<Longrightarrow> sec_step cf sha s (snd (startSecretarySupervisor cf now answer s))"
| enqueue: "sec_step cf sha s (on_conv (turn_enqueue now candidates sid request) s)"
| settle: "sec_step cf sha s (on_conv (settleSession now sid reason) s)"
| request: "sec_step cf sha s (s\<lparr>sk_db := snd (dispatchSecretaryConversationRequest sha now tok fs (sk_db s))\<rparr>)"

definition fresh_secretary :: secretary_broker where
  "fresh_secretary = \<lparr>sk_db = \<lparr>sd_sessions = [], sd_turns = []\<rparr>, sk_start = None, sk_calls = []\<rparr>"

lemma reconcile_inv: "broker_inv mx s \<Longrightarrow> safe_time (Some now) \<Longrightarrow> broker_inv mx (supervisor_reconcile now answer s)"
  using safe_inspectActive [of mx s now False answer]
  by (simp add: supervisor_reconcile_def sec_reconcile_def safe_at_def split: sum.split)

lemma sec_step_inv:
  assumes "sec_step cf sha s s'" and inv: "broker_inv (sg_max cf) s"
  shows "broker_inv (sg_max cf) s'"
  using assms(1)
proof cases
  case start_begin
  then show ?thesis using safe_start_begin [OF inv] by (simp add: safe_at_def)
next
  case start_end
  then show ?thesis using safe_start_end [OF inv] by (simp add: safe_at_def)
next
  case close
  then show ?thesis using safe_sec_close [OF inv] by (simp add: safe_at_def)
next
  case inspect
  then show ?thesis using safe_inspected [OF inv] by (simp add: safe_at_def)
qed (use inv safe_supervisor reconcile_inv safe_enqueue safe_settle safe_dispatch in \<open>simp_all add: broker_inv_def on_conv_def safe_at_def\<close>)

interpretation secretary: step_system "\<lambda>s. s = fresh_secretary" "sec_step cf sha" "broker_inv (sg_max cf)" for cf sha
proof
  show "s = fresh_secretary \<Longrightarrow> broker_inv (sg_max cf) s" for s
    by (simp add: broker_inv_def fresh_secretary_def sec_inv_def turns_of_def in_order_def open_turns_ready_def live_sessions_def)
qed (rule sec_step_inv)

lemma step_evolves: "sec_step cf sha s s' \<Longrightarrow> evolves (sk_db s) (sk_db s')"
proof (induction rule: sec_step.cases)
  case (reconcile now s answer)
  then show ?case using broker_grows_inspectActive [of "sk_db s" now False answer]
    by (simp add: supervisor_reconcile_def sec_reconcile_def keeps_def split: sum.split)
qed (use broker_grows_start broker_grows_close broker_grows_inspected grows_turns grows_dispatch evolves_start_end evolves_supervisor
    in \<open>simp_all add: on_conv_def keeps_def\<close>)

lemma steps_evolve: "(sec_step cf sha)\<^sup>*\<^sup>* s s' \<Longrightarrow> evolves (sk_db s) (sk_db s')"
  by (induction rule: rtranclp_induct) (auto intro: evolves_trans step_evolves)

section \<open>Tables stay consistent\<close>

lemma one_open_turn: "in_order ts \<Longrightarrow> length (filter (\<lambda>t. turn_active (tu_status t)) ts) \<le> 1"
  by (cases ts rule: rev_cases) (auto simp: in_order_def)

text \<open>
  C19. Secretary conversations stay consistent: in every reachable state the turns of a session are numbered
  from one without gaps and are at most sixteen, at most one of them is open, an open turn belongs to a
  session that is ready, no two sessions share a token digest, and the number of live sessions is within
  the configured maximum.
\<close>

theorem conversations_consistent:
  assumes "(sec_step cf sha)\<^sup>*\<^sup>* fresh_secretary s"
  shows "map tu_sequence (turns_of sid (sk_db s)) = [1..<Suc (length (turns_of sid (sk_db s)))] \<and>
    length (turns_of sid (sk_db s)) \<le> MAX_CONVERSATION_TURNS \<and>
    length (filter (\<lambda>t. turn_active (tu_status t)) (turns_of sid (sk_db s))) \<le> 1 \<and>
    (\<forall>t \<in> set (sd_turns (sk_db s)). turn_active (tu_status t) \<longrightarrow>
      (\<exists>r \<in> set (sd_sessions (sk_db s)). se_id r = tu_session t \<and> se_status r = SecReady)) \<and>
    distinct (map se_digest (sd_sessions (sk_db s))) \<and>
    length (filter (\<lambda>r. sec_active (se_status r)) (sd_sessions (sk_db s))) \<le> sg_max cf"
proof -
  have inv: "sec_inv (sg_max cf) (sk_db s)" using secretary.inv_reachable [OF refl assms] by (simp add: broker_inv_def)
  then have "in_order (turns_of sid (sk_db s))" by (rule sec_invD)
  then show ?thesis using inv one_open_turn [of "turns_of sid (sk_db s)"]
    unfolding sec_inv_def in_order_def open_turns_ready_def live_sessions_def by blast
qed

section \<open>What has ended stays ended\<close>

lemma resolve_row:
  assumes inv: "sec_inv mx db" and r: "r \<in> set (sd_sessions db)" and d: "secretaryControlTokenDigest sha tok = Inr (se_digest r)"
    and st: "\<not> sec_active (se_status r)"
  shows "resolveSecretarySession sha db tok = None"
proof -
  have "distinct (map se_digest (sd_sessions db))" using inv by (simp add: sec_inv_def)
  then have f: "find (\<lambda>x. se_digest x = se_digest r) (sd_sessions db) = Some r" by (rule find_key_in_set [OF _ r])
  have "rowSession r = Inr (secretary_session.truncate r)" using sec_invD(3) [OF inv r] by (simp add: good_session_def)
  then show ?thesis using f d st by (simp add: resolveSecretarySession_def)
qed

lemma ended_session_no_open_turn:
  assumes inv: "sec_inv mx db" and r: "r \<in> set (sd_sessions db)" "\<not> sec_active (se_status r)"
    and t: "t \<in> set (sd_turns db)" "tu_session t = se_id r"
  shows "\<not> turn_active (tu_status t)"
proof
  assume "turn_active (tu_status t)"
  then obtain x where x: "x \<in> set (sd_sessions db)" "se_id x = se_id r" "se_status x = SecReady"
    using sec_invD(6) [OF inv] t by (auto simp: open_turns_ready_def)
  then have "x = r" using find_key_in_set [OF sec_invD(1) [OF inv]] r(1) by (metis option.inject)
  with x(3) r(2) show False by (simp add: sec_active_def)
qed

text \<open>
  C26. What has ended stays ended: whatever the brokers, the host and the secretary processes do later, a turn
  that was completed, lost or cancelled keeps its row, answer included, and a session that was closed
  or failed keeps its row, never again has an open turn, and its token opens nothing.
\<close>

theorem secretary_end_is_final:
  assumes reach: "(sec_step cf sha)\<^sup>*\<^sup>* fresh_secretary s" and steps: "(sec_step cf sha)\<^sup>*\<^sup>* s s'"
  shows "(\<forall>t. t \<in> set (sd_turns (sk_db s)) \<and> \<not> turn_active (tu_status t) \<longrightarrow> t \<in> set (sd_turns (sk_db s'))) \<and>
    (\<forall>r. r \<in> set (sd_sessions (sk_db s)) \<and> \<not> sec_active (se_status r) \<longrightarrow> r \<in> set (sd_sessions (sk_db s')) \<and>
      (\<forall>t. t \<in> set (sd_turns (sk_db s')) \<and> tu_session t = se_id r \<longrightarrow> \<not> turn_active (tu_status t)) \<and>
      (\<forall>tok. secretaryControlTokenDigest sha tok = Inr (se_digest r) \<longrightarrow> resolveSecretarySession sha (sk_db s') tok = None))"
proof -
  have inv: "sec_inv (sg_max cf) (sk_db s')"
    using secretary.inv_reachable [OF refl rtranclp_trans [OF reach steps]] by (simp add: broker_inv_def)
  note ev = steps_evolve [OF steps, unfolded evolves_def]
  have r: "r \<in> set (sd_sessions (sk_db s'))" if "r \<in> set (sd_sessions (sk_db s))" "\<not> sec_active (se_status r)" for r
    using ev that by (auto simp: session_evolves_def)
  have t: "t \<in> set (sd_turns (sk_db s'))" if "t \<in> set (sd_turns (sk_db s))" "\<not> turn_active (tu_status t)" for t
    using ev that by (auto simp: turn_evolves_def)
  show ?thesis using r t ended_session_no_open_turn [OF inv] resolve_row [OF inv] by blast
qed

section \<open>Claims\<close>

text \<open>What a turn contributes to the conversation: the question and, once answered, the answer.\<close>

definition exchange :: "turn_row \<Rightarrow> sec_message list" where
  "exchange t = (case rowTurn t of
     Inl _ \<Rightarrow> []
   | Inr v \<Rightarrow> (''user'', tu_request v) # (case tu_response v of None \<Rightarrow> [] | Some a \<Rightarrow> [(''assistant'', a)]))"

lemma rowTurn_fields:
  "rowTurn t = Inr v \<Longrightarrow> tu_id v = tu_id t \<and> tu_session v = tu_session t \<and> tu_sequence v = tu_sequence t \<and> tu_status v = tu_status t \<and>
     (tu_response v = None \<longleftrightarrow> tu_response t = None)"
  by (auto simp: rowTurn_def bindR_def split: if_splits sum.splits option.splits)

lemma messages_exchange:
  "(\<And>t. t \<in> set ts \<Longrightarrow> good_turn t \<and> (tu_status t = Completed \<or> tu_response t = None)) \<Longrightarrow>
     bindR (collect (map rowTurn ts)) messages_of = Inr (concat (map exchange ts))"
proof (induction ts)
  case (Cons t ts)
  from Cons.prems [of t] obtain v where v: "rowTurn t = Inr v" and g: "turn_lifecycle t" and o: "tu_status t = Completed \<or> tu_response t = None"
    by (auto simp: good_turn_def readable_turn_def)
  from Cons obtain vs where vs: "collect (map rowTurn ts) = Inr vs" "messages_of vs = Inr (concat (map exchange ts))"
    by (auto simp: bindR_Inr_iff)
  have "tu_response v \<noteq> None" if "tu_status v = Completed" using that g rowTurn_fields [OF v] by (simp add: turn_lifecycle_def)
  moreover have "exchange t = (''user'', tu_request v) # (case tu_response v of None \<Rightarrow> [] | Some a \<Rightarrow> [(''assistant'', a)])"
    by (simp add: exchange_def v)
  ultimately show ?case using v vs o rowTurn_fields [OF v] by (cases "tu_response v") auto
qed simp

lemma queued_turn:
  assumes inv: "sec_inv mx s" and row: "sort_by by_sequence (filter (turn_of sid Queued) (sd_turns s)) = row # rest"
  shows "\<exists>ts. turns_of sid s = ts @ [row] \<and> (\<forall>t \<in> set ts. \<not> turn_active (tu_status t)) \<and> row \<in> set (sd_turns s) \<and>
    tu_status row = Queued \<and> tu_session row = sid"
proof -
  have "row \<in> set (filter (turn_of sid Queued) (sd_turns s))" using row set_sort_by [of by_sequence] by (metis list.set_intros(1))
  then have r: "row \<in> set (sd_turns s)" "tu_session row = sid" "tu_status row = Queued" by (auto simp: turn_of_def)
  then have m: "row \<in> set (turns_of sid s)" by (simp add: turns_of_def)
  then obtain ts x where ts: "turns_of sid s = ts @ [x]" by (cases "turns_of sid s" rule: rev_cases) auto
  with sec_invD(5) [OF inv, of sid] have "\<forall>t \<in> set ts. \<not> turn_active (tu_status t)" by (simp add: in_order_def)
  then show ?thesis using ts m r by (auto simp: turn_active_def)
qed

lemma open_turn_only:
  assumes "sec_inv mx s" and "row \<in> set (sd_turns s)" and "t \<in> set (sd_turns s)" and "open_turn (tu_id row) sid Queued t"
  shows "t = row"
proof -
  have "tu_id t = tu_id row" using assms(4) by (simp add: open_turn_def)
  then show ?thesis
    using find_key_in_set [OF sec_invD(2) [OF assms(1)] assms(2)] find_key_in_set [OF sec_invD(2) [OF assms(1)] assms(3)] by simp
qed

lemma sorted_turns:
  assumes "in_order ts" and "\<And>t. tu_sequence (f t) = tu_sequence t"
  shows "sort_by by_sequence (filter P (map f ts)) = filter P (map f ts)"
proof -
  have "sorted (map tu_sequence (map f ts))" using assms by (simp add: in_order_def comp_def del: upt_Suc)
  then have "sorted_wrt by_sequence (map f ts)" by (simp add: sorted_wrt_map by_sequence_def)
  then show ?thesis by (intro sort_by_sorted sorted_wrt_filter)
qed

lemma rowTurn_content:
  "rowTurn t = Inr v \<Longrightarrow> parseMessage (tu_request t) ''user'' = Inr (tu_request v) \<and>
     (case tu_response t of None \<Rightarrow> tu_response v = None
      | Some raw \<Rightarrow> \<exists>a. parseMessage raw ''assistant'' = Inr a \<and> tu_response v = Some a)"
  by (auto simp: rowTurn_def bindR_def split: if_splits sum.splits option.splits)

lemma exchange_claimed:
  assumes "rowTurn t = Inr v" and "rowTurn (set_claimed now t) = Inr w"
  shows "exchange (set_claimed now t) = exchange t"
  using rowTurn_content [OF assms(1)] rowTurn_content [OF assms(2)] assms
  by (auto simp: exchange_def set_claimed_def split: option.splits)

lemma filter_map_filter: "(\<And>x. P (f x) \<Longrightarrow> Q x) \<Longrightarrow> filter P (map f (filter Q xs)) = filter P (map f xs)"
  by (induction xs) auto

lemma transcript_rows:
  assumes inv: "sec_inv mx s" and ts: "turns_of sid s = ts @ [row]" "\<forall>t \<in> set ts. \<not> turn_active (tu_status t)"
    and q: "tu_status row = Queued" "tu_id v = tu_id row" "tu_sequence v = tu_sequence row"
  shows "sort_by by_sequence (filter (in_transcript sid v) (map (\<lambda>x. if x = row then set_claimed now row else x) (sd_turns s))) =
    filter (\<lambda>x. tu_status x = Completed) ts @ [set_claimed now row]"
proof -
  let ?f = "\<lambda>x. if x = row then set_claimed now row else x"
  have mem: "x \<in> set (sd_turns s) \<and> tu_session x = sid" if "x \<in> set (ts @ [row])" for x
    using that unfolding ts(1) [symmetric] by (simp add: turns_of_def)
  have ord: "map tu_sequence ts = [1..<Suc (length ts)]" "tu_sequence row = Suc (length ts)"
    using sec_invD(5) [OF inv, of sid] by (simp_all add: in_order_def ts(1))
  have rows: "filter (in_transcript sid v) (map ?f (sd_turns s)) = filter (in_transcript sid v) (map ?f (turns_of sid s))"
    unfolding turns_of_def by (rule filter_map_filter [symmetric]) (use mem [of row] in \<open>auto simp: in_transcript_def split: if_splits\<close>)
  have "sort_by by_sequence (filter (in_transcript sid v) (map ?f (turns_of sid s))) = filter (in_transcript sid v) (map ?f (turns_of sid s))"
    by (rule sorted_turns [OF sec_invD(5) [OF inv]]) (simp add: set_claimed_def)
  also have "\<dots> = filter (in_transcript sid v) (map ?f ts) @ [set_claimed now row]"
    using mem [of row] q by (simp add: ts(1) in_transcript_def set_claimed_def)
  also have "filter (in_transcript sid v) (map ?f ts) = filter (\<lambda>x. tu_status x = Completed) ts"
  proof -
    have x: "x \<noteq> row \<and> tu_id x \<noteq> tu_id row \<and> tu_sequence x \<le> tu_sequence row" if "x \<in> set ts" for x
    proof -
      have "x \<noteq> row" using that ts(2) q(1) by (auto simp: turn_active_def)
      moreover have "tu_sequence x \<in> set [1..<Suc (length ts)]" using that unfolding ord(1) [symmetric] by simp
      moreover have "tu_id x \<noteq> tu_id row"
        using \<open>x \<noteq> row\<close> that mem [of x] mem [of row] find_key_in_set [OF sec_invD(2) [OF inv]] by (metis Un_iff option.inject set_append list.set_intros(1))
      ultimately show ?thesis using ord(2) by auto
    qed
    have "map ?f ts = ts" using x by (simp add: map_idI)
    moreover have "filter (in_transcript sid v) ts = filter (\<lambda>x. tu_status x = Completed) ts"
      by (rule filter_cong) (use x mem q in \<open>auto simp: in_transcript_def\<close>)
    ultimately show ?thesis by simp
  qed
  finally show ?thesis unfolding rows .
qed

lemma turn_claim_some:
  assumes inv: "sec_inv mx s" and run: "turn_claim now sid s = (Inr (Some (t, ms)), s')"
  shows "\<exists>ts row. turns_of sid s = ts @ [row] \<and> row \<in> set (sd_turns s) \<and> tu_status row = Queued \<and> tu_id t = tu_id row \<and>
    tu_session row = sid \<and> s' = s\<lparr>sd_turns := map (\<lambda>x. if x = row then set_claimed now row else x) (sd_turns s)\<rparr> \<and>
    ms = concat (map exchange (filter (\<lambda>x. tu_status x = Completed) ts)) @ exchange row"
proof -
  have "isSecretarySessionId sid" "isSafeInteger (Num now)"
    using run by (auto simp: turn_claim_def validateSessionId_def with_time_def throw_def split: if_splits)
  then obtain row rest where row: "sort_by by_sequence (filter (turn_of sid Queued) (sd_turns s)) = row # rest"
    and q: "claim_queued now sid row s = (Inr (t, ms), s')"
    using run by (auto simp: turn_claim_def validateSessionId_def with_time_def conv_transaction_def action_simps requireReadySession_def
        split: prod.splits sum.splits list.splits option.splits if_splits)
  from queued_turn [OF inv row] obtain ts where ts: "turns_of sid s = ts @ [row]" "\<forall>t \<in> set ts. \<not> turn_active (tu_status t)"
    and r: "row \<in> set (sd_turns s)" "tu_status row = Queued" "tu_session row = sid" by blast
  let ?f = "\<lambda>x. if x = row then set_claimed now row else x"
  have upd: "update_where (open_turn (tu_id row) sid Queued) (set_claimed now) (sd_turns s) = map ?f (sd_turns s)"
    unfolding update_where_def using open_turn_only [OF inv r(1)] r by (intro map_cong) (auto simp: open_turn_def)
  let ?s = "s\<lparr>sd_turns := map ?f (sd_turns s)\<rparr>"
  obtain v where v: "rowTurn row = Inr v" using sec_invD(4) [OF inv r(1)] by (auto simp: good_turn_def readable_turn_def)
  note fv = rowTurn_fields [OF v]
  have s': "s' = ?s" and t: "find (\<lambda>x. tu_id x = tu_id row) (sd_turns ?s) = Some u \<Longrightarrow> rowTurn u = Inr t"
    and ms: "bindR (collect (map rowTurn (sort_by by_sequence (filter (in_transcript sid v) (sd_turns ?s))))) messages_of = Inr ms" for u
    using q v fv upd by (auto simp: claim_queued_def action_simps update_turns_eval reread_turn_def split: if_splits sum.splits option.splits)
  have inv': "sec_inv mx ?s" using sec_safe_claim [OF inv, of now sid] run s' by (simp add: safe_at_def)
  have c: "set_claimed now row \<in> set (sd_turns ?s)" using r(1) by auto
  then obtain w where w: "rowTurn (set_claimed now row) = Inr w" using sec_invD(4) [OF inv'] by (auto simp: good_turn_def readable_turn_def)
  have "tu_id t = tu_id row"
    using find_key_in_set [OF sec_invD(2) [OF inv'] c] t [of "set_claimed now row"] rowTurn_fields by (auto simp: set_claimed_def)
  moreover have "ms = concat (map exchange (filter (\<lambda>x. tu_status x = Completed) ts)) @ exchange row"
  proof -
    have g: "good_turn x \<and> (tu_status x = Completed \<or> tu_response x = None)"
      if x: "x \<in> set (filter (\<lambda>x. tu_status x = Completed) ts @ [set_claimed now row])" for x
    proof (cases "x = set_claimed now row")
      case True
      then show ?thesis using sec_invD(4) [OF inv' c] by (simp add: good_turn_def turn_lifecycle_def set_claimed_def)
    next
      case False
      then have "x \<in> set (turns_of sid s)" "tu_status x = Completed" using x ts(1) by auto
      then show ?thesis using sec_invD(4) [OF inv] by (simp add: turns_of_def)
    qed
    show ?thesis
      using ms messages_exchange [of "filter (\<lambda>x. tu_status x = Completed) ts @ [set_claimed now row]", OF g] transcript_rows [OF inv ts r(2), of v now] fv exchange_claimed [OF v w] by simp
  qed
  ultimately show ?thesis using ts(1) r s' by blast
qed

text \<open>
  C27. The secretary is handed the conversation so far: when a turn is claimed, the messages are the
  questions and answers of the completed turns of that session in order, followed by the question of the
  claimed turn, which was the queued one; turns that were lost or cancelled are left out.
\<close>

theorem claim_hands_over_transcript:
  assumes "(sec_step cf sha)\<^sup>*\<^sup>* fresh_secretary s" and "turn_claim now sid (sk_db s) = (Inr (Some (t, ms)), db)"
  shows "\<exists>ts row. turns_of sid (sk_db s) = ts @ [row] \<and> tu_status row = Queued \<and> tu_id t = tu_id row \<and>
    ms = concat (map exchange (filter (\<lambda>x. tu_status x = Completed) ts)) @ exchange row \<and>
    turns_of sid db = ts @ [set_claimed now row]"
proof -
  have inv: "sec_inv (sg_max cf) (sk_db s)" using secretary.inv_reachable [OF refl assms(1)] by (simp add: broker_inv_def)
  from turn_claim_some [OF inv assms(2)] obtain ts row where ts: "turns_of sid (sk_db s) = ts @ [row]"
    and r: "row \<in> set (sd_turns (sk_db s))" "tu_status row = Queued" "tu_id t = tu_id row" "tu_session row = sid"
    and db: "db = sk_db s\<lparr>sd_turns := map (\<lambda>x. if x = row then set_claimed now row else x) (sd_turns (sk_db s))\<rparr>"
    and ms: "ms = concat (map exchange (filter (\<lambda>x. tu_status x = Completed) ts)) @ exchange row" by blast
  have n: "x \<noteq> row" if "x \<in> set ts" for x
    using that sec_invD(5) [OF inv, of sid] r(2) by (auto simp: in_order_def ts turn_active_def)
  have "turns_of sid db = map (\<lambda>x. if x = row then set_claimed now row else x) (turns_of sid (sk_db s))"
    unfolding turns_of_def db using r(4) by (simp add: filter_map comp_def) (rule arg_cong [where f = "map _"], rule filter_cong, auto simp: set_claimed_def)
  then have "turns_of sid db = ts @ [set_claimed now row]" using n by (simp add: ts map_idI)
  then show ?thesis using ts r ms by blast
qed

lemma conv_pull_some:
  assumes "sec_inv mx s" and "conv_pull sha now tok s = (Inr (b, Some (tid, n, ms)), s')"
  shows "\<exists>row. row \<in> set (sd_turns s) \<and> tu_id row = tid \<and> tu_status row = Queued \<and>
    s' = s\<lparr>sd_turns := map (\<lambda>x. if x = row then set_claimed now row else x) (sd_turns s)\<rparr>"
proof -
  obtain t where c: "turn_claim now (bi_session b) s = (Inr (Some (t, ms)), s')" "tu_id t = tid"
    using assms(2) by (auto simp: conv_pull_def conv_binding_def action_simps split: option.splits prod.splits sum.splits if_splits)
  from turn_claim_some [OF assms(1) c(1)] obtain row where "row \<in> set (sd_turns s)" "tu_status row = Queued" "tu_id t = tu_id row"
    "s' = s\<lparr>sd_turns := map (\<lambda>x. if x = row then set_claimed now row else x) (sd_turns s)\<rparr>" by blast
  then show ?thesis using c(2) by auto
qed

text \<open>
  C20. A question is put to the secretary once: when a pull has handed out a turn, no later pull, with
  whatever token and after whatever happened in between, restarts included, hands out that turn again.
\<close>

theorem question_asked_once:
  assumes reach: "(sec_step cf sha)\<^sup>*\<^sup>* fresh_secretary s"
    and first: "conv_pull sha now tok (sk_db s) = (Inr (b, Some (tid, n, ms)), db)"
    and steps: "(sec_step cf sha)\<^sup>*\<^sup>* (s\<lparr>sk_db := db\<rparr>) s'"
    and again: "conv_pull sha now' tok' (sk_db s') = (Inr (b', Some (tid', n', ms')), db')"
  shows "tid' \<noteq> tid"
proof
  assume same: "tid' = tid"
  have inv: "sec_inv (sg_max cf) (sk_db s)" using secretary.inv_reachable [OF refl reach] by (simp add: broker_inv_def)
  have inv1: "broker_inv (sg_max cf) (s\<lparr>sk_db := db\<rparr>)"
    using safe_pull [OF inv, of sha now tok] first by (simp add: safe_at_def broker_inv_def)
  have inv2: "sec_inv (sg_max cf) (sk_db s')" using secretary.inv_steps [OF steps inv1] by (simp add: broker_inv_def)
  from conv_pull_some [OF inv first] obtain row where row: "row \<in> set (sd_turns (sk_db s))" "tu_id row = tid"
    and db: "set_claimed now row \<in> set (sd_turns db)" by auto
  from conv_pull_some [OF inv2 again] obtain row' where row': "row' \<in> set (sd_turns (sk_db s'))" "tu_id row' = tid" "tu_status row' = Queued"
    using same by blast
  from steps_evolve [OF steps] db obtain u where u: "u \<in> set (sd_turns (sk_db s'))" "turn_evolves (set_claimed now row) u"
    by (auto simp: evolves_def)
  have "tu_id u = tid" "tu_status u \<noteq> Queued" using u(2) row(2) by (auto simp: turn_evolves_def same_turn_def set_claimed_def)
  moreover have "u = row'"
    using find_key_in_set [OF sec_invD(2) [OF inv2] u(1)] find_key_in_set [OF sec_invD(2) [OF inv2] row'(1)] row'(2) \<open>tu_id u = tid\<close> by simp
  ultimately show False using row'(3) by simp
qed

section \<open>Ending a session\<close>

lemma requireSession_eval:
  assumes "sec_inv mx db" and "r \<in> set (sd_sessions db)"
  shows "requireSession (se_id r) db = (Inr (secretary_session.truncate r), db)"
  using session_get_eval [OF assms(1), of "se_id r"] find_key_in_set [OF sec_invD(1) [OF assms(1)] assms(2)]
  by (simp add: requireSession_def action_simps)

lemma finish_eval:
  assumes inv: "sec_inv mx db" and r: "r \<in> set (sd_sessions db)" "sec_active (se_status r)" and t: "safe_time (Some now)"
    and st: "\<not> sec_active st" and e: "length (case err of None \<Rightarrow> ''secretary session closed'' | Some m \<Rightarrow> m) \<le> 1000"
  shows "\<exists>x. se_status x = st \<and> se_id x = se_id r \<and> session_finish now (se_id r) st err (se_updated r) db =
    (Inr x, \<lparr>sd_sessions = update_where (session_where (se_id r) sec_active)
        (\<lambda>x. x\<lparr>se_status := st, se_last_error := err, se_updated := max now (se_updated r)\<rparr>) (sd_sessions db),
      sd_turns = map (settled (se_id r) (r\<lparr>se_status := st, se_last_error := err, se_updated := max now (se_updated r)\<rparr>)) (sd_turns db)\<rparr>)"
proof -
  let ?f = "\<lambda>x :: secretary_row. x\<lparr>se_status := st, se_last_error := err, se_updated := max now (se_updated r)\<rparr>"
  have g: "good_session r" by (rule sec_invD(3) [OF inv r(1)])
  then have su: "safe_time (Some (se_updated r))"
    by (auto simp: good_session_def rowSession_def bindR_def safe_time_def split: if_splits sum.splits)
  have ch: "good_change x (?f x)" for x
    using t su e by (cases err) (auto simp: good_change_def same_session_def session_reason_def safe_time_def max_def)
  have f: "find (\<lambda>x. se_id x = se_id r) (sd_sessions db) = Some r" by (rule find_key_in_set [OF sec_invD(1) [OF inv] r(1)])
  have ok: "session_check (?f r)" "session_transition (se_status r) (se_status (?f r))"
    using g r(2) st by (cases st; auto simp: good_session_def session_check_def session_transition_def sec_active_def)+
  let ?db = "\<lparr>sd_sessions = update_where (session_where (se_id r) sec_active) ?f (sd_sessions db), sd_turns = map (settled (se_id r) (?f r)) (sd_turns db)\<rparr>"
  have up: "update_secretary (SessBroken ''constraint failed'') (se_id r) sec_active ?f db = (Inr 1, ?db)"
    using update_secretary_eval [of mx db ?f "SessBroken ''constraint failed''" "se_id r" sec_active] inv ch f r(2) ok st by simp
  have inv': "sec_inv mx ?db" using update_session_inv [of mx db ?f "se_id r" r sec_active] inv ch f r(2) ok st by simp
  have "?f r \<in> set (sd_sessions ?db)" using r by (auto simp: set_update_where session_where_def)
  from requireSession_eval [OF inv' this] have "requireSession (se_id r) ?db = (Inr (secretary_session.truncate (?f r)), ?db)" by simp
  then show ?thesis using up
    by (intro exI [of _ "secretary_session.truncate (?f r)"]) (simp add: session_finish_def changed_once_def action_simps)
qed


end
