(* ===== verification/Secretary_Example.thy ===== *)
theory Secretary_Example
  imports Secretary_Correct
begin

text \<open>
  A secretary conversation step by step, from an empty database to a second question, as the example of
  the properties of \<open>Secretary_Correct\<close>.
\<close>

section \<open>A conversation\<close>

text \<open>One session: it starts, its pod comes up, a question is queued, pulled and answered, and another one is queued.\<close>

definition sample_config :: secretary_config where
  "sample_config = \<lparr>sg_enabled = True, sg_model_ref = Some ''a/b'', sg_max = 1\<rparr>"

definition sample_token :: string where
  "sample_token = replicate 43 CHR ''A''"

definition sample_sid :: string where
  "sample_sid = ''sec-'' @ replicate 22 CHR ''A''"

definition sample_tid :: "char \<Rightarrow> string" where
  "sample_tid c = ''stn-'' @ replicate 22 c"

definition said :: "string \<Rightarrow> string \<Rightarrow> json" where
  "said role c = JObj [(''role'', JStr role), (''content'', JStr c)]"

definition sample_pull :: "(string \<times> json) list" where
  "sample_pull = [(''protocol'', JNum 1), (''operation'', JStr ''pull'')]"

definition sample_answer :: "(string \<times> json) list" where
  "sample_answer = [(''protocol'', JNum 1), (''operation'', JStr ''complete''), (''turnId'', JStr (sample_tid CHR ''B'')),
     (''response'', said ''assistant'' ''yes'')]"

definition dispatched :: "time \<Rightarrow> (string \<times> json) list \<Rightarrow> secretary_broker \<Rightarrow> secretary_broker" where
  "dispatched now fs s = s\<lparr>sk_db := snd (dispatchSecretaryConversationRequest zero_sha now sample_token fs (sk_db s))\<rparr>"

definition provisioning :: secretary_broker where
  "provisioning = snd (sec_start_begin sample_config zero_sha [] 1 [sample_sid] (sample_token, zero_sha sample_token) None fresh_secretary)"

definition asked :: secretary_broker where
  "asked = on_conv (turn_enqueue 3 [sample_tid CHR ''B''] sample_sid (Some (said ''user'' ''hi''))) (snd (sec_start_end 2 (Inr (''p'', ''u'')) provisioning))"

definition pulled :: secretary_broker where
  "pulled = dispatched 4 sample_pull asked"

definition asked_again :: secretary_broker where
  "asked_again = on_conv (turn_enqueue 6 [sample_tid CHR ''C''] sample_sid (Some (said ''user'' ''why''))) (dispatched 5 sample_answer pulled)"

definition sample_digest :: string where
  "sample_digest = zero_sha sample_token"

lemma sample_names [simp]:
  "isSecretarySessionId sample_sid" "isSecretaryTurnId (sample_tid CHR ''B'')" "isSecretaryTurnId (sample_tid CHR ''C'')"
  "sample_tid CHR ''B'' \<noteq> sample_tid CHR ''C''" "sample_tid CHR ''C'' \<noteq> sample_tid CHR ''B''"
  by code_simp+

lemma sample_credential [simp]:
  "secretaryControlTokenDigest zero_sha sample_token = Inr sample_digest" "digest_re sample_digest"
  "verifySecretaryControlToken zero_sha sample_token sample_digest" "zero_sha sample_token = sample_digest"
  by code_simp+

lemma sample_model [simp]: "model_ref_check ''a/b''" "parseLlmModelRef ''a/b'' ''secretary session model ref'' = Inr (''a'', ''b'')"
  by code_simp+

lemma sample_valid [simp]: "validateModelRef ''a/b'' = Inr ()"
  by code_simp

lemma sample_content [simp]: "valid_content ''hi''" "valid_content ''why''" "valid_content ''yes''"
proof -
  have "trim c \<noteq> [] \<and> length (utf8 c) \<le> 3" if "c \<in> {''hi'', ''why'', ''yes''}" for c
    using that by (elim insertE emptyE; hypsubst; code_simp)
  then show "valid_content ''hi''" "valid_content ''why''" "valid_content ''yes''"
    by (fastforce simp: valid_content_def MAX_CONTENT_CHARS_def)+
qed

lemma sample_said [simp]: "valid_content c \<Longrightarrow> conv_message (Some (said role c)) role = Inr c"
proof -
  have "sort [''role'', ''content''] = [''content'', ''role'']" by code_simp
  then show "valid_content c \<Longrightarrow> ?thesis" by (simp add: conv_message_def said_def valid_content_def)
qed

lemmas sample_defs = sample_config_def fresh_secretary_def action_simps

definition sample_row :: "secretary_status \<Rightarrow> string option \<Rightarrow> string option \<Rightarrow> time \<Rightarrow> secretary_row" where
  "sample_row st n u t = \<lparr>se_id = sample_sid, se_hint = None, se_status = st, se_model_ref = ''a/b'', se_runtime = ''kubernetes'',
     se_pod_name = n, se_pod_uid = u, se_created = 1, se_updated = t, se_last_error = None, se_digest = sample_digest\<rparr>"

lemma sample_row_fields [simp]:
  "se_id (sample_row st n u t) = sample_sid" "se_status (sample_row st n u t) = st" "se_digest (sample_row st n u t) = sample_digest"
  "se_updated (sample_row st n u t) = t" "se_hint (sample_row st n u t) = None"
  by (simp_all add: sample_row_def)

lemma sample_row_read [simp]:
  "isSafeInteger (Num t) \<Longrightarrow> rowSession (sample_row st n u t) = Inr (secretary_session.truncate (sample_row st n u t))"
  by (simp add: rowSession_def sample_row_def)

lemma provisioning_eval:
  "provisioning = \<lparr>sk_db = \<lparr>sd_sessions = [sample_row SecStarting None None 1], sd_turns = []\<rparr>, sk_start = Some sample_sid,
     sk_calls = [Provision sample_sid]\<rparr>"
proof -
  have r: "new_secretary sample_sid None ''a/b'' sample_digest 1 = sample_row SecStarting None None 1"
    by (simp add: new_secretary_def sample_row_def)
  have c: "session_check (sample_row SecStarting None None 1)" by (simp add: session_check_def sample_row_def text_check_def)
  show ?thesis
    by (simp add: provisioning_def sec_start_begin_def sample_defs sec_list_def session_list_def broken_def on_sessions_def session_create_def
        insert_secretary_def r c session_get_def call_runtime_def)
qed

definition sample_turn :: "char \<Rightarrow> nat \<Rightarrow> turn_status \<Rightarrow> string \<Rightarrow> string option \<Rightarrow> time \<Rightarrow> time \<Rightarrow> time option \<Rightarrow> time option \<Rightarrow> turn_row" where
  "sample_turn c n st q a t u cl co = \<lparr>tu_id = sample_tid c, tu_session = sample_sid, tu_sequence = n, tu_status = st,
     tu_request = message_json ''user'' q, tu_response = map_option (message_json ''assistant'') a, tu_created = t, tu_updated = u,
     tu_claimed = cl, tu_completed = co, tu_last_error = None\<rparr>"

lemma ready_eval:
  "sec_start_end 2 (Inr (''p'', ''u'')) provisioning =
     (Inr (secretary_session.truncate (sample_row SecReady (Some ''p'') (Some ''u'') 2)),
      \<lparr>sk_db = \<lparr>sd_sessions = [sample_row SecReady (Some ''p'') (Some ''u'') 2], sd_turns = []\<rparr>, sk_start = None, sk_calls = [Provision sample_sid]\<rparr>)"
proof -
  let ?r = "sample_row SecReady (Some ''p'') (Some ''u'') 2"
  have up: "sample_row SecStarting None None 1\<lparr>se_status := SecReady, se_pod_name := Some ''p'', se_pod_uid := Some ''u'', se_updated := 2\<rparr> = ?r"
    by (simp add: sample_row_def)
  have c: "session_check ?r" by (simp add: session_check_def sample_row_def text_check_def sql_within_def sql_length_def code_unit_def)
  have p: "validatePodIdentity (receipt_json ''p'' ''u'') = Inr (Some ''p'', Some ''u'')" by code_simp
  have "update_secretary e sample_sid (\<lambda>st. st = SecStarting)
      (\<lambda>r. r\<lparr>se_status := SecReady, se_pod_name := Some ''p'', se_pod_uid := Some ''u'', se_updated := 2\<rparr>)
      \<lparr>sd_sessions = [sample_row SecStarting None None 1], sd_turns = []\<rparr> = (Inr 1, \<lparr>sd_sessions = [?r], sd_turns = []\<rparr>)" for e :: session_error
    by (simp add: update_secretary_def action_simps Let_def session_where_def settle_trigger_def sec_active_def up c session_transition_def update_where_def)
  then show ?thesis
    by (simp add: sec_start_end_def provisioning_eval start_outcome_def valid_receipt_def on_sessions_def session_ready_def action_simps p
        requireSession_def session_get_def broken_def changed_once_def)
qed

lemma sample_turn_fields [simp]:
  "tu_id (sample_turn c n st q a t u cl co) = sample_tid c" "tu_session (sample_turn c n st q a t u cl co) = sample_sid"
  "tu_sequence (sample_turn c n st q a t u cl co) = n" "tu_status (sample_turn c n st q a t u cl co) = st"
  by (simp_all add: sample_turn_def)

lemma sample_turn_check:
  assumes "isSecretaryTurnId (sample_tid c)" "valid_content q" "pred_option valid_content a" "1 \<le> n" "t \<le> u"
    "pred_option (\<lambda>x. t \<le> x) cl" "pred_option (\<lambda>x. t \<le> x) co"
  shows "turn_check (sample_turn c n st q a t u cl co)"
  using assms by (cases a) (auto simp: turn_check_def sample_turn_def stored_fits)

lemma sample_turn_read:
  assumes "isSecretaryTurnId (sample_tid c)" "valid_content q" "pred_option valid_content a" "1 \<le> n" "n \<le> 16"
    "safe_time (Some t)" "safe_time (Some u)" "safe_time cl" "safe_time co"
  shows "rowTurn (sample_turn c n st q a t u cl co) = Inr (sample_turn c n st q a t u cl co\<lparr>tu_request := q, tu_response := a\<rparr>)"
  using assms by (cases a) (auto simp: rowTurn_def sample_turn_def parse_stored)

definition sample_db :: "turn_row list \<Rightarrow> secretary_db" where
  "sample_db ts = \<lparr>sd_sessions = [sample_row SecReady (Some ''p'') (Some ''u'') 2], sd_turns = ts\<rparr>"

definition sample_state :: "turn_row list \<Rightarrow> secretary_broker" where
  "sample_state ts = \<lparr>sk_db = sample_db ts, sk_start = None, sk_calls = [Provision sample_sid]\<rparr>"

definition question_B :: turn_row where
  "question_B = sample_turn CHR ''B'' 1 Queued ''hi'' None 3 3 None None"

definition claimed_B :: turn_row where
  "claimed_B = sample_turn CHR ''B'' 1 Claimed ''hi'' None 3 4 (Some 4) None"

definition answered_B :: turn_row where
  "answered_B = sample_turn CHR ''B'' 1 Completed ''hi'' (Some ''yes'') 3 5 (Some 4) (Some 5)"

definition question_C :: turn_row where
  "question_C = sample_turn CHR ''C'' 2 Queued ''why'' None 6 6 None None"

lemmas turn_samples = question_B_def claimed_B_def answered_B_def question_C_def

lemma sample_good [simp]:
  "turn_check question_B" "turn_check claimed_B" "turn_check answered_B" "turn_check question_C"
  by (simp_all add: turn_samples sample_turn_check)

lemma sample_read [simp]:
  "rowTurn question_B = Inr (question_B\<lparr>tu_request := ''hi''\<rparr>)" "rowTurn claimed_B = Inr (claimed_B\<lparr>tu_request := ''hi''\<rparr>)"
  "rowTurn answered_B = Inr (answered_B\<lparr>tu_request := ''hi'', tu_response := Some ''yes''\<rparr>)"
  "rowTurn question_C = Inr (question_C\<lparr>tu_request := ''why''\<rparr>)"
  by (simp_all add: turn_samples sample_turn_read safe_time_def) (simp_all add: sample_turn_def)

lemma sample_fields [simp]:
  "tu_id question_B = sample_tid CHR ''B''" "tu_session question_B = sample_sid" "tu_sequence question_B = 1" "tu_status question_B = Queued"
  "tu_id claimed_B = sample_tid CHR ''B''" "tu_session claimed_B = sample_sid" "tu_sequence claimed_B = 1" "tu_status claimed_B = Claimed"
  "tu_id answered_B = sample_tid CHR ''B''" "tu_session answered_B = sample_sid" "tu_sequence answered_B = 1" "tu_status answered_B = Completed"
  "tu_id question_C = sample_tid CHR ''C''" "tu_session question_C = sample_sid" "tu_sequence question_C = 2" "tu_status question_C = Queued"
  by (simp_all add: turn_samples)

lemma sample_next:
  "new_turn (sample_tid CHR ''B'') sample_sid (Suc 0) (message_json ''user'' ''hi'') 3 = question_B"
  "new_turn (sample_tid CHR ''C'') sample_sid (Suc (Suc 0)) (message_json ''user'' ''why'') 6 = question_C"
  "set_claimed 4 question_B = claimed_B" "set_completed 5 (message_json ''assistant'' ''yes'') claimed_B = answered_B"
  by (simp_all add: turn_samples sample_turn_def new_turn_def set_claimed_def set_completed_def)

lemma sample_lifecycle [simp]: "turn_lifecycle claimed_B" "turn_lifecycle answered_B"
  by (simp_all add: turn_lifecycle_def turn_samples sample_turn_def)

lemmas conversation_eval = validateSessionId_def with_time_def with_turn_id_def conv_transaction_def action_simps requireReadySession_def
  turns_of_def Let_def insert_turn_def turn_status_of_def turn_active_def MAX_CONVERSATION_TURNS_def sample_db_def sample_next

lemma asked_eval: "asked = sample_state [question_B]"
  by (simp add: asked_def ready_eval on_conv_def turn_enqueue_def conversation_eval last_sequence_def sample_state_def)

lemma claim_eval:
  "turn_claim 4 sample_sid (sample_db [question_B]) = (Inr (Some (claimed_B\<lparr>tu_request := ''hi''\<rparr>, [(''user'', ''hi'')])), sample_db [claimed_B])"
proof -
  have "passes (set_claimed 4) question_B" by (simp add: passes_def sample_next turn_transition_def)
  then show ?thesis
    by (simp add: turn_claim_def conversation_eval turn_of_def claim_queued_def update_turns_eval open_turn_def update_where_def
        in_transcript_def reread_turn_def)
qed

definition sample_binding :: secretary_binding where
  "sample_binding = \<lparr>bi_session = sample_sid, bi_hint = None, bi_model_ref = ''a/b'', bi_runtime = ''kubernetes''\<rparr>"

lemma sample_bound [simp]: "conv_binding zero_sha sample_token (sample_db ts) = (Inr sample_binding, sample_db ts)"
proof -
  have "rowSession (sample_row SecReady (Some ''p'') (Some ''u'') 2) = Inr (secretary_session.truncate (sample_row SecReady (Some ''p'') (Some ''u'') 2))"
    by simp
  then show ?thesis
    by (simp add: conv_binding_def action_simps resolveSecretarySession_def sample_db_def sec_active_def sample_binding_def) (simp add: sample_row_def)
qed

lemma sample_open [simp]: "bi_session sample_binding = sample_sid"
  "find (\<lambda>r. se_id r = sample_sid) (sd_sessions (sample_db ts)) = Some (sample_row SecReady (Some ''p'') (Some ''u'') 2)"
  by (simp_all add: sample_binding_def sample_db_def)

lemma pull_eval:
  "conv_pull zero_sha 4 sample_token (sample_db [question_B]) =
     (Inr (sample_binding, Some (sample_tid CHR ''B'', 1, [(''user'', ''hi'')])), sample_db [claimed_B])"
  by (simp add: conv_pull_def action_simps claim_eval)

lemma pulled_eval: "pulled = sample_state [claimed_B]"
  by (simp add: pulled_def dispatched_def dispatchSecretaryConversationRequest_def asked_eval sample_pull_def sample_state_def action_simps
      on_conversation_def pull_eval conv_exact_def)

lemma turn_complete_eval:
  "turn_complete 5 sample_sid (sample_tid CHR ''B'') (Some (said ''assistant'' ''yes'')) (sample_db [claimed_B]) =
     (Inr (answered_B\<lparr>tu_request := ''hi'', tu_response := Some ''yes''\<rparr>), sample_db [answered_B])"
proof -
  have "passes (set_completed 5 (message_json ''assistant'' ''yes'')) claimed_B" by (simp add: passes_def sample_next turn_transition_def)
  then show ?thesis
    by (simp add: turn_complete_def conversation_eval complete_current_def update_turns_eval open_turn_def update_where_def reread_turn_def)
qed

lemma complete_eval:
  "conv_complete zero_sha 5 sample_token (sample_tid CHR ''B'') (Some (said ''assistant'' ''yes'')) (sample_db [claimed_B]) =
     (Inr (sample_binding, sample_tid CHR ''B'', 1, 5), sample_db [answered_B])"
proof -
  have "tu_completed answered_B = Some 5" by (simp add: turn_samples sample_turn_def)
  then show ?thesis by (simp add: conv_complete_def action_simps turn_complete_eval)
qed

lemma asked_again_eval: "asked_again = sample_state [answered_B, question_C]"
proof -
  have keys: "sort (map fst sample_answer) = sort [''operation'', ''protocol'', ''response'', ''turnId'']" by code_simp
  have "dispatched 5 sample_answer pulled = sample_state [answered_B]"
    by (simp add: dispatched_def dispatchSecretaryConversationRequest_def pulled_eval sample_state_def action_simps conv_exact_def keys
        on_conversation_def) (simp add: sample_answer_def complete_eval action_simps on_conversation_def)
  then show ?thesis
    by (simp add: asked_again_def sample_state_def on_conv_def turn_enqueue_def conversation_eval last_sequence_def) auto
qed

lemma claim_again_eval:
  "turn_claim 7 sample_sid (sample_db [answered_B, question_C]) =
     (Inr (Some (set_claimed 7 question_C\<lparr>tu_request := ''why''\<rparr>, [(''user'', ''hi''), (''assistant'', ''yes''), (''user'', ''why'')])),
      sample_db [answered_B, set_claimed 7 question_C])"
proof -
  have c: "set_claimed 7 question_C = sample_turn CHR ''C'' 2 Claimed ''why'' None 6 7 (Some 7) None"
    by (simp add: turn_samples sample_turn_def set_claimed_def)
  have "passes (set_claimed 7) question_C"
    by (simp add: passes_def c sample_turn_check turn_transition_def) (simp add: turn_lifecycle_def sample_turn_def)
  moreover have "rowTurn (set_claimed 7 question_C) = Inr (set_claimed 7 question_C\<lparr>tu_request := ''why''\<rparr>)"
    by (simp add: c sample_turn_read safe_time_def) (simp add: sample_turn_def)
  moreover have "tu_id (set_claimed 7 question_C) = sample_tid CHR ''C''" "tu_sequence (set_claimed 7 question_C) = 2"
    "tu_session (set_claimed 7 question_C) = sample_sid" "tu_status (set_claimed 7 question_C) = Claimed" by (simp_all add: c)
  ultimately show ?thesis
    by (simp add: turn_claim_def conversation_eval turn_of_def claim_queued_def update_turns_eval open_turn_def update_where_def
        in_transcript_def reread_turn_def by_sequence_def)
qed

section \<open>The states are reachable\<close>

lemma safe_times: "safe_time (Some 2)" "safe_time (Some 8)"
  by (simp_all add: safe_time_def)

lemma asked_reachable: "(sec_step sample_config zero_sha)\<^sup>*\<^sup>* fresh_secretary asked"
  unfolding asked_def provisioning_def
  by (rule rtranclp.rtrancl_into_rtrancl [OF rtranclp.rtrancl_into_rtrancl [OF rtranclp.rtrancl_into_rtrancl [OF rtranclp.rtrancl_refl]]])
    (rule sec_step.start_begin sec_step.start_end [OF safe_times(1)] sec_step.enqueue)+

lemma pulled_then_asked_again: "(sec_step sample_config zero_sha)\<^sup>*\<^sup>* pulled asked_again"
  unfolding asked_again_def dispatched_def
  by (rule rtranclp.rtrancl_into_rtrancl [OF rtranclp.rtrancl_into_rtrancl [OF rtranclp.rtrancl_refl]]) (rule sec_step.request sec_step.enqueue)+

lemma asked_again_reachable: "(sec_step sample_config zero_sha)\<^sup>*\<^sup>* fresh_secretary asked_again"
proof -
  have "sec_step sample_config zero_sha asked pulled" unfolding pulled_def dispatched_def by (rule sec_step.request)
  from rtranclp.rtrancl_into_rtrancl [OF asked_reachable this] pulled_then_asked_again show ?thesis by (rule rtranclp_trans)
qed

section \<open>The properties on the example\<close>

theorem conversations_consistent_witness:
  "turns_of sample_sid (sk_db asked_again) = [answered_B, question_C] \<and>
    map tu_sequence (turns_of sample_sid (sk_db asked_again)) = [1..<Suc (length (turns_of sample_sid (sk_db asked_again)))] \<and>
    length (filter (\<lambda>r. sec_active (se_status r)) (sd_sessions (sk_db asked_again))) \<le> 1"
proof -
  have "turns_of sample_sid (sk_db asked_again) = [answered_B, question_C]"
    by (simp add: asked_again_eval sample_state_def sample_db_def turns_of_def)
  then show ?thesis using conversations_consistent [OF asked_again_reachable, of sample_sid] by (simp add: sample_config_def)
qed

definition hung_up :: secretary_broker where
  "hung_up = snd (sec_close 8 sample_sid None asked_again)"

lemma hang_up: "(sec_step sample_config zero_sha)\<^sup>*\<^sup>* asked_again hung_up"
  unfolding hung_up_def by (rule r_into_rtranclp) (rule sec_step.close [OF safe_times(2)])

theorem secretary_end_is_final_witness:
  "answered_B \<in> set (sd_turns (sk_db asked_again)) \<and> \<not> turn_active (tu_status answered_B) \<and> answered_B \<in> set (sd_turns (sk_db hung_up))"
proof -
  have "answered_B \<in> set (sd_turns (sk_db asked_again))" "\<not> turn_active (tu_status answered_B)"
    by (simp_all add: asked_again_eval sample_state_def sample_db_def turn_active_def)
  then show ?thesis using secretary_end_is_final [OF asked_again_reachable hang_up] by blast
qed

theorem claim_hands_over_transcript_witness:
  "\<exists>ts row. turns_of sample_sid (sk_db asked_again) = ts @ [row] \<and>
    [(''user'', ''hi''), (''assistant'', ''yes''), (''user'', ''why'')] =
      concat (map exchange (filter (\<lambda>x. tu_status x = Completed) ts)) @ exchange row"
proof -
  have "sk_db asked_again = sample_db [answered_B, question_C]" by (simp add: asked_again_eval sample_state_def)
  then have "turn_claim 7 sample_sid (sk_db asked_again) =
     (Inr (Some (set_claimed 7 question_C\<lparr>tu_request := ''why''\<rparr>, [(''user'', ''hi''), (''assistant'', ''yes''), (''user'', ''why'')])),
      sample_db [answered_B, set_claimed 7 question_C])" by (simp only: claim_again_eval)
  from claim_hands_over_transcript [OF asked_again_reachable this] show ?thesis by blast
qed

theorem question_asked_once_witness:
  "conv_pull zero_sha 4 sample_token (sk_db asked) =
      (Inr (sample_binding, Some (sample_tid CHR ''B'', 1, [(''user'', ''hi'')])), sk_db pulled) \<and>
    fst (conv_pull zero_sha 7 sample_token (sk_db asked_again)) =
      Inr (sample_binding, Some (sample_tid CHR ''C'', 2, [(''user'', ''hi''), (''assistant'', ''yes''), (''user'', ''why'')])) \<and>
    sample_tid CHR ''C'' \<noteq> sample_tid CHR ''B''"
proof -
  have first: "conv_pull zero_sha 4 sample_token (sk_db asked) =
      (Inr (sample_binding, Some (sample_tid CHR ''B'', 1, [(''user'', ''hi'')])), sk_db pulled)"
    by (simp add: asked_eval pulled_eval sample_state_def pull_eval)
  have s: "asked\<lparr>sk_db := sk_db pulled\<rparr> = pulled" by (simp add: asked_eval pulled_eval sample_state_def)
  have again: "conv_pull zero_sha 7 sample_token (sk_db asked_again) =
      (Inr (sample_binding, Some (sample_tid CHR ''C'', 2, [(''user'', ''hi''), (''assistant'', ''yes''), (''user'', ''why'')])),
       sample_db [answered_B, set_claimed 7 question_C])"
    by (simp add: asked_again_eval sample_state_def conv_pull_def action_simps claim_again_eval) (simp add: set_claimed_def)
  have "sample_tid CHR ''C'' \<noteq> sample_tid CHR ''B''"
    by (rule question_asked_once [OF asked_reachable first _ again]) (simp only: s pulled_then_asked_again)
  then show ?thesis using first again by simp
qed


section \<open>Two ways to go wrong\<close>

text \<open>
  Closing a session while its pod is being provisioned: the cleanup of \<open>close\<close> comes before the pod exists;
  when \<open>provision\<close> then succeeds, the session can be neither readied nor failed, the start throws, and no
  cleanup follows. The pod is left behind.
\<close>

lemma close_during_start_leaves_pod:
  "\<exists>s. s = snd (sec_close 2 sample_sid None provisioning) \<and>
    fst (sec_start_end 3 (Inr (''p'', ''u'')) s) = Inl (SecSession (SessConflict ''secretary session is closed'')) \<and>
    sk_calls (snd (sec_start_end 3 (Inr (''p'', ''u'')) s)) = [Provision sample_sid, CleanUp sample_sid]"
proof -
  let ?c = "sample_row SecStarting None None 1\<lparr>se_status := SecClosed, se_last_error := None, se_updated := 2\<rparr>"
  have c: "?c = sample_row SecClosed None None 2" by (simp add: sample_row_def)
  have k: "session_check (sample_row SecClosed None None 2)" by (simp add: session_check_def sample_row_def text_check_def)
  have "sec_close 2 sample_sid None provisioning = (Inr (secretary_session.truncate (sample_row SecClosed None None 2)),
      \<lparr>sk_db = \<lparr>sd_sessions = [sample_row SecClosed None None 2], sd_turns = []\<rparr>, sk_start = Some sample_sid,
        sk_calls = [Provision sample_sid, CleanUp sample_sid]\<rparr>)"
    by (simp add: sec_close_def provisioning_eval action_simps sec_status_def session_get_def broken_def on_sessions_def session_close_def
        requireSession_def session_finish_def update_secretary_def Let_def session_where_def sec_active_def settle_trigger_def update_turns_eval
        c k session_transition_def update_where_def changed_once_def call_runtime_def)
  then show ?thesis
    by (simp add: sec_start_end_def start_outcome_def valid_receipt_def on_sessions_def session_ready_def action_simps
        requireSession_def session_get_def broken_def start_failed_def session_fail_def session_message_def)
qed

text \<open>
  A claimed turn and a clock that has gone back: marking the turn ambiguous breaks a constraint, so the
  supervisor does not start. The session operations take the maximum with the previous time; this one
  does not.
\<close>

lemma clock_gone_back_stops_supervisor:
  "startSecretarySupervisor sample_config 3 answer pulled = (Inl (RecoverTurnsFailed sql_failed), pulled)"
proof -
  have "\<not> turn_lifecycle (end_turn Ambiguous 3 ''secretary host restarted with a claimed turn'' claimed_B)"
    by (simp add: turn_lifecycle_def end_turn_def turn_samples sample_turn_def)
  then show ?thesis
    by (simp add: startSecretarySupervisor_def sample_config_def recoverClaimed_def with_time_def update_turns_eval pulled_eval
        sample_state_def sample_db_def passes_def)
qed

end
