(* ===== verification/Secretary_Mind.thy ===== *)
theory Secretary_Mind
  imports Secretary_Session Worker_Requests
begin

text \<open>
  What a secretary may do to the Mind graph: the broker that answers it (\<open>src/src/secretary/mind.ts\<close>)
  and the requests it arrives with (\<open>src/src/secretary/mind-request.ts\<close>).

  The sessions are only read, so they are an argument; the state is that of the Mind service. The limit
  on the size of an answer counts the UTF-8 bytes of its JSON text, so the answers come with their JSON
  values; \<open>num\<close> is the text of a number. \<open>SecItemGone\<close> stands for the exception of a null dereference
  where the source asserts with \<open>!\<close> that an item is there.
\<close>

section \<open>Answers\<close>

definition SECRETARY_MIND_MAX_DEPTH :: nat where "SECRETARY_MIND_MAX_DEPTH = 16"
definition SECRETARY_MIND_MAX_ITEMS :: nat where "SECRETARY_MIND_MAX_ITEMS = 100"
definition SECRETARY_MIND_MAX_RESPONSE_CHARS :: nat where "SECRETARY_MIND_MAX_RESPONSE_CHARS = 1024 * 1024"
definition SECRETARY_MIND_MAX_LINKS :: nat where "SECRETARY_MIND_MAX_LINKS = 1000"

datatype secretary_mind_error =
    SecUnauthorized
  | SecNoHint
  | SecNoItem
  | SecTooLarge string
  | SecBadRequest string
  | SecReplyRefused mind_error
  | SecRefused mind_error
  | SecItemGone

record sec_list_item =
  sl_id :: string
  sl_title :: string
  sl_preview :: string
  sl_cut :: bool
  sl_kind :: mind_kind
  sl_status :: mind_status
  sl_effective :: effective_status
  sl_priority :: int
  sl_parent :: "string option"
  sl_tags :: "string list"
  sl_due :: "time option"
  sl_archived :: "time option"
  sl_updated :: time

datatype secretary_reply =
    SecItem secretary_binding mind_detail
  | SecList secretary_binding "sec_list_item list"
  | SecWrite secretary_binding mind_comment mind_detail
  | SecTree secretary_binding string "mind_detail list" bool

type_synonym 'a secretary_mind = "(secretary_mind_error, mind_world, 'a) action"

text \<open>The JSON value of an answer, field by field as the interfaces of \<open>mind.ts\<close> list them.\<close>

definition effective_json :: "effective_status \<Rightarrow> json" where
  "effective_json e = JStr (case e of Plain s \<Rightarrow> status_name s | Blocked \<Rightarrow> ''blocked'')"

definition link_json :: "mind_link \<Rightarrow> json" where
  "link_json l = JObj [(''id'', JStr (ln_id l)), (''title'', JStr (ln_title l)), (''status'', JStr (status_name (ln_status l))),
     (''effectiveStatus'', effective_json (ln_effective l))]"

definition claim_json :: "mind_claim \<Rightarrow> json" where
  "claim_json c = JObj [(''itemId'', JStr (mc_item c)), (''owner'', JStr (mc_owner c)), (''claimedAt'', JNum (mc_claimed c)),
     (''renewedAt'', JNum (mc_renewed c)), (''expiresAt'', JNum (mc_expires c)), (''expired'', JBool (mc_expired c))]"

definition comment_json :: "mind_comment \<Rightarrow> json" where
  "comment_json c = JObj [(''id'', JNum (of_int (cm_id c))), (''itemId'', JStr (cm_item c)), (''author'', JStr (cm_author c)),
     (''body'', JStr (cm_body c)), (''replyToId'', json_opt (\<lambda>n. JNum (of_int n)) (cm_reply c)),
     (''createdAt'', JNum (cm_created c)), (''updatedAt'', json_opt JNum (cm_updated c))]"

definition event_json :: "event_row \<Rightarrow> json" where
  "event_json e = JObj [(''id'', JNum (of_int (ev_id e))), (''itemId'', JStr (ev_item e)), (''type'', JStr (ev_type e)),
     (''actor'', JStr (ev_actor e)), (''data'', JObj (ev_data e)), (''createdAt'', JNum (ev_at e))]"

definition reminder_json :: "reminder_row \<Rightarrow> json" where
  "reminder_json r = JObj [(''id'', JNum (of_int (rm_id r))), (''itemId'', JStr (rm_item r)),
     (''scheduledTaskId'', JNum (of_int (rm_task r))), (''fireAt'', JNum (rm_fire r)), (''channelId'', json_opt JStr (rm_channel r)),
     (''createdBy'', JStr (rm_by r)), (''createdAt'', JNum (rm_created r)), (''firedAt'', json_opt JNum (rm_fired r)),
     (''cancelledAt'', json_opt JNum (rm_cancelled r))]"

definition detail_json :: "mind_detail \<Rightarrow> json" where
  "detail_json d = JObj
     [(''id'', JStr (it_id d)), (''title'', JStr (it_title d)), (''body'', JStr (it_body d)),
      (''kind'', JStr (kind_name (it_kind d))), (''status'', JStr (status_name (it_status d))),
      (''priority'', JNum (of_int (it_priority d))), (''parentId'', json_opt JStr (it_parent d)),
      (''dueAt'', json_opt JNum (it_due d)), (''createdBy'', JStr (it_created_by d)), (''createdAt'', JNum (it_created_at d)),
      (''updatedAt'', JNum (it_updated_at d)), (''lastCommentAt'', json_opt JNum (mi_last_comment d)),
      (''closedAt'', json_opt JNum (it_closed_at d)), (''archivedAt'', json_opt JNum (it_archived_at d)),
      (''effectiveStatus'', effective_json (mi_effective d)), (''tags'', JArr (map JStr (mi_tags d))),
      (''blockedBy'', JArr (map link_json (mi_blocked_by d))), (''blocks'', JArr (map link_json (mi_blocks d))),
      (''childCount'', JNum (of_nat (mi_child_count d))), (''totalChildCount'', JNum (of_nat (mi_total_child_count d))),
      (''commentCount'', JNum (of_nat (mi_comment_count d))), (''reminderCount'', JNum (of_nat (mi_reminder_count d))),
      (''claim'', json_opt claim_json (mi_claim d)), (''parent'', json_opt link_json (md_parent d)),
      (''children'', JArr (map link_json (md_children d))), (''dependencies'', JArr (map link_json (md_dependencies d))),
      (''comments'', JArr (map comment_json (md_comments d))), (''events'', JArr (map event_json (md_events d))),
      (''reminders'', JArr (map reminder_json (md_reminders d)))]"

definition list_item_json :: "sec_list_item \<Rightarrow> json" where
  "list_item_json x = JObj
     [(''id'', JStr (sl_id x)), (''title'', JStr (sl_title x)), (''bodyPreview'', JStr (sl_preview x)),
      (''bodyTruncated'', JBool (sl_cut x)), (''kind'', JStr (kind_name (sl_kind x))),
      (''status'', JStr (status_name (sl_status x))), (''effectiveStatus'', effective_json (sl_effective x)),
      (''priority'', JNum (of_int (sl_priority x))), (''parentId'', json_opt JStr (sl_parent x)),
      (''tags'', JArr (map JStr (sl_tags x))), (''dueAt'', json_opt JNum (sl_due x)),
      (''archivedAt'', json_opt JNum (sl_archived x)), (''updatedAt'', JNum (sl_updated x))]"

definition binding_json :: "secretary_binding \<Rightarrow> json" where
  "binding_json b = JObj [(''sessionId'', JStr (bi_session b)), (''hintMindId'', json_opt JStr (bi_hint b)),
     (''modelRef'', JStr (bi_model_ref b)), (''runtime'', JStr (bi_runtime b))]"

primrec reply_fields :: "secretary_reply \<Rightarrow> (string \<times> json) list" where
  "reply_fields (SecItem b d) = [(''binding'', binding_json b), (''item'', detail_json d)]"
| "reply_fields (SecList b xs) = [(''binding'', binding_json b), (''items'', JArr (map list_item_json xs))]"
| "reply_fields (SecWrite b c d) = [(''binding'', binding_json b), (''comment'', comment_json c), (''item'', detail_json d)]"
| "reply_fields (SecTree b i ds partial) = [(''binding'', binding_json b), (''rootId'', JStr i), (''items'', JArr (map detail_json ds)),
     (''truncated'', JBool partial)]"

definition bounded :: "(rat \<Rightarrow> string) \<Rightarrow> secretary_reply \<Rightarrow> secretary_mind_error + secretary_reply" where
  "bounded num rep = (if length (utf8 (json_text num (JObj (reply_fields rep)))) > SECRETARY_MIND_MAX_RESPONSE_CHARS
     then Inl (SecTooLarge ''secretary Mind response exceeds the bounded response limit'') else Inr rep)"

section \<open>The broker\<close>

definition secretary_binding_of :: "(string \<Rightarrow> string) \<Rightarrow> secretary_db \<Rightarrow> string \<Rightarrow> secretary_mind_error + secretary_binding" where
  "secretary_binding_of sha sdb tok = (case resolveSecretarySession sha sdb tok of None \<Rightarrow> Inl SecUnauthorized | Some b \<Rightarrow> Inr b)"

definition project :: "mind_detail \<Rightarrow> string set \<Rightarrow> mind_detail" where
  "project d allowed = (let links = filter (\<lambda>l. ln_id l \<in> allowed) in
     d\<lparr>md_parent := (case md_parent d of None \<Rightarrow> None | Some l \<Rightarrow> if ln_id l \<in> allowed then Some l else None),
       md_children := links (md_children d), mi_blocked_by := links (mi_blocked_by d), mi_blocks := links (mi_blocks d),
       md_dependencies := links (md_dependencies d), md_reminders := [], md_events := [], mi_claim := None\<rparr>)"

definition allowedLinks :: "mind_detail \<Rightarrow> secretary_mind_error + string set" where
  "allowedLinks d = (let ids = (case md_parent d of None \<Rightarrow> [] | Some l \<Rightarrow> [ln_id l]) @ map ln_id (md_children d) @
       map ln_id (mi_blocked_by d) @ map ln_id (mi_blocks d) @ map ln_id (md_dependencies d)
     in if length ids > SECRETARY_MIND_MAX_LINKS then Inl (SecTooLarge ''secretary Mind item has too many links'')
        else Inr (set (it_id d # ids)))"

definition projected :: "mind_detail \<Rightarrow> secretary_mind_error + mind_detail" where
  "projected d = map_sum id (project d) (allowedLinks d)"

text \<open>\<open>id ?? binding.hintMindId\<close>, which must not be empty.\<close>

definition target_or_hint :: "string option \<Rightarrow> secretary_binding \<Rightarrow> secretary_mind_error + string" where
  "target_or_hint i b = (case (case i of None \<Rightarrow> bi_hint b | Some j \<Rightarrow> Some j) of
     None \<Rightarrow> Inl SecNoHint | Some t \<Rightarrow> if t = [] then Inl SecNoHint else Inr t)"

definition secretary_get ::
  "time \<Rightarrow> (rat \<Rightarrow> string) \<Rightarrow> (string \<Rightarrow> string) \<Rightarrow> secretary_db \<Rightarrow> string \<Rightarrow> string option \<Rightarrow> secretary_reply secretary_mind" where
  "secretary_get now num sha sdb tok i = reads (\<lambda>w.
     andThen (lift (secretary_binding_of sha sdb tok)) (\<lambda>b.
     andThen (lift (target_or_hint i b)) (\<lambda>t.
     case mind_get now (mw_db w) t of
       None \<Rightarrow> throw SecNoItem
     | Some d \<Rightarrow> andThen (lift (projected d)) (\<lambda>p. lift (bounded num (SecItem b p))))))"

definition list_item :: "mind_item \<Rightarrow> sec_list_item" where
  "list_item x = (let preview = take 500 (it_body x) in
     \<lparr>sl_id = it_id x, sl_title = it_title x, sl_preview = preview, sl_cut = (length preview < length (it_body x)),
      sl_kind = it_kind x, sl_status = it_status x, sl_effective = mi_effective x, sl_priority = it_priority x,
      sl_parent = it_parent x, sl_tags = mi_tags x, sl_due = it_due x, sl_archived = it_archived_at x, sl_updated = it_updated_at x\<rparr>)"

definition secretary_list ::
  "time \<Rightarrow> (rat \<Rightarrow> string) \<Rightarrow> (string \<Rightarrow> string) \<Rightarrow> secretary_db \<Rightarrow> string \<Rightarrow> list_filter \<Rightarrow> secretary_reply secretary_mind" where
  "secretary_list now num sha sdb tok f = reads (\<lambda>w.
     andThen (lift (secretary_binding_of sha sdb tok)) (\<lambda>b.
     andThen (lift (map_sum SecRefused id (mind_list now (mw_db w) f))) (\<lambda>xs.
     lift (bounded num (SecList b (map list_item xs))))))"

definition secretary_author :: "secretary_binding \<Rightarrow> string" where
  "secretary_author b = ''secretary:'' @ bi_session b"

text \<open>A call of the service, its error in the given form, and the end shared by \<open>comment\<close> and \<open>reply\<close>.\<close>

definition on_service :: "(mind_error \<Rightarrow> secretary_mind_error) \<Rightarrow> 'a service \<Rightarrow> 'a secretary_mind" where
  "on_service f m = (\<lambda>w. map_prod (map_sum f id) id (m w))"

definition written :: "time \<Rightarrow> (rat \<Rightarrow> string) \<Rightarrow> secretary_binding \<Rightarrow> string \<Rightarrow> mind_comment \<Rightarrow> secretary_reply secretary_mind" where
  "written now num b i c = reads (\<lambda>w. case mind_get now (mw_db w) i of
       None \<Rightarrow> throw SecItemGone
     | Some d \<Rightarrow> andThen (lift (projected d)) (\<lambda>p. lift (bounded num (SecWrite b c p))))"

definition secretary_comment ::
  "time \<Rightarrow> (rat \<Rightarrow> string) \<Rightarrow> (string \<Rightarrow> string) \<Rightarrow> secretary_db \<Rightarrow> string \<Rightarrow> string \<Rightarrow> string \<Rightarrow> secretary_reply secretary_mind" where
  "secretary_comment now num sha sdb tok i body = reads (\<lambda>w.
     andThen (lift (secretary_binding_of sha sdb tok)) (\<lambda>b.
     if mind_get now (mw_db w) i = None then throw SecNoItem
     else andThen (on_service SecRefused (svc_addComment now i body (secretary_author b))) (written now num b i)))"

definition secretary_answer ::
  "time \<Rightarrow> (rat \<Rightarrow> string) \<Rightarrow> (string \<Rightarrow> string) \<Rightarrow> secretary_db \<Rightarrow> string \<Rightarrow> string \<Rightarrow> int \<Rightarrow> string \<Rightarrow> secretary_reply secretary_mind" where
  "secretary_answer now num sha sdb tok i cid body = reads (\<lambda>w.
     andThen (lift (secretary_binding_of sha sdb tok)) (\<lambda>b.
     if mind_get now (mw_db w) i = None then throw SecNoItem
     else andThen (on_service SecReplyRefused (svc_addReply now i cid body (secretary_author b))) (written now num b i)))"

definition proposal_opts :: "secretary_binding \<Rightarrow> create_opts \<Rightarrow> create_opts" where
  "proposal_opts b inp = inp\<lparr>co_status := Some ''proposal'', co_actor := Some (secretary_author b),
     co_intake := Some \<lparr>pi_requester = ''conversation-user'', pi_source = ''secretary'', pi_session = bi_session b\<rparr>\<rparr>"

definition secretary_propose ::
  "time \<Rightarrow> nat list \<Rightarrow> string \<Rightarrow> (rat \<Rightarrow> string) \<Rightarrow> (string \<Rightarrow> string) \<Rightarrow> secretary_db \<Rightarrow> string \<Rightarrow> create_opts \<Rightarrow> secretary_reply secretary_mind" where
  "secretary_propose now vs rnd num sha sdb tok inp =
     andThen (lift (secretary_binding_of sha sdb tok)) (\<lambda>b.
     andThen (on_service SecRefused (svc_create now vs rnd (proposal_opts b inp) None None)) (\<lambda>r. case r of
       None \<Rightarrow> throw SecItemGone
     | Some d \<Rightarrow> andThen (lift (projected d)) (\<lambda>p. lift (bounded num (SecItem b p)))))"

text \<open>
  The recursive query of \<open>tree\<close>: the rows of depth \<open>n + 1\<close> are the children of the rows of depth \<open>n\<close>,
  without elimination of duplicates; ordered by depth and then by id.
\<close>

primrec tree_level :: "mind_db \<Rightarrow> string \<Rightarrow> nat \<Rightarrow> string list" where
  "tree_level db i 0 = [i]"
| "tree_level db i (Suc n) = concat (map (children_of db) (tree_level db i n))"

definition tree_rows :: "mind_db \<Rightarrow> string \<Rightarrow> nat \<Rightarrow> string list" where
  "tree_rows db i depth = concat (map (\<lambda>n. sort_by (\<le>) (tree_level db i n)) [0..<Suc depth])"

definition clamp :: "nat \<Rightarrow> nat \<Rightarrow> jsnum \<Rightarrow> nat" where
  "clamp lo hi n = (if isSafeInteger n then nat \<lfloor>max (of_nat lo) (min (finite_val n) (of_nat hi))\<rfloor> else hi)"

definition secretary_tree ::
  "time \<Rightarrow> (rat \<Rightarrow> string) \<Rightarrow> (string \<Rightarrow> string) \<Rightarrow> secretary_db \<Rightarrow> string \<Rightarrow> string option \<Rightarrow> jsnum \<Rightarrow> jsnum \<Rightarrow> secretary_reply secretary_mind" where
  "secretary_tree now num sha sdb tok i depth limit = reads (\<lambda>w.
     andThen (lift (secretary_binding_of sha sdb tok)) (\<lambda>b.
     andThen (lift (target_or_hint i b)) (\<lambda>t.
     let lim = clamp 1 SECRETARY_MIND_MAX_ITEMS limit;
         rows = take (lim + 1) (tree_rows (mw_db w) t (clamp 0 SECRETARY_MIND_MAX_DEPTH depth));
         selected = take lim rows;
         items = map (mind_get now (mw_db w)) selected
     in if None \<in> set items then throw SecNoItem
        else lift (bounded num (SecTree b t (map (\<lambda>d. project (the d) (set selected)) items) (length rows > lim))))))"

section \<open>Requests\<close>

type_synonym 'a checked = "string + 'a"

definition canonical_id :: "json option \<Rightarrow> string option checked" where
  "canonical_id v = (case v of
     None \<Rightarrow> Inr None
   | Some (JStr s) \<Rightarrow> if isMindId s then Inr (Some s) else Inl ''id must be a canonical elm-* id''
   | Some _ \<Rightarrow> Inl ''id must be a canonical elm-* id'')"

definition needed_id :: "json option \<Rightarrow> string checked" where
  "needed_id v = bindR (canonical_id v) (\<lambda>i. case i of None \<Rightarrow> Inl ''id is required'' | Some j \<Rightarrow> Inr j)"

definition optionalBoolean :: "json option \<Rightarrow> string \<Rightarrow> bool option checked" where
  "optionalBoolean v label = (case v of
     None \<Rightarrow> Inr None | Some (JBool b) \<Rightarrow> Inr (Some b) | Some _ \<Rightarrow> Inl (label @ '' must be a boolean''))"

definition enum_entry :: "string \<Rightarrow> string list \<Rightarrow> json \<Rightarrow> string checked" where
  "enum_entry label allowed v = (case v of
     JStr s \<Rightarrow> if s \<in> set allowed then Inr s else Inl (label @ '' contains an invalid value'')
   | _ \<Rightarrow> Inl (label @ '' contains an invalid value''))"

definition enumArray :: "json option \<Rightarrow> string \<Rightarrow> string list \<Rightarrow> string list option checked" where
  "enumArray v label allowed = (case v of
     None \<Rightarrow> Inr None
   | Some (JArr vs) \<Rightarrow> if length vs > length allowed then Inl (label @ '' must be a bounded array'')
       else map_sum id Some (map_res (enum_entry label allowed) vs)
   | Some _ \<Rightarrow> Inl (label @ '' must be a bounded array''))"

definition request_integer :: "json option \<Rightarrow> string \<Rightarrow> nat \<Rightarrow> nat \<Rightarrow> nat \<Rightarrow> rat checked" where
  "request_integer v label lo hi fallback =
     (let bad = Inl (label @ '' must be an integer from '' @ decimal lo @ '' to '' @ decimal hi) in
      case v of
        None \<Rightarrow> Inr (of_nat fallback)
      | Some (JNum n) \<Rightarrow> if integral n \<and> of_nat lo \<le> n \<and> n \<le> of_nat hi then Inr n else bad
      | Some _ \<Rightarrow> bad)"

definition secretary_text :: "json option \<Rightarrow> string \<Rightarrow> nat \<Rightarrow> bool \<Rightarrow> string option checked" where
  "secretary_text v label mx required = (case v of
     None \<Rightarrow> if required then Inl (label @ '' must be a string'') else Inr None
   | Some (JStr s) \<Rightarrow>
       (let t = (if label = ''title'' \<or> label = ''query'' then trim s else s) in
        if (required \<and> trim t = []) \<or> length t > mx
        then Inl (label @ '' must contain '' @ (if required then ''1'' else ''0'') @ '' to '' @ decimal mx @ '' characters'')
        else Inr (Some t))
   | Some _ \<Rightarrow> Inl (label @ '' must be a string''))"

text \<open>A required text, \<open>boundedText(...)!\<close>.\<close>

definition needed_text :: "json option \<Rightarrow> string \<Rightarrow> nat \<Rightarrow> string checked" where
  "needed_text v label mx = bindR (secretary_text v label mx True) (\<lambda>t. Inr (or_else t []))"

definition proposalKind :: "json option \<Rightarrow> string option checked" where
  "proposalKind v = (case v of
     None \<Rightarrow> Inr None
   | Some (JStr s) \<Rightarrow> if s \<in> set (map fst MIND_KINDS) then Inr (Some s) else Inl ''kind is invalid''
   | Some _ \<Rightarrow> Inl ''kind is invalid'')"

definition proposalParent :: "json option \<Rightarrow> string option checked" where
  "proposalParent v = (case v of
     None \<Rightarrow> Inr None
   | Some JNull \<Rightarrow> Inr None
   | Some (JStr s) \<Rightarrow> if isMindId s then Inr (Some s) else Inl ''parentId must be null or a canonical elm-* id''
   | Some _ \<Rightarrow> Inl ''parentId must be null or a canonical elm-* id'')"

definition proposal_tag :: "nat \<Rightarrow> json \<Rightarrow> string checked" where
  "proposal_tag n v = (let bad = Inl (''tag '' @ decimal n @ '' must contain 1 to 80 characters'') in
     case v of JStr s \<Rightarrow> if length (trim s) < 1 \<or> length s > 80 then bad else Inr s | _ \<Rightarrow> bad)"

definition proposalTags :: "json option \<Rightarrow> string list checked" where
  "proposalTags v = (case v of
     None \<Rightarrow> Inr []
   | Some (JArr vs) \<Rightarrow> if length vs > 32 then Inl ''tags must be an array of at most 32 strings'' else map_indexed proposal_tag 0 vs
   | Some _ \<Rightarrow> Inl ''tags must be an array of at most 32 strings'')"

definition list_request :: "(string \<times> json) list \<Rightarrow> list_filter checked" where
  "list_request fs =
     bindR (secretary_text (map_of fs ''query'') ''query'' 500 False) (\<lambda>query.
     bindR (enumArray (map_of fs ''statuses'') ''statuses'' (map fst MIND_STATUSES)) (\<lambda>sts.
     bindR (enumArray (map_of fs ''kinds'') ''kinds'' (map fst MIND_KINDS)) (\<lambda>kinds.
     bindR (optionalBoolean (map_of fs ''includeArchived'') ''includeArchived'') (\<lambda>arch.
     bindR (request_integer (map_of fs ''limit'') ''limit'' 1 100 50) (\<lambda>limit.
     bindR (request_integer (map_of fs ''offset'') ''offset'' 0 10000 0) (\<lambda>offset.
       Inr (empty_filter\<lparr>lf_query := or_else query [], lf_statuses := or_else sts [], lf_kinds := or_else kinds [],
         lf_archived := or_else arch False, lf_limit := Some \<lfloor>limit\<rfloor>, lf_offset := Some \<lfloor>offset\<rfloor>\<rparr>)))))))"

definition proposal_request :: "(string \<times> json) list \<Rightarrow> create_opts checked" where
  "proposal_request fs =
     bindR (needed_text (map_of fs ''title'') ''title'' 240) (\<lambda>title.
     bindR (secretary_text (map_of fs ''body'') ''body'' 100000 False) (\<lambda>body.
     bindR (proposalKind (map_of fs ''kind'')) (\<lambda>kind.
     bindR (request_integer (map_of fs ''priority'') ''priority'' 0 4 2) (\<lambda>prio.
     bindR (proposalParent (map_of fs ''parentId'')) (\<lambda>parent.
     bindR (proposalTags (map_of fs ''tags'')) (\<lambda>tags.
       Inr \<lparr>co_title = title, co_body = body, co_kind = kind, co_status = None, co_priority = Some (Num prio), co_parent = parent,
         co_due = None, co_tags = tags, co_depends = [], co_actor = None, co_intake = None\<rparr>))))))"

abbreviation parsed :: "'a checked \<Rightarrow> 'a secretary_mind" where
  "parsed r \<equiv> lift (map_sum SecBadRequest id r)"

definition dispatchSecretaryMindRequest ::
  "time \<Rightarrow> nat list \<Rightarrow> string \<Rightarrow> (rat \<Rightarrow> string) \<Rightarrow> (string \<Rightarrow> string) \<Rightarrow> secretary_db \<Rightarrow> string \<Rightarrow> json option \<Rightarrow> secretary_reply secretary_mind" where
  "dispatchSecretaryMindRequest now vs rnd num sha sdb tok v =
     andThen (parsed (plain_object v)) (\<lambda>fs.
     if map_of fs ''protocol'' \<noteq> Some (JNum 1) then throw (SecBadRequest ''protocol must equal 1'')
     else if map_of fs ''operation'' = Some (JStr ''get'') then
       andThen (parsed (known_fields fs [''protocol'', ''operation'', ''id''])) (\<lambda>_.
       andThen (parsed (canonical_id (map_of fs ''id''))) (\<lambda>i. secretary_get now num sha sdb tok i))
     else if map_of fs ''operation'' = Some (JStr ''list'') then
       andThen (parsed (known_fields fs [''protocol'', ''operation'', ''query'', ''statuses'', ''kinds'', ''includeArchived'', ''limit'', ''offset''])) (\<lambda>_.
       andThen (parsed (list_request fs)) (\<lambda>f. secretary_list now num sha sdb tok f))
     else if map_of fs ''operation'' = Some (JStr ''tree'') then
       andThen (parsed (known_fields fs [''protocol'', ''operation'', ''id'', ''depth'', ''limit''])) (\<lambda>_.
       andThen (parsed (canonical_id (map_of fs ''id''))) (\<lambda>i.
       andThen (parsed (request_integer (map_of fs ''depth'') ''depth'' 0 SECRETARY_MIND_MAX_DEPTH SECRETARY_MIND_MAX_DEPTH)) (\<lambda>depth.
       andThen (parsed (request_integer (map_of fs ''limit'') ''limit'' 1 SECRETARY_MIND_MAX_ITEMS SECRETARY_MIND_MAX_ITEMS)) (\<lambda>limit.
       secretary_tree now num sha sdb tok i (Num depth) (Num limit)))))
     else if map_of fs ''operation'' = Some (JStr ''comment'') then
       andThen (parsed (known_fields fs [''protocol'', ''operation'', ''id'', ''body''])) (\<lambda>_.
       andThen (parsed (needed_id (map_of fs ''id''))) (\<lambda>i.
       andThen (parsed (needed_text (map_of fs ''body'') ''body'' 20000)) (\<lambda>body. secretary_comment now num sha sdb tok i body)))
     else if map_of fs ''operation'' = Some (JStr ''reply'') then
       andThen (parsed (known_fields fs [''protocol'', ''operation'', ''id'', ''commentId'', ''body''])) (\<lambda>_.
       andThen (parsed (needed_id (map_of fs ''id''))) (\<lambda>i.
       andThen (parsed (request_integer (map_of fs ''commentId'') ''commentId'' 1 9007199254740991 0)) (\<lambda>cid.
       andThen (parsed (needed_text (map_of fs ''body'') ''body'' 20000)) (\<lambda>body. secretary_answer now num sha sdb tok i \<lfloor>cid\<rfloor> body))))
     else if map_of fs ''operation'' = Some (JStr ''propose'') then
       andThen (parsed (known_fields fs [''protocol'', ''operation'', ''title'', ''body'', ''kind'', ''priority'', ''parentId'', ''tags''])) (\<lambda>_.
       andThen (parsed (proposal_request fs)) (\<lambda>inp. secretary_propose now vs rnd num sha sdb tok inp))
     else throw (SecBadRequest ''operation must be get, list, tree, comment, reply, or propose''))"

end
