(* ===== verification/Secretary_Mind_Correct.thy ===== *)
theory Secretary_Mind_Correct
  imports Secretary_Mind
begin

text \<open>
  A secretary reads the Mind graph and adds to it, and does nothing else: what a request can do to the
  store, whatever it holds, and what the tree query returns.
\<close>

section \<open>Additions\<close>

text \<open>An item without the time of its last change, which a new comment moves.\<close>

definition undated :: "item_row \<Rightarrow> item_row" where
  "undated r = r\<lparr>it_updated_at := 0\<rparr>"

text \<open>
  From one store to another nothing was done but adding, as \<open>who\<close>, at most \<open>n\<close> proposals and comments
  together: new proposals under new ids, tags of these proposals, comments, and events.
\<close>

definition only_adds :: "string \<Rightarrow> nat \<Rightarrow> mind_db \<Rightarrow> mind_db \<Rightarrow> bool" where
  "only_adds who n db db' \<longleftrightarrow> (\<exists>items tags comments events.
     map undated (db_items db') = map undated (db_items db @ items) \<and> db_tags db' = db_tags db @ tags \<and>
     db_comments db' = db_comments db @ comments \<and> db_events db' = db_events db @ events \<and>
     db_deps db' = db_deps db \<and> db_reminders db' = db_reminders db \<and> db_claims db' = db_claims db \<and> db_id_map db' = db_id_map db \<and>
     (\<forall>r \<in> set items. it_status r = Proposal \<and> it_created_by r = who \<and> it_id r \<notin> item_ids db) \<and> distinct (map it_id items) \<and>
     tg_item ` set tags \<subseteq> it_id ` set items \<and> (\<forall>c \<in> set comments. cm_author c = who) \<and> (\<forall>e \<in> set events. ev_actor e = who) \<and>
     length items + length comments \<le> n)"

lemma ids_of_undated: "map undated xs = map undated ys \<Longrightarrow> map it_id xs = map it_id ys"
proof -
  assume "map undated xs = map undated ys"
  then have "map it_id (map undated xs) = map it_id (map undated ys)" by simp
  then show ?thesis by (simp add: undated_def comp_def)
qed

lemma only_adds_refl [simp]: "only_adds who n db db"
  unfolding only_adds_def by (rule exI [of _ "[]"])+ simp

lemma only_adds_trans:
  assumes 1: "only_adds who m a b" and 2: "only_adds who n b c"
  shows "only_adds who (m + n) a c"
proof -
  from 1 obtain i1 t1 c1 e1 where a: "map undated (db_items b) = map undated (db_items a @ i1)" "db_tags b = db_tags a @ t1"
      "db_comments b = db_comments a @ c1" "db_events b = db_events a @ e1"
      "\<forall>r \<in> set i1. it_status r = Proposal \<and> it_created_by r = who \<and> it_id r \<notin> item_ids a" "distinct (map it_id i1)"
      "tg_item ` set t1 \<subseteq> it_id ` set i1" "\<forall>c \<in> set c1. cm_author c = who" "\<forall>e \<in> set e1. ev_actor e = who" "length i1 + length c1 \<le> m"
    unfolding only_adds_def by blast
  from 2 obtain i2 t2 c2 e2 where b: "map undated (db_items c) = map undated (db_items b @ i2)" "db_tags c = db_tags b @ t2"
      "db_comments c = db_comments b @ c2" "db_events c = db_events b @ e2"
      "\<forall>r \<in> set i2. it_status r = Proposal \<and> it_created_by r = who \<and> it_id r \<notin> item_ids b" "distinct (map it_id i2)"
      "tg_item ` set t2 \<subseteq> it_id ` set i2" "\<forall>c \<in> set c2. cm_author c = who" "\<forall>e \<in> set e2. ev_actor e = who" "length i2 + length c2 \<le> n"
    unfolding only_adds_def by blast
  have "item_ids b = item_ids a \<union> it_id ` set i1"
    using arg_cong [OF ids_of_undated [OF a(1)], of set] by (simp add: item_ids_def)
  then have "(\<forall>r \<in> set (i1 @ i2). it_status r = Proposal \<and> it_created_by r = who \<and> it_id r \<notin> item_ids a) \<and> distinct (map it_id (i1 @ i2))"
    using a(5,6) b(5,6) by auto (metis image_eqI)
  moreover have "tg_item ` set (t1 @ t2) \<subseteq> it_id ` set (i1 @ i2)" using a(7) b(7) by auto
  moreover have "(\<forall>x \<in> set (c1 @ c2). cm_author x = who) \<and> (\<forall>e \<in> set (e1 @ e2). ev_actor e = who)" using a(8,9) b(8,9) by auto
  moreover have "length (i1 @ i2) + length (c1 @ c2) \<le> m + n" using a(10) b(10) by simp
  moreover have "map undated (db_items c) = map undated (db_items a @ i1 @ i2)" using a(1) b(1) by simp
  moreover have "db_deps c = db_deps a \<and> db_reminders c = db_reminders a \<and> db_claims c = db_claims a \<and> db_id_map c = db_id_map a"
    using 1 2 by (auto simp: only_adds_def)
  ultimately show ?thesis
    unfolding only_adds_def using a(2-4) b(2-4)
    by (intro exI [of _ "i1 @ i2"] exI [of _ "t1 @ t2"] exI [of _ "c1 @ c2"] exI [of _ "e1 @ e2"]) simp
qed

lemma only_adds_mono: "only_adds who m a b \<Longrightarrow> m \<le> n \<Longrightarrow> only_adds who n a b"
  using only_adds_trans [of who m a b "n - m" b] by simp

lemma undated_touch: "map undated (db_items (touch i tm db)) = map undated (db_items db)"
  by (simp add: touch_def update_item_def update_where_def undated_def)

lemma adds_comment: "only_adds who 1 db (snd (addCommentInternal i body who tm reply db))"
  unfolding only_adds_def addCommentInternal_def Let_def
  by (rule exI [of _ "[]"], rule exI [of _ "[]"])
    (simp add: add_event_def undated_touch, simp add: touch_def update_item_def)

lemma adds_create:
  assumes "co_status opts = Some ''proposal''" "co_actor opts = Some who" "trim who = who" "who \<noteq> []" "co_depends opts = []"
  shows "only_adds who 1 db (snd (mind_create now vs opts db))"
proof -
  have tx: "only_adds who 1 db (snd (create_tx now vs opts a db))" if a: "check_create db opts = Inr a" for a
  proof (cases "fresh_id db vs")
    case (Some ir)
    obtain i rest where [simp]: "ir = (i, rest)" by (cases ir)
    have i: "i \<notin> item_ids db" using fresh_id_new Some by auto
    have a': "ca_depends a = []" "ca_status a = Proposal" "ca_actor a = who"
      using a assms by (auto simp: check_create_def bindR_def uniq_def actor_or_agent_def assertStatus_def MIND_STATUSES_def split: sum.splits if_splits)
    show ?thesis
      unfolding only_adds_def
      by (rule exI [of _ "[created_row now opts a i]"], rule exI [of _ "map (\<lambda>t. \<lparr>tg_item = i, tg_tag = t\<rparr>) (ca_tags a)"],
          rule exI [of _ "[]"])
        (auto simp: create_tx_def action_simps insert_item_def add_event_def created_row_def i a' Some)
  qed (simp add: create_tx_def action_simps)
  show ?thesis
    unfolding mind_create_def action_simps
    by (auto simp: tx split: sum.split prod.split) (metis One_nat_def snd_conv tx)
qed

section \<open>What an operation of the broker does\<close>

lemma store_effect: "mw_db (snd (store_then_changed m w)) = snd (m (mw_db w))" "fst (store_then_changed m w) = fst (m (mw_db w))"
  by (simp_all add: store_then_changed_def on_store_def changed_def notifyChanged_def action_simps split: prod.split sum.split)

lemma batch_effect: "mw_db (snd (batch m w)) = mw_db (snd (m (w\<lparr>mw_depth := mw_depth w + 1\<rparr>)))" "fst (batch m w) = fst (m (w\<lparr>mw_depth := mw_depth w + 1\<rparr>))"
  by (simp_all add: batch_def Let_def notifyChanged_def split: prod.split)

lemma create_effect:
  "mw_db (snd (svc_create now vs rnd opts None None w)) = snd (mind_create now vs opts (mw_db w))"
  "fst (svc_create now vs rnd opts None None w) = (case mind_create now vs opts (mw_db w) of
      (Inl e, _) \<Rightarrow> Inl e | (Inr None, _) \<Rightarrow> Inr None | (Inr (Some d), db) \<Rightarrow> Inr (mind_get now db (it_id d)))"
  by (simp_all add: svc_create_def batch_effect on_store_def read_store_def changed_def notifyChanged_def action_simps
      split: prod.split sum.split option.split)

lemma mind_get_Some_iff: "(\<exists>d. mind_get now db i = Some d) \<longleftrightarrow> i \<in> item_ids db"
  using find_key_None [of it_id i "db_items db"] by (auto simp: mind_get_def item_by_id_def item_ids_def split: option.split)

lemma created_is_there:
  assumes run: "mind_create now vs opts db = (Inr r, db')" and "co_depends opts = []"
  shows "\<exists>d. r = Some d \<and> mind_get now db' (it_id d) = Some d"
proof -
  from run obtain a i where a: "check_create db opts = Inr a" and tx: "create_tx now vs opts a db = (Inr i, db')" "r = mind_get now db' i"
    by (auto simp: mind_create_def action_simps split: prod.splits sum.splits)
  have "ca_depends a = []" using a assms(2) by (auto simp: check_create_def bindR_def uniq_def split: sum.splits if_splits)
  then have "i \<in> item_ids db'"
    using tx(1) by (auto simp: create_tx_def action_simps insert_item_def add_event_def item_ids_def created_row_def split: option.splits)
  then obtain d where "mind_get now db' i = Some d" using mind_get_Some_iff by blast
  then show ?thesis using tx(2) mind_get_id by fastforce
qed

text \<open>
  The contract of a request of the secretary bound by \<open>b\<close>: it adds at most one proposal or comment; when it is
  refused it added nothing, unless the answer turned out too large; an answer shows no reminder, event or claim
  and keeps within the limit.
\<close>

primrec reply_details :: "secretary_reply \<Rightarrow> mind_detail list" where
  "reply_details (SecItem b d) = [d]"
| "reply_details (SecList b xs) = []"
| "reply_details (SecWrite b c d) = [d]"
| "reply_details (SecTree b i ds partial) = ds"

definition reply_ok :: "(rat \<Rightarrow> string) \<Rightarrow> secretary_reply \<Rightarrow> bool" where
  "reply_ok num rep \<longleftrightarrow> length (utf8 (json_text num (JObj (reply_fields rep)))) \<le> SECRETARY_MIND_MAX_RESPONSE_CHARS \<and>
     (\<forall>d \<in> set (reply_details rep). md_reminders d = [] \<and> md_events d = [] \<and> mi_claim d = None)"

definition added :: "string \<Rightarrow> mind_world \<Rightarrow> mind_world \<Rightarrow> bool" where
  "added who w w' \<longleftrightarrow> only_adds who 1 (mw_db w) (mw_db w')"

definition refused :: "string \<Rightarrow> mind_world \<Rightarrow> secretary_mind_error \<Rightarrow> mind_world \<Rightarrow> bool" where
  "refused who w e w' \<longleftrightarrow> added who w w' \<and> (mw_db w' = mw_db w \<or> (\<exists>m. e = SecTooLarge m))"

abbreviation answered :: "string \<Rightarrow> (rat \<Rightarrow> string) \<Rightarrow> mind_world \<Rightarrow> (mind_world \<Rightarrow> bool) \<Rightarrow> secretary_reply secretary_mind \<Rightarrow> bool" where
  "answered who num w P m \<equiv> triple P m (\<lambda>rep w'. added who w w' \<and> reply_ok num rep) (refused who w)"

lemma added_refl [simp]: "added who w w" "refused who w e w"
  by (simp_all add: added_def refused_def)

lemma bounded_cases:
  "bounded num rep = Inl e \<Longrightarrow> \<exists>m. e = SecTooLarge m"
  "bounded num rep = Inr rep' \<Longrightarrow> rep' = rep \<and> length (utf8 (json_text num (JObj (reply_fields rep)))) \<le> SECRETARY_MIND_MAX_RESPONSE_CHARS"
  by (auto simp: bounded_def split: if_splits)

lemma projected_cases:
  "projected d = Inl e \<Longrightarrow> \<exists>m. e = SecTooLarge m"
  "projected d = Inr p \<Longrightarrow> \<exists>X. p = project d X"
  by (auto simp: projected_def allowedLinks_def Let_def map_sum_def split: sum.splits if_splits)

lemma project_clean [simp]: "md_reminders (project d X) = []" "md_events (project d X) = []" "mi_claim (project d X) = None"
  by (simp_all add: project_def Let_def)

lemma answered_bounded:
  assumes "\<And>s. P s \<Longrightarrow> added who w s" and "\<forall>d \<in> set (reply_details rep). \<exists>x X. d = project x X"
  shows "answered who num w P (lift (bounded num rep))"
  by (rule triple_lift) (use assms in \<open>auto simp: refused_def reply_ok_def dest!: bounded_cases\<close>)

lemma answered_projected:
  assumes "\<And>s. P s \<Longrightarrow> added who w s" and "\<And>x X. \<forall>d \<in> set (reply_details (f (project x X))). \<exists>x X. d = project x X"
  shows "answered who num w P (andThen (lift (projected d)) (\<lambda>p. lift (bounded num (f p))))"
  by (rule triple_lift_then)
    (use assms in \<open>auto simp: refused_def dest!: projected_cases intro!: answered_bounded\<close>)

lemma answered_throw: "answered who num w (\<lambda>s. s = w) (throw e)"
  by (simp add: triple_def action_simps)

lemma answered_lift:
  "(\<And>a. r = Inr a \<Longrightarrow> answered who num w (\<lambda>s. s = w) (k a)) \<Longrightarrow> answered who num w (\<lambda>s. s = w) (andThen (lift r) k)"
  by (rule triple_lift_then) simp_all

lemma then_returned: "andThen (lift (Inr a)) k = k a"
  by (simp add: fun_eq_iff action_simps)

lemma triple_if: "(c \<Longrightarrow> triple P a Q E) \<Longrightarrow> (\<not> c \<Longrightarrow> triple P b Q E) \<Longrightarrow> triple P (if c then a else b) Q E"
  by simp

lemma adds_ids: "only_adds who n db db' \<Longrightarrow> item_ids db \<subseteq> item_ids db'"
proof -
  assume "only_adds who n db db'"
  then obtain items where "map undated (db_items db') = map undated (db_items db @ items)" unfolding only_adds_def by blast
  from arg_cong [OF ids_of_undated [OF this], of set] show ?thesis by (auto simp: item_ids_def)
qed

lemma answered_service:
  assumes "added who w (snd (m w))" and "\<And>e w'. m w = (Inl e, w') \<Longrightarrow> mw_db w' = mw_db w"
    and "\<And>a w'. m w = (Inr a, w') \<Longrightarrow> added who w w' \<Longrightarrow> answered who num w (\<lambda>s. s = w') (k a)"
  shows "answered who num w (\<lambda>s. s = w) (andThen (on_service f m) k)"
proof -
  obtain r w' where run: "m w = (r, w')" by fastforce
  show ?thesis
  proof (cases r)
    case (Inl e)
    then show ?thesis using assms(1,2) run by (auto simp: triple_def action_simps on_service_def refused_def)
  next
    case (Inr a)
    then show ?thesis using assms(1,3) run by (auto simp: triple_def action_simps on_service_def)
  qed
qed

lemma atomic_comments: "atomic_on_error (addComment now i body who)" "atomic_on_error (addReply now i n body who)"
  unfolding addComment_def addReply_def by (intro atomic_intro atomic_addComment)+

lemma adds_comments: "only_adds who 1 db (snd (addComment now i body who db))" "only_adds who 1 db (snd (addReply now i n body who db))"
  by (simp_all add: addComment_def addReply_def action_simps adds_comment del: One_nat_def split: sum.split)

lemma answered_comment:
  assumes "\<And>db. only_adds who 1 db (snd (m db))" and "atomic_on_error m" and "mind_get now (mw_db w) i \<noteq> None"
  shows "answered who num w (\<lambda>s. s = w) (andThen (on_service f (store_then_changed m)) (written now num b i))"
proof (rule answered_service)
  show "added who w (snd (store_then_changed m w))" using assms(1) by (simp add: added_def store_effect)
  show "mw_db w' = mw_db w" if "store_then_changed m w = (Inl e, w')" for e w'
  proof -
    have "fst (m (mw_db w)) = Inl e" "mw_db w' = snd (m (mw_db w))"
      using that store_effect [of m w] by (simp_all del: store_effect)
    then show ?thesis using failed_at [OF assms(2), of "mw_db w" e] by simp
  qed
  show "answered who num w (\<lambda>s. s = w') (written now num b i c)" if "added who w w'" for c w'
  proof -
    have "i \<in> item_ids (mw_db w')"
      using that assms(3) mind_get_Some_iff [of now "mw_db w" i] by (auto simp: added_def dest: adds_ids)
    then obtain d where d: "mind_get now (mw_db w') i = Some d" using mind_get_Some_iff by blast
    have "answered who num w (\<lambda>s. s = w') (andThen (lift (projected d)) (\<lambda>p. lift (bounded num (SecWrite b c p))))"
      by (rule answered_projected) (use that in auto)
    then show ?thesis by (simp add: written_def triple_def action_simps d)
  qed
qed

lemma trim_plain: "xs \<noteq> [] \<Longrightarrow> \<not> is_space (hd xs) \<Longrightarrow> \<not> is_space (last xs) \<Longrightarrow> trim xs = xs"
proof -
  assume xs: "xs \<noteq> []" "\<not> is_space (hd xs)" "\<not> is_space (last xs)"
  then have "dropWhile is_space xs = xs" "dropWhile is_space (rev xs) = rev xs" by (simp_all add: dropWhile_eq_self_iff hd_rev)
  then show ?thesis by (simp add: trim_def)
qed

lemma base64url_no_space: "is_base64url c \<Longrightarrow> \<not> is_space c"
  by (auto simp: is_base64url_def is_space_def is_digit_def is_lower_az_def is_upper_az_def code_unit_def Let_def)

lemma author_trimmed:
  assumes "resolveSecretarySession sha sdb tok = Some b"
  shows "trim (secretary_author b) = secretary_author b"
proof -
  have sid: "isSecretarySessionId (bi_session b)"
    using assms by (auto simp: resolveSecretarySession_def rowSession_def bindR_def secretary_session.defs
        split: sum.splits option.splits if_splits)
  then have "drop 4 (bi_session b) \<noteq> []" "list_all is_base64url (drop 4 (bi_session b))" by (auto simp: isSecretarySessionId_def)
  then have "is_base64url (last (bi_session b))" by (metis last_drop last_in_set list_all_iff drop_eq_Nil linorder_not_le)
  moreover have "bi_session b \<noteq> []" using sid by (auto simp: isSecretarySessionId_def)
  moreover have "\<not> is_space (CHR ''s'')" by (simp add: is_space_def code_unit_def)
  ultimately show ?thesis by (intro trim_plain) (simp_all add: secretary_author_def base64url_no_space)
qed

lemma answered_ops:
  assumes res: "resolveSecretarySession sha sdb tok = Some b"
  shows "answered (secretary_author b) num w (\<lambda>s. s = w) (secretary_get now num sha sdb tok i)"
    and "answered (secretary_author b) num w (\<lambda>s. s = w) (secretary_list now num sha sdb tok f)"
    and "answered (secretary_author b) num w (\<lambda>s. s = w) (secretary_tree now num sha sdb tok i depth limit)"
    and "answered (secretary_author b) num w (\<lambda>s. s = w) (secretary_comment now num sha sdb tok j body)"
    and "answered (secretary_author b) num w (\<lambda>s. s = w) (secretary_answer now num sha sdb tok j n body)"
    and "co_depends inp = [] \<Longrightarrow> answered (secretary_author b) num w (\<lambda>s. s = w) (secretary_propose now vs rnd num sha sdb tok inp)"
proof -
  have bound [simp]: "secretary_binding_of sha sdb tok = Inr b" using res by (simp add: secretary_binding_of_def)
  have get: "answered who num w (\<lambda>s. s = w)
     (case x of None \<Rightarrow> throw SecNoItem | Some d \<Rightarrow> andThen (lift (projected d)) (\<lambda>p. lift (bounded num (SecItem b' p))))" for who x b'
  proof (cases x)
    case (Some d)
    have "answered who num w (\<lambda>s. s = w) (andThen (lift (projected d)) (\<lambda>p. lift (bounded num (SecItem b' p))))"
      by (rule answered_projected) auto
    then show ?thesis using Some by simp
  qed (simp add: answered_throw)
  show "answered (secretary_author b) num w (\<lambda>s. s = w) (secretary_get now num sha sdb tok i)"
    unfolding secretary_get_def by (rule triple_reads, hypsubst, intro answered_lift) (simp add: get)
  show "answered (secretary_author b) num w (\<lambda>s. s = w) (secretary_list now num sha sdb tok f)"
    unfolding secretary_list_def by (rule triple_reads, hypsubst, intro answered_lift answered_bounded) simp_all
  show "answered (secretary_author b) num w (\<lambda>s. s = w) (secretary_tree now num sha sdb tok i depth limit)"
    unfolding secretary_tree_def Let_def
    by (rule triple_reads, hypsubst, intro answered_lift triple_if answered_throw answered_bounded) auto
  show "answered (secretary_author b) num w (\<lambda>s. s = w) (secretary_comment now num sha sdb tok j body)"
    unfolding secretary_comment_def svc_addComment_def
    by (rule triple_reads, hypsubst, intro answered_lift triple_if answered_throw answered_comment)
      (simp_all add: adds_comments [unfolded One_nat_def] atomic_comments)
  show "answered (secretary_author b) num w (\<lambda>s. s = w) (secretary_answer now num sha sdb tok j n body)"
    unfolding secretary_answer_def svc_addReply_def
    by (rule triple_reads, hypsubst, intro answered_lift triple_if answered_throw answered_comment)
      (simp_all add: adds_comments [unfolded One_nat_def] atomic_comments)
  show "answered (secretary_author b) num w (\<lambda>s. s = w) (secretary_propose now vs rnd num sha sdb tok inp)" if deps: "co_depends inp = []"
  proof -
    let ?m = "svc_create now vs rnd (proposal_opts b inp) None None"
    have dep: "co_depends (proposal_opts b inp) = []" by (simp add: proposal_opts_def deps)
    have "answered (secretary_author b) num w (\<lambda>s. s = w) (andThen (on_service SecRefused ?m) (\<lambda>r. case r of
       None \<Rightarrow> throw SecItemGone | Some d \<Rightarrow> andThen (lift (projected d)) (\<lambda>p. lift (bounded num (SecItem b p)))))"
    proof (rule answered_service)
      show "added (secretary_author b) w (snd (?m w))"
        unfolding added_def create_effect
        by (rule adds_create) (simp_all add: proposal_opts_def author_trimmed [OF res] deps, simp add: secretary_author_def)
      obtain r db' where run: "mind_create now vs (proposal_opts b inp) (mw_db w) = (r, db')" by fastforce
      show "mw_db w' = mw_db w" if "?m w = (Inl e, w')" for e w'
      proof -
        have "fst (?m w) = Inl e" "mw_db w' = snd (mind_create now vs (proposal_opts b inp) (mw_db w))"
          using that create_effect(1) [of now vs rnd "proposal_opts b inp" w] by simp_all
        then show ?thesis using failed_at [OF atomic_create, of now vs "proposal_opts b inp" "mw_db w"] run
          by (auto simp: create_effect split: sum.splits option.splits)
      qed
      show "answered (secretary_author b) num w (\<lambda>s. s = w') (case x of None \<Rightarrow> throw SecItemGone
          | Some d \<Rightarrow> andThen (lift (projected d)) (\<lambda>p. lift (bounded num (SecItem b p))))"
        if "?m w = (Inr x, w')" "added (secretary_author b) w w'" for x w'
      proof -
        have "fst (?m w) = Inr x" using that by simp
        then obtain d where "x = Some d" using run by (auto simp: create_effect dest!: created_is_there [OF _ dep] split: sum.splits option.splits)
        then show ?thesis using that(2) by (simp, intro answered_projected) (simp_all, blast)
      qed
    qed
    then show ?thesis unfolding secretary_propose_def bound then_returned .
  qed
qed

lemma proposal_request_depends: "proposal_request fs = Inr inp \<Longrightarrow> co_depends inp = []"
  by (auto simp: proposal_request_def bindR_def split: sum.splits)

lemma answered_dispatch:
  assumes "resolveSecretarySession sha sdb tok = Some b"
  shows "answered (secretary_author b) num w (\<lambda>s. s = w) (dispatchSecretaryMindRequest now vs rnd num sha sdb tok v)"
  unfolding dispatchSecretaryMindRequest_def
  by (intro answered_lift triple_if answered_throw answered_ops [OF assms])
    (auto simp: map_sum_def split: sum.splits dest: proposal_request_depends)

abbreviation turned_away :: "mind_world \<Rightarrow> 'a secretary_mind \<Rightarrow> bool" where
  "turned_away w m \<equiv> triple (\<lambda>s. s = w) m (\<lambda>_ _. False) (\<lambda>_ w'. w' = w)"

lemma turned_away_then:
  "(\<And>a. r = Inr a \<Longrightarrow> turned_away w (k a)) \<Longrightarrow> turned_away w (andThen (lift r) k)" "turned_away w (throw e)"
  by (cases r; simp add: triple_def action_simps)+

lemma dispatch_stranger:
  assumes "resolveSecretarySession sha sdb tok = None"
  shows "turned_away w (dispatchSecretaryMindRequest now vs rnd num sha sdb tok v)"
proof -
  have "secretary_binding_of sha sdb tok = Inl SecUnauthorized" using assms by (simp add: secretary_binding_of_def)
  then have "turned_away w (secretary_get now num sha sdb tok i)" "turned_away w (secretary_list now num sha sdb tok f)"
    "turned_away w (secretary_tree now num sha sdb tok i depth limit)" "turned_away w (secretary_comment now num sha sdb tok j body)"
    "turned_away w (secretary_answer now num sha sdb tok j n body)" "turned_away w (secretary_propose now vs rnd num sha sdb tok inp)"
    for i f depth limit j body n inp
    by (simp_all add: secretary_get_def secretary_list_def secretary_tree_def secretary_comment_def
        secretary_answer_def secretary_propose_def triple_def action_simps)
  then show ?thesis
    unfolding dispatchSecretaryMindRequest_def by (intro turned_away_then triple_if)
qed

text \<open>
  C24. A secretary only adds to the Mind graph, whatever request it sends. A token that resolves to no live
  session is refused and nothing changes. Otherwise no item changes except in the time of its last change, no
  dependency, tag, reminder, claim, comment or event is changed or removed, and at most one record is added, as
  the secretary's own: a proposal under a fresh id, or a comment. A request that is refused added nothing, unless
  the refusal is that the answer is too large. An answer shows no reminder, event or claim of an item, and its
  JSON text has at most 1 MiB.
\<close>

theorem secretary_only_adds:
  assumes "dispatchSecretaryMindRequest now vs rnd num sha sdb tok v w = (r, w')"
  shows "case resolveSecretarySession sha sdb tok of
      None \<Rightarrow> w' = w \<and> (\<exists>e. r = Inl e)
    | Some b \<Rightarrow> only_adds (''secretary:'' @ bi_session b) 1 (mw_db w) (mw_db w') \<and>
        (case r of
           Inl e \<Rightarrow> mw_db w' = mw_db w \<or> (\<exists>m. e = SecTooLarge m)
         | Inr rep \<Rightarrow> length (utf8 (json_text num (JObj (reply_fields rep)))) \<le> 1048576 \<and>
             (\<forall>d \<in> set (reply_details rep). md_reminders d = [] \<and> md_events d = [] \<and> mi_claim d = None))"
proof (cases "resolveSecretarySession sha sdb tok")
  case None
  show ?thesis using tripleD [OF dispatch_stranger [OF None] refl assms] None by (cases r) auto
next
  case (Some b)
  have "case r of Inl e \<Rightarrow> refused (secretary_author b) w e w' | Inr rep \<Rightarrow> added (secretary_author b) w w' \<and> reply_ok num rep"
    by (rule tripleD [OF answered_dispatch [OF Some] refl assms])
  then show ?thesis
    by (cases r) (auto simp: Some refused_def added_def reply_ok_def secretary_author_def SECRETARY_MIND_MAX_RESPONSE_CHARS_def)
qed

section \<open>The tree query\<close>

lemma distinct_concat_map:
  "distinct xs \<Longrightarrow> (\<And>x. x \<in> set xs \<Longrightarrow> distinct (f x)) \<Longrightarrow>
    (\<And>x y. x \<in> set xs \<Longrightarrow> y \<in> set xs \<Longrightarrow> x \<noteq> y \<Longrightarrow> set (f x) \<inter> set (f y) = {}) \<Longrightarrow> distinct (concat (map f xs))"
  by (induction xs) fastforce+

lemma one_parent:
  assumes "distinct (map it_id (db_items db))"
  shows "single_valued (set (parent_edges db))"
  unfolding single_valued_def
proof (intro allI impI)
  fix x y z assume "(x, y) \<in> set (parent_edges db)" "(x, z) \<in> set (parent_edges db)"
  then obtain r r' where "r \<in> set (db_items db)" "r' \<in> set (db_items db)" "it_id r = it_id r'" "it_parent r = Some y" "it_parent r' = Some z"
    by (auto simp: parent_edges_def List.map_filter_def)
  moreover from this have "r = r'" using assms by (auto simp: distinct_map inj_on_def)
  ultimately show "y = z" by simp
qed

lemma set_tree_level: "set (tree_level db i n) = {x. (x, i) \<in> set (parent_edges db) ^^ n}"
proof (induction n)
  case (Suc n)
  have "set (tree_level db i (Suc n)) = {x. (x, i) \<in> set (parent_edges db) O set (parent_edges db) ^^ n}"
    using Suc by (auto simp: set_children_of)
  then show ?case by (simp add: relpow_commute)
qed auto

lemma levels_apart:
  assumes "single_valued E" and "acyclic E" and "(x, i) \<in> E ^^ m" and "(x, i) \<in> E ^^ n"
  shows "m = n"
proof -
  have no: False if m: "(x, i) \<in> E ^^ m" and n: "(x, i) \<in> E ^^ n" and "m < n" for m n
  proof -
    have "E ^^ n = E ^^ m O E ^^ (n - m)" using \<open>m < n\<close> by (simp flip: relpow_add)
    then obtain z where "(x, z) \<in> E ^^ m" "(z, i) \<in> E ^^ (n - m)" using n by blast
    moreover from this have "z = i" using m single_valuedD [OF single_valued_relpow [OF assms(1)]] by blast
    ultimately have "(i, i) \<in> E\<^sup>+" using \<open>m < n\<close> by (metis trancl_power zero_less_diff)
    then show False using assms(2) by (simp add: acyclic_def)
  qed
  show ?thesis using no [OF assms(3,4)] no [OF assms(4,3)] by (cases m n rule: linorder_cases) auto
qed

text \<open>The items at most \<open>depth\<close> steps below an item, itself included.\<close>

definition below :: "mind_db \<Rightarrow> string \<Rightarrow> nat \<Rightarrow> string set" where
  "below db i depth = {x. \<exists>n \<le> depth. (x, i) \<in> set (parent_edges db) ^^ n}"

lemma tree_rows_below:
  assumes "items_inv db"
  shows "distinct (tree_rows db i depth)" and "set (tree_rows db i depth) = below db i depth" and "\<exists>rest. tree_rows db i depth = i # rest"
proof -
  let ?E = "set (parent_edges db)"
  have E: "single_valued ?E" "acyclic ?E" using assms one_parent by (simp_all add: items_inv_def)
  have ids: "distinct (map it_id (db_items db))" using assms by (simp add: items_inv_def)
  have level: "distinct (tree_level db i n)" for n
  proof (induction n)
    case (Suc n)
    have "set (children_of db x) \<inter> set (children_of db y) = {}" if "x \<noteq> y" for x y
      using that E(1) by (auto simp: set_children_of dest: single_valuedD)
    moreover have "distinct (children_of db x)" for x using ids by (simp add: children_of_def distinct_map_filter)
    ultimately show ?case using Suc by (simp add: distinct_concat_map)
  qed simp
  show "distinct (tree_rows db i depth)"
    unfolding tree_rows_def using levels_apart [OF E]
    by (intro distinct_concat_map) (auto simp: level set_tree_level simp del: upt_Suc)
  show "set (tree_rows db i depth) = below db i depth"
    by (auto simp: tree_rows_def below_def set_tree_level less_Suc_eq_le simp del: upt_Suc)
  show "\<exists>rest. tree_rows db i depth = i # rest" by (simp add: tree_rows_def upt_conv_Cons del: upt_Suc)
qed

definition detail_links :: "mind_detail \<Rightarrow> string set" where
  "detail_links d = ln_id ` (set_option (md_parent d) \<union> set (md_children d) \<union> set (mi_blocked_by d) \<union> set (mi_blocks d) \<union> set (md_dependencies d))"

lemma project_frame [simp]: "it_id (project d X) = it_id d"
  by (simp add: project_def Let_def)

lemma project_links: "detail_links (project d X) \<subseteq> X"
  by (auto simp: detail_links_def project_def Let_def split: option.splits if_splits)

text \<open>
  C25. The tree query is exact. From every reachable state of the service, the tree it returns starts with the
  item asked for (or the session's hint), names no item twice, holds only items that lie at most the asked
  depth below it (and no more than 16 and 100 in any case), and leaves none of them out unless it says so, which
  it does exactly when there are more than the limit; no link in the answer leads out of the answer.
\<close>

theorem secretary_tree_is_exact:
  assumes reach: "svc_step\<^sup>*\<^sup>* (quiet_world empty_db) w"
    and run: "secretary_tree now num sha sdb tok i depth limit w = (Inr rep, w')"
  shows "\<exists>b top items truncated. rep = SecTree b top items truncated \<and> w' = w \<and> resolveSecretarySession sha sdb tok = Some b \<and>
    (case i of None \<Rightarrow> bi_hint b | Some j \<Rightarrow> Some j) = Some top \<and>
    (let near = below (mw_db w) top (clamp 0 16 depth); lim = clamp 1 100 limit; ids = map it_id items in
     (\<exists>rest. ids = top # rest) \<and> distinct ids \<and> set ids \<subseteq> near \<and> length ids \<le> lim \<and>
     (truncated \<longleftrightarrow> lim < card near) \<and> (\<not> truncated \<longrightarrow> set ids = near) \<and>
     (\<forall>d \<in> set items. detail_links d \<subseteq> set ids))"
proof -
  have inv: "items_inv (mw_db w)" using svc_inv_db [OF service.inv_reachable [OF refl reach]] by (simp add: mind_inv_x_def)
  let ?lim = "clamp 1 SECRETARY_MIND_MAX_ITEMS limit"
  define rows where "rows t = tree_rows (mw_db w) t (clamp 0 SECRETARY_MIND_MAX_DEPTH depth)" for t
  obtain b where b1: "resolveSecretarySession sha sdb tok = Some b"
    using run by (cases "resolveSecretarySession sha sdb tok") (simp_all add: secretary_tree_def secretary_binding_of_def action_simps)
  obtain t where b: "resolveSecretarySession sha sdb tok = Some b" "target_or_hint i b = Inr t"
    using run b1 by (cases "target_or_hint i b") (simp_all add: secretary_tree_def secretary_binding_of_def action_simps)
  let ?tree = "SecTree b t (map (\<lambda>d. project (the d) (set (take ?lim (rows t)))) (map (mind_get now (mw_db w)) (take ?lim (rows t))))
     (length (take (?lim + 1) (rows t)) > ?lim)"
  have "secretary_tree now num sha sdb tok i depth limit w =
     (if None \<in> set (map (mind_get now (mw_db w)) (take ?lim (rows t))) then (Inl SecNoItem, w) else (bounded num ?tree, w))"
    using b by (simp add: secretary_tree_def Let_def secretary_binding_of_def action_simps rows_def min_def del: set_map)
  then have got: "None \<notin> set (map (mind_get now (mw_db w)) (take ?lim (rows t)))" "w' = w" and bound: "bounded num ?tree = Inr rep"
    using run by (simp_all split: if_splits)
  have "1 \<le> ?lim" by (simp add: clamp_def SECRETARY_MIND_MAX_ITEMS_def le_nat_iff le_floor_iff)
  then obtain rest where top: "take ?lim (rows t) = t # rest"
    using tree_rows_below(3) [OF inv, of t "clamp 0 SECRETARY_MIND_MAX_DEPTH depth"] by (cases ?lim) (auto simp: rows_def)
  define items where "items = map (\<lambda>x. project (the (mind_get now (mw_db w) x)) (set (take ?lim (rows t)))) (take ?lim (rows t))"
  have rep: "rep = SecTree b t items (length (rows t) > ?lim)"
    using bounded_cases(2) [OF bound] by (simp add: items_def comp_def min_def)
  have "it_id (the (mind_get now (mw_db w) x)) = x" if "x \<in> set (take ?lim (rows t))" for x
    using got(1) that mind_get_id by (cases "mind_get now (mw_db w) x") (auto simp: image_iff)
  then have ids: "map it_id items = take ?lim (rows t)" by (simp add: items_def map_idI)
  have card: "card (below (mw_db w) t (clamp 0 SECRETARY_MIND_MAX_DEPTH depth)) = length (rows t)"
    using tree_rows_below(1,2) [OF inv] distinct_card by (metis rows_def)
  have hint: "(case i of None \<Rightarrow> bi_hint b | Some j \<Rightarrow> Some j) = Some t"
    using b(2) by (auto simp: target_or_hint_def split: option.splits if_splits)
  have "detail_links d \<subseteq> set (take ?lim (rows t))" if "d \<in> set items" for d
    using that project_links by (auto simp: items_def)
  moreover have "set (take ?lim (rows t)) \<subseteq> below (mw_db w) t (clamp 0 SECRETARY_MIND_MAX_DEPTH depth)"
    using set_take_subset [of ?lim "rows t"] tree_rows_below(2) [OF inv] by (simp add: rows_def)
  moreover have "distinct (take ?lim (rows t))" using tree_rows_below(1) [OF inv] by (simp add: rows_def)
  moreover have "insert t (set rest) = below (mw_db w) t (clamp 0 SECRETARY_MIND_MAX_DEPTH depth)" if "\<not> ?lim < length (rows t)"
    using that top tree_rows_below(2) [OF inv, of t "clamp 0 SECRETARY_MIND_MAX_DEPTH depth"] by (simp flip: rows_def)
  moreover have "it_id ` set items = set (take ?lim (rows t))" using arg_cong [OF ids, of set] by simp
  moreover have "length items \<le> ?lim" by (simp add: items_def)
  ultimately show ?thesis
    unfolding rep using b(1) got(2) hint top card
    by (simp add: ids Let_def SECRETARY_MIND_MAX_ITEMS_def SECRETARY_MIND_MAX_DEPTH_def)
qed

end
