(* ===== verification/Secretary_Loop.thy ===== *)
theory Secretary_Loop
  imports Secretary_Conversation Secretary_Mind_Correct
begin

text \<open>
  How a secretary answers a question: the loop of completions and Mind requests
  (\<open>src/src/secretary/loop.ts\<close>), the Mind requests of its client (\<open>src/src/secretary/client.ts\<close>) and the
  route that serves them (\<open>src/src/worker/http.ts\<close>), and the broker of its completions
  (\<open>src/src/secretary/completion.ts\<close>).

  The loop is written over any client: a completion and a Mind request are actions on the state of the
  client's world. JSON values travel unchanged, so the route and the client pass values instead of texts;
  the limits still count the bytes of the text. The messages of the errors of the Mind store are the
  argument \<open>say\<close>.
\<close>

section \<open>The loop\<close>

definition MAX_MODEL_ROUNDS :: nat where "MAX_MODEL_ROUNDS = 8"
definition MAX_MIND_CALLS :: nat where "MAX_MIND_CALLS = 16"
definition MAX_TOOL_RESULT_CHARS :: nat where "MAX_TOOL_RESULT_CHARS = 1024 * 1024"

datatype turn_error = BrokerRequestError nat string | TurnError string

definition SECRETARY_SYSTEM_MESSAGE :: chat_message where
  "SECRETARY_SYSTEM_MESSAGE = \<lparr>ch_role = SystemRole, ch_content = ''You are a bounded secretary with global read access to authorized Mind items. An optional session hint is prompt context, never an authority boundary; use list to find bounded summaries globally, then get exact ids when full bodies or comments are needed; omit a get/tree id only to inspect that hint. Use the mind tool when evidence is missing. Your only Mind writes are durable comments, replies, and proposal creation: you cannot update item fields/status, accept, schedule, claim, archive, delete, add dependencies, or otherwise mutate structure. Cite canonical elm-* item ids for factual summaries and say when you wrote a comment, reply, or proposal. Return a final answer to the user when done.'',
     ch_calls = None, ch_call_id = None, ch_extra = []\<rparr>"

definition toolInput :: "string \<Rightarrow> turn_error + (string \<times> json) list" where
  "toolInput s = (case json_parse s of
     None \<Rightarrow> Inl (TurnError ''secretary mind tool arguments must be JSON'')
   | Some (JObj fs) \<Rightarrow> Inr fs
   | Some _ \<Rightarrow> Inl (TurnError ''secretary mind tool arguments must be an object''))"

definition toolResult :: "(rat \<Rightarrow> string) \<Rightarrow> json \<Rightarrow> turn_error + string" where
  "toolResult num v = (let encoded = json_text num v in
     if length encoded > MAX_TOOL_RESULT_CHARS then Inl (TurnError ''secretary Mind result is not bounded JSON'') else Inr encoded)"

text \<open>\<open>Inr None\<close> is the \<open>null\<close> of an error that ends the turn.\<close>

definition recoverableToolError :: "(rat \<Rightarrow> string) \<Rightarrow> turn_error \<Rightarrow> turn_error + string option" where
  "recoverableToolError num e =
     (case e of
        BrokerRequestError status m \<Rightarrow>
          if status \<noteq> 400 \<and> status \<noteq> 422 then Inr None
          else map_sum id Some (toolResult num (JObj [(''error'', JObj [(''type'', JStr ''invalid_tool_request''), (''message'', JStr (take 1000 m))])]))
      | TurnError m \<Rightarrow>
          map_sum id Some (toolResult num (JObj [(''error'', JObj [(''type'', JStr ''invalid_tool_request''), (''message'', JStr (take 1000 m))])])))"

type_synonym ('s, 'a) turn = "(turn_error, 's, 'a) action"

text \<open>One call of the \<open>try\<close> block, and the block with its \<open>catch\<close>. A parsed tool call is a function call.\<close>

definition call_mind :: "(rat \<Rightarrow> string) \<Rightarrow> ((string \<times> json) list \<Rightarrow> ('s, json) turn) \<Rightarrow> tool_call \<Rightarrow> ('s, string) turn" where
  "call_mind num mind call =
     (if tc_name call \<noteq> ''mind'' then throw (TurnError ''secretary completion requested an unsupported tool'')
      else andThen (lift (toolInput (tc_arguments call))) (\<lambda>fs. andThen (mind fs) (\<lambda>v. lift (toolResult num v))))"

definition tool_content :: "(rat \<Rightarrow> string) \<Rightarrow> ((string \<times> json) list \<Rightarrow> ('s, json) turn) \<Rightarrow> tool_call \<Rightarrow> ('s, string) turn" where
  "tool_content num mind call = (\<lambda>s. case call_mind num mind call s of
     (Inr c, s') \<Rightarrow> (Inr c, s')
   | (Inl e, s') \<Rightarrow> (case recoverableToolError num e of
        Inl e' \<Rightarrow> (Inl e', s') | Inr None \<Rightarrow> (Inl e, s') | Inr (Some c) \<Rightarrow> (Inr c, s')))"

definition secretary_tool_message :: "tool_call \<Rightarrow> string \<Rightarrow> chat_message" where
  "secretary_tool_message call content = \<lparr>ch_role = ToolRole, ch_content = content, ch_calls = None, ch_call_id = Some (tc_id call), ch_extra = []\<rparr>"

primrec run_calls ::
  "(rat \<Rightarrow> string) \<Rightarrow> ((string \<times> json) list \<Rightarrow> ('s, json) turn) \<Rightarrow> tool_call list \<Rightarrow> nat \<Rightarrow> chat_message list \<Rightarrow> ('s, nat \<times> chat_message list) turn" where
  "run_calls num mind [] k ms = ok (k, ms)"
| "run_calls num mind (call # calls) k ms =
     (if k + 1 > MAX_MIND_CALLS then throw (TurnError ''secretary Mind call budget exceeded'')
      else andThen (tool_content num mind call) (\<lambda>c. run_calls num mind calls (k + 1) (ms @ [secretary_tool_message call c])))"

text \<open>
  The rounds that are left, the Mind calls made and the messages so far. \<open>stop\<close> is the reason of the
  abort signal, when it was raised.
\<close>

primrec run_rounds ::
  "(rat \<Rightarrow> string) \<Rightarrow> ('s \<Rightarrow> turn_error option) \<Rightarrow> (chat_message list \<Rightarrow> ('s, chat_message) turn) \<Rightarrow>
    ((string \<times> json) list \<Rightarrow> ('s, json) turn) \<Rightarrow> nat \<Rightarrow> nat \<Rightarrow> chat_message list \<Rightarrow> ('s, string) turn" where
  "run_rounds num stop ask mind 0 k ms = throw (TurnError ''secretary model round budget exceeded'')"
| "run_rounds num stop ask mind (Suc n) k ms = reads (\<lambda>s.
     case stop s of
       Some reason \<Rightarrow> throw reason
     | None \<Rightarrow>
         andThen (ask ms) (\<lambda>assistant.
         if ch_role assistant \<noteq> AssistantRole then throw (TurnError ''secretary completion did not return an assistant message'')
         else let calls = or_else (ch_calls assistant) [] in
           if calls = [] then
             (if length (ch_content assistant) > 32768 then throw (TurnError ''secretary final answer exceeds the conversation bound'')
              else ok (ch_content assistant))
           else andThen (run_calls num mind calls k (ms @ [assistant])) (\<lambda>(k', ms'). run_rounds num stop ask mind n k' ms')))"

definition runSecretaryTurn ::
  "(rat \<Rightarrow> string) \<Rightarrow> ('s \<Rightarrow> turn_error option) \<Rightarrow> (chat_message list \<Rightarrow> ('s, chat_message) turn) \<Rightarrow>
    ((string \<times> json) list \<Rightarrow> ('s, json) turn) \<Rightarrow> chat_message list \<Rightarrow> ('s, string) turn" where
  "runSecretaryTurn num stop ask mind turn_messages = run_rounds num stop ask mind MAX_MODEL_ROUNDS 0 (SECRETARY_SYSTEM_MESSAGE # turn_messages)"

section \<open>A client of the loop\<close>

text \<open>
  What the loop owes to every client: if a predicate on what was asked of the model, what was asked of the Mind,
  and the state survives each request, then it holds at the end of the turn, with at most 8 requests to the model
  and 16 to the Mind.
\<close>

locale turn_client =
  fixes stop :: "'s \<Rightarrow> turn_error option"
    and ask :: "chat_message list \<Rightarrow> ('s, chat_message) turn"
    and mind :: "(string \<times> json) list \<Rightarrow> ('s, json) turn"
    and spent :: "nat \<Rightarrow> nat \<Rightarrow> 's \<Rightarrow> bool"
  assumes ask_spends: "spent n k s \<Longrightarrow> safe_at (spent (Suc n) k) (ask ms) s"
    and mind_spends: "spent n k s \<Longrightarrow> safe_at (spent n (Suc k)) (mind fs) s"
begin

definition within_budget :: "'s \<Rightarrow> bool" where
  "within_budget s \<longleftrightarrow> (\<exists>n \<le> MAX_MODEL_ROUNDS. \<exists>k \<le> MAX_MIND_CALLS. spent n k s)"

lemma budgetI: "spent n k s \<Longrightarrow> n \<le> MAX_MODEL_ROUNDS \<Longrightarrow> k \<le> MAX_MIND_CALLS \<Longrightarrow> within_budget s"
  by (auto simp: within_budget_def)

lemma tool_content_spends:
  "spent n k s \<Longrightarrow> spent n (Suc k) (snd (tool_content num mind call s)) \<or> spent n k (snd (tool_content num mind call s))"
proof -
  assume s: "spent n k s"
  have "snd (tool_content num mind call s) = snd (call_mind num mind call s)"
    by (auto simp: tool_content_def split: prod.split sum.split option.split)
  moreover have "snd (call_mind num mind call s) = s \<or> (\<exists>fs. snd (call_mind num mind call s) = snd (mind fs s))"
    by (auto simp: call_mind_def action_simps split: sum.split prod.split) (metis snd_conv)+
  ultimately show ?thesis using s mind_spends by (auto simp: safe_at_def)
qed

lemma run_calls_spends:
  "k' \<le> k \<Longrightarrow> k \<le> MAX_MIND_CALLS \<Longrightarrow> spent n k' s \<Longrightarrow> run_calls num mind calls k ms s = (r, s') \<Longrightarrow>
    (\<exists>k'' \<le> MAX_MIND_CALLS. spent n k'' s') \<and> (\<forall>m ms'. r = Inr (m, ms') \<longrightarrow> m \<le> MAX_MIND_CALLS \<and> (\<exists>k'' \<le> m. spent n k'' s'))"
proof (induction calls arbitrary: k k' ms s)
  case Nil
  then show ?case by (auto simp: action_simps intro: le_trans)
next
  case (Cons call calls)
  show ?case
  proof (cases "k + 1 > MAX_MIND_CALLS")
    case True
    then show ?thesis using Cons.prems by (auto simp: action_simps intro: le_trans)
  next
    case False
    obtain rc s1 where c: "tool_content num mind call s = (rc, s1)" by fastforce
    then obtain k1 where k1: "k1 \<le> k + 1" "spent n k1 s1" using tool_content_spends [OF Cons.prems(3), of num call] Cons.prems(1)
      by (metis Suc_eq_plus1 Suc_le_mono le_SucI snd_conv)
    show ?thesis
    proof (cases rc)
      case (Inl e)
      then show ?thesis using c k1 False Cons.prems(4) by (auto simp: action_simps intro!: exI [of _ k1])
    next
      case (Inr x)
      then have "run_calls num mind calls (k + 1) (ms @ [secretary_tool_message call x]) s1 = (r, s')"
        using c False Cons.prems(4) by (simp add: action_simps)
      from Cons.IH [OF k1(1) _ k1(2) this] False show ?thesis by simp
    qed
  qed
qed

lemma run_rounds_spends:
  "j + n = MAX_MODEL_ROUNDS \<Longrightarrow> k' \<le> k \<Longrightarrow> k \<le> MAX_MIND_CALLS \<Longrightarrow> spent j k' s \<Longrightarrow>
    within_budget (snd (run_rounds num stop ask mind n k ms s))"
proof (induction n arbitrary: j k k' ms s)
  case 0
  then show ?case by (auto simp: action_simps within_budget_def intro: le_trans)
next
  case (Suc n)
  obtain ra s1 where a: "ask ms s = (ra, s1)" by fastforce
  have s1: "spent (Suc j) k' s1" using ask_spends [OF Suc.prems(4), of ms] a by (simp add: safe_at_def)
  have near: "within_budget s" "within_budget s1"
    using Suc.prems s1 budgetI [of j k' s] budgetI [of "Suc j" k' s1] by simp_all
  show ?case
  proof (cases "stop s = None \<and> (\<exists>x. ra = Inr x \<and> ch_role x = AssistantRole \<and> or_else (ch_calls x) [] \<noteq> [])")
    case True
    then obtain x where x: "ra = Inr x" "ch_role x = AssistantRole" "or_else (ch_calls x) [] \<noteq> []" "stop s = None" by blast
    obtain rc s2 where c: "run_calls num mind (or_else (ch_calls x) []) k (ms @ [x]) s1 = (rc, s2)" by fastforce
    note spends = run_calls_spends [OF Suc.prems(2,3) s1 c]
    show ?thesis
    proof (cases rc)
      case (Inl e)
      then have "snd (run_rounds num stop ask mind (Suc n) k ms s) = s2" using a x c by (simp add: action_simps Let_def)
      moreover have "within_budget s2" using spends Suc.prems(1) by (auto intro: budgetI [of "Suc j"])
      ultimately show ?thesis by (simp only:)
    next
      case (Inr p)
      obtain m ms' where p: "p = (m, ms')" by fastforce
      with Inr spends obtain k'' where "m \<le> MAX_MIND_CALLS" "k'' \<le> m" "spent (Suc j) k'' s2" by blast
      moreover have "run_rounds num stop ask mind (Suc n) k ms s = run_rounds num stop ask mind n m ms' s2"
        using a x c Inr p by (simp add: action_simps Let_def)
      ultimately show ?thesis using Suc.IH [of "Suc j" k'' m s2 ms'] Suc.prems(1) by simp
    qed
  next
    case False
    then have "snd (run_rounds num stop ask mind (Suc n) k ms s) \<in> {s, s1}"
      using a by (auto simp: action_simps Let_def split: option.split sum.split)
    then show ?thesis using near by auto
  qed
qed

lemma turn_within_budget: "spent 0 0 s \<Longrightarrow> within_budget (snd (runSecretaryTurn num stop ask mind ms s))"
  unfolding runSecretaryTurn_def by (rule run_rounds_spends [of 0 _ 0]) simp_all

end

lemma run_rounds_answer: "run_rounds num stop ask mind n k ms s = (Inr c, s') \<Longrightarrow> length c \<le> 32768"
proof (induction n arbitrary: k ms s)
  case (Suc n)
  then show ?case by (auto simp: action_simps Let_def split: option.splits prod.splits sum.splits if_splits)
qed (simp add: action_simps)

section \<open>A Mind request on its way\<close>

text \<open>
  The route \<open>/v1/secretary/mind\<close>: a status and the fields of the JSON object it answers with. A request that
  reaches it is an object.
\<close>

definition DEFAULT_MAX_BODY_BYTES :: nat where "DEFAULT_MAX_BODY_BYTES = 8 * 1024 * 1024"
definition MAX_REPLY_BYTES :: nat where "MAX_REPLY_BYTES = 2 * 1024 * 1024"

type_synonym http_reply = "nat \<times> (string \<times> json) list"

definition coded :: "nat \<Rightarrow> string \<Rightarrow> string \<Rightarrow> http_reply" where
  "coded status m code = (status, [(''error'', JStr m), (''code'', JStr code)])"

definition statusForSecretaryMind :: "(mind_error \<Rightarrow> string) \<Rightarrow> secretary_mind_error \<Rightarrow> http_reply" where
  "statusForSecretaryMind say e = (case e of
     SecUnauthorized \<Rightarrow> coded 401 ''secretary session is unavailable'' ''unauthorized''
   | SecNoHint \<Rightarrow> coded 400 ''Mind id is required when the secretary session has no hint'' ''invalid_request''
   | SecNoItem \<Rightarrow> coded 404 ''Mind item does not exist'' ''not_found''
   | SecTooLarge m \<Rightarrow> coded 413 m ''too_large''
   | SecBadRequest m \<Rightarrow> coded 400 m ''invalid_request''
   | SecReplyRefused x \<Rightarrow> coded 400 (say x) ''invalid_request''
   | SecRefused x \<Rightarrow> (502, [(''error'', JStr ''secretary Mind request failed'')])
   | SecItemGone \<Rightarrow> (502, [(''error'', JStr ''secretary Mind request failed'')]))"

definition bearer :: "string \<Rightarrow> bool" where
  "bearer tok \<longleftrightarrow> length tok = 43 \<and> list_all is_base64url tok"

text \<open>What surrounds the n-th request: the clock, the random draws, and the sessions as they then are.\<close>

record mind_call_env =
  ce_now :: time
  ce_draws :: "nat list"
  ce_rnd :: string
  ce_sessions :: secretary_db

definition secretary_mind_route ::
  "(rat \<Rightarrow> string) \<Rightarrow> (mind_error \<Rightarrow> string) \<Rightarrow> (string \<Rightarrow> string) \<Rightarrow> mind_call_env \<Rightarrow> string \<Rightarrow> (string \<times> json) list \<Rightarrow>
    mind_world \<Rightarrow> http_reply \<times> mind_world" where
  "secretary_mind_route num say sha env tok body w =
     (if \<not> bearer tok then ((401, [(''error'', JStr ''secretary session is unavailable'')]), w)
      else if length (utf8 (json_text num (JObj body))) > DEFAULT_MAX_BODY_BYTES
        then ((413, [(''error'', JStr ''request body is too large'')]), w)
      else (case dispatchSecretaryMindRequest (ce_now env) (ce_draws env) (ce_rnd env) num sha (ce_sessions env) tok (Some (JObj body)) w of
          (Inl e, w') \<Rightarrow> (statusForSecretaryMind say e, w')
        | (Inr rep, w') \<Rightarrow> ((200, (''protocol'', JNum 1) # reply_fields rep), w')))"

text \<open>The client's world: the Mind, the binding it has seen, and how often it asked the Mind and the model.\<close>

record turn_world =
  tw_mind :: mind_world
  tw_binding :: "secretary_binding option"
  tw_asked :: nat
  tw_rounds :: nat

text \<open>\<open>{ protocol: 1, ...input }\<close>.\<close>

definition with_protocol :: "(string \<times> json) list \<Rightarrow> (string \<times> json) list" where
  "with_protocol input = (''protocol'', case map_of input ''protocol'' of None \<Rightarrow> JNum 1 | Some v \<Rightarrow> v) # filter (\<lambda>f. fst f \<noteq> ''protocol'') input"

definition json_string :: "json option \<Rightarrow> string \<Rightarrow> turn_error + string" where
  "json_string v label = (case v of Some (JStr s) \<Rightarrow> Inr s | _ \<Rightarrow> Inl (TurnError (label @ '' must be a string'')))"

text \<open>\<open>/^[a-z0-9][a-z0-9_-]*\/[a-z0-9][a-z0-9._-]*$/\<close>.\<close>

definition binding_ref :: "string \<Rightarrow> bool" where
  "binding_ref s \<longleftrightarrow> (case split_at CHR ''/'' s of
     [p, m] \<Rightarrow> p \<noteq> [] \<and> m \<noteq> [] \<and> (is_lower_az (hd p) \<or> is_digit (hd p)) \<and> (is_lower_az (hd m) \<or> is_digit (hd m)) \<and>
       list_all (\<lambda>c. is_lower_az c \<or> is_digit c \<or> c = CHR ''_'' \<or> c = CHR ''-'') p \<and>
       list_all (\<lambda>c. is_lower_az c \<or> is_digit c \<or> c = CHR ''_'' \<or> c = CHR ''-'' \<or> c = CHR ''.'') m
   | _ \<Rightarrow> False)"

definition parse_binding :: "string \<Rightarrow> json option \<Rightarrow> turn_error + secretary_binding" where
  "parse_binding sid v = (case v of
     Some (JObj fs) \<Rightarrow>
       if length fs \<noteq> 4 \<or> sort (map fst fs) \<noteq> [''hintMindId'', ''modelRef'', ''runtime'', ''sessionId'']
       then Inl (TurnError ''secretary broker binding shape is invalid'')
       else bindR (if map_of fs ''hintMindId'' = Some JNull then Inr None
           else map_sum id Some (json_string (map_of fs ''hintMindId'') ''secretary binding hint'')) (\<lambda>hint.
         bindR (json_string (map_of fs ''sessionId'') ''secretary binding session'') (\<lambda>s.
         bindR (json_string (map_of fs ''modelRef'') ''secretary binding model'') (\<lambda>ref.
         if s \<noteq> sid \<or> map_of fs ''runtime'' \<noteq> Some (JStr ''kubernetes'') \<or> \<not> pred_option isMindId hint \<or> \<not> binding_ref ref
         then Inl (TurnError ''secretary broker returned a different session binding'')
         else Inr \<lparr>bi_session = s, bi_hint = hint, bi_model_ref = ref, bi_runtime = ''kubernetes''\<rparr>)))
   | _ \<Rightarrow> Inl (TurnError ''secretary binding must be an object''))"

definition client_binding :: "string \<Rightarrow> json option \<Rightarrow> (turn_world, unit) turn" where
  "client_binding sid v = reads (\<lambda>s. andThen (lift (parse_binding sid v)) (\<lambda>b.
     case tw_binding s of
       None \<Rightarrow> modify (\<lambda>s. s\<lparr>tw_binding := Some b\<rparr>)
     | Some b' \<Rightarrow> if b \<noteq> b' then throw (TurnError ''secretary broker binding changed during the session'') else ok ()))"

text \<open>The answer of the route as \<open>post\<close> hands it on.\<close>

definition post_reply :: "(rat \<Rightarrow> string) \<Rightarrow> http_reply \<Rightarrow> turn_error + (string \<times> json) list" where
  "post_reply num r = (case r of (status, fs) \<Rightarrow>
     if length (utf8 (json_text num (JObj fs))) > MAX_REPLY_BYTES then Inl (TurnError ''secretary broker reply is too large'')
     else if status < 200 \<or> status > 299 then
       Inl (BrokerRequestError status (''secretary broker '' @ decimal status @ '': '' @
         (case map_of fs ''error'' of Some (JStr m) \<Rightarrow> take 500 m | _ \<Rightarrow> ''request failed'')))
     else if map_of fs ''protocol'' \<noteq> Some (JNum 1) then Inl (TurnError ''secretary broker protocol mismatch'')
     else Inr fs)"

definition post_mind ::
  "(rat \<Rightarrow> string) \<Rightarrow> (mind_error \<Rightarrow> string) \<Rightarrow> (string \<Rightarrow> string) \<Rightarrow> (nat \<Rightarrow> mind_call_env) \<Rightarrow> string \<Rightarrow> (string \<times> json) list \<Rightarrow>
    (turn_world, (string \<times> json) list) turn" where
  "post_mind num say sha env tok body = (\<lambda>s. case secretary_mind_route num say sha (env (tw_asked s)) tok body (tw_mind s) of
     (r, w) \<Rightarrow> (post_reply num r, s\<lparr>tw_mind := w, tw_asked := Suc (tw_asked s)\<rparr>))"

definition client_mind ::
  "(rat \<Rightarrow> string) \<Rightarrow> (mind_error \<Rightarrow> string) \<Rightarrow> (string \<Rightarrow> string) \<Rightarrow> (nat \<Rightarrow> mind_call_env) \<Rightarrow> string \<Rightarrow> string \<Rightarrow> (string \<times> json) list \<Rightarrow>
    (turn_world, json) turn" where
  "client_mind num say sha env sid tok input =
     andThen (post_mind num say sha env tok (with_protocol input)) (\<lambda>reply.
     andThen (client_binding sid (map_of reply ''binding'')) (\<lambda>_. ok (JObj reply)))"

text \<open>The model behind \<open>client.complete\<close>: its n-th answer, or the error of the n-th request.\<close>

definition client_complete :: "(nat \<Rightarrow> chat_message list \<Rightarrow> turn_error + chat_message) \<Rightarrow> chat_message list \<Rightarrow> (turn_world, chat_message) turn" where
  "client_complete model ms = (\<lambda>s. (model (tw_rounds s) ms, s\<lparr>tw_rounds := Suc (tw_rounds s)\<rparr>))"

section \<open>A turn only adds\<close>

text \<open>Whom the writes of a request are attributed to.\<close>

definition writer :: "(string \<Rightarrow> string) \<Rightarrow> secretary_db \<Rightarrow> string \<Rightarrow> string \<Rightarrow> bool" where
  "writer sha sdb tok sid \<longleftrightarrow> (\<forall>b. resolveSecretarySession sha sdb tok = Some b \<longrightarrow> bi_session b = sid)"

lemma route_adds:
  assumes "writer sha (ce_sessions env) tok sid"
  shows "only_adds (''secretary:'' @ sid) 1 (mw_db w) (mw_db (snd (secretary_mind_route num say sha env tok body w)))"
proof -
  let ?m = "dispatchSecretaryMindRequest (ce_now env) (ce_draws env) (ce_rnd env) num sha (ce_sessions env) tok (Some (JObj body))"
  have "only_adds (''secretary:'' @ sid) 1 (mw_db w) (mw_db (snd (?m w)))"
  proof (cases "resolveSecretarySession sha (ce_sessions env) tok")
    case None
    obtain r w' where run: "?m w = (r, w')" by fastforce
    have "w' = w" using tripleD [OF dispatch_stranger [OF None] refl run] by (cases r) simp_all
    then show ?thesis using run by simp
  next
    case (Some b)
    obtain r w' where run: "?m w = (r, w')" by fastforce
    have "added (secretary_author b) w w'"
      using tripleD [OF answered_dispatch [OF Some] refl run] by (cases r) (simp_all add: refused_def)
    then show ?thesis using assms Some run by (simp add: writer_def added_def secretary_author_def)
  qed
  then show ?thesis by (auto simp: secretary_mind_route_def split: prod.split sum.split)
qed

definition spent_in :: "(string \<Rightarrow> string) \<Rightarrow> (nat \<Rightarrow> mind_call_env) \<Rightarrow> string \<Rightarrow> string \<Rightarrow> turn_world \<Rightarrow> nat \<Rightarrow> nat \<Rightarrow> turn_world \<Rightarrow> bool" where
  "spent_in sha env sid tok s0 n k s \<longleftrightarrow> tw_rounds s = tw_rounds s0 + n \<and> tw_asked s = tw_asked s0 + k \<and>
     ((\<forall>j. writer sha (ce_sessions (env j)) tok sid) \<longrightarrow> only_adds (''secretary:'' @ sid) k (mw_db (tw_mind s0)) (mw_db (tw_mind s)))"

lemma client_mind_effect:
  "\<exists>b. snd (client_mind num say sha env sid tok input s) =
    s\<lparr>tw_mind := snd (secretary_mind_route num say sha (env (tw_asked s)) tok (with_protocol input) (tw_mind s)),
      tw_asked := Suc (tw_asked s), tw_binding := b\<rparr>"
proof -
  let ?s = "s\<lparr>tw_mind := snd (secretary_mind_route num say sha (env (tw_asked s)) tok (with_protocol input) (tw_mind s)), tw_asked := Suc (tw_asked s)\<rparr>"
  have post: "snd (post_mind num say sha env tok (with_protocol input) s) = ?s"
    by (simp add: post_mind_def split: prod.split)
  have bind: "\<exists>b. snd (client_binding sid v t) = t\<lparr>tw_binding := b\<rparr>" for v and t :: turn_world
    by (cases "parse_binding sid v"; cases "tw_binding t") (auto simp: client_binding_def action_simps intro: exI [of _ "tw_binding t"])
  obtain r t where p: "post_mind num say sha env tok (with_protocol input) s = (r, t)" by fastforce
  then have t: "t = ?s" using post by simp
  show ?thesis
  proof (cases r)
    case (Inl e)
    then show ?thesis using p t by (auto simp: client_mind_def action_simps intro!: exI [of _ "tw_binding s"])
  next
    case (Inr reply)
    then have "snd (client_mind num say sha env sid tok input s) = snd (client_binding sid (map_of reply ''binding'') t)"
      using p by (simp add: client_mind_def action_simps split: prod.split sum.split)
    with bind [of "map_of reply ''binding''" t] obtain b where "snd (client_mind num say sha env sid tok input s) = t\<lparr>tw_binding := b\<rparr>" by auto
    then show ?thesis unfolding t by (intro exI [of _ b]) simp
  qed
qed

interpretation secretary_turn: turn_client stop "client_complete model" "client_mind num say sha env sid tok" "spent_in sha env sid tok s0"
  for stop model num say sha env sid tok s0
proof
  show "safe_at (spent_in sha env sid tok s0 (Suc n) k) (client_complete model ms) s" if "spent_in sha env sid tok s0 n k s" for n k s ms
    using that by (simp add: safe_at_def client_complete_def spent_in_def)
  show "safe_at (spent_in sha env sid tok s0 n (Suc k)) (client_mind num say sha env sid tok fs) s" if s: "spent_in sha env sid tok s0 n k s" for n k s fs
  proof -
    from client_mind_effect obtain b where eff: "snd (client_mind num say sha env sid tok fs s) =
      s\<lparr>tw_mind := snd (secretary_mind_route num say sha (env (tw_asked s)) tok (with_protocol fs) (tw_mind s)), tw_asked := Suc (tw_asked s), tw_binding := b\<rparr>"
      by blast
    have "only_adds (''secretary:'' @ sid) (k + 1) (mw_db (tw_mind s0)) (mw_db (snd (secretary_mind_route num say sha (env (tw_asked s)) tok (with_protocol fs) (tw_mind s))))"
      if own: "\<forall>j. writer sha (ce_sessions (env j)) tok sid"
      using own s by (intro only_adds_trans [OF _ route_adds]) (simp_all add: spent_in_def)
    then show ?thesis using s by (simp add: safe_at_def eff spent_in_def)
  qed
qed

lemma turn_spends:
  assumes own: "\<forall>n b. resolveSecretarySession sha (ce_sessions (env n)) tok = Some b \<longrightarrow> bi_session b = sid"
    and run: "runSecretaryTurn num stop (client_complete model) (client_mind num say sha env sid tok) ms s = (r, s')"
  obtains n k where "n \<le> 8" "k \<le> 16" "tw_rounds s' = tw_rounds s + n" "tw_asked s' = tw_asked s + k"
    "only_adds (''secretary:'' @ sid) k (mw_db (tw_mind s)) (mw_db (tw_mind s'))"
proof -
  have "spent_in sha env sid tok s 0 0 s" by (simp add: spent_in_def)
  then have "\<exists>n \<le> MAX_MODEL_ROUNDS. \<exists>k \<le> MAX_MIND_CALLS. spent_in sha env sid tok s n k
      (snd (runSecretaryTurn num stop (client_complete model) (client_mind num say sha env sid tok) ms s))"
    by (rule secretary_turn.turn_within_budget [unfolded secretary_turn.within_budget_def])
  then obtain n k where "n \<le> MAX_MODEL_ROUNDS" "k \<le> MAX_MIND_CALLS" "spent_in sha env sid tok s n k s'"
    unfolding run by auto
  moreover have "\<forall>j. writer sha (ce_sessions (env j)) tok sid" using own by (simp add: writer_def)
  ultimately show ?thesis using that by (auto simp: spent_in_def MAX_MODEL_ROUNDS_def MAX_MIND_CALLS_def)
qed

text \<open>
  C23. A whole turn of a secretary only adds to the Mind graph, whatever the model answers. Let the token belong to
  no other session. Then from any state, and however the turn ends, the model was asked at most 8 times and the
  Mind at most 16 times, and nothing happened to the Mind but that the secretary added, under its own name, at
  most as many proposals and comments as it made requests; an answer it returns has at most 32768 characters.
\<close>

theorem secretary_turn_only_adds:
  assumes own: "\<forall>n b. resolveSecretarySession sha (ce_sessions (env n)) tok = Some b \<longrightarrow> bi_session b = sid"
    and run: "runSecretaryTurn num stop (client_complete model) (client_mind num say sha env sid tok) ms s = (r, s')"
  shows "tw_rounds s' \<le> tw_rounds s + 8 \<and> tw_asked s' \<le> tw_asked s + 16 \<and>
    only_adds (''secretary:'' @ sid) (tw_asked s' - tw_asked s) (mw_db (tw_mind s)) (mw_db (tw_mind s')) \<and>
    (\<forall>c. r = Inr c \<longrightarrow> length c \<le> 32768)"
proof -
  obtain n k where "n \<le> 8" "k \<le> 16" "tw_rounds s' = tw_rounds s + n" "tw_asked s' = tw_asked s + k"
    "only_adds (''secretary:'' @ sid) k (mw_db (tw_mind s)) (mw_db (tw_mind s'))" by (rule turn_spends [OF own run])
  moreover have "length c \<le> 32768" if "r = Inr c" for c
    by (rule run_rounds_answer [OF run [unfolded runSecretaryTurn_def that]])
  ultimately show ?thesis by auto
qed

end
