(* ===== verification/Secretary_Answers.thy ===== *)
theory Secretary_Answers
  imports Secretary_Correct
begin

text \<open>
  An answer that a secretary has delivered: it is stored as it was given, never changes, can be delivered
  again without effect, and no other answer is taken for the same question.
\<close>

section \<open>Completing a turn\<close>

lemma message_json_inj:
  assumes "valid_content a" "valid_content c" "message_json role a = message_json role c"
  shows "a = c"
  using parse_stored [OF assms(1), of role] parse_stored [OF assms(2), of role] assms(3) by (metis sum.inject(2))

lemma parsed_content: "parseMessage raw role = Inr a \<Longrightarrow> valid_content a"
  by (auto simp: parseMessage_def intro: conv_message_valid split: option.splits)

text \<open>The turn of a question with its answer, as the table holds it.\<close>

definition answered_turn :: "secretary_db \<Rightarrow> string \<Rightarrow> string \<Rightarrow> string \<Rightarrow> turn_row \<Rightarrow> turn_row \<Rightarrow> bool" where
  "answered_turn s sid tid c row v \<longleftrightarrow> row \<in> set (sd_turns s) \<and> tu_id row = tid \<and> tu_session row = sid \<and> rowTurn row = Inr v \<and>
     tu_status row = Completed \<and> tu_response v = Some c"

lemma turn_complete_run:
  assumes "turn_complete now sid tid resp s = (Inr t, s')"
  obtains c row cur where "conv_message resp ''assistant'' = Inr c" "find (\<lambda>t. tu_id t = tid \<and> tu_session t = sid) (sd_turns s) = Some row"
    "rowTurn row = Inr cur" "complete_current now sid tid c cur s = (Inr t, s')"
  using assms
  by (auto simp: turn_complete_def validateSessionId_def with_turn_id_def with_time_def conv_transaction_def action_simps requireReadySession_def
      split: prod.splits sum.splits option.splits if_splits)

lemma turn_complete_answers:
  assumes inv: "sec_inv mx s" and run: "turn_complete now sid tid resp s = (Inr t, s')"
  shows "\<exists>c row. conv_message resp ''assistant'' = Inr c \<and> answered_turn s' sid tid c row t"
proof -
  obtain c row cur where c: "conv_message resp ''assistant'' = Inr c" and row: "find (\<lambda>t. tu_id t = tid \<and> tu_session t = sid) (sd_turns s) = Some row"
    and cur: "rowTurn row = Inr cur" and cc: "complete_current now sid tid c cur s = (Inr t, s')"
    by (rule turn_complete_run [OF run])
  have r: "row \<in> set (sd_turns s)" "tu_id row = tid" "tu_session row = sid" using row by (auto simp: find_Some_iff)
  note f = rowTurn_fields [OF cur]
  have vc: "valid_content c" by (rule conv_message_valid [OF c])
  show ?thesis
  proof (cases "tu_status cur = Completed")
    case True
    then have same: "s' = s" "t = cur" "map_option (message_json ''assistant'') (tu_response cur) = Some (message_json ''assistant'' c)"
      using cc by (auto simp: complete_current_def action_simps split: if_splits)
    then obtain a where a: "tu_response cur = Some a" "message_json ''assistant'' a = message_json ''assistant'' c" by auto
    have "valid_content a" using rowTurn_content [OF cur] a(1) by (auto split: option.splits intro: parsed_content)
    with a vc have "tu_response cur = Some c" using message_json_inj by metis
    then show ?thesis using c r cur f True same by (auto simp: answered_turn_def)
  next
    case False
    let ?mj = "message_json ''assistant'' c"
    let ?s = "s\<lparr>sd_turns := update_where (open_turn tid sid Claimed) (set_completed now ?mj) (sd_turns s)\<rparr>"
    have st: "tu_status row = Claimed" and s': "s' = ?s" and re: "reread_turn tid ?s = (Inr t, ?s)"
      using cc False f by (auto simp: complete_current_def action_simps update_turns_eval reread_turn_def split: if_splits prod.splits sum.splits option.splits)
    have inv': "sec_inv mx ?s" using safe_complete [OF inv, of now sid tid resp] run s' by (simp add: safe_at_def)
    have up: "set_completed now ?mj row \<in> set (sd_turns ?s)" using r st by (force simp: update_where_def open_turn_def)
    have "find (\<lambda>x. tu_id x = tid) (sd_turns ?s) = Some (set_completed now ?mj row)"
      using find_key_in_set [OF sec_invD(2) [OF inv'] up] r(2) by (simp add: set_completed_def)
    then have t: "rowTurn (set_completed now ?mj row) = Inr t" using re by (simp add: reread_turn_def action_simps)
    then have "tu_response t = Some c"
      using rowTurn_content [OF t] parse_stored [OF vc, of "''assistant''"] by (simp add: set_completed_def)
    then show ?thesis using c t up r s' by (auto simp: answered_turn_def set_completed_def)
  qed
qed

lemma answered_once:
  assumes inv: "sec_inv mx s" and fin: "answered_turn s sid tid c row v" and run: "turn_complete now sid tid resp s = (Inr t, s')"
  shows "conv_message resp ''assistant'' = Inr c \<and> t = v \<and> s' = s"
proof -
  obtain c' row' cur where c: "conv_message resp ''assistant'' = Inr c'" and row: "find (\<lambda>t. tu_id t = tid \<and> tu_session t = sid) (sd_turns s) = Some row'"
    and cur: "rowTurn row' = Inr cur" and cc: "complete_current now sid tid c' cur s = (Inr t, s')"
    by (rule turn_complete_run [OF run])
  have "row' \<in> set (sd_turns s)" "tu_id row' = tid" using row by (auto simp: find_Some_iff)
  then have "row' = row"
    using fin find_key_in_set [OF sec_invD(2) [OF inv], of row] find_key_in_set [OF sec_invD(2) [OF inv], of row'] by (simp add: answered_turn_def)
  then have v: "cur = v" "tu_status cur = Completed" "tu_response cur = Some c"
    using fin cur rowTurn_fields [OF cur] by (auto simp: answered_turn_def)
  then have same: "s' = s" "t = cur" "message_json ''assistant'' c = message_json ''assistant'' c'"
    using cc by (auto simp: complete_current_def action_simps split: if_splits)
  have "valid_content c" using rowTurn_content [OF cur] v by (auto split: option.splits intro: parsed_content)
  then have "c = c'" using same(3) message_json_inj conv_message_valid [OF c] by blast
  then show ?thesis using c v same by simp
qed

lemma conv_complete_run:
  assumes "conv_complete sha now tok tid resp s = (Inr (b, rcpt), s')"
  obtains t d where "resolveSecretarySession sha s tok = Some b" "turn_complete now (bi_session b) tid resp s = (Inr t, s')"
    "tu_completed t = Some d" "rcpt = (tu_id t, tu_sequence t, d)"
  using assms
  by (auto simp: conv_complete_def conv_binding_def action_simps split: prod.splits sum.splits option.splits if_splits)

lemma answered_stays:
  assumes "evolves s s'" and "answered_turn s sid tid c row v"
  shows "answered_turn s' sid tid c row v"
proof -
  from assms obtain u where "u \<in> set (sd_turns s')" "turn_evolves row u" by (auto simp: evolves_def answered_turn_def)
  moreover from this have "u = row" using assms(2) by (auto simp: turn_evolves_def answered_turn_def turn_active_def)
  ultimately show ?thesis using assms(2) by (simp add: answered_turn_def)
qed

section \<open>Answers are kept\<close>


end
