(* ===== verification/Secretary_Process.thy ===== *)
theory Secretary_Process
  imports Secretary_Loop Secretary_Answers
begin

text \<open>
  The secretary process (\<open>src/src/secretary-main.ts\<close>): it pulls a question, runs a turn and delivers the
  answer. With it the conversation requests of its client (\<open>src/src/secretary/client.ts\<close>) and the route that
  serves them (\<open>src/src/worker/http.ts\<close>).

  The world of the process is that of its turns together with the tables of the secretaries. What the
  host and other processes do to these tables while a turn runs is the argument \<open>re_host\<close> of the round.
  Time does not pass while the process waits between rounds, and the abort signal arrives between rounds or
  inside a turn: the process runs until it is interrupted, so the number of its rounds is an argument.
\<close>

section \<open>The environment\<close>

definition env_required :: "(string \<rightharpoonup> string) \<Rightarrow> string \<Rightarrow> string + string" where
  "env_required env key = (case env key of
     None \<Rightarrow> Inl (key @ '' is required'') | Some v \<Rightarrow> if v = [] then Inl (key @ '' is required'') else Inr v)"

text \<open>\<open>Number(text)\<close> is the argument \<open>to_number\<close>.\<close>

definition secretaryEnvironment :: "(string \<Rightarrow> jsnum) \<Rightarrow> (string \<rightharpoonup> string) \<Rightarrow> string + (string \<times> string \<times> string \<times> rat)" where
  "secretaryEnvironment to_number env =
     bindR (env_required env ''ELPIS_SECRETARY_TOKEN'') (\<lambda>token.
     bindR (env_required env ''ELPIS_SECRETARY_BROKER_URL'') (\<lambda>url.
     bindR (env_required env ''ELPIS_SECRETARY_SESSION_ID'') (\<lambda>sid.
     if \<not> bearer token then Inl ''ELPIS_SECRETARY_TOKEN is invalid''
     else if \<not> isSecretarySessionId sid then Inl ''ELPIS_SECRETARY_SESSION_ID is invalid''
     else let poll = (case env ''ELPIS_SECRETARY_POLL_MS'' of None \<Rightarrow> Num 500 | Some t \<Rightarrow> to_number t) in
       if \<not> isSafeInteger poll \<or> finite_val poll < 100 \<or> finite_val poll > 5000
       then Inl ''ELPIS_SECRETARY_POLL_MS must be an integer from 100 to 5000''
       else Inr (token, url, sid, finite_val poll))))"

text \<open>The client is made for an origin; \<open>new URL\<close> is the argument \<open>parse_url\<close>, and \<open>None\<close> where it throws.\<close>

record url_parts =
  url_protocol :: string
  url_username :: string
  url_password :: string
  url_search :: string
  url_hash :: string
  url_pathname :: string
  url_origin :: string

definition brokerOrigin :: "(string \<Rightarrow> url_parts option) \<Rightarrow> string \<Rightarrow> turn_error + string" where
  "brokerOrigin parse_url v = (case parse_url v of
     None \<Rightarrow> Inl (TurnError ''secretary broker URL must be an absolute http(s) origin'')
   | Some u \<Rightarrow>
       if (url_protocol u \<noteq> ''http:'' \<and> url_protocol u \<noteq> ''https:'') \<or> url_username u \<noteq> [] \<or> url_password u \<noteq> [] \<or>
          url_search u \<noteq> [] \<or> url_hash u \<noteq> [] \<or> (url_pathname u \<noteq> ''/'' \<and> url_pathname u \<noteq> [])
       then Inl (TurnError ''secretary broker URL must be a credential-free http(s) origin'')
       else Inr (url_origin u))"

section \<open>Conversation requests on their way\<close>

definition message_object :: "sec_message \<Rightarrow> json" where
  "message_object m = JObj [(''role'', JStr (fst m)), (''content'', JStr (snd m))]"

primrec conversation_fields :: "conversation_reply \<Rightarrow> (string \<times> json) list" where
  "conversation_fields (TurnPulled b t) = [(''binding'', binding_json b),
     (''turn'', json_opt (\<lambda>(i, n, ms). JObj [(''id'', JStr i), (''sequence'', JNum (of_nat n)), (''messages'', JArr (map message_object ms))]) t)]"
| "conversation_fields (TurnCompleted b i n d) = [(''binding'', binding_json b),
     (''turn'', JObj [(''id'', JStr i), (''sequence'', JNum (of_nat n)), (''status'', JStr ''completed''), (''completedAt'', JNum d)])]"

definition conversation_status :: "conversation_request_error \<Rightarrow> http_reply" where
  "conversation_status e = (case e of
     BadConversationRequest m \<Rightarrow> coded 400 m ''invalid_request''
   | ConversationRefused x \<Rightarrow> (case x of
       ConvUnauthorized m \<Rightarrow> coded 401 m ''unauthorized''
     | ConvInvalid m \<Rightarrow> coded 400 m ''invalid_request''
     | ConvNotFound m \<Rightarrow> coded 404 m ''not_found''
     | ConvUnavailable m \<Rightarrow> coded 409 m ''unavailable''
     | ConvConflict m \<Rightarrow> coded 409 m ''conflict''
     | ConvBroken m \<Rightarrow> (502, [(''error'', JStr ''secretary conversation request failed'')])))"

definition secretary_conversation_route ::
  "(rat \<Rightarrow> string) \<Rightarrow> (string \<Rightarrow> string) \<Rightarrow> time \<Rightarrow> string \<Rightarrow> (string \<times> json) list \<Rightarrow> secretary_db \<Rightarrow> http_reply \<times> secretary_db" where
  "secretary_conversation_route num sha now tok body db =
     (if \<not> bearer tok then ((401, [(''error'', JStr ''secretary session is unavailable'')]), db)
      else if length (utf8 (json_text num (JObj body))) > DEFAULT_MAX_BODY_BYTES
        then ((413, [(''error'', JStr ''request body is too large'')]), db)
      else (case dispatchSecretaryConversationRequest sha now tok body db of
          (Inl e, db') \<Rightarrow> (conversation_status e, db')
        | (Inr rep, db') \<Rightarrow> ((200, (''protocol'', JNum 1) # conversation_fields rep), db')))"

record process_world =
  pw_turn :: turn_world
  pw_db :: secretary_db

definition in_turn :: "(turn_world, 'a) turn \<Rightarrow> (process_world, 'a) turn" where
  "in_turn m = (\<lambda>w. case m (pw_turn w) of (r, t) \<Rightarrow> (r, w\<lparr>pw_turn := t\<rparr>))"

definition post_conversation ::
  "(rat \<Rightarrow> string) \<Rightarrow> (string \<Rightarrow> string) \<Rightarrow> time \<Rightarrow> string \<Rightarrow> (string \<times> json) list \<Rightarrow> (process_world, (string \<times> json) list) turn" where
  "post_conversation num sha now tok body = (\<lambda>w. case secretary_conversation_route num sha now tok body (pw_db w) of
     (r, db) \<Rightarrow> (post_reply num r, w\<lparr>pw_db := db\<rparr>))"

text \<open>A message of the transcript, with its index for the errors.\<close>

definition conversation_message :: "nat \<Rightarrow> json \<Rightarrow> turn_error + sec_message" where
  "conversation_message n v = (let label = ''secretary conversation message '' @ decimal n in
     case v of
       JObj fs \<Rightarrow>
         if length fs \<noteq> 2 \<or> sort (map fst fs) \<noteq> [''content'', ''role''] then Inl (TurnError (label @ '' has extra fields''))
         else if map_of fs ''role'' \<noteq> Some (JStr ''user'') \<and> map_of fs ''role'' \<noteq> Some (JStr ''assistant'')
         then Inl (TurnError (label @ '' has an invalid role''))
         else bindR (json_string (map_of fs ''content'') (label @ '' content'')) (\<lambda>c.
           Inr (if map_of fs ''role'' = Some (JStr ''user'') then ''user'' else ''assistant'', c))
     | _ \<Rightarrow> Inl (TurnError (label @ '' must be an object'')))"

definition conversationMessages :: "json option \<Rightarrow> turn_error + sec_message list" where
  "conversationMessages v = (case v of
     Some (JArr ms) \<Rightarrow> if ms = [] then Inl (TurnError ''secretary conversation transcript must be a non-empty array'')
       else map_indexed conversation_message 0 ms
   | _ \<Rightarrow> Inl (TurnError ''secretary conversation transcript must be a non-empty array''))"

text \<open>
  \<open>Number(value)\<close> of a JSON value, with \<open>rd\<close> for \<open>Number(text)\<close>; an array is read through its text. An object with
  its own \<open>toString\<close> makes the conversion throw, which like \<open>NaN\<close> rejects the receipt.
\<close>

fun js_text :: "(rat \<Rightarrow> string) \<Rightarrow> json \<Rightarrow> string" where
  "js_text num JNull = ''null''"
| "js_text num (JBool b) = (if b then ''true'' else ''false'')"
| "js_text num (JNum r) = num r"
| "js_text num (JStr s) = s"
| "js_text num (JArr xs) = join '','' (map (\<lambda>x. if x = JNull then [] else js_text num x) xs)"
| "js_text num (JObj fs) = ''[object Object]''"

definition js_number :: "(string \<Rightarrow> jsnum) \<Rightarrow> (rat \<Rightarrow> string) \<Rightarrow> json option \<Rightarrow> jsnum" where
  "js_number rd num v = (case v of
     None \<Rightarrow> NaN | Some JNull \<Rightarrow> Num 0 | Some (JBool b) \<Rightarrow> Num (if b then 1 else 0) | Some (JNum r) \<Rightarrow> Num r
   | Some (JStr s) \<Rightarrow> rd s | Some (JArr xs) \<Rightarrow> rd (js_text num (JArr xs)) | Some (JObj _) \<Rightarrow> NaN)"

definition positive_integer :: "jsnum \<Rightarrow> bool" where
  "positive_integer n \<longleftrightarrow> isSafeInteger n \<and> finite_val n \<ge> 1"

text \<open>\<open>pull\<close>; the sequence number is checked and then not used by the process.\<close>

definition parse_pulled :: "(string \<Rightarrow> jsnum) \<Rightarrow> (rat \<Rightarrow> string) \<Rightarrow> json option \<Rightarrow> turn_error + (string \<times> sec_message list) option" where
  "parse_pulled rd num v = (case v of
     Some JNull \<Rightarrow> Inr None
   | Some (JObj t) \<Rightarrow>
       bindR (json_string (map_of t ''id'') ''secretary conversation turn id'') (\<lambda>i.
       if \<not> isSecretaryTurnId i \<or> \<not> positive_integer (js_number rd num (map_of t ''sequence''))
       then Inl (TurnError ''secretary conversation turn receipt is invalid'')
       else bindR (conversationMessages (map_of t ''messages'')) (\<lambda>ms. Inr (Some (i, ms))))
   | _ \<Rightarrow> Inl (TurnError ''secretary conversation turn must be an object''))"

definition client_pull :: "(string \<Rightarrow> jsnum) \<Rightarrow> (rat \<Rightarrow> string) \<Rightarrow> (string \<Rightarrow> string) \<Rightarrow> time \<Rightarrow> string \<Rightarrow> string \<Rightarrow> (process_world, (string \<times> sec_message list) option) turn" where
  "client_pull rd num sha now sid tok =
     andThen (post_conversation num sha now tok [(''protocol'', JNum 1), (''operation'', JStr ''pull'')]) (\<lambda>reply.
     andThen (in_turn (client_binding sid (map_of reply ''binding''))) (\<lambda>_.
     lift (parse_pulled rd num (map_of reply ''turn''))))"

definition parse_receipt :: "(string \<Rightarrow> jsnum) \<Rightarrow> (rat \<Rightarrow> string) \<Rightarrow> string \<Rightarrow> json option \<Rightarrow> turn_error + unit" where
  "parse_receipt rd num i v = (case v of
     Some (JObj t) \<Rightarrow>
       if map_of t ''id'' \<noteq> Some (JStr i) \<or> map_of t ''status'' \<noteq> Some (JStr ''completed'')
       then Inl (TurnError ''secretary completion receipt does not match the turn'')
       else if \<not> positive_integer (js_number rd num (map_of t ''sequence'')) \<or> \<not> isSafeInteger (js_number rd num (map_of t ''completedAt''))
       then Inl (TurnError ''secretary completion receipt is invalid'')
       else Inr ()
   | _ \<Rightarrow> Inl (TurnError ''secretary completion receipt must be an object''))"

definition client_finish :: "(string \<Rightarrow> jsnum) \<Rightarrow> (rat \<Rightarrow> string) \<Rightarrow> (string \<Rightarrow> string) \<Rightarrow> time \<Rightarrow> string \<Rightarrow> string \<Rightarrow> string \<Rightarrow> string \<Rightarrow> (process_world, unit) turn" where
  "client_finish rd num sha now sid tok i c =
     (if \<not> isSecretaryTurnId i then throw (TurnError ''secretary turn identity is invalid'')
      else andThen (post_conversation num sha now tok
          [(''protocol'', JNum 1), (''operation'', JStr ''complete''), (''turnId'', JStr i), (''response'', message_object (''assistant'', c))]) (\<lambda>reply.
        andThen (in_turn (client_binding sid (map_of reply ''binding''))) (\<lambda>_.
        lift (parse_receipt rd num i (map_of reply ''turn'')))))"

section \<open>The process\<close>

definition chat_of :: "sec_message \<Rightarrow> chat_message" where
  "chat_of m = \<lparr>ch_role = (if fst m = ''user'' then UserRole else AssistantRole), ch_content = snd m, ch_calls = None, ch_call_id = None, ch_extra = []\<rparr>"

text \<open>
  What surrounds a round: the clock of its two requests, the model, the Mind requests, the abort signal and the host.
\<close>

record round_env =
  re_pull :: time
  re_finish :: time
  re_model :: "nat \<Rightarrow> chat_message list \<Rightarrow> turn_error + chat_message"
  re_mind :: "nat \<Rightarrow> mind_call_env"
  re_stop :: "turn_world \<Rightarrow> turn_error option"
  re_host :: "secretary_db \<Rightarrow> secretary_db"

abbreviation round_turn ::
  "(rat \<Rightarrow> string) \<Rightarrow> (mind_error \<Rightarrow> string) \<Rightarrow> (string \<Rightarrow> string) \<Rightarrow> round_env \<Rightarrow> string \<Rightarrow> string \<Rightarrow> sec_message list \<Rightarrow> (turn_world, string) turn" where
  "round_turn num say sha ev sid tok ms \<equiv> runSecretaryTurn num (re_stop ev) (client_complete (re_model ev))
     (client_mind num say sha (re_mind ev) sid tok) (map chat_of ms)"

text \<open>One pass of the loop: the turn that was answered and its answer.\<close>

definition secretary_round ::
  "(string \<Rightarrow> jsnum) \<Rightarrow> (rat \<Rightarrow> string) \<Rightarrow> (mind_error \<Rightarrow> string) \<Rightarrow> (string \<Rightarrow> string) \<Rightarrow> round_env \<Rightarrow> string \<Rightarrow> string \<Rightarrow> (process_world, (string \<times> string) option) turn" where
  "secretary_round rd num say sha ev sid tok =
     andThen (client_pull rd num sha (re_pull ev) sid tok) (\<lambda>turn. case turn of
       None \<Rightarrow> ok None
     | Some (i, ms) \<Rightarrow>
         andThen (in_turn (round_turn num say sha ev sid tok ms)) (\<lambda>c.
         andThen (modify (\<lambda>w. w\<lparr>pw_db := re_host ev (pw_db w)\<rparr>)) (\<lambda>_.
         andThen (client_finish rd num sha (re_finish ev) sid tok i c) (\<lambda>_. ok (Some (i, c))))))"

primrec process_rounds ::
  "(string \<Rightarrow> jsnum) \<Rightarrow> (rat \<Rightarrow> string) \<Rightarrow> (mind_error \<Rightarrow> string) \<Rightarrow> (string \<Rightarrow> string) \<Rightarrow> (nat \<Rightarrow> round_env) \<Rightarrow> string \<Rightarrow> string \<Rightarrow> bool \<Rightarrow> nat \<Rightarrow> (process_world, unit) turn" where
  "process_rounds rd num say sha ev sid tok once 0 = ok ()"
| "process_rounds rd num say sha ev sid tok once (Suc n) =
     andThen (secretary_round rd num say sha (ev n) sid tok) (\<lambda>_. if once then ok () else process_rounds rd num say sha ev sid tok once n)"

text \<open>The constructor of the client repeats the checks of the token and the session, which have passed by then.\<close>

definition runSecretaryProcess ::
  "(string \<Rightarrow> url_parts option) \<Rightarrow> (string \<Rightarrow> jsnum) \<Rightarrow> (rat \<Rightarrow> string) \<Rightarrow> (mind_error \<Rightarrow> string) \<Rightarrow> (string \<Rightarrow> string) \<Rightarrow> (nat \<Rightarrow> round_env) \<Rightarrow>
   (string \<rightharpoonup> string) \<Rightarrow> bool \<Rightarrow> nat \<Rightarrow> (process_world, unit) turn" where
  "runSecretaryProcess parse_url rd num say sha ev env once n =
     (case secretaryEnvironment rd env of
        Inl m \<Rightarrow> throw (TurnError m)
      | Inr (tok, url, sid, _) \<Rightarrow>
          andThen (lift (brokerOrigin parse_url url)) (\<lambda>_. process_rounds rd num say sha ev sid tok once n))"

section \<open>Requests seen from the client\<close>

lemma andThen_ok:
  assumes "andThen m k s = (Inr r, s')"
  obtains a s1 where "m s = (Inr a, s1)" "k a s1 = (Inr r, s')"
  using assms by (auto simp: andThen_def split: prod.splits sum.splits)

lemma post_reply_ok: "post_reply num r = Inr fs \<Longrightarrow> \<exists>st. r = (st, fs) \<and> 200 \<le> st \<and> st \<le> 299"
  by (cases r) (auto simp: post_reply_def split: if_splits)

lemma refusal_status: "fst (conversation_status e) > 299"
  by (auto simp: conversation_status_def coded_def split: conversation_request_error.splits conversation_error.splits)

lemma post_conversation_ok:
  assumes "post_conversation num sha now tok body w = (Inr reply, w')"
  obtains rep where "dispatchSecretaryConversationRequest sha now tok body (pw_db w) = (Inr rep, pw_db w')"
    "reply = (''protocol'', JNum 1) # conversation_fields rep" "pw_turn w' = pw_turn w"
proof -
  obtain rt db where r: "secretary_conversation_route num sha now tok body (pw_db w) = (rt, db)" by fastforce
  then have w': "w' = w\<lparr>pw_db := db\<rparr>" and "post_reply num rt = Inr reply" using assms by (auto simp: post_conversation_def)
  then obtain st where rt: "rt = (st, reply)" "200 \<le> st" "st \<le> 299" using post_reply_ok by blast
  obtain x db' where d: "dispatchSecretaryConversationRequest sha now tok body (pw_db w) = (x, db')" by fastforce
  show ?thesis
  proof (cases x)
    case (Inl e)
    then have "(st, reply) = conversation_status e \<or> st = 401 \<or> st = 413"
      using r d rt(1) by (auto simp: secretary_conversation_route_def split: if_splits)
    moreover have "st > 299" if "(st, reply) = conversation_status e" using refusal_status [of e] that [symmetric] by simp
    ultimately have "st > 299" by auto
    then show ?thesis using rt by simp
  next
    case (Inr rep)
    then have "reply = (''protocol'', JNum 1) # conversation_fields rep \<and> db = db' \<or> st = 401 \<or> st = 413"
      using r d rt(1) by (auto simp: secretary_conversation_route_def split: if_splits)
    then show ?thesis using rt d Inr w' that by auto
  qed
qed

lemma parsed_binding: "parse_binding sid (Some (binding_json b)) = Inr b' \<Longrightarrow> bi_session b = sid"
  by (cases "bi_hint b") (auto simp: parse_binding_def binding_json_def json_opt_def json_string_def bindR_def split: if_splits sum.splits)

lemma client_binding_ok:
  assumes "in_turn (client_binding sid (Some (binding_json b))) w = (Inr u, w')"
  shows "bi_session b = sid" "pw_db w' = pw_db w" "tw_mind (pw_turn w') = tw_mind (pw_turn w)"
proof -
  obtain t where run: "client_binding sid (Some (binding_json b)) (pw_turn w) = (Inr u, t)" and w': "w' = w\<lparr>pw_turn := t\<rparr>"
    using assms by (auto simp: in_turn_def split: prod.splits)
  then obtain b' where p: "parse_binding sid (Some (binding_json b)) = Inr b'"
    by (auto simp: client_binding_def action_simps split: sum.splits)
  show "bi_session b = sid" by (rule parsed_binding [OF p])
  show "pw_db w' = pw_db w" "tw_mind (pw_turn w') = tw_mind (pw_turn w)"
    using run p w' by (auto simp: client_binding_def action_simps split: option.splits if_splits)
qed

text \<open>The transcript arrives as it was sent.\<close>

lemma message_arrives: "conversation_message n (message_object m) = Inr m' \<Longrightarrow> m' = m"
  by (cases m) (auto simp: conversation_message_def message_object_def json_string_def bindR_def Let_def split: if_splits)

lemma messages_arrive: "map_indexed conversation_message n (map message_object ms) = Inr ms' \<Longrightarrow> ms' = ms"
  by (induction ms arbitrary: n ms') (auto simp: bindR_def dest!: message_arrives split: sum.splits)

lemma turn_arrives:
  assumes "parse_pulled rd num (map_of (conversation_fields (TurnPulled b t)) ''turn'') = Inr (Some (i, ms))"
  obtains n where "t = Some (i, n, ms)"
proof (cases t)
  case None
  then show ?thesis using assms by (simp add: parse_pulled_def json_opt_def)
next
  case (Some x)
  obtain j n ms' where x: "x = (j, n, ms')" by (cases x)
  have "i = j" "map_indexed conversation_message 0 (map message_object ms') = Inr ms"
    using assms by (auto simp: Some x parse_pulled_def json_opt_def json_string_def bindR_def conversationMessages_def split: if_splits sum.splits)
  then show ?thesis using messages_arrive that Some x by blast
qed

lemma pulled_question:
  assumes "client_pull rd num sha now sid tok w = (Inr (Some (i, ms)), w')"
  obtains b n where "conv_pull sha now tok (pw_db w) = (Inr (b, Some (i, n, ms)), pw_db w')" "bi_session b = sid"
    "tw_mind (pw_turn w') = tw_mind (pw_turn w)"
proof -
  let ?body = "[(''protocol'', JNum 1), (''operation'', JStr ''pull'')]"
  obtain reply w1 where p: "post_conversation num sha now tok ?body w = (Inr reply, w1)"
    and k: "andThen (in_turn (client_binding sid (map_of reply ''binding''))) (\<lambda>_. lift (parse_pulled rd num (map_of reply ''turn''))) w1 = (Inr (Some (i, ms)), w')"
    by (rule andThen_ok [OF assms [unfolded client_pull_def]])
  obtain rep where d: "dispatchSecretaryConversationRequest sha now tok ?body (pw_db w) = (Inr rep, pw_db w1)"
    and reply: "reply = (''protocol'', JNum 1) # conversation_fields rep" and t: "pw_turn w1 = pw_turn w"
    by (rule post_conversation_ok [OF p])
  obtain u w2 where bind: "in_turn (client_binding sid (map_of reply ''binding'')) w1 = (Inr u, w2)"
    and turn: "parse_pulled rd num (map_of reply ''turn'') = Inr (Some (i, ms))" "w' = w2"
    using andThen_ok [OF k] by (metis action_eval(3) prod.inject)
  obtain x s1 where x: "conv_pull sha now tok (pw_db w) = (x, s1)" by fastforce
  have "sort (map fst ?body) = sort [''operation'', ''protocol'']" by code_simp
  then obtain b q where c: "x = Inr (b, q)" "s1 = pw_db w1" "rep = TurnPulled b q"
    using d x by (cases x) (auto simp: dispatchSecretaryConversationRequest_def on_conversation_def conv_exact_def action_simps simp del: sort_key_simps)
  obtain n where "q = Some (i, n, ms)"
    using turn(1) turn_arrives [of rd num b q i ms] by (simp add: reply c(3)) blast
  moreover note client_binding_ok [of sid b w1 u w2] bind
  ultimately show ?thesis using that [of b n] x c t turn(2) by (simp add: reply)
qed

lemma finished_answer:
  assumes "client_finish rd num sha now sid tok i c w = (Inr u, w')"
  obtains b rcpt where "conv_complete sha now tok i (Some (message_object (''assistant'', c))) (pw_db w) = (Inr (b, rcpt), pw_db w')"
    "bi_session b = sid" "tw_mind (pw_turn w') = tw_mind (pw_turn w)"
proof -
  let ?body = "[(''protocol'', JNum 1), (''operation'', JStr ''complete''), (''turnId'', JStr i), (''response'', message_object (''assistant'', c))]"
  have run: "andThen (post_conversation num sha now tok ?body) (\<lambda>reply.
      andThen (in_turn (client_binding sid (map_of reply ''binding''))) (\<lambda>_. lift (parse_receipt rd num i (map_of reply ''turn'')))) w = (Inr u, w')"
    using assms by (simp add: client_finish_def throw_def split: if_splits)
  obtain reply w1 where p: "post_conversation num sha now tok ?body w = (Inr reply, w1)"
    and k: "andThen (in_turn (client_binding sid (map_of reply ''binding''))) (\<lambda>_. lift (parse_receipt rd num i (map_of reply ''turn''))) w1 = (Inr u, w')"
    by (rule andThen_ok [OF run])
  obtain rep where d: "dispatchSecretaryConversationRequest sha now tok ?body (pw_db w) = (Inr rep, pw_db w1)"
    and reply: "reply = (''protocol'', JNum 1) # conversation_fields rep" and t: "pw_turn w1 = pw_turn w"
    by (rule post_conversation_ok [OF p])
  obtain v where bind: "in_turn (client_binding sid (map_of reply ''binding'')) w1 = (Inr v, w')"
    using andThen_ok [OF k] by (metis action_eval(3) prod.inject)
  obtain x s1 where x: "conv_complete sha now tok i (Some (message_object (''assistant'', c))) (pw_db w) = (x, s1)" by fastforce
  have "sort (map fst ?body) = sort [''operation'', ''protocol'', ''response'', ''turnId'']" by code_simp
  then obtain b j n y where c: "x = Inr (b, j, n, y)" "s1 = pw_db w1" "rep = TurnCompleted b j n y"
    using d x by (cases x) (auto simp: dispatchSecretaryConversationRequest_def on_conversation_def conv_exact_def action_simps simp del: sort_key_simps)
  moreover note client_binding_ok [of sid b w1 v w'] bind
  ultimately show ?thesis using that [of b "(j, n, y)"] x t by (simp add: reply)
qed

section \<open>A round answers its question\<close>

lemma conv_pull_claim:
  assumes "conv_pull sha now tok s = (Inr (b, Some (i, n, ms)), s')"
  obtains t where "turn_claim now (bi_session b) s = (Inr (Some (t, ms)), s')" "tu_id t = i"
  using assms by (auto simp: conv_pull_def conv_binding_def action_simps split: option.splits prod.splits sum.splits if_splits)

lemma answer_arrives: "conv_message (Some (message_object (role, c))) role = Inr c' \<Longrightarrow> c' = c"
  by (auto simp: conv_message_def message_object_def split: if_splits)

lemma round_run:
  assumes "secretary_round rd num say sha ev sid tok w = (Inr (Some (i, c)), w')"
  obtains b n ms s t db b' rcpt where "conv_pull sha (re_pull ev) tok (pw_db w) = (Inr (b, Some (i, n, ms)), db)" "bi_session b = sid"
    "tw_mind s = tw_mind (pw_turn w)" "round_turn num say sha ev sid tok ms s = (Inr c, t)"
    "conv_complete sha (re_finish ev) tok i (Some (message_object (''assistant'', c))) (re_host ev db) = (Inr (b', rcpt), pw_db w')"
    "bi_session b' = sid" "tw_mind (pw_turn w') = tw_mind t"
proof -
  obtain turn w1 where pull: "client_pull rd num sha (re_pull ev) sid tok w = (Inr turn, w1)"
    and k: "(case turn of None \<Rightarrow> ok None
      | Some (i, ms) \<Rightarrow> andThen (in_turn (round_turn num say sha ev sid tok ms)) (\<lambda>c.
         andThen (modify (\<lambda>w. w\<lparr>pw_db := re_host ev (pw_db w)\<rparr>)) (\<lambda>_.
         andThen (client_finish rd num sha (re_finish ev) sid tok i c) (\<lambda>_. ok (Some (i, c)))))) w1 = (Inr (Some (i, c)), w')"
    by (rule andThen_ok [OF assms [unfolded secretary_round_def]])
  then obtain j ms where turn: "turn = Some (j, ms)" by (cases turn) (auto simp: action_simps)
  obtain c' t where run: "round_turn num say sha ev sid tok ms (pw_turn w1) = (Inr c', t)"
    and k2: "andThen (client_finish rd num sha (re_finish ev) sid tok j c') (\<lambda>_. ok (Some (j, c')))
      (w1\<lparr>pw_turn := t, pw_db := re_host ev (pw_db w1)\<rparr>) = (Inr (Some (i, c)), w')"
    using k [unfolded turn] by (cases "round_turn num say sha ev sid tok ms (pw_turn w1)")
      (auto simp: in_turn_def andThen_def modify_def split: sum.splits)
  obtain u where fin: "client_finish rd num sha (re_finish ev) sid tok i c (w1\<lparr>pw_turn := t, pw_db := re_host ev (pw_db w1)\<rparr>) = (Inr u, w')"
    and same: "j = i" "c' = c"
    by (rule andThen_ok [OF k2]) (simp add: ok_def)
  obtain b n where q: "conv_pull sha (re_pull ev) tok (pw_db w) = (Inr (b, Some (i, n, ms)), pw_db w1)" "bi_session b = sid"
    "tw_mind (pw_turn w1) = tw_mind (pw_turn w)"
    by (rule pulled_question [OF pull [unfolded turn same]])
  obtain b' rcpt where "conv_complete sha (re_finish ev) tok i (Some (message_object (''assistant'', c))) (re_host ev (pw_db w1)) = (Inr (b', rcpt), pw_db w')"
    "bi_session b' = sid" "tw_mind (pw_turn w') = tw_mind t"
    by (rule finished_answer [OF fin]) simp
  then show ?thesis by (rule that [OF q run [unfolded same]])
qed


end
