(* ===== verification/Secretary_Completion.thy ===== *)
theory Secretary_Completion
  imports Secretary_Session Worker_Requests
begin

text \<open>
  The completions a secretary asks of its broker (\<open>src/src/secretary/completion.ts\<close>). Messages are parsed
  as those of a worker, with the tools of a secretary; \<open>ref_error\<close> says for which model refs the
  configuration has no client, and \<open>limit\<close> is \<open>maxConcurrent\<close>. A completion is cut at the wait for the
  model; its \<open>finally\<close> block is \<open>complete_end\<close>, the same as a worker's.
\<close>

section \<open>The broker\<close>

definition SECRETARY_MESSAGE_TOOLS :: "string set" where
  "SECRETARY_MESSAGE_TOOLS = {''mind'', ''think''}"

definition DEFAULT_MAX_CONCURRENT :: nat where "DEFAULT_MAX_CONCURRENT = 4"

text \<open>\<open>message.replace(/^worker /, 'secretary ')\<close>.\<close>

definition secretary_said :: "string \<Rightarrow> string" where
  "secretary_said m = (if prefix ''worker '' m then ''secretary '' @ drop 7 m else m)"

definition parseSecretaryMessages :: "(rat \<Rightarrow> string) \<Rightarrow> json option \<Rightarrow> completion_error + chat_message list" where
  "parseSecretaryMessages num v = map_sum (\<lambda>e. case e of
       InvalidCompletion m \<Rightarrow> InvalidCompletion (secretary_said m)
     | UnsupportedInput m \<Rightarrow> UnsupportedInput (secretary_said m)
     | _ \<Rightarrow> e) id (parseWorkerMessages num SECRETARY_MESSAGE_TOOLS v)"

definition secretary_client_for :: "(string \<Rightarrow> string option) \<Rightarrow> secretary_binding \<Rightarrow> (completion_error, completions, unit) action" where
  "secretary_client_for ref_error b = reads (\<lambda>c. case map_of (cp_clients c) (bi_session b) of
     Some ref \<Rightarrow> require (ref = bi_model_ref b) BindingChanged
   | None \<Rightarrow>
       (case ref_error (bi_model_ref b) of
          Some e \<Rightarrow> throw (ClientRefused e)
        | None \<Rightarrow> modify (\<lambda>c. c\<lparr>cp_clients := cp_clients c @ [(bi_session b, bi_model_ref b)]\<rparr>)))"

definition secretary_complete_begin ::
  "(string \<Rightarrow> string option) \<Rightarrow> nat \<Rightarrow> (rat \<Rightarrow> string) \<Rightarrow> (string \<Rightarrow> string) \<Rightarrow> secretary_db \<Rightarrow> string \<Rightarrow> json option \<Rightarrow>
    (completion_error, completions, secretary_binding \<times> chat_message list) action" where
  "secretary_complete_begin ref_error limit num sha db tok input =
     (case resolveSecretarySession sha db tok of
        None \<Rightarrow> throw CompletionUnauthorized
      | Some b \<Rightarrow>
          andThen (lift (parseSecretaryMessages num input)) (\<lambda>ms.
          reads (\<lambda>c.
            if bi_session b \<in> set (cp_active c) then throw CompletionBusy
            else if length (cp_active c) \<ge> limit then throw CompletionCapacity
            else andThen (secretary_client_for ref_error b) (\<lambda>_.
              andThen (modify (\<lambda>c. c\<lparr>cp_active := cp_active c @ [bi_session b]\<rparr>)) (\<lambda>_. ok (b, ms))))))"

text \<open>The constructor refuses a capacity that is not a positive integer.\<close>

definition secretary_capacity :: "jsnum option \<Rightarrow> completion_error + nat" where
  "secretary_capacity m = (case m of
     None \<Rightarrow> Inr DEFAULT_MAX_CONCURRENT
   | Some n \<Rightarrow> if \<not> isSafeInteger n \<or> finite_val n < 1 then Inl (InvalidCompletion ''secretary completion capacity must be a positive integer'')
       else Inr (nat \<lfloor>finite_val n\<rfloor>))"

section \<open>Completions in flight\<close>

lemma client_for_adds:
  assumes "secretary_client_for ref_error b c = (r, c')" and "flight_inv N c"
  shows "flight_inv N c' \<and> cp_active c' = cp_active c \<and> (\<forall>u. r = Inr u \<longrightarrow> map_of (cp_clients c') (bi_session b) = Some (bi_model_ref b)) \<and>
    set (cp_clients c) \<subseteq> set (cp_clients c')"
proof (cases "map_of (cp_clients c) (bi_session b)")
  case None
  then have "bi_session b \<notin> fst ` set (cp_clients c)" by (simp add: map_of_eq_None_iff)
  then show ?thesis
    using assms None by (cases "ref_error (bi_model_ref b)") (auto simp: secretary_client_for_def action_simps flight_inv_def map_add_def)
qed (use assms in \<open>auto simp: secretary_client_for_def action_simps split: if_splits\<close>)

lemma secretary_begin_flight:
  assumes inv: "flight_inv N c" and run: "secretary_complete_begin ref_error N num sha db tok input c = (r, c')"
  shows "flight_inv N c' \<and> (\<forall>b ms. r = Inr (b, ms) \<longrightarrow> resolveSecretarySession sha db tok = Some b \<and> bi_session b \<notin> set (cp_active c) \<and>
      cp_active c' = cp_active c @ [bi_session b] \<and> map_of (cp_clients c') (bi_session b) = Some (bi_model_ref b) \<and>
      parseSecretaryMessages num input = Inr ms) \<and> ((\<exists>e. r = Inl e) \<longrightarrow> cp_active c' = cp_active c)"
proof (cases "resolveSecretarySession sha db tok")
  case (Some b)
  show ?thesis
  proof (cases "parseSecretaryMessages num input")
    case (Inr ms)
    obtain rc c1 where cl: "secretary_client_for ref_error b c = (rc, c1)" by fastforce
    note grown = client_for_adds [OF cl inv]
    show ?thesis
    proof (cases "bi_session b \<in> set (cp_active c) \<or> length (cp_active c) \<ge> N")
      case True
      then show ?thesis using inv run Some Inr by (auto simp: secretary_complete_begin_def action_simps split: if_splits)
    next
      case False
      show ?thesis
      proof (cases rc)
        case (Inl e)
        then show ?thesis using False grown run Some Inr cl by (auto simp: secretary_complete_begin_def action_simps)
      next
        case (Inr u)
        with grown have "bi_session b \<in> fst ` set (cp_clients c1)" by (metis map_of_eq_None_iff option.distinct(1))
        moreover have r: "r = Inr (b, ms)" "c' = c1\<lparr>cp_active := cp_active c1 @ [bi_session b]\<rparr>"
          using False run Some \<open>parseSecretaryMessages num input = Inr ms\<close> cl Inr by (simp_all add: secretary_complete_begin_def action_simps)
        ultimately have "flight_inv N c'" using grown False by (elim conjE) (simp add: flight_inv_def)
        then show ?thesis using r grown False Some Inr \<open>parseSecretaryMessages num input = Inr ms\<close> by simp
      qed
    qed
  qed (use inv run Some in \<open>auto simp: secretary_complete_begin_def action_simps\<close>)
qed (use inv run in \<open>auto simp: secretary_complete_begin_def action_simps\<close>)

inductive secretary_completion_step :: "nat \<Rightarrow> completions \<Rightarrow> completions \<Rightarrow> bool" for N where
  asks: "secretary_completion_step N c (snd (secretary_complete_begin ref_error N num sha db tok input c))"
| stops: "secretary_completion_step N c (complete_end sid c)"

interpretation secretary_completions: step_system "\<lambda>c. c = no_completions" "secretary_completion_step N" "flight_inv N" for N
proof
  show "flight_inv N c" if "c = no_completions" for c using that by (simp add: flight_inv_def no_completions_def)
  show "flight_inv N c'" if "flight_inv N c" "secretary_completion_step N c c'" for c c'
    using that(2)
  proof cases
    case (asks ref_error num sha db tok input)
    then show ?thesis using secretary_begin_flight [OF that(1)] by (metis prod.collapse)
  next
    case (stops sid)
    have "length (filter (\<lambda>x. x \<noteq> sid) (cp_active c)) \<le> N"
      using that(1) by (intro order_trans [OF length_filter_le]) (simp add: flight_inv_def)
    then show ?thesis using stops that(1) by (auto simp: flight_inv_def complete_end_def)
  qed
qed

end
