(* ===== verification/Secretary_Turn_Example.thy ===== *)
theory Secretary_Turn_Example
  imports Secretary_Example Secretary_Process Secretary_Completion
begin

text \<open>
  The session of \<open>Secretary_Example\<close> at work on a Mind with one item, as the example of the properties of
  \<open>Secretary_Answers\<close>, \<open>Secretary_Mind_Correct\<close>, \<open>Secretary_Loop\<close> and \<open>Secretary_Process\<close>.
\<close>

section \<open>A request and a turn\<close>

lemma sample_resolves [simp]: "resolveSecretarySession zero_sha (sample_db ts) sample_token = Some sample_binding"
proof -
  have "rowSession (sample_row SecReady (Some ''p'') (Some ''u'') 2) = Inr (secretary_session.truncate (sample_row SecReady (Some ''p'') (Some ''u'') 2))"
    by simp
  then show ?thesis
    by (simp add: resolveSecretarySession_def sample_db_def sec_active_def sample_binding_def) (simp add: sample_row_def)
qed

definition remark :: "(string \<times> json) list" where
  "remark = [(''protocol'', JNum 1), (''operation'', JStr ''comment''), (''id'', JStr ''elm-00000005''), (''body'', JStr ''seen'')]"

lemma remark_is_comment:
  "dispatchSecretaryMindRequest now vs rnd num sha sdb tok (Some (JObj remark)) = secretary_comment now num sha sdb tok ''elm-00000005'' ''seen''"
proof -
  have "known_fields remark [''protocol'', ''operation'', ''id'', ''body''] = Inr ()" by code_simp
  moreover have "needed_id (map_of remark ''id'') = Inr ''elm-00000005''" by code_simp
  moreover have "needed_text (map_of remark ''body'') ''body'' 20000 = Inr ''seen''"
    by (simp add: needed_text_def secretary_text_def remark_def bindR_def or_else_def trim_def is_space_def code_unit_def Let_def)
  ultimately show ?thesis
    by (simp add: dispatchSecretaryMindRequest_def plain_object_def fun_eq_iff action_simps) (simp add: remark_def)
qed

theorem secretary_only_adds_witness:
  "\<exists>r w'. dispatchSecretaryMindRequest 3000 [] ''x'' (\<lambda>_. []) zero_sha (sample_db []) sample_token (Some (JObj remark)) plan_world = (r, w') \<and>
     only_adds (''secretary:'' @ sample_sid) 1 (mw_db plan_world) (mw_db w') \<and> length (db_comments (mw_db w')) = 1"
proof -
  let ?d = "dispatchSecretaryMindRequest 3000 [] ''x'' (\<lambda>_. []) zero_sha (sample_db []) sample_token (Some (JObj remark))"
  obtain r w' where run: "?d plan_world = (r, w')" by fastforce
  have "mind_get 3000 (mw_db plan_world) ''elm-00000005'' \<noteq> None" by code_simp
  moreover have "snd (written 3000 num b i c w) = w" for num b i c w
    by (auto simp: written_def action_simps split: option.split sum.split)
  moreover have "requireId (mw_db plan_world) ''elm-00000005'' = Inr ()" by code_simp
  moreover have "db_comments (mw_db plan_world) = []" by code_simp
  moreover have "assertText ''seen'' ''comment'' 20000 False = Inr ()" by (simp add: assertText_def trim_def is_space_def code_unit_def)
  ultimately have "length (db_comments (mw_db (snd (?d plan_world)))) = 1"
    by (simp add: remark_is_comment secretary_comment_def secretary_binding_of_def action_simps on_service_def svc_addComment_def
        store_then_changed_def on_store_def addComment_def changed_def notifyChanged_def addCommentInternal_def Let_def add_event_def touch_def
        update_item_def)
  then show ?thesis
    using secretary_only_adds [OF run] run by auto
qed

theorem secretary_tree_is_exact_witness:
  "\<exists>items. secretary_tree 3000 (\<lambda>_. []) zero_sha (sample_db []) sample_token (Some ''elm-00000005'') (Num 16) (Num 100) plan_world =
      (Inr (SecTree sample_binding ''elm-00000005'' items False), plan_world) \<and>
     it_id ` set items = below (mw_db plan_world) ''elm-00000005'' 16"
proof -
  define d where "d = project (the (mind_get 3000 (mw_db plan_world) ''elm-00000005'')) {''elm-00000005''}"
  have size: "length (utf8 (json_text (\<lambda>_. []) (JObj (reply_fields (SecTree sample_binding ''elm-00000005'' [d] False))))) \<le> 1000"
    unfolding d_def by code_simp
  have rows: "tree_rows (mw_db plan_world) ''elm-00000005'' 16 = [''elm-00000005'']" by code_simp
  have there: "mind_get 3000 (mw_db plan_world) ''elm-00000005'' \<noteq> None" by code_simp
  note there' = there [symmetric]
  have "bounded (\<lambda>_. []) (SecTree sample_binding ''elm-00000005'' [d] False) = Inr (SecTree sample_binding ''elm-00000005'' [d] False)"
    using size by (simp add: bounded_def SECRETARY_MIND_MAX_RESPONSE_CHARS_def del: reply_fields.simps)
  then have run: "secretary_tree 3000 (\<lambda>_. []) zero_sha (sample_db []) sample_token (Some ''elm-00000005'') (Num 16) (Num 100) plan_world =
      (Inr (SecTree sample_binding ''elm-00000005'' [d] False), plan_world)"
    using there' rows
    by (simp add: secretary_tree_def secretary_binding_of_def target_or_hint_def action_simps Let_def clamp_def
        SECRETARY_MIND_MAX_DEPTH_def SECRETARY_MIND_MAX_ITEMS_def integral_def d_def)
  from secretary_tree_is_exact [OF plan_world_reachable run] run show ?thesis
    by (auto simp: Let_def clamp_def integral_def)
qed

definition sample_env :: "nat \<Rightarrow> mind_call_env" where
  "sample_env n = \<lparr>ce_now = 3000, ce_draws = [], ce_rnd = ''x'', ce_sessions = sample_db []\<rparr>"

definition assistant_says :: "tool_call list option \<Rightarrow> string \<Rightarrow> chat_message" where
  "assistant_says cs c = \<lparr>ch_role = AssistantRole, ch_content = c, ch_calls = cs, ch_call_id = None, ch_extra = []\<rparr>"

text \<open>A model that asks for something else than the Mind, and then answers.\<close>

definition sample_model :: "nat \<Rightarrow> chat_message list \<Rightarrow> turn_error + chat_message" where
  "sample_model n ms = Inr (if n = 0 then assistant_says (Some [\<lparr>tc_id = ''c'', tc_name = ''run'', tc_arguments = []\<rparr>]) [] else assistant_says None ''done'')"

definition sample_turn_world :: turn_world where
  "sample_turn_world = \<lparr>tw_mind = plan_world, tw_binding = None, tw_asked = 0, tw_rounds = 0\<rparr>"

theorem secretary_turn_only_adds_witness:
  "\<exists>s'. runSecretaryTurn (\<lambda>_. []) (\<lambda>_. None) (client_complete sample_model)
       (client_mind (\<lambda>_. []) (\<lambda>_. []) zero_sha sample_env sample_sid sample_token) [] sample_turn_world = (Inr ''done'', s') \<and>
     tw_rounds s' = 2 \<and> only_adds (''secretary:'' @ sample_sid) (tw_asked s') (mw_db plan_world) (mw_db (tw_mind s'))"
proof -
  let ?s = "sample_turn_world\<lparr>tw_rounds := 2\<rparr>"
  let ?mind = "client_mind (\<lambda>_. []) (\<lambda>_. []) zero_sha sample_env sample_sid sample_token"
  let ?e = "JObj [(''error'', JObj [(''type'', JStr ''invalid_tool_request''), (''message'', JStr ''secretary completion requested an unsupported tool'')])]"
  have "length (json_text (\<lambda>_. []) ?e) \<le> 200" by code_simp
  then have "recoverableToolError (\<lambda>_. []) (TurnError ''secretary completion requested an unsupported tool'') = Inr (Some (json_text (\<lambda>_. []) ?e))"
    by (simp add: recoverableToolError_def toolResult_def Let_def MAX_TOOL_RESULT_CHARS_def del: json_text.simps)
  then have call: "tool_content (\<lambda>_. []) ?mind \<lparr>tc_id = ''c'', tc_name = ''run'', tc_arguments = []\<rparr> s = (Inr (json_text (\<lambda>_. []) ?e), s)" for s
    by (simp add: tool_content_def call_mind_def action_simps del: json_text.simps)
  have run: "runSecretaryTurn (\<lambda>_. []) (\<lambda>_. None) (client_complete sample_model) ?mind [] sample_turn_world = (Inr ''done'', ?s)"
    by (simp add: runSecretaryTurn_def MAX_MODEL_ROUNDS_def numeral_eq_Suc action_simps client_complete_def sample_model_def assistant_says_def
        sample_turn_world_def or_else_def Let_def MAX_MIND_CALLS_def call del: json_text.simps)
  have own: "\<forall>n b. resolveSecretarySession zero_sha (ce_sessions (sample_env n)) sample_token = Some b \<longrightarrow> bi_session b = sample_sid"
    by (simp add: sample_env_def)
  show ?thesis using secretary_turn_only_adds [OF own run] run by (simp add: sample_turn_world_def)
qed


section \<open>Where the parts do not fit together\<close>

text \<open>
  The loop accepts an empty answer, and one of 32768 characters whose UTF-8 text is longer; the conversation
  refuses both, so the turn fails after the work was done.
\<close>

lemma loop_accepts_answer:
  assumes "length c \<le> 32768"
  shows "fst (runSecretaryTurn num (\<lambda>_. None) (client_complete (\<lambda>_ _. Inr (assistant_says None c))) mind ms s) = Inr c"
proof -
  have rounds: "MAX_MODEL_ROUNDS = Suc 7" by (simp add: MAX_MODEL_ROUNDS_def)
  have "fst (run_rounds num (\<lambda>_. None) (client_complete (\<lambda>_ _. Inr (assistant_says None c))) mind (Suc n) 0 ms' s) = Inr c" for n ms'
    using assms by (simp add: action_simps client_complete_def assistant_says_def or_else_def)
  then show ?thesis unfolding runSecretaryTurn_def rounds .
qed

lemma conversation_refuses_answer: "\<not> valid_content []" "\<not> valid_content (replicate 20000 (CHR 0xE9))"
proof -
  have "utf8 (replicate n (CHR 0xE9)) = concat (replicate n [195, 169])" for n
    by (induction n) (simp_all add: utf8_def utf8_char_def code_unit_def)
  then have "length (utf8 (replicate n (CHR 0xE9))) = 2 * n" for n by (simp add: length_concat sum_list_replicate)
  from this [of 20000] show "\<not> valid_content (replicate 20000 (CHR 0xE9))"
    unfolding valid_content_def MAX_CONTENT_CHARS_def by linarith
  show "\<not> valid_content []" by (simp add: valid_content_def trim_def)
qed

text \<open>A comment is kept although its author is told that the request failed, when the answer is too large.\<close>

lemma refused_but_written:
  assumes "resolveSecretarySession sha sdb tok = Some b" and "mind_get now (mw_db w) i \<noteq> None"
    and "svc_addComment now i body (secretary_author b) w = (Inr c, w')" and "mind_get now (mw_db w') i = Some d"
    and "projected d = Inr p" and "bounded num (SecWrite b c p) = Inl e"
  shows "secretary_comment now num sha sdb tok i body w = (Inl e, w')"
  using assms by (auto simp: secretary_comment_def secretary_binding_of_def on_service_def written_def action_simps)

section \<open>A round of the process\<close>

definition sample_round :: round_env where
  "sample_round = \<lparr>re_pull = 4, re_finish = 5, re_model = (\<lambda>_ _. Inr (assistant_says None ''yes'')), re_mind = sample_env,
     re_stop = (\<lambda>_. None), re_host = id\<rparr>"

definition sample_process :: "turn_row list \<Rightarrow> process_world" where
  "sample_process ts = \<lparr>pw_turn = sample_turn_world, pw_db = sample_db ts\<rparr>"

definition pulled_fields :: "(string \<times> json) list" where
  "pulled_fields = (''protocol'', JNum 1) # conversation_fields (TurnPulled sample_binding (Some (sample_tid CHR ''B'', 1, [(''user'', ''hi'')])))"

definition receipt_fields :: "(string \<times> json) list" where
  "receipt_fields = (''protocol'', JNum 1) # conversation_fields (TurnCompleted sample_binding (sample_tid CHR ''B'') 1 5)"

lemma sample_bearer: "bearer sample_token" by code_simp

lemma sample_post:
  assumes "length (utf8 (json_text (\<lambda>_. []) (JObj body))) \<le> 1000" and "length (utf8 (json_text (\<lambda>_. []) (JObj fs))) \<le> 1000"
    and "dispatchSecretaryConversationRequest zero_sha now sample_token body (pw_db w) = (Inr rep, db)"
    and "fs = (''protocol'', JNum 1) # conversation_fields rep"
  shows "post_conversation (\<lambda>_. []) zero_sha now sample_token body w = (Inr fs, w\<lparr>pw_db := db\<rparr>)"
proof -
  have "secretary_conversation_route (\<lambda>_. []) zero_sha now sample_token body (pw_db w) = ((200, fs), db)"
    using assms(1,3,4) by (simp add: secretary_conversation_route_def sample_bearer DEFAULT_MAX_BODY_BYTES_def del: json_text.simps)
  moreover have "map_of fs ''protocol'' = Some (JNum 1)" by (simp add: assms(4))
  ultimately show ?thesis
    using assms(2) by (simp add: post_conversation_def post_reply_def MAX_REPLY_BYTES_def del: json_text.simps)
qed

lemma sample_binding_parses: "parse_binding sample_sid (Some (binding_json sample_binding)) = Inr sample_binding" by code_simp

lemma sample_client_binding:
  "client_binding sample_sid (Some (binding_json sample_binding)) s =
     (case tw_binding s of None \<Rightarrow> (Inr (), s\<lparr>tw_binding := Some sample_binding\<rparr>)
      | Some b \<Rightarrow> if sample_binding \<noteq> b then (Inl (TurnError ''secretary broker binding changed during the session''), s) else (Inr (), s))"
  by (simp add: client_binding_def action_simps sample_binding_parses split: option.split)

lemma sample_client_pull:
  "client_pull (\<lambda>_. NaN) (\<lambda>_. []) zero_sha 4 sample_sid sample_token (sample_process [question_B]) =
     (Inr (Some (sample_tid CHR ''B'', [(''user'', ''hi'')])),
      \<lparr>pw_turn = sample_turn_world\<lparr>tw_binding := Some sample_binding\<rparr>, pw_db = sample_db [claimed_B]\<rparr>)"
proof -
  let ?body = "[(''protocol'', JNum 1), (''operation'', JStr ''pull'')]"
  have "post_conversation (\<lambda>_. []) zero_sha 4 sample_token ?body (sample_process [question_B]) =
      (Inr pulled_fields, sample_process [question_B]\<lparr>pw_db := sample_db [claimed_B]\<rparr>)"
  proof (rule sample_post)
    show "length (utf8 (json_text (\<lambda>_. []) (JObj ?body))) \<le> 1000" "length (utf8 (json_text (\<lambda>_. []) (JObj pulled_fields))) \<le> 1000"
      by code_simp+
    show "dispatchSecretaryConversationRequest zero_sha 4 sample_token ?body (pw_db (sample_process [question_B])) =
        (Inr (TurnPulled sample_binding (Some (sample_tid CHR ''B'', 1, [(''user'', ''hi'')]))), sample_db [claimed_B])"
      by (simp add: dispatchSecretaryConversationRequest_def sample_process_def action_simps on_conversation_def pull_eval conv_exact_def)
  qed (simp add: pulled_fields_def)
  moreover have "parse_pulled (\<lambda>_. NaN) (\<lambda>_. []) (map_of pulled_fields ''turn'') = Inr (Some (sample_tid CHR ''B'', [(''user'', ''hi'')]))"
    by code_simp
  moreover have "map_of pulled_fields ''binding'' = Some (binding_json sample_binding)" by (simp add: pulled_fields_def)
  ultimately show ?thesis
    by (simp add: client_pull_def action_simps in_turn_def sample_client_binding) (simp add: sample_process_def sample_turn_world_def action_simps)
qed

lemma sample_client_finish:
  assumes "tw_binding (pw_turn w) = Some sample_binding" "pw_db w = sample_db [claimed_B]"
  shows "client_finish (\<lambda>_. NaN) (\<lambda>_. []) zero_sha 5 sample_sid sample_token (sample_tid CHR ''B'') ''yes'' w =
     (Inr (), w\<lparr>pw_db := sample_db [answered_B]\<rparr>)"
proof -
  let ?body = "[(''protocol'', JNum 1), (''operation'', JStr ''complete''), (''turnId'', JStr (sample_tid CHR ''B'')), (''response'', message_object (''assistant'', ''yes''))]"
  have said: "message_object (''assistant'', ''yes'') = said ''assistant'' ''yes''" by (simp add: message_object_def said_def)
  have keys: "sort (map fst ?body) = sort [''operation'', ''protocol'', ''response'', ''turnId'']" by code_simp
  have "post_conversation (\<lambda>_. []) zero_sha 5 sample_token ?body w = (Inr receipt_fields, w\<lparr>pw_db := sample_db [answered_B]\<rparr>)"
  proof (rule sample_post)
    show "length (utf8 (json_text (\<lambda>_. []) (JObj ?body))) \<le> 1000" "length (utf8 (json_text (\<lambda>_. []) (JObj receipt_fields))) \<le> 1000"
      by code_simp+
    show "dispatchSecretaryConversationRequest zero_sha 5 sample_token ?body (pw_db w) =
        (Inr (TurnCompleted sample_binding (sample_tid CHR ''B'') 1 5), sample_db [answered_B])"
      using keys
      by (simp add: dispatchSecretaryConversationRequest_def assms(2) said action_simps on_conversation_def complete_eval conv_exact_def del: sort_key_simps)
  qed (simp add: receipt_fields_def)
  moreover have "parse_receipt (\<lambda>_. NaN) (\<lambda>_. []) (sample_tid CHR ''B'') (map_of receipt_fields ''turn'') = Inr ()" by code_simp
  moreover have "map_of receipt_fields ''binding'' = Some (binding_json sample_binding)" by (simp add: receipt_fields_def)
  moreover have "isSecretaryTurnId (sample_tid CHR ''B'')" by code_simp
  ultimately show ?thesis
    using assms(1) by (simp add: client_finish_def action_simps in_turn_def sample_client_binding)
qed

lemma sample_round_runs:
  "\<exists>w'. secretary_round (\<lambda>_. NaN) (\<lambda>_. []) (\<lambda>_. []) zero_sha sample_round sample_sid sample_token (sample_process [question_B]) =
     (Inr (Some (sample_tid CHR ''B'', ''yes'')), w')"
proof -
  let ?s = "sample_turn_world\<lparr>tw_binding := Some sample_binding\<rparr>"
  have turn: "round_turn (\<lambda>_. []) (\<lambda>_. []) zero_sha sample_round sample_sid sample_token ms ?s = (Inr ''yes'', ?s\<lparr>tw_rounds := 1\<rparr>)" for ms
    by (simp add: runSecretaryTurn_def MAX_MODEL_ROUNDS_def numeral_eq_Suc sample_round_def action_simps client_complete_def assistant_says_def or_else_def sample_turn_world_def)
  show ?thesis
    using sample_client_pull turn [of "[(''user'', ''hi'')]"]
    by (simp add: secretary_round_def action_simps sample_round_def in_turn_def sample_client_finish)
qed


end
