(* ===== verification/Spec2Isabelle.thy ===== *)
theory Spec2Isabelle
  imports Mind_Service_Correct Worker_Custody Worker_Episode_Correct Worker_Supervisor_Correct Worker_Requests
    Secretary_Turn_Example
begin

text \<open>
  Verification library for the durable core of Elpis.

  Elpis is a long-lived agent. What must survive it is kept in one SQLite database: a graph of work
  items (the Mind), the reminders and timers that wake the agent, and the sessions of the helpers that
  it starts. This library models the code that owns that state, and the protocol by which a helper
  process, which may die at any moment, works for the agent.

  \<^bold>\<open>The program and its parts.\<close>
  \<^item> The Mind (src/src/store/mind.ts, mind-id.ts) holds items with a parent, dependencies, tags, links,
    replies, log entries, reminders and claims. A claim is a lease: one principal works on an item until
    the lease expires. \<open>MindStore\<close> reads and writes the tables; \<open>MindService\<close> adds the scheduler tasks of
    reminders and tells its listeners about changes.
  \<^item> The scheduler (src/src/store/scheduler.ts) keeps the timers in a table and one armed timeout; it
    calls the host for each task that is due and backs off when the host throws.
  \<^item> A worker (src/src/worker/, src/src/kernel/) is a process in a pod that works on one item. The spawn
    broker reserves a session, prepares the source tree, starts the pod and settles the session; the
    mailbox carries messages in both directions; the workspace store keeps the source archive and the
    result; the Mind broker lets the worker see and change only the subtree of its item; the
    completion broker lets it ask the model; the supervisor announces finished workers to the host and
    repeats reconciliation and cleanup. Inside the pod the worker runs an episode: a bounded loop of
    model turns over a journal from which a restarted process resumes.
  \<^item> A secretary (src/src/secretary/) is a process in a pod that answers the questions of a conversation.
    The spawn broker and the supervisor start, close and reconcile its session; the conversation store
    queues one question at a time, hands it over with the transcript and takes the answer; for each
    question the process runs a bounded loop of completions and Mind requests, which the completion
    broker and the Mind broker serve.

  \<^bold>\<open>The theories.\<close>
  \<^item> \<open>Elpis_Prelude\<close>: numbers, strings, tables, exceptions with state, transactions, the two generic
    interfaces \<open>step_system\<close> (reachable states and invariants) and \<open>event_log\<close> (a state that is a fold
    of its records), and the recursive \<open>UNION\<close> query \<open>cte_reach\<close>.
  \<^item> \<open>Mind_Id\<close>: src/src/store/mind-id.ts. \<open>Mind_Types\<close>: enumerations, rows, arguments and validators of
    src/src/store/mind.ts, with the constraints of src/src/store/db.ts. \<open>Mind_Read\<close> and \<open>Mind_Write\<close>: the
    methods of \<open>MindStore\<close>. \<open>Mind_Service\<close>: \<open>MindService\<close>. \<open>Scheduler\<close>: src/src/store/scheduler.ts.
  \<^item> \<open>Mind_Invariant\<close> and \<open>Mind_Preserve\<close>: the integrity of the Mind tables and its preservation by every
    write; \<open>Mind_Correct\<close>, \<open>Mind_Query\<close>, \<open>Mind_Service_Correct\<close>: what the operations promise.
  \<^item> \<open>Worker_Session\<close> (auth.ts, session.ts), \<open>Worker_Mailbox\<close> (mailbox.ts), \<open>Worker_Names\<close> (names.ts),
    \<open>Worker_Workspace\<close> (workspace.ts), \<open>Worker_Spawn\<close> (spawn.ts): the brokers, one record of tables for
    all of them. \<open>Worker_Invariant\<close>, \<open>Worker_Lifecycle\<close>: integrity of these tables under every interleaving.
    \<open>Worker_Correct\<close>, \<open>Worker_Custody\<close>: their promises.
  \<^item> \<open>Json\<close>: \<open>JSON.parse\<close> and string quoting. \<open>Worker_Journal\<close> (kernel/worker-journal.ts),
    \<open>Worker_Episode\<close> (kernel/turn.ts, kernel/worker-episode.ts), \<open>Worker_Episode_Correct\<close>.
  \<^item> \<open>Worker_Mind\<close> (worker/mind.ts, mind-request.ts), \<open>Worker_Requests\<close> (mailbox-request.ts,
    workspace-request.ts, completion.ts), \<open>Worker_Supervisor\<close> and \<open>Worker_Supervisor_Correct\<close>
    (supervisor.ts).
  \<^item> \<open>Secretary_Session\<close> (session.ts, the model references of llm/model-registry.ts, and the constraints and
    triggers of the two tables in store/db.ts), \<open>Secretary_Conversation\<close> (conversation.ts,
    conversation-request.ts), \<open>Secretary_Spawn\<close> (spawn.ts, supervisor.ts). \<open>Secretary_Invariant\<close>,
    \<open>Secretary_Preserve\<close>, \<open>Secretary_History\<close>: integrity of the tables and what a step may do to a row;
    \<open>Secretary_Correct\<close>, \<open>Secretary_Answers\<close>: the promises of the conversation.
  \<^item> \<open>Secretary_Mind\<close> (mind.ts, mind-request.ts), \<open>Secretary_Mind_Correct\<close>, \<open>Secretary_Loop\<close> (loop.ts, the Mind
    request of client.ts and its route in worker/http.ts), \<open>Secretary_Completion\<close> (completion.ts),
    \<open>Secretary_Process\<close> (secretary-main.ts, the conversation requests of client.ts and their route).
    \<open>Secretary_Example\<close> and \<open>Secretary_Turn_Example\<close>: a conversation, a request and a turn step by step.

  \<^bold>\<open>How code becomes definitions.\<close> A method is a function of its arguments and of the state record of
  its object, and returns \<open>Inl\<close> an error or \<open>Inr\<close> a value together with the new state; every throw and
  early return is a branch. A table is the list of its rows in insertion order; a statement that violates
  a constraint throws. The clock of a call is the argument \<open>now\<close>, read once; random values, the
  results of \<open>git\<close>, of the pod runtime, of the model and of the sandbox are arguments, so the theorems
  hold for all of them. SHA-256 is a parameter, and the theorems that need it assume only that a digest
  is 64 hexadecimal digits. An \<open>async\<close> method is cut at each \<open>await\<close>: the pieces are separate
  definitions, and the step relations run them in every order. In \<open>Worker_Episode\<close> the process is the
  sequence of its events; a crash is a prefix of that sequence.

  \<^bold>\<open>What is shown.\<close>
  \<^item> Integrity: every reachable Mind database satisfies its foreign keys, its unique keys and the rules on
    claims, and its two graphs stay acyclic (\<open>mind_inv\<close>, interpretation \<open>mind\<close> of \<open>step_system\<close>; the
    interface \<open>cycle_guard\<close> is shared by parents and dependencies). Reminders and scheduler tasks stay
    linked (\<open>svc_inv\<close>), and the armed timer is never late (\<open>sched_inv\<close>). Worker tables stay
    consistent and within the configured bounds under every interleaving (\<open>spawn_inv\<close>); every artifact
    that a row names is a file with that size and digest (\<open>custody_inv\<close>).
  \<^item> Exclusion and authority: a live claim excludes others; a terminal session stays terminal; the token
    of a finished worker opens nothing; a worker reads and writes only below its own item.
  \<^item> Delivery: mailbox messages arrive in order and once acknowledged are gone; a finished worker is
    announced until the host confirms it and never again; no completion is forgotten across restarts.
  \<^item> Crash safety: reopening the journal gives the state that was written; a tool that may have run is
    not run again; the broker is told one finish however often the process dies.
  \<^item> Conversations: in every reachable state a session has at most one open turn, an ended session has none,
    and every stored turn reads back (\<open>broker_inv\<close>); a question is handed out once, an ended session stays
    ended and its token opens nothing, ending always succeeds, the transcript
    handed over is exact, and an accepted answer is kept as it was sent. A round of the process puts these
    together: the question that waited is answered with the text its turn gave.
  \<^item> A secretary only adds: whatever a request holds, it changes nothing in the Mind but one proposal or comment
    under the secretary's name, and a whole turn adds at most as many as its 16 Mind requests, whatever the
    model answers (\<open>only_adds\<close>; the interface \<open>turn_client\<close> of the loop, interpreted on the client of the
    program). The tree it is shown is exact and closed.
  \<^item> Functional behaviour: claims, listings, readiness, discovery, graph, counts, polling, recurrence,
    idempotent posting, exact uploads, and that a write that throws leaves no trace.

  \<^bold>\<open>Loops and bounds.\<close> The graph walk, the \<open>UNION\<close> queries, the counting pages, the search for a free slug
  and the advance of a recurring task are total functions with a measure. The search for a fresh Mind id
  consumes one of the supplied draws per round and returns \<open>None\<close> when they run out. The scope query of
  worker/mind.ts is \<open>UNION ALL\<close> and would not end on a cyclic graph, so it is a partial function, and it
  is shown to return on every acyclic one. The episode loop is bounded by the configured number of turns,
  the loop of a secretary by 8 rounds, its process by the number of rounds before it is interrupted; the tree query descends at most 16 levels.

  \<^bold>\<open>Not modelled.\<close> Code units above 255, rounding of doubles, logging, the transport of requests over
  HTTP (but for the Mind and conversation requests of a secretary), the texts of the errors of the Mind store,
  the pod runtimes and \<open>git\<close>. Of the rest of Elpis: the context graph (store/context-graph.ts) and the resident context built on it, the agent loop and its prompts, the model clients and the
  gateway, the sandbox, the chat and voice front ends, the console, configuration, the migrations that
  bring an old database to the present schema, and the release tooling. They are large bodies of SQL,
  network and process code, each of which would be a development of its own.
\<close>

end
